(* ===== verification/Infra_Prelude.thy ===== *)
theory Infra_Prelude
  imports Complex_Main "HOL-Library.AList"
begin

text \<open>
  Shared vocabulary of the development: results of fallible Python code, insertion-ordered
  dictionaries, JSON values as they are stored in JSONB columns, and the ASCII text operations of
  Python's \<^verbatim>\<open>str\<close> that the modelled sources use.

  Text is \<^typ>\<open>string\<close>, read as a sequence of ASCII code points; on such text the operations below
  agree with Python's. Identifiers (UUIDs) are their canonical text, points in time are
  microseconds since the epoch.
\<close>

section \<open>Results, identifiers, time\<close>

type_synonym uuid = string
type_synonym timestamp = int

named_theorems status_sets \<open>unfolding of the status classes of jobs and steps\<close>
named_theorems frame \<open>what an operation leaves untouched\<close>

definition is_ok :: "'e + 'a \<Rightarrow> bool" where
  "is_ok r = (case r of Inl _ \<Rightarrow> False | Inr _ \<Rightarrow> True)"

lemma case_error_False: "(case x of Inl _ \<Rightarrow> False | Inr v \<Rightarrow> P v) \<longleftrightarrow> (\<exists>v. x = Inr v \<and> P v)"
  by (cases x) simp_all

lemma is_ok_simps [simp]: "\<not> is_ok (Inl e)" "is_ok (Inr v)"
  by (simp_all add: is_ok_def)

text \<open>Python's \<^verbatim>\<open>x or y\<close> on optional text: \<^verbatim>\<open>None\<close> and the empty string are false.\<close>

definition text_or :: "string option \<Rightarrow> string \<Rightarrow> string" where
  "text_or x y = (case x of None \<Rightarrow> y | Some v \<Rightarrow> if v = [] then y else v)"

definition truthy_text :: "string option \<Rightarrow> bool" where
  "truthy_text x = (case x of None \<Rightarrow> False | Some v \<Rightarrow> v \<noteq> [])"

lemma truthy_text_simps [simp]:
  "\<not> truthy_text None" "truthy_text (Some v) \<longleftrightarrow> v \<noteq> []"
  by (simp_all add: truthy_text_def)

section \<open>Lists\<close>

lemma find_SomeD: "find P xs = Some x \<Longrightarrow> x \<in> set xs \<and> P x"
  by (induction xs) (auto split: if_splits)

lemma find_None_iff_all: "find P xs = None \<longleftrightarrow> (\<forall>x \<in> set xs. \<not> P x)"
  by (induction xs) auto

lemma find_eqI: "find P xs = Some x \<Longrightarrow> (\<And>y. y \<in> set xs \<Longrightarrow> P y = Q y) \<Longrightarrow> find Q xs = Some x"
  by (induction xs) (auto split: if_splits)

lemma find_map: "find P (map f xs) = map_option f (find (P \<circ> f) xs)"
  by (induction xs) auto

lemma sorted_wrt_take: "sorted_wrt R xs \<Longrightarrow> sorted_wrt R (take n xs)"
  by (simp add: sorted_wrt_iff_nth_less)

lemma distinct_map_filter_take: "distinct (map f xs) \<Longrightarrow> distinct (map f (take n (filter P xs)))"
  by (metis distinct_map_filter distinct_take take_map)

section \<open>Insertion-ordered dictionaries and JSON\<close>

text \<open>
  A Python \<^verbatim>\<open>dict\<close> is an association list with distinct keys: lookup is \<^const>\<open>map_of\<close> and assignment
  is \<^const>\<open>AList.update\<close>, which keeps the position of a key already present and appends a new one.
\<close>

type_synonym ('k, 'v) dict = "('k \<times> 'v) list"

datatype json =
    JNull
  | JBool bool
  | JInt int
  | JFloat rat
  | JStr string
  | JList "json list"
  | JObj "(string \<times> json) list"

type_synonym json_dict = "(string, json) dict"

fun truthy :: "json \<Rightarrow> bool" where
  "truthy JNull = False"
| "truthy (JBool b) = b"
| "truthy (JInt i) = (i \<noteq> 0)"
| "truthy (JFloat q) = (q \<noteq> 0)"
| "truthy (JStr s) = (s \<noteq> [])"
| "truthy (JList xs) = (xs \<noteq> [])"
| "truthy (JObj kvs) = (kvs \<noteq> [])"

text \<open>\<^verbatim>\<open>d.get(k)\<close> read as a condition.\<close>

definition dict_truthy :: "json_dict \<Rightarrow> string \<Rightarrow> bool" where
  "dict_truthy d k = (case map_of d k of None \<Rightarrow> False | Some v \<Rightarrow> truthy v)"

text \<open>\<^verbatim>\<open>d.get(k, dflt)\<close>.\<close>

definition dict_get :: "('k, 'v) dict \<Rightarrow> 'k \<Rightarrow> 'v \<Rightarrow> 'v" where
  "dict_get d k dflt = (case map_of d k of None \<Rightarrow> dflt | Some v \<Rightarrow> v)"

lemma dict_get_update [simp]: "dict_get (AList.update a v d) k z = (if k = a then v else dict_get d k z)"
  by (simp add: dict_get_def update_conv')

lemma dict_get_absent: "map_of d k = None \<Longrightarrow> dict_get d k z = z"
  by (simp add: dict_get_def)

text \<open>\<^verbatim>\<open>merged = dict(d); merged.update(e)\<close>, also \<^verbatim>\<open>{**d, **e}\<close>.\<close>

definition dict_update :: "('k, 'v) dict \<Rightarrow> ('k, 'v) dict \<Rightarrow> ('k, 'v) dict" where
  "dict_update d e = fold (\<lambda>(k, v). AList.update k v) e d"

lemma map_of_dict_update_other:
  "k \<notin> fst ` set e \<Longrightarrow> map_of (dict_update d e) k = map_of d k"
  unfolding dict_update_def
  by (induction e arbitrary: d) (auto simp: update_conv')

lemma map_of_dict_update_single [simp]:
  "map_of (dict_update d [(k, v)]) = (map_of d)(k \<mapsto> v)"
  by (simp add: dict_update_def update_conv')

lemma dict_truthy_update_other:
  "k \<notin> fst ` set e \<Longrightarrow> dict_truthy (dict_update d e) k = dict_truthy d k"
  by (simp add: dict_truthy_def map_of_dict_update_other)

lemma distinct_dict_update:
  "distinct (map fst d) \<Longrightarrow> distinct (map fst (dict_update d e))"
  unfolding dict_update_def
  by (induction e arbitrary: d) (auto simp: distinct_update)

section \<open>Python text\<close>

text \<open>Characters \<^verbatim>\<open>str.strip()\<close> removes: the ASCII white space of \<^verbatim>\<open>str.isspace\<close>.\<close>

definition is_space :: "char \<Rightarrow> bool" where
  "is_space c = (let n = (of_char c :: nat) in (9 \<le> n \<and> n \<le> 13) \<or> (28 \<le> n \<and> n \<le> 32))"

definition lstrip_chars :: "(char \<Rightarrow> bool) \<Rightarrow> string \<Rightarrow> string" where
  "lstrip_chars P s = dropWhile P s"

definition rstrip_chars :: "(char \<Rightarrow> bool) \<Rightarrow> string \<Rightarrow> string" where
  "rstrip_chars P s = rev (dropWhile P (rev s))"

definition strip_chars :: "(char \<Rightarrow> bool) \<Rightarrow> string \<Rightarrow> string" where
  "strip_chars P s = rstrip_chars P (lstrip_chars P s)"

abbreviation strip :: "string \<Rightarrow> string" where
  "strip \<equiv> strip_chars is_space"

lemma rstrip_chars_snoc:
  "rstrip_chars P (xs @ [x]) = (if P x then rstrip_chars P xs else xs @ [x])"
  by (simp add: rstrip_chars_def)

lemma rstrip_chars_Nil [simp]: "rstrip_chars P [] = []"
  by (simp add: rstrip_chars_def)

lemma rstrip_chars_idem [simp]: "rstrip_chars P (rstrip_chars P s) = rstrip_chars P s"
  by (simp add: rstrip_chars_def)

lemma rstrip_chars_last: "rstrip_chars P s \<noteq> [] \<Longrightarrow> \<not> P (last (rstrip_chars P s))"
  by (simp add: rstrip_chars_def last_rev hd_dropWhile)

lemma set_rstrip_chars: "set (rstrip_chars P s) \<subseteq> set s"
  unfolding rstrip_chars_def by (auto dest: set_dropWhileD)

lemma set_strip_chars: "set (strip_chars P s) \<subseteq> set s"
  unfolding strip_chars_def lstrip_chars_def
  using set_rstrip_chars by (fastforce dest: set_dropWhileD)

lemma rstrip_chars_split: "\<exists>t. s = rstrip_chars P s @ t \<and> list_all P t"
proof -
  have "rev s = takeWhile P (rev s) @ dropWhile P (rev s)" by simp
  then have "s = rstrip_chars P s @ rev (takeWhile P (rev s))"
    unfolding rstrip_chars_def by (metis rev_append rev_rev_ident)
  moreover have "list_all P (rev (takeWhile P (rev s)))"
    by (auto simp: list_all_iff dest: set_takeWhileD)
  ultimately show ?thesis by blast
qed

definition lower_char :: "char \<Rightarrow> char" where
  "lower_char c = (let n = (of_char c :: nat) in if 65 \<le> n \<and> n \<le> 90 then char_of (n + 32) else c)"

definition upper_char :: "char \<Rightarrow> char" where
  "upper_char c = (let n = (of_char c :: nat) in if 97 \<le> n \<and> n \<le> 122 then char_of (n - 32) else c)"

text \<open>\<^verbatim>\<open>str.lower\<close> and \<^verbatim>\<open>str.casefold\<close> coincide on ASCII text.\<close>

definition lower :: "string \<Rightarrow> string" where
  "lower s = map lower_char s"

abbreviation casefold :: "string \<Rightarrow> string" where
  "casefold \<equiv> lower"

definition upper :: "string \<Rightarrow> string" where
  "upper s = map upper_char s"

lemma of_char_lower_char:
  "(of_char (lower_char c) :: nat) =
     (if 65 \<le> (of_char c :: nat) \<and> (of_char c :: nat) \<le> 90 then of_char c + 32 else of_char c)"
  by (simp add: lower_char_def Let_def of_char_of)

lemma lower_char_other:
  "\<not> (65 \<le> (of_char c :: nat) \<and> (of_char c :: nat) \<le> 90) \<Longrightarrow> lower_char c = c"
  by (auto simp: lower_char_def Let_def)

lemma lower_char_idem [simp]: "lower_char (lower_char c) = lower_char c"
  by (rule lower_char_other) (simp add: of_char_lower_char)

lemma lower_idem [simp]: "lower (lower s) = lower s"
  by (simp add: lower_def)

lemma lower_append [simp]: "lower (s @ t) = lower s @ lower t"
  by (simp add: lower_def)

lemma length_lower [simp]: "length (lower s) = length s"
  by (simp add: lower_def)

lemma lower_Nil_iff [simp]: "lower s = [] \<longleftrightarrow> s = []"
  by (simp add: lower_def)

text \<open>\<^verbatim>\<open>str.startswith\<close>, \<^verbatim>\<open>str.endswith\<close>, \<^verbatim>\<open>x in s\<close>.\<close>

lemma lower_upper_char: "lower_char (upper_char c) = lower_char c"
proof -
  have "(of_char c :: nat) - 32 < 256" using nat_of_char_less_256 [of c] by linarith
  then have "(of_char (char_of (of_char c - 32 :: nat)) :: nat) = of_char c - 32" by simp
  then show ?thesis by (auto simp: lower_char_def upper_char_def Let_def)
qed

lemma lower_upper [simp]: "lower (upper s) = lower s"
  by (simp add: lower_def upper_def lower_upper_char)

fun startswith :: "string \<Rightarrow> string \<Rightarrow> bool" where
  "startswith s [] = True"
| "startswith [] (p # ps) = False"
| "startswith (c # s) (p # ps) = (c = p \<and> startswith s ps)"

lemma startswith_iff: "startswith s p \<longleftrightarrow> (\<exists>t. s = p @ t)"
  by (induction s p rule: startswith.induct) auto

definition endswith :: "string \<Rightarrow> string \<Rightarrow> bool" where
  "endswith s p = startswith (rev s) (rev p)"

lemma endswith_iff: "endswith s p \<longleftrightarrow> (\<exists>t. s = t @ p)"
  unfolding endswith_def startswith_iff by (metis rev_append rev_rev_ident)

fun contains :: "string \<Rightarrow> string \<Rightarrow> bool" where
  "contains [] p = (p = [])"
| "contains (c # s) p = (startswith (c # s) p \<or> contains s p)"

lemma contains_iff: "contains s p \<longleftrightarrow> (\<exists>u v. s = u @ p @ v)"
proof (induction s)
  case Nil
  then show ?case by auto
next
  case (Cons c s)
  show ?case
  proof
    assume "contains (c # s) p"
    then consider t where "c # s = p @ t" | "contains s p"
      by (auto simp: startswith_iff)
    then show "\<exists>u v. c # s = u @ p @ v"
    proof cases
      case 1
      then show ?thesis by (metis append_Nil)
    next
      case 2
      with Cons.IH obtain u v where "s = u @ p @ v" by blast
      then show ?thesis by (metis append_Cons)
    qed
  next
    assume "\<exists>u v. c # s = u @ p @ v"
    then obtain u v where eq: "c # s = u @ p @ v" by blast
    show "contains (c # s) p"
    proof (cases u)
      case Nil
      with eq have "startswith (c # s) p" by (auto simp: startswith_iff)
      then show ?thesis by simp
    next
      case (Cons d u')
      with eq have "s = u' @ p @ v" by simp
      with Cons.IH show ?thesis by auto
    qed
  qed
qed

text \<open>\<^verbatim>\<open>s.split(c)\<close> for a one-character separator, and \<^verbatim>\<open>c.join\<close>.\<close>

fun split_on :: "char \<Rightarrow> string \<Rightarrow> string list" where
  "split_on c [] = [[]]"
| "split_on c (x # xs) =
     (if x = c then [] # split_on c xs
      else (case split_on c xs of [] \<Rightarrow> [[x]] | w # ws \<Rightarrow> (x # w) # ws))"

lemma split_on_not_Nil [simp]: "split_on c s \<noteq> []"
  by (cases s) (auto split: list.splits)

lemma split_on_no_sep: "w \<in> set (split_on c s) \<Longrightarrow> c \<notin> set w"
  by (induction s arbitrary: w) (auto split: if_splits list.splits)

lemma split_on_plain: "c \<notin> set s \<Longrightarrow> split_on c s = [s]"
  by (induction s) auto

lemma split_on_append:
  "c \<notin> set w \<Longrightarrow> split_on c (w @ c # rest) = w # split_on c rest"
  by (induction w) auto

fun join_on :: "string \<Rightarrow> string list \<Rightarrow> string" where
  "join_on sep [] = []"
| "join_on sep [w] = w"
| "join_on sep (w # v # ws) = w @ sep @ join_on sep (v # ws)"

lemma join_split: "join_on [c] (split_on c s) = s"
proof (induction s)
  case Nil
  then show ?case by simp
next
  case (Cons x xs)
  obtain w ws where ws: "split_on c xs = w # ws"
    by (meson split_on_not_Nil list.exhaust)
  show ?case
  proof (cases "x = c")
    case True
    with Cons ws show ?thesis by simp
  next
    case False
    have "join_on [c] ((x # w) # ws) = x # join_on [c] (w # ws)"
      by (cases ws) simp_all
    with False Cons ws show ?thesis by simp
  qed
qed

lemma split_join:
  "ws \<noteq> [] \<Longrightarrow> \<forall>w \<in> set ws. c \<notin> set w \<Longrightarrow> split_on c (join_on [c] ws) = ws"
  by (induction "[c]" ws rule: join_on.induct) (auto simp: split_on_plain split_on_append)

text \<open>\<^verbatim>\<open>s[:n]\<close> and \<^verbatim>\<open>s[-n:]\<close> for a non-negative \<open>n\<close>.\<close>

text \<open>\<^verbatim>\<open>str.splitlines\<close>: every line boundary of the 8-bit range, with CR LF as one boundary.\<close>

definition is_line_break :: "char \<Rightarrow> bool" where
  "is_line_break c = ((of_char c :: nat) \<in> {10, 11, 12, 13, 28, 29, 30, 133})"

fun splitlines_from :: "string \<Rightarrow> string \<Rightarrow> string list" where
  "splitlines_from line [] = (if line = [] then [] else [rev line])"
| "splitlines_from line (c # cs) =
     (if c = CHR 0x0D then
        (case cs of
           [] \<Rightarrow> [rev line]
         | d # ds \<Rightarrow> rev line # (if d = CHR 0x0A then splitlines_from [] ds else splitlines_from [] cs))
      else if is_line_break c then rev line # splitlines_from [] cs
      else splitlines_from (c # line) cs)"

definition splitlines :: "string \<Rightarrow> string list" where
  "splitlines s = splitlines_from [] s"

definition nl :: string where
  "nl = [CHR 0x0A]"

definition squoted :: "string \<Rightarrow> string" where
  "squoted s = [CHR 0x27] @ s @ [CHR 0x27]"

definition last_chars :: "nat \<Rightarrow> string \<Rightarrow> string" where
  "last_chars n s = (if n = 0 then s else drop (length s - n) s)"

lemma length_last_chars: "0 < n \<Longrightarrow> length (last_chars n s) \<le> n"
  by (simp add: last_chars_def)

text \<open>Decimal text of integers (\<^verbatim>\<open>str(n)\<close>).\<close>

fun nat_text :: "nat \<Rightarrow> string" where
  "nat_text n = (if n < 10 then [char_of (48 + n)] else nat_text (n div 10) @ [char_of (48 + n mod 10)])"

declare nat_text.simps [simp del]

definition int_text :: "int \<Rightarrow> string" where
  "int_text i = (if i < 0 then CHR ''-'' # nat_text (nat (- i)) else nat_text (nat i))"

definition is_digit :: "char \<Rightarrow> bool" where
  "is_digit c = (let n = (of_char c :: nat) in 48 \<le> n \<and> n \<le> 57)"

definition is_hex_digit :: "char \<Rightarrow> bool" where
  "is_hex_digit c = (is_digit c \<or> (let n = (of_char c :: nat) in 65 \<le> n \<and> n \<le> 70 \<or> 97 \<le> n \<and> n \<le> 102))"

definition digit_value :: "char \<Rightarrow> nat" where
  "digit_value c = of_char c - 48"

definition nat_of_text :: "string \<Rightarrow> nat" where
  "nat_of_text s = foldl (\<lambda>a c. 10 * a + digit_value c) 0 s"

lemma nat_of_text_snoc [simp]: "nat_of_text (s @ [c]) = 10 * nat_of_text s + digit_value c"
  by (simp add: nat_of_text_def)

lemma digit_value_char_of [simp]: "d < 10 \<Longrightarrow> digit_value (char_of (48 + d)) = d"
  by (simp add: digit_value_def of_char_of)

lemma is_digit_char_of [simp]: "(d::nat) < 10 \<Longrightarrow> is_digit (char_of (48 + d))"
  by (simp add: is_digit_def of_char_of Let_def)

lemma nat_text_digits: "list_all is_digit (nat_text n)"
proof (induction n rule: nat_text.induct)
  case (1 n)
  then show ?case by (cases "n < 10") (simp_all add: nat_text.simps [of n])
qed

lemma nat_text_not_Nil [simp]: "nat_text n \<noteq> []"
  by (subst nat_text.simps) simp

lemma nat_of_text_nat_text [simp]: "nat_of_text (nat_text n) = n"
proof (induction n rule: nat_text.induct)
  case (1 n)
  show ?case
  proof (cases "n < 10")
    case True
    then have "nat_of_text ([] @ [char_of (48 + n)]) = n" by (subst nat_of_text_snoc) (simp add: nat_of_text_def)
    with True show ?thesis by (simp add: nat_text.simps [of n])
  next
    case False
    with 1 show ?thesis by (simp add: nat_text.simps [of n])
  qed
qed

lemma nat_text_inject [simp]: "nat_text m = nat_text n \<longleftrightarrow> m = n"
  by (metis nat_of_text_nat_text)

lemma nat_text_length_1: "length (nat_text n) = 1 \<longleftrightarrow> n < 10"
proof
  assume "length (nat_text n) = 1"
  show "n < 10"
  proof (rule ccontr)
    assume "\<not> n < 10"
    with \<open>length (nat_text n) = 1\<close> show False by (simp add: nat_text.simps [of n])
  qed
qed (simp add: nat_text.simps [of n])

lemma nat_text_leading_zero: "hd (nat_text n) = CHR ''0'' \<longleftrightarrow> n = 0"
proof (induction n rule: nat_text.induct)
  case (1 n)
  show ?case
  proof (cases "n < 10")
    case True
    have "char_of (48 + n) = CHR ''0'' \<longleftrightarrow> n = 0"
    proof
      assume "char_of (48 + n) = CHR ''0''"
      then have "(of_char (char_of (48 + n) :: char) :: nat) = of_char CHR ''0''" by simp
      with True show "n = 0" by (simp add: of_char_of)
    next
      have "char_of (48 :: nat) = CHR ''0''" by code_simp
      then show "n = 0 \<Longrightarrow> char_of (48 + n) = CHR ''0''" by simp
    qed
    with True show ?thesis by (simp add: nat_text.simps [of n])
  next
    case False
    then have "n div 10 \<noteq> 0" by simp
    with False 1 show ?thesis by (simp add: nat_text.simps [of n])
  qed
qed

text \<open>A digit string without superfluous leading zero is the text of its value.\<close>

lemma char_of_digit_value: "is_digit c \<Longrightarrow> char_of (48 + digit_value c) = c"
proof -
  assume "is_digit c"
  then have "48 + digit_value c = of_char c" by (simp add: is_digit_def digit_value_def Let_def)
  then show ?thesis by (metis char_of_char)
qed

lemma digit_value_less: "is_digit c \<Longrightarrow> digit_value c < 10"
  unfolding is_digit_def digit_value_def Let_def by linarith

lemma nat_of_text_pos:
  "s \<noteq> [] \<Longrightarrow> list_all is_digit s \<Longrightarrow> hd s \<noteq> CHR ''0'' \<Longrightarrow> 0 < nat_of_text s"
proof (induction s rule: rev_induct)
  case (snoc c s)
  show ?case
  proof (cases "s = []")
    case True
    with snoc.prems have "is_digit c" "c \<noteq> CHR ''0''" by simp_all
    then have "digit_value c \<noteq> 0"
      using char_of_digit_value [of c] by (metis add_0_right char_of_char of_char_eq_iff
          nat_text_leading_zero nat_text.simps list.sel(1) zero_less_numeral)
    with True show ?thesis using nat_of_text_snoc [of "[]" c] by simp
  next
    case False
    with snoc show ?thesis by simp
  qed
qed simp

lemma nat_text_of_digits:
  "s \<noteq> [] \<Longrightarrow> list_all is_digit s \<Longrightarrow> s = ''0'' \<or> hd s \<noteq> CHR ''0'' \<Longrightarrow> nat_text (nat_of_text s) = s"
proof (induction s rule: rev_induct)
  case (snoc c s)
  then have c: "is_digit c" by simp
  show ?case
  proof (cases "s = []")
    case True
    have "nat_of_text [c] = digit_value c" using nat_of_text_snoc [of "[]" c] by (simp add: nat_of_text_def)
    with True c show ?thesis by (simp add: nat_text.simps digit_value_less char_of_digit_value)
  next
    case False
    with snoc.prems have h: "hd s \<noteq> CHR ''0''" "list_all is_digit s" by auto
    with False snoc.IH have "nat_text (nat_of_text s) = s" by simp
    moreover have "0 < nat_of_text s" using False h by (intro nat_of_text_pos) auto
    ultimately show ?thesis
      using c digit_value_less [OF c] by (subst nat_text.simps) (simp add: char_of_digit_value)
  qed
qed simp

text \<open>Segment boundaries: a text starts with \<open>u\<close> and a separator iff its parts continue those of \<open>u\<close>.\<close>

lemma split_on_mid: "split_on c (u @ c # v) = split_on c u @ split_on c v"
  by (induction u) (auto split: list.splits)

lemma join_on_append:
  "ws \<noteq> [] \<Longrightarrow> vs \<noteq> [] \<Longrightarrow> join_on sep (ws @ vs) = join_on sep ws @ sep @ join_on sep vs"
proof (induction ws)
  case (Cons w ws)
  then show ?case by (cases ws; cases vs) auto
qed simp

lemma startswith_segment_iff: "startswith s (u @ [c]) \<longleftrightarrow> (\<exists>rest. rest \<noteq> [] \<and> split_on c s = split_on c u @ rest)"
proof
  assume "startswith s (u @ [c])"
  then obtain t where "s = u @ c # t" by (auto simp: startswith_iff)
  then show "\<exists>rest. rest \<noteq> [] \<and> split_on c s = split_on c u @ rest" by (auto simp: split_on_mid)
next
  assume "\<exists>rest. rest \<noteq> [] \<and> split_on c s = split_on c u @ rest"
  then obtain rest where "rest \<noteq> []" "split_on c s = split_on c u @ rest" by blast
  then have "s = u @ [c] @ join_on [c] rest"
    using join_split [of c s] join_split [of c u] by (simp add: join_on_append)
  then show "startswith s (u @ [c])" by (auto simp: startswith_iff)
qed

end
