(* ===== verification/Py_Float.thy ===== *)
theory Py_Float
  imports Infra_Prelude "HOL-Library.Log_Nat"
begin

text \<open>
  Python's \<^verbatim>\<open>float\<close> as the rational value it holds, with every inexact operation rounded to the
  nearest IEEE 754 binary64 value, ties to even (\<open>double\<close>). The magnitudes the program computes with
  (counts, percentages, seconds) stay in the normal range, so exponent limits are not modelled.
  The rounding is executable; the lemmas give its relative error and the values it leaves exact.
\<close>

section \<open>Binary exponent and round half to even\<close>

definition bit_length :: "nat \<Rightarrow> nat" where
  "bit_length n = floorlog 2 n"

text \<open>The integer \<open>e\<close> with \<open>2\<^sup>e \<le> x < 2\<^sup>e\<^sup>+\<^sup>1\<close>, for positive \<open>x\<close>.\<close>

definition binary_exponent :: "rat \<Rightarrow> int" where
  "binary_exponent x =
     (let (p, q) = quotient_of x;
          k = int (bit_length (nat p)) - int (bit_length (nat q))
      in if 2 powi k \<le> x then k else k - 1)"

definition round_half_even :: "rat \<Rightarrow> int" where
  "round_half_even y =
     (let n = \<lfloor>y\<rfloor>; f = y - of_int n
      in if f < 1 / 2 then n else if 1 / 2 < f then n + 1 else if even n then n else n + 1)"

definition double_pos :: "rat \<Rightarrow> rat" where
  "double_pos x = (let u = 2 powi (binary_exponent x - 52) in of_int (round_half_even (x / u)) * u)"

definition double :: "rat \<Rightarrow> rat" where
  "double x = (if x = 0 then 0 else if x < 0 then - double_pos (- x) else double_pos x)"

text \<open>\<^verbatim>\<open>int(x)\<close> truncates towards zero; \<^verbatim>\<open>timedelta.total_seconds()\<close> of a microsecond count.\<close>

definition py_int :: "rat \<Rightarrow> int" where
  "py_int x = (if x < 0 then - \<lfloor>- x\<rfloor> else \<lfloor>x\<rfloor>)"

definition total_seconds :: "int \<Rightarrow> rat" where
  "total_seconds us = double (of_int us / 1000000)"

text \<open>
  \<^verbatim>\<open>repr(x)\<close> of a binary64: the shortest decimal significand that reads back as \<open>x\<close> (the nearest one
  first), positional for decimal exponents from -4 to 15 and scientific otherwise.
\<close>

definition decimal_exponent :: "rat \<Rightarrow> int" where
  "decimal_exponent x =
     (let g = binary_exponent x * 30103 div 100000
      in if x < 10 powi g then g - 1 else if 10 powi (g + 1) \<le> x then g + 1 else g)"

definition shortest_digits :: "rat \<Rightarrow> nat \<times> int" where
  "shortest_digits x =
     (let e = decimal_exponent x;
          unit = (\<lambda>k. 10 powi (e + 1 - int k));
          near = (\<lambda>k. let n = nat \<lfloor>x / unit k\<rfloor> in
                     if x / unit k - of_nat n \<le> 1 / 2 then [n, n + 1] else [n + 1, n]);
          ok = (\<lambda>k n. double (of_nat n * unit k) = x)
      in case find (\<lambda>k. list_ex (ok k) (near k)) [1..<18] of
           None \<Rightarrow> (0, 0)
         | Some k \<Rightarrow> (case find (ok k) (near k) of
               None \<Rightarrow> (0, 0) | Some n \<Rightarrow> if n = 10 ^ k then (1, e + 1) else (n, e)))"

definition float_repr :: "rat \<Rightarrow> string" where
  "float_repr q =
     (if q = 0 then ''0.0''
      else let (n, e) = shortest_digits \<bar>q\<bar>; ds = nat_text n; zeros = (\<lambda>k. replicate k (CHR ''0''));
               sign = (if q < 0 then ''-'' else []);
               frac = (\<lambda>s. if s = [] then ''0'' else s)
           in sign @
             (if 0 \<le> e \<and> e < 16 then
                let whole = ds @ zeros (nat (e + 1) - length ds)
                in take (nat (e + 1)) whole @ ''.'' @ frac (drop (nat (e + 1)) whole)
              else if - 4 \<le> e \<and> e < 0 then ''0.'' @ zeros (nat (- e - 1)) @ ds
              else take 1 ds @ (if length ds = 1 then [] else ''.'' @ drop 1 ds) @ ''e''
                   @ (if e < 0 then ''-'' else ''+'')
                   @ (let t = nat_text (nat \<bar>e\<bar>) in zeros (2 - length t) @ t)))"

section \<open>Rounding\<close>

lemma bit_length_bounds: "0 < n \<Longrightarrow> 2 ^ (bit_length n - 1) \<le> n \<and> n < 2 ^ bit_length n \<and> 0 < bit_length n"
  unfolding bit_length_def using floorlog_bounds [of n 2] floorlog_eq_zero_iff [of 2 n] by auto

lemma powi_2_le_iff [simp]: "(2::rat) powi a \<le> 2 powi b \<longleftrightarrow> a \<le> b"
  by (metis linorder_not_le one_less_numeral_iff power_int_increasing power_int_strict_increasing
      order_less_imp_le order_less_irrefl order_less_le_trans semiring_norm(76))

lemma powi_2_less_iff [simp]: "(2::rat) powi a < 2 powi b \<longleftrightarrow> a < b"
  using powi_2_le_iff [of b a] by (simp add: not_le [symmetric] del: powi_2_le_iff)

lemma powi_2_pos [simp]: "0 < (2::rat) powi a"
  by (simp add: zero_less_power_int)

lemma binary_exponent_bounds:
  assumes "0 < x"
  shows "2 powi binary_exponent x \<le> x" and "x < 2 powi (binary_exponent x + 1)"
proof -
  obtain p q where pq: "quotient_of x = (p, q)" by fastforce
  have q: "0 < q" using quotient_of_denom_pos [OF pq] .
  have x: "x = of_int p / of_int q" using quotient_of_div [OF pq] .
  have p: "0 < p" using assms x q by (simp add: zero_less_divide_iff)
  define i j where "i = bit_length (nat p)" and "j = bit_length (nat q)"
  have ib: "2 ^ (i - 1) \<le> nat p" "nat p < 2 ^ i" "0 < i"
    using bit_length_bounds [of "nat p"] p by (auto simp: i_def)
  have jb: "2 ^ (j - 1) \<le> nat q" "nat q < 2 ^ j" "0 < j"
    using bit_length_bounds [of "nat q"] q by (auto simp: j_def)
  have p_lo: "(2::rat) powi (int i - 1) \<le> of_int p"
  proof -
    have "(2::rat) ^ (i - 1) \<le> of_nat (nat p)" using ib(1) by (metis of_nat_le_iff of_nat_numeral of_nat_power)
    then show ?thesis using ib(3) p by (simp add: power_int_def nat_diff_distrib)
  qed
  have p_hi: "of_int p < (2::rat) powi int i"
  proof -
    have "of_nat (nat p) < (2::rat) ^ i" using ib(2) by (metis of_nat_less_iff of_nat_numeral of_nat_power)
    then show ?thesis using p by (simp add: power_int_def)
  qed
  have q_lo: "(2::rat) powi (int j - 1) \<le> of_int q"
  proof -
    have "(2::rat) ^ (j - 1) \<le> of_nat (nat q)" using jb(1) by (metis of_nat_le_iff of_nat_numeral of_nat_power)
    then show ?thesis using jb(3) q by (simp add: power_int_def nat_diff_distrib)
  qed
  have q_hi: "of_int q < (2::rat) powi int j"
  proof -
    have "of_nat (nat q) < (2::rat) ^ j" using jb(2) by (metis of_nat_less_iff of_nat_numeral of_nat_power)
    then show ?thesis using q by (simp add: power_int_def)
  qed
  have lo: "2 powi (int i - int j - 1) \<le> x"
  proof -
    have "(2::rat) powi (int i - int j - 1) * of_int q \<le> 2 powi (int i - int j - 1) * 2 powi int j"
      using q_hi by (intro mult_left_mono) auto
    also have "\<dots> = 2 powi (int i - 1)"
      using power_int_add [of "2::rat" "int i - int j - 1" "int j"] by simp
    also have "\<dots> \<le> of_int p" by (rule p_lo)
    finally show ?thesis using q by (simp add: x field_simps)
  qed
  have hi: "x < 2 powi (int i - int j + 1)"
  proof -
    have "of_int p < (2::rat) powi int i" by (rule p_hi)
    also have "\<dots> = 2 powi (int i - int j + 1) * 2 powi (int j - 1)"
      by (simp add: power_int_add [symmetric])
    also have "\<dots> \<le> 2 powi (int i - int j + 1) * of_int q"
      using q_lo by (intro mult_left_mono) auto
    finally show ?thesis using q by (simp add: x field_simps)
  qed
  have e: "binary_exponent x = (if 2 powi (int i - int j) \<le> x then int i - int j else int i - int j - 1)"
    by (simp add: binary_exponent_def pq i_def j_def)
  show "2 powi binary_exponent x \<le> x" using lo by (simp add: e)
  show "x < 2 powi (binary_exponent x + 1)" using hi by (auto simp: e not_le)
qed

lemma round_half_even_error: "\<bar>of_int (round_half_even y) - y\<bar> \<le> 1 / 2"
proof -
  have "of_int \<lfloor>y\<rfloor> \<le> y" "y < of_int \<lfloor>y\<rfloor> + 1" by linarith+
  then show ?thesis by (auto simp: round_half_even_def Let_def abs_le_iff)
qed

lemma round_half_even_of_int [simp]: "round_half_even (of_int n) = n"
  by (simp add: round_half_even_def)

text \<open>Relative error of one rounding: at most \<open>2\<^sup>-\<^sup>5\<^sup>3\<close>.\<close>

lemma double_error:
  assumes "0 < x"
  shows "\<bar>double x - x\<bar> \<le> x * 2 powi (-53)"
proof -
  define e u where "e = binary_exponent x" and "u = (2::rat) powi (e - 52)"
  have u: "0 < u" by (simp add: u_def)
  have lo: "2 powi e \<le> x" using binary_exponent_bounds(1) [OF assms] by (simp add: e_def)
  have d: "double x = of_int (round_half_even (x / u)) * u"
    using assms by (simp add: double_def double_pos_def u_def e_def Let_def)
  have "\<bar>double x - x\<bar> = \<bar>of_int (round_half_even (x / u)) - x / u\<bar> * u"
  proof -
    have "(of_int (round_half_even (x / u)) - x / u) * u = double x - x"
      using u by (simp add: d left_diff_distrib)
    then show ?thesis using u by (metis abs_mult abs_of_pos)
  qed
  also have "\<dots> \<le> 1 / 2 * u" using round_half_even_error u by (intro mult_right_mono) auto
  also have "\<dots> = 2 powi e * 2 powi (-53)"
  proof -
    have "(2::rat) powi (e - 52) = 2 * 2 powi (e + -53)"
      using power_int_add [of "2::rat" 1 "e + -53"] by simp
    moreover have "(2::rat) powi (e + -53) = 2 powi e * 2 powi (-53)"
      by (rule power_int_add) simp
    ultimately show ?thesis unfolding u_def by linarith
  qed
  also have "\<dots> \<le> x * 2 powi (-53)" using lo by (intro mult_right_mono) auto
  finally show ?thesis .
qed

lemma double_upper: "0 < x \<Longrightarrow> double x \<le> x * (1 + 2 powi (-53))"
  using double_error [of x] unfolding abs_le_iff distrib_left by simp

lemma double_lower: "0 < x \<Longrightarrow> x * (1 - 2 powi (-53)) \<le> double x"
  using double_error [of x] unfolding abs_le_iff right_diff_distrib by simp

lemma double_nonneg: "0 \<le> x \<Longrightarrow> 0 \<le> double x"
proof (cases "x = 0")
  case False
  assume "0 \<le> x"
  with False have x: "0 < x" by simp
  have "(2::rat) powi (-53) \<le> 2 powi 0" by (simp only: powi_2_le_iff)
  then have "0 \<le> x * (1 - 2 powi (-53))" using x by simp
  then show ?thesis using double_lower [OF x] by linarith
qed (simp add: double_def)

lemma double_0 [simp]: "double 0 = 0"
  by (simp add: double_def)

text \<open>Integers below \<open>2\<^sup>5\<^sup>3\<close> are represented exactly.\<close>

lemma double_of_nat:
  assumes "n < 2 ^ 53"
  shows "double (of_nat n) = of_nat n"
proof (cases "n = 0")
  case False
  define x :: rat where "x = of_nat n"
  define e where "e = binary_exponent x"
  have x: "0 < x" using False by (simp add: x_def)
  have "2 powi e \<le> x" using binary_exponent_bounds(1) [OF x] by (simp add: e_def)
  also have "x < 2 powi 53"
  proof -
    have "of_nat n < (of_nat (2 ^ 53) :: rat)" using assms by (simp only: of_nat_less_iff)
    then show ?thesis by (simp add: x_def power_int_def)
  qed
  finally have e53: "e < 53" by (simp only: powi_2_less_iff)
  have "x / 2 powi (e - 52) = of_int (int n * 2 ^ nat (52 - e))"
  proof -
    have "(1::rat) / 2 powi (e - 52) = 2 powi (52 - e)"
      using power_int_minus [of "2::rat" "e - 52"] by (simp add: divide_inverse)
    also have "\<dots> = 2 ^ nat (52 - e)" using e53 by (simp add: power_int_def)
    finally have "x * (1 / 2 powi (e - 52)) = of_nat n * 2 ^ nat (52 - e)" by (simp add: x_def)
    then show ?thesis by simp
  qed
  then have "round_half_even (x / 2 powi (e - 52)) = int n * 2 ^ nat (52 - e)"
    by (simp only: round_half_even_of_int)
  then have "of_int (round_half_even (x / 2 powi (e - 52))) * 2 powi (e - 52) = x"
    using \<open>x / 2 powi (e - 52) = of_int (int n * 2 ^ nat (52 - e))\<close>
    by (metis nonzero_eq_divide_eq powi_2_pos less_irrefl)
  then show ?thesis using x by (simp add: double_def double_pos_def e_def x_def)
qed simp

lemma double_1 [simp]: "double 1 = 1"
  using double_of_nat [of 1] by simp

lemma double_100 [simp]: "double 100 = 100"
  using double_of_nat [of 100] by simp

lemma py_int_of_int [simp]: "py_int (of_int n) = n"
  by (simp add: py_int_def)

lemma py_int_nonneg: "0 \<le> x \<Longrightarrow> py_int x = \<lfloor>x\<rfloor>"
  by (simp add: py_int_def)

end
