(* ===== verification/Metrics.thy ===== *)
theory Metrics
  imports Py_Float "HOL-Library.List_Lexorder" "HOL-Library.Char_ord" "HOL-Library.Product_Lexorder"
begin

text \<open>
  The per-process metrics registry of \<^verbatim>\<open>core/metrics.py\<close>: counters, gauges and the duration
  histogram, with their Prometheus text rendering. The locks only serialise the updates modelled
  here. Bucket bounds are the integers of \<^verbatim>\<open>_DEFAULT_BUCKETS\<close>. The lemmas show what a histogram
  guarantees about its buckets after any sequence of observations.
\<close>

section \<open>Counters and gauges\<close>

type_synonym labels = "(string, string) dict"

definition label_pair :: "string \<times> string \<Rightarrow> string" where
  "label_pair kv = fst kv @ ''='' @ [CHR 0x22] @ snd kv @ [CHR 0x22]"

definition label_key :: "labels \<Rightarrow> string" where
  "label_key labels = join_on '','' (map label_pair (sort labels))"

record Counter =
  counter_name :: string
  counter_documentation :: string
  counter_values :: "(string, rat) dict"

definition inc :: "rat \<Rightarrow> labels \<Rightarrow> Counter \<Rightarrow> Counter" where
  "inc amount labels c =
     (let key = label_key labels
      in c\<lparr>counter_values := AList.update key (double (dict_get (counter_values c) key 0 + amount))
             (counter_values c)\<rparr>)"

definition gauge_set :: "rat \<Rightarrow> labels \<Rightarrow> Counter \<Rightarrow> Counter" where
  "gauge_set value labels g = g\<lparr>counter_values := AList.update (label_key labels) value (counter_values g)\<rparr>"

definition render_values :: "string \<Rightarrow> Counter \<Rightarrow> string list" where
  "render_values kind c =
     [''# HELP '' @ counter_name c @ '' '' @ counter_documentation c,
      ''# TYPE '' @ counter_name c @ '' '' @ kind]
     @ map (\<lambda>(key, value). counter_name c @ (if key \<noteq> [] then ''{'' @ key @ ''}'' else []) @ '' ''
              @ float_repr value) (sort_key fst (counter_values c))"

definition render_counter :: "Counter \<Rightarrow> string list" where
  "render_counter = render_values ''counter''"

definition render_gauge :: "Counter \<Rightarrow> string list" where
  "render_gauge = render_values ''gauge''"

lemma inc_counts:
  "dict_get (counter_values (inc amount labels c)) (label_key labels) 0
     = double (dict_get (counter_values c) (label_key labels) 0 + amount)"
  by (simp add: inc_def Let_def)

lemma inc_other:
  "k \<noteq> label_key labels \<Longrightarrow> dict_get (counter_values (inc amount labels c)) k 0 = dict_get (counter_values c) k 0"
  by (simp add: inc_def Let_def)

section \<open>Histograms\<close>

record Histogram =
  hist_name :: string
  hist_documentation :: string
  hist_buckets :: "int list"
  hist_counts :: "(labels, (int, nat) dict) dict"
  hist_sums :: "(labels, rat) dict"
  hist_totals :: "(labels, nat) dict"

definition DEFAULT_BUCKETS :: "int list" where
  "DEFAULT_BUCKETS = [1, 5, 10, 30, 60, 120, 300, 600, 1800, 3600]"

definition new_histogram :: "string \<Rightarrow> string \<Rightarrow> Histogram" where
  "new_histogram name documentation =
     \<lparr>hist_name = name, hist_documentation = documentation, hist_buckets = DEFAULT_BUCKETS,
      hist_counts = [], hist_sums = [], hist_totals = []\<rparr>"

fun count_bucket :: "rat \<Rightarrow> bool \<Rightarrow> int list \<Rightarrow> (int, nat) dict \<Rightarrow> (int, nat) dict" where
  "count_bucket value seen [] counts = counts"
| "count_bucket value seen (bound # bounds) counts =
     (if value \<le> of_int bound \<and> \<not> seen
      then count_bucket value True bounds (AList.update bound (dict_get counts bound 0 + 1) counts)
      else count_bucket value seen bounds
             (if map_of counts bound = None then AList.update bound 0 counts else counts))"

fun raise_buckets :: "nat \<Rightarrow> int list \<Rightarrow> (int, nat) dict \<Rightarrow> (int, nat) dict" where
  "raise_buckets running [] counts = counts"
| "raise_buckets running (bound # bounds) counts =
     (let running' = (if running < dict_get counts bound 0 then dict_get counts bound 0 else running)
      in raise_buckets running' bounds (AList.update bound running' counts))"

definition observe :: "rat \<Rightarrow> labels \<Rightarrow> Histogram \<Rightarrow> Histogram" where
  "observe value labels h =
     (let key = sort labels;
          counts = dict_get (hist_counts h) key [];
          counts' = raise_buckets 0 (hist_buckets h) (count_bucket value False (hist_buckets h) counts)
      in h\<lparr>hist_counts := AList.update key counts' (hist_counts h),
           hist_sums := AList.update key (double (dict_get (hist_sums h) key 0 + value)) (hist_sums h),
           hist_totals := AList.update key (dict_get (hist_totals h) key 0 + 1) (hist_totals h)\<rparr>)"

fun bucket_lines :: "Histogram \<Rightarrow> labels \<Rightarrow> (int, nat) dict \<Rightarrow> nat \<Rightarrow> int list \<Rightarrow> string list" where
  "bucket_lines h key counts cumulative [] = []"
| "bucket_lines h key counts cumulative (bound # bounds) =
     (let cumulative' = dict_get counts bound cumulative
      in (hist_name h @ ''_bucket{'' @ join_on '','' (map label_pair (key @ [(''le'', int_text bound)])) @ ''} ''
          @ nat_text cumulative') # bucket_lines h key counts cumulative' bounds)"

definition render_histogram :: "Histogram \<Rightarrow> string list" where
  "render_histogram h =
     [''# HELP '' @ hist_name h @ '' '' @ hist_documentation h, ''# TYPE '' @ hist_name h @ '' histogram'']
     @ concat (map (\<lambda>(key, counts).
          let base = join_on '','' (map label_pair key);
              suffix = (if base \<noteq> [] then ''{'' @ base @ ''}'' else []);
              total = nat_text (dict_get (hist_totals h) key 0)
          in bucket_lines h key counts 0 (hist_buckets h)
             @ [hist_name h @ ''_bucket{'' @ join_on '','' (map label_pair (key @ [(''le'', ''+Inf'')]))
                  @ ''} '' @ total,
                hist_name h @ ''_sum'' @ suffix @ '' '' @ float_repr (dict_get (hist_sums h) key 0),
                hist_name h @ ''_count'' @ suffix @ '' '' @ total]) (hist_counts h))"

section \<open>The registry\<close>

record Registry =
  jobs_total :: Counter
  stage_failures_total :: Counter
  vcenter_api_errors_total :: Counter
  guest_op_failures_total :: Counter
  app_install_failures_total :: Counter
  http_requests_total :: Counter
  worker_jobs_in_flight :: Counter
  job_duration_seconds :: Histogram

definition new_counter :: "string \<Rightarrow> string \<Rightarrow> Counter" where
  "new_counter name documentation =
     \<lparr>counter_name = name, counter_documentation = documentation, counter_values = []\<rparr>"

definition fresh_registry :: Registry where
  "fresh_registry =
     \<lparr>jobs_total = new_counter ''infraops_jobs_total'' ''Total number of automation jobs by status.'',
      stage_failures_total = new_counter ''infraops_stage_failures_total'' ''Failed pipeline stages by stage key.'',
      vcenter_api_errors_total =
        new_counter ''infraops_vcenter_api_errors_total'' ''Errors returned by the VMware service layer.'',
      guest_op_failures_total =
        new_counter ''infraops_guest_operation_failures_total'' ''Failed Windows guest operations.'',
      app_install_failures_total =
        new_counter ''infraops_application_install_failures_total'' ''Failed application installations.'',
      http_requests_total = new_counter ''infraops_http_requests_total'' ''HTTP requests processed by the API.'',
      worker_jobs_in_flight =
        new_counter ''infraops_worker_jobs_in_flight'' ''Jobs currently executing in this worker process.'',
      job_duration_seconds =
        new_histogram ''infraops_job_duration_seconds'' ''End-to-end duration of completed provisioning jobs.''\<rparr>"

definition render_metrics :: "Registry \<Rightarrow> string" where
  "render_metrics r =
     join_on [CHR 0x0A]
       (concat (map render_counter [jobs_total r, stage_failures_total r, vcenter_api_errors_total r,
            guest_op_failures_total r, app_install_failures_total r, http_requests_total r])
        @ render_gauge (worker_jobs_in_flight r) @ render_histogram (job_duration_seconds r))
     @ [CHR 0x0A]"

section \<open>What the buckets count\<close>

text \<open>A sequence of observations under one label set, and the number that are at most a bound.\<close>

definition observe_all :: "rat list \<Rightarrow> labels \<Rightarrow> Histogram \<Rightarrow> Histogram" where
  "observe_all vs labels h = fold (\<lambda>v. observe v labels) vs h"

definition at_most :: "int \<Rightarrow> rat list \<Rightarrow> nat" where
  "at_most bound vs = length (filter (\<lambda>v. v \<le> of_int bound) vs)"

definition bucket :: "Histogram \<Rightarrow> labels \<Rightarrow> int \<Rightarrow> nat" where
  "bucket h labels bound = dict_get (dict_get (hist_counts h) (sort labels) []) bound 0"

lemma at_most_mono: "b \<le> c \<Longrightarrow> at_most b vs \<le> at_most c vs"
proof (induction vs)
  case (Cons v vs)
  then have "(of_int b :: rat) \<le> of_int c" by simp
  with Cons show ?case by (simp add: at_most_def)
qed (simp add: at_most_def)

lemma at_most_snoc: "at_most b (vs @ [v]) = at_most b vs + (if v \<le> of_int b then 1 else 0)"
  by (simp add: at_most_def)

lemma count_bucket_le:
  "dict_get (count_bucket x seen bounds counts) b 0
     \<le> dict_get counts b 0 + (if \<not> seen \<and> b \<in> set bounds \<and> x \<le> of_int b then 1 else 0)"
proof (induction x seen bounds counts rule: count_bucket.induct)
  case (2 x seen bound bounds counts)
  show ?case
  proof (cases "x \<le> of_int bound \<and> \<not> seen")
    case True
    then show ?thesis using "2.IH"(1) [OF True] by (cases "b = bound") simp_all
  next
    case False
    then show ?thesis using "2.IH"(2) [OF False]
      by (cases "b = bound") (auto simp: dict_get_absent split: if_splits)
  qed
qed simp

lemma raise_buckets_le:
  assumes "sorted bounds" "mono f" "\<And>b. dict_get counts b 0 \<le> f b" "\<And>b. b \<in> set bounds \<Longrightarrow> running \<le> f b"
  shows "dict_get (raise_buckets running bounds counts) b 0 \<le> f b"
  using assms
proof (induction running bounds counts rule: raise_buckets.induct)
  case (2 running bound bounds counts)
  define r where "r = (if running < dict_get counts bound 0 then dict_get counts bound 0 else running)"
  have r: "r \<le> f bound" using "2.prems"(3) [of bound] "2.prems"(4) [of bound] by (simp add: r_def)
  have up: "r \<le> f b'" if "b' \<in> set bounds" for b'
    using that r "2.prems"(1) monoD [OF "2.prems"(2), of bound b'] by auto
  have "dict_get (raise_buckets r bounds (AList.update bound r counts)) b 0 \<le> f b"
    using "2.prems" r up unfolding r_def
    by (intro "2.IH") auto
  then show ?case by (simp add: r_def Let_def)
qed simp

lemma bucket_observe_all_le:
  assumes "sorted (hist_buckets h)" and "hist_counts h = []"
  shows "bucket (observe_all vs labels h) labels b \<le> at_most b vs
    \<and> hist_buckets (observe_all vs labels h) = hist_buckets h"
proof (induction vs arbitrary: b rule: rev_induct)
  case Nil
  then show ?case using assms by (simp add: observe_all_def bucket_def dict_get_def)
next
  case (snoc v vs)
  let ?h = "observe_all vs labels h"
  let ?c = "dict_get (hist_counts ?h) (sort labels) []"
  let ?c' = "count_bucket v False (hist_buckets h) ?c"
  have eq: "observe_all (vs @ [v]) labels h = observe v labels ?h" by (simp add: observe_all_def)
  have hb: "hist_buckets ?h = hist_buckets h" using snoc.IH by simp
  have "dict_get ?c' b 0 \<le> at_most b (vs @ [v])" for b
    using count_bucket_le [of v False "hist_buckets h" ?c b] snoc.IH [of b]
    by (auto simp: bucket_def at_most_snoc split: if_splits)
  then have "dict_get (raise_buckets 0 (hist_buckets h) ?c') b 0 \<le> at_most b (vs @ [v])" for b
    using assms(1) by (intro raise_buckets_le) (auto intro: monoI at_most_mono)
  then show ?case
    unfolding eq by (simp add: observe_def Let_def bucket_def hb)
qed

lemma total_observe_all:
  "dict_get (hist_totals (observe_all vs labels h)) (sort labels) 0
     = dict_get (hist_totals h) (sort labels) 0 + length vs"
  unfolding observe_all_def
  by (induction vs arbitrary: h) (auto simp: observe_def Let_def)

section \<open>Properties\<close>

text \<open>
  However many observations a histogram receives under one label set, no bucket ever reports more than
  the observations that are at most its bound, and the total is exactly their number.
\<close>

theorem histogram_never_overcounts:
  "let h = observe_all vs labels (new_histogram name documentation)
   in bucket h labels b \<le> at_most b vs \<and> dict_get (hist_totals h) (sort labels) 0 = length vs"
proof -
  have "sorted DEFAULT_BUCKETS" by (simp add: DEFAULT_BUCKETS_def)
  then show ?thesis
    using bucket_observe_all_le [of "new_histogram name documentation" vs labels b]
      total_observe_all [of vs labels "new_histogram name documentation"]
    by (simp add: new_histogram_def Let_def dict_get_def)
qed

text \<open>
  Known defect: the buckets are not cumulative. Observing 1/2, 7 and 1/2 seconds leaves the bucket of 10
  seconds at 2, although all three observations are at most 10 and the total is 3.
\<close>

theorem histogram_bucket_undercounts:
  "let h = observe_all [1/2, 7, 1/2] [] (new_histogram name documentation)
   in bucket h [] 10 = 2 \<and> at_most 10 [1/2, 7, 1/2] = 3 \<and> dict_get (hist_totals h) [] 0 = 3"
proof -
  let ?h = "new_histogram name documentation"
  have step: "dict_get (hist_counts (observe v [] h)) [] [] =
      raise_buckets 0 (hist_buckets h) (count_bucket v False (hist_buckets h) (dict_get (hist_counts h) [] []))"
    "hist_buckets (observe v [] h) = hist_buckets h" for v h
    by (simp_all add: observe_def Let_def)
  have start: "dict_get (hist_counts ?h) [] [] = []" "hist_buckets ?h = DEFAULT_BUCKETS"
    by (simp_all add: new_histogram_def dict_get_def)
  have one: "raise_buckets 0 DEFAULT_BUCKETS (count_bucket (1/2) False DEFAULT_BUCKETS [])
      = map (\<lambda>b. (b, 1)) DEFAULT_BUCKETS"
    by (simp add: DEFAULT_BUCKETS_def dict_get_def)
  have two: "raise_buckets 0 DEFAULT_BUCKETS (count_bucket 7 False DEFAULT_BUCKETS (map (\<lambda>b. (b, 1)) DEFAULT_BUCKETS))
      = [(1, 1), (5, 1), (10, 2), (30, 2), (60, 2), (120, 2), (300, 2), (600, 2), (1800, 2), (3600, 2)]"
    by (simp add: DEFAULT_BUCKETS_def dict_get_def)
  have three: "dict_get (raise_buckets 0 DEFAULT_BUCKETS (count_bucket (1/2) False DEFAULT_BUCKETS
      [(1, 1), (5, 1), (10, 2), (30, 2), (60, 2), (120, 2), (300, 2), (600, 2), (1800, 2), (3600, 2)])) 10 0 = 2"
    by (simp add: DEFAULT_BUCKETS_def dict_get_def)
  have "bucket (observe_all [1/2, 7, 1/2] [] ?h) [] 10 = 2"
    by (simp only: bucket_def observe_all_def fold_simps sort_key_simps(1) step start one two three)
  moreover have "at_most 10 [1/2, 7, 1/2] = 3" by (simp add: at_most_def)
  moreover have "dict_get (hist_totals (observe_all [1/2, 7, 1/2] [] ?h)) [] 0 = 3"
    using total_observe_all [of "[1/2, 7, 1/2]" "[]" ?h] by (simp add: new_histogram_def dict_get_def)
  ultimately show ?thesis by (simp only: Let_def simp_thms)
qed

end
