(* ===== verification/Job_Model.thy ===== *)
theory Job_Model
  imports Infra_Prelude Py_Float
begin

text \<open>
  The persistent job model of \<^verbatim>\<open>models/jobs.py\<close> (job, step and request rows with their status
  enumerations) and the ordered stage registry of \<^verbatim>\<open>workers/state_machine.py\<close>. A job row carries its
  step rows and the stored request payload, as the ORM relationships do. Foreign keys and column
  widths are database matters and are left out; the partial unique indexes are in the repository.
\<close>

section \<open>Status enumerations\<close>

datatype JobStatus =
    J_QUEUED | J_RUNNING | J_COMPLETED | J_PARTIALLY_COMPLETED | J_FAILED | J_CANCELLED | J_INTERRUPTED

datatype StepStatus =
    S_PENDING | S_RUNNING | S_SUCCEEDED | S_FAILED | S_SKIPPED | S_WARNING | S_NOT_APPLICABLE | S_CANCELLED

datatype InfrastructureStatus = IS_PENDING | IS_CREATING | IS_READY | IS_FAILED

datatype GuestOsStatus =
    GO_UNKNOWN | GO_NOT_PRESENT | GO_INSTALLATION_REQUIRED | GO_INSTALLATION_IN_PROGRESS | GO_READY
  | GO_ERROR

datatype VMwareToolsStatus =
    VT_UNKNOWN | VT_NOT_APPLICABLE_YET | VT_NOT_INSTALLED | VT_INSTALLING | VT_RUNNING | VT_NOT_RUNNING
  | VT_OUTDATED | VT_ERROR

datatype GuestProvisioningStatus =
    GP_PENDING | GP_WAITING_FOR_OS | GP_WAITING_FOR_TOOLS | GP_IN_PROGRESS | GP_COMPLETED
  | GP_NOT_REQUESTED | GP_FAILED

fun job_status_value :: "JobStatus \<Rightarrow> string" where
  "job_status_value J_QUEUED = ''QUEUED''"
| "job_status_value J_RUNNING = ''RUNNING''"
| "job_status_value J_COMPLETED = ''COMPLETED''"
| "job_status_value J_PARTIALLY_COMPLETED = ''PARTIALLY_COMPLETED''"
| "job_status_value J_FAILED = ''FAILED''"
| "job_status_value J_CANCELLED = ''CANCELLED''"
| "job_status_value J_INTERRUPTED = ''INTERRUPTED''"

fun step_status_value :: "StepStatus \<Rightarrow> string" where
  "step_status_value S_PENDING = ''PENDING''"
| "step_status_value S_RUNNING = ''RUNNING''"
| "step_status_value S_SUCCEEDED = ''SUCCEEDED''"
| "step_status_value S_FAILED = ''FAILED''"
| "step_status_value S_SKIPPED = ''SKIPPED''"
| "step_status_value S_WARNING = ''WARNING''"
| "step_status_value S_NOT_APPLICABLE = ''NOT_APPLICABLE''"
| "step_status_value S_CANCELLED = ''CANCELLED''"

definition TERMINAL_JOB_STATUSES :: "JobStatus set" where
  "TERMINAL_JOB_STATUSES = {J_COMPLETED, J_PARTIALLY_COMPLETED, J_FAILED, J_CANCELLED}"

definition ACTIVE_JOB_STATUSES :: "JobStatus list" where
  "ACTIVE_JOB_STATUSES = [J_QUEUED, J_RUNNING, J_INTERRUPTED]"

definition IP_RESERVING_JOB_STATUSES :: "JobStatus list" where
  "IP_RESERVING_JOB_STATUSES = ACTIVE_JOB_STATUSES"

declare TERMINAL_JOB_STATUSES_def [status_sets] ACTIVE_JOB_STATUSES_def [status_sets]
  IP_RESERVING_JOB_STATUSES_def [status_sets]

lemma terminal_or_active: "s \<in> TERMINAL_JOB_STATUSES \<longleftrightarrow> s \<notin> set ACTIVE_JOB_STATUSES"
  by (cases s) (simp_all add: status_sets)

section \<open>Rows\<close>

record ProvisioningJobStep =
  stage_key :: string
  step_name :: string
  sequence :: nat
  step_status :: StepStatus
  attempt :: nat
  max_attempts :: nat
  step_retryable :: bool
  step_started_at :: "timestamp option"
  step_finished_at :: "timestamp option"
  step_output :: "string option"
  error_human :: "string option"
  error_technical :: "string option"
  artifacts :: json_dict

record ProvisioningJob =
  job_id :: uuid
  job_status :: JobStatus
  job_vm_name :: string
  job_datacenter_id :: "string option"
  job_datacenter_name :: "string option"
  requested_by_user_id :: "uuid option"
  current_stage :: "string option"
  progress :: int
  infrastructure_status :: InfrastructureStatus
  guest_os_status :: GuestOsStatus
  vmware_tools_status :: VMwareToolsStatus
  guest_provisioning_status :: GuestProvisioningStatus
  error_summary :: "string option"
  error_detail :: "string option"
  cancel_requested :: bool
  queued_at :: timestamp
  started_at :: "timestamp option"
  finished_at :: "timestamp option"
  duration_seconds :: "rat option"
  idempotency_key :: "string option"
  job_fingerprint :: "string option"
  reserved_ipv4 :: "string option"
  worker_id :: "string option"
  heartbeat_at :: "timestamp option"
  updated_at :: timestamp
  steps :: "ProvisioningJobStep list"
  request_payload :: "json option"

text \<open>A fresh row with the column defaults of \<^verbatim>\<open>ProvisioningJob\<close>.\<close>

definition new_job_row :: "uuid \<Rightarrow> string \<Rightarrow> timestamp \<Rightarrow> ProvisioningJob" where
  "new_job_row jid name now =
     \<lparr>job_id = jid, job_status = J_QUEUED, job_vm_name = name, job_datacenter_id = None,
      job_datacenter_name = None, requested_by_user_id = None, current_stage = None, progress = 0,
      infrastructure_status = IS_PENDING, guest_os_status = GO_UNKNOWN,
      vmware_tools_status = VT_UNKNOWN, guest_provisioning_status = GP_PENDING,
      error_summary = None, error_detail = None, cancel_requested = False, queued_at = now,
      started_at = None, finished_at = None, duration_seconds = None, idempotency_key = None,
      job_fingerprint = None, reserved_ipv4 = None, worker_id = None, heartbeat_at = None,
      updated_at = now, steps = [], request_payload = None\<rparr>"

text \<open>A fresh step row, as \<^verbatim>\<open>ensure_steps\<close> creates it.\<close>

definition new_step_row :: "string \<Rightarrow> string \<Rightarrow> nat \<Rightarrow> bool \<Rightarrow> ProvisioningJobStep" where
  "new_step_row key name sq retryable =
     \<lparr>stage_key = key, step_name = name, sequence = sq, step_status = S_PENDING, attempt = 0,
      max_attempts = 3, step_retryable = retryable, step_started_at = None, step_finished_at = None,
      step_output = None, error_human = None, error_technical = None, artifacts = []\<rparr>"

text \<open>
  \<^verbatim>\<open>{step.stage_key: step for step in job.steps}\<close>: lookup by stage key. Keys are unique within a job
  (constraint \<^verbatim>\<open>uq_job_step_stage\<close>), and an update of the row found is an update of the step list.
\<close>

definition step_of :: "string \<Rightarrow> ProvisioningJob \<Rightarrow> ProvisioningJobStep option" where
  "step_of key j = find (\<lambda>s. stage_key s = key) (steps j)"

definition update_step ::
  "string \<Rightarrow> (ProvisioningJobStep \<Rightarrow> ProvisioningJobStep) \<Rightarrow> ProvisioningJob \<Rightarrow> ProvisioningJob" where
  "update_step key f j = j\<lparr>steps := map (\<lambda>s. if stage_key s = key then f s else s) (steps j)\<rparr>"

definition status_of :: "string \<Rightarrow> ProvisioningJob \<Rightarrow> StepStatus option" where
  "status_of key j = map_option step_status (step_of key j)"

lemma step_of_update_other [simp]:
  "key' \<noteq> key \<Longrightarrow> (\<And>s. stage_key (f s) = stage_key s) \<Longrightarrow> step_of key' (update_step key f j) = step_of key' j"
proof -
  assume ne: "key' \<noteq> key" and k: "\<And>s. stage_key (f s) = stage_key s"
  have "find (\<lambda>s. stage_key s = key') (map (\<lambda>s. if stage_key s = key then f s else s) xs)
      = find (\<lambda>s. stage_key s = key') xs" for xs
    using ne by (induction xs) (auto simp: k)
  then show ?thesis by (simp add: step_of_def update_step_def)
qed

lemma step_of_update_same [simp]:
  "(\<And>s. stage_key (f s) = stage_key s) \<Longrightarrow> step_of key (update_step key f j) = map_option f (step_of key j)"
proof -
  assume k: "\<And>s. stage_key (f s) = stage_key s"
  have "find (\<lambda>s. stage_key s = key) (map (\<lambda>s. if stage_key s = key then f s else s) xs)
      = map_option f (find (\<lambda>s. stage_key s = key) xs)" for xs
    by (induction xs) (auto simp: k)
  then show ?thesis by (simp add: step_of_def update_step_def)
qed

lemma steps_update_step:
  "steps (update_step key f j) = map (\<lambda>s. if stage_key s = key then f s else s) (steps j)"
  by (simp add: update_step_def)

lemma step_of_SomeD: "step_of key j = Some s \<Longrightarrow> s \<in> set (steps j) \<and> stage_key s = key"
  by (auto simp: step_of_def dest: find_SomeD)

lemma step_of_cong: "steps j = steps j' \<Longrightarrow> step_of key j = step_of key j'"
  by (simp add: step_of_def)

lemma update_step_fields [simp, frame]:
  "job_id (update_step key f j) = job_id j"
  "job_status (update_step key f j) = job_status j"
  "job_vm_name (update_step key f j) = job_vm_name j"
  "started_at (update_step key f j) = started_at j"
  "worker_id (update_step key f j) = worker_id j"
  "cancel_requested (update_step key f j) = cancel_requested j"
  "reserved_ipv4 (update_step key f j) = reserved_ipv4 j"
  "requested_by_user_id (update_step key f j) = requested_by_user_id j"
  "progress (update_step key f j) = progress j"
  by (simp_all add: update_step_def)

section \<open>The stage registry\<close>

record StageDefinition =
  sd_key :: string
  sd_name :: string
  sd_retryable :: bool
  sd_destructive :: bool

definition stage :: "string \<Rightarrow> string \<Rightarrow> StageDefinition" where
  "stage key name = \<lparr>sd_key = key, sd_name = name, sd_retryable = True, sd_destructive = False\<rparr>"

definition ORDERED_STAGES :: "StageDefinition list" where
  "ORDERED_STAGES = [
     stage ''validate_request'' ''Validate request'',
     stage ''connect_vcenter'' ''Connect to vCenter'',
     stage ''validate_infrastructure'' ''Validate infrastructure configuration'',
     (stage ''create_vm'' ''Create virtual machine'')\<lparr>sd_destructive := True\<rparr>,
     stage ''configure_hardware'' ''Configure hardware'',
     stage ''attach_network_adapter'' ''Attach network adapter'',
     stage ''prepare_unattended_install'' ''Prepare unattended Windows installation'',
     stage ''power_on'' ''Power on and start Windows Setup'',
     stage ''wait_for_guest_os'' ''Install Windows'',
     stage ''wait_for_tools'' ''Verify VMware Tools'',
     stage ''cleanup_unattended_media'' ''Remove installation media'',
     (stage ''add_data_disks'' ''Add data disks'')\<lparr>sd_destructive := True\<rparr>,
     stage ''initialize_data_disks'' ''Initialize data disks'',
     stage ''configure_guest_network'' ''Configure guest network'',
     stage ''validate_network'' ''Validate network connectivity'',
     stage ''configure_hostname'' ''Configure hostname'',
     stage ''join_domain'' ''Join domain'',
     stage ''reboot_guest'' ''Reboot guest'',
     stage ''wait_guest_ready'' ''Wait for guest availability'',
     stage ''install_root_certificates'' ''Install trusted root certificates'',
     stage ''install_intermediate_certificates'' ''Install intermediate certificates'',
     stage ''validate_certificates'' ''Verify certificates'',
     stage ''resolve_dependencies'' ''Resolve application dependencies'',
     stage ''install_applications'' ''Install applications'',
     stage ''validate_applications'' ''Validate application installations'',
     stage ''final_validation'' ''Final validation'']"

definition STAGES_BY_KEY :: "string \<Rightarrow> StageDefinition option" where
  "STAGES_BY_KEY = map_of (map (\<lambda>s. (sd_key s, s)) ORDERED_STAGES)"

definition CONSOLE_STAGES :: "string set" where
  "CONSOLE_STAGES = {''power_on'', ''wait_for_guest_os'', ''wait_for_tools''}"

definition DEFAULT_STAGE_TIMEOUTS :: "(string, int) dict" where
  "DEFAULT_STAGE_TIMEOUTS = [
     (''validate_request'', 60),
     (''connect_vcenter'', 120),
     (''validate_infrastructure'', 300),
     (''create_vm'', 1800),
     (''configure_hardware'', 600),
     (''attach_network_adapter'', 600),
     (''prepare_unattended_install'', 600),
     (''power_on'', 600),
     (''wait_for_guest_os'', 21600),
     (''wait_for_tools'', 900),
     (''cleanup_unattended_media'', 1800),
     (''add_data_disks'', 600),
     (''initialize_data_disks'', 600),
     (''configure_guest_network'', 300),
     (''validate_network'', 300),
     (''configure_hostname'', 300),
     (''join_domain'', 600),
     (''reboot_guest'', 600),
     (''wait_guest_ready'', 600),
     (''install_root_certificates'', 600),
     (''install_intermediate_certificates'', 600),
     (''validate_certificates'', 300),
     (''resolve_dependencies'', 120),
     (''install_applications'', 3600),
     (''validate_applications'', 600),
     (''final_validation'', 600)]"

definition stage_definitions :: "(string \<times> string \<times> bool) list" where
  "stage_definitions = map (\<lambda>s. (sd_key s, sd_name s, sd_retryable s)) ORDERED_STAGES"

fun stage_index_from :: "int \<Rightarrow> StageDefinition list \<Rightarrow> string \<Rightarrow> int" where
  "stage_index_from i [] key = - 1"
| "stage_index_from i (s # ss) key = (if sd_key s = key then i else stage_index_from (i + 1) ss key)"

definition stage_index :: "string \<Rightarrow> int" where
  "stage_index key = stage_index_from 0 ORDERED_STAGES key"

definition is_destructive :: "string \<Rightarrow> bool" where
  "is_destructive key = sd_destructive (case STAGES_BY_KEY key of None \<Rightarrow> stage key key | Some s \<Rightarrow> s)"

definition stage_timeout :: "string \<Rightarrow> (string, int) dict option \<Rightarrow> int" where
  "stage_timeout key timeouts_override =
     (case timeouts_override of
        None \<Rightarrow> (case map_of DEFAULT_STAGE_TIMEOUTS key of None \<Rightarrow> 600 | Some t \<Rightarrow> t)
      | Some ov \<Rightarrow>
          (case map_of ov key of
             Some t \<Rightarrow> t
           | None \<Rightarrow> (case map_of DEFAULT_STAGE_TIMEOUTS key of None \<Rightarrow> 600 | Some t \<Rightarrow> t)))"

abbreviation stage_keys :: "string list" where
  "stage_keys \<equiv> map sd_key ORDERED_STAGES"

lemma distinct_stage_keys: "distinct stage_keys"
  unfolding ORDERED_STAGES_def stage_def by code_simp

lemma length_ORDERED_STAGES: "length ORDERED_STAGES = 26"
  by (simp add: ORDERED_STAGES_def)

lemma stages_retryable: "s \<in> set ORDERED_STAGES \<Longrightarrow> sd_retryable s"
  by (auto simp: ORDERED_STAGES_def stage_def)

lemma timeout_keys: "map fst DEFAULT_STAGE_TIMEOUTS = stage_keys"
  by (simp add: DEFAULT_STAGE_TIMEOUTS_def ORDERED_STAGES_def stage_def)

lemma final_stage: "last ORDERED_STAGES = stage ''final_validation'' ''Final validation''"
  by (simp add: ORDERED_STAGES_def)

lemma STAGES_BY_KEY_eq:
  "s \<in> set ORDERED_STAGES \<Longrightarrow> STAGES_BY_KEY (sd_key s) = Some s"
  unfolding STAGES_BY_KEY_def using distinct_stage_keys
  by (intro map_of_is_SomeI) (auto simp: comp_def image_iff)

lemma STAGES_BY_KEY_SomeD: "STAGES_BY_KEY key = Some s \<Longrightarrow> s \<in> set ORDERED_STAGES \<and> sd_key s = key"
  unfolding STAGES_BY_KEY_def by (auto dest: map_of_SomeD)

lemma stage_index_from_bound:
  "key \<in> sd_key ` set ss \<Longrightarrow> i \<le> stage_index_from i ss key \<and> stage_index_from i ss key < i + int (length ss)
     \<and> sd_key (ss ! nat (stage_index_from i ss key - i)) = key"
proof (induction ss arbitrary: i)
  case (Cons s ss)
  show ?case
  proof (cases "sd_key s = key")
    case False
    with Cons.prems have "key \<in> sd_key ` set ss" by auto
    note IH = Cons.IH [OF this, of "i + 1"]
    then have "nat (stage_index_from (i + 1) ss key - i) = Suc (nat (stage_index_from (i + 1) ss key - (i + 1)))"
      by linarith
    with IH False show ?thesis by auto
  qed simp
qed simp

lemma stage_index_from_absent: "key \<notin> sd_key ` set ss \<Longrightarrow> stage_index_from i ss key = - 1"
  by (induction ss arbitrary: i) auto

end
