(* ===== verification/Settings_Store.thy ===== *)
theory Settings_Store
  imports Py_Float Job_Model
begin

text \<open>
  The administrator-editable settings of \<^verbatim>\<open>services/settings_store.py\<close> and the stage timeouts read from
  them (\<^verbatim>\<open>effective_timeout_seconds\<close> of \<^verbatim>\<open>workers/stages.py\<close>). The settings table is an association
  list from keys to JSON values in row order; a failing query is \<^term>\<open>None\<close> where the code guards it.
\<close>

section \<open>The store\<close>

definition SETTING_DEFAULTS :: json_dict where
  "SETTING_DEFAULTS = [(''vm_name_policy_regex'', JStr []), (''allowed_installer_roots'', JList []),
     (''default_timeouts'', JObj []), (''environment_label'', JStr ''INTERNAL''),
     (''preferred_datastores'', JList [])]"

definition KNOWN_KEYS :: "string set" where
  "KNOWN_KEYS = fst ` set SETTING_DEFAULTS"

definition load_platform_settings :: "json_dict \<Rightarrow> json_dict" where
  "load_platform_settings stored =
     fold (\<lambda>(key, v) effective. if key \<in> KNOWN_KEYS \<and> v \<noteq> JNull then AList.update key v effective
                                else effective) stored SETTING_DEFAULTS"

definition save_platform_setting :: "string \<Rightarrow> json \<Rightarrow> json_dict \<Rightarrow> json_dict" where
  "save_platform_setting key v stored = AList.update key (JObj [(''value'', v)]) stored"

definition read_stored_value :: "json \<Rightarrow> json" where
  "read_stored_value raw =
     (case raw of JObj kvs \<Rightarrow> (case map_of kvs ''value'' of None \<Rightarrow> raw | Some v \<Rightarrow> v) | _ \<Rightarrow> raw)"

definition load_effective :: "json_dict \<Rightarrow> json_dict" where
  "load_effective stored = map (\<lambda>(key, v). (key, read_stored_value v)) (load_platform_settings stored)"

section \<open>Python's int\<close>

text \<open>Digits with single underscores between them.\<close>

fun int_digits :: "bool \<Rightarrow> string \<Rightarrow> string option" where
  "int_digits after_digit [] = (if after_digit then Some [] else None)"
| "int_digits after_digit (c # cs) =
     (if is_digit c then map_option ((#) c) (int_digits True cs)
      else if c = CHR ''_'' \<and> after_digit then int_digits False cs
      else None)"

definition int_of_text :: "string \<Rightarrow> int option" where
  "int_of_text s =
     (case strip s of
        [] \<Rightarrow> None
      | c # cs \<Rightarrow>
          if c = CHR ''-'' then map_option (\<lambda>d. - int (nat_of_text d)) (int_digits False cs)
          else if c = CHR ''+'' then map_option (\<lambda>d. int (nat_of_text d)) (int_digits False cs)
          else map_option (\<lambda>d. int (nat_of_text d)) (int_digits False (c # cs)))"

lemma int_digits_plain: "list_all is_digit ds \<Longrightarrow> after \<or> ds \<noteq> [] \<Longrightarrow> int_digits after ds = Some ds"
  by (induction ds arbitrary: after) auto

lemma strip_no_space: "list_all (\<lambda>c. \<not> is_space c) s \<Longrightarrow> strip s = s"
proof -
  assume "list_all (\<lambda>c. \<not> is_space c) s"
  then have "dropWhile is_space s = s" "dropWhile is_space (rev s) = rev s"
    by (auto simp: list_all_iff dropWhile_eq_self_iff intro!: hd_in_set [of "rev s", simplified set_rev])
  then show ?thesis by (simp add: strip_chars_def lstrip_chars_def rstrip_chars_def)
qed

lemma int_of_nat_text: "int_of_text (nat_text n) = Some (int n)"
proof -
  have d: "list_all is_digit (nat_text n)" by (rule nat_text_digits)
  then have "strip (nat_text n) = nat_text n"
    by (intro strip_no_space) (auto simp: list_all_iff is_digit_def is_space_def Let_def dest!: bspec)
  moreover have "int_digits False (nat_text n) = Some (nat_text n)" by (rule int_digits_plain [OF d]) simp
  moreover obtain c cs where "nat_text n = c # cs" by (cases "nat_text n") auto
  moreover have "c \<noteq> CHR ''-''" "c \<noteq> CHR ''+''" if "nat_text n = c # cs" for c cs
    using d that by (auto simp: is_digit_def)
  ultimately show ?thesis using nat_of_text_nat_text [of n] by (simp add: int_of_text_def)
qed

text \<open>\<^verbatim>\<open>int(v)\<close> of a JSON value; \<^term>\<open>None\<close> is the exception.\<close>

fun int_of_json :: "json \<Rightarrow> int option" where
  "int_of_json (JBool b) = Some (if b then 1 else 0)"
| "int_of_json (JInt i) = Some i"
| "int_of_json (JFloat q) = Some (py_int q)"
| "int_of_json (JStr s) = int_of_text s"
| "int_of_json _ = None"

section \<open>Stage timeouts\<close>

definition TIMEOUT_KEY_MAP :: "(string, string list) dict" where
  "TIMEOUT_KEY_MAP = [
     (''create_vm'', [''create_vm_minutes'']),
     (''wait_for_guest_os'', [''os_installation_minutes'']),
     (''wait_for_tools'', [''vmware_tools_minutes'']),
     (''configure_guest_network'', [''network_configuration_minutes'']),
     (''validate_network'', [''network_configuration_minutes'']),
     (''initialize_data_disks'', [''guest_operations_minutes'']),
     (''join_domain'', [''guest_operations_minutes'']),
     (''reboot_guest'', [''guest_operations_minutes'']),
     (''wait_guest_ready'', [''guest_operations_minutes''])]"

fun int_values :: "json_dict \<Rightarrow> (string, int) dict option" where
  "int_values [] = Some []"
| "int_values ((k, v) # kvs) =
     (case int_of_json v of
        None \<Rightarrow> None
      | Some i \<Rightarrow> map_option ((#) (k, i)) (int_values kvs))"

definition timeout_override :: "json_dict option \<Rightarrow> (string, int) dict" where
  "timeout_override rows =
     (case rows of
        None \<Rightarrow> []
      | Some stored \<Rightarrow>
          (case map_of (load_effective stored) ''default_timeouts'' of
             Some (JObj raw) \<Rightarrow> (case int_values raw of None \<Rightarrow> [] | Some ov \<Rightarrow> ov)
           | _ \<Rightarrow> []))"

definition effective_timeout_seconds :: "json_dict option \<Rightarrow> string \<Rightarrow> rat" where
  "effective_timeout_seconds rows key =
     (let override = timeout_override rows
      in case find (\<lambda>sk. map_of override sk \<noteq> None) (dict_get TIMEOUT_KEY_MAP key []) of
           Some sk \<Rightarrow> double (double (of_int (the (map_of override sk))) * 60)
         | None \<Rightarrow> double (of_int (stage_timeout key (Some DEFAULT_STAGE_TIMEOUTS))))"

section \<open>Lemmas\<close>

lemma map_of_fold_settings:
  "distinct (map fst stored) \<Longrightarrow>
     map_of (fold (\<lambda>(key, v) eff. if key \<in> K \<and> v \<noteq> JNull then AList.update key v eff else eff) stored d) k =
       (case map_of stored k of Some v \<Rightarrow> if k \<in> K \<and> v \<noteq> JNull then Some v else map_of d k | None \<Rightarrow> map_of d k)"
proof (induction stored arbitrary: d)
  case (Cons kv stored)
  obtain k' v' where kv: "kv = (k', v')" by (cases kv)
  with Cons.prems have "map_of stored k' = None" by (simp add: map_of_eq_None_iff)
  with Cons kv show ?case by (auto simp: update_conv' split: option.splits)
qed simp

lemma map_of_load_effective:
  "map_of (load_effective stored) k = map_option read_stored_value (map_of (load_platform_settings stored) k)"
proof -
  have "map_of (map (\<lambda>(key, v). (key, f v)) xs) k = map_option f (map_of xs k)" for f :: "json \<Rightarrow> json" and xs
    by (induction xs) auto
  then show ?thesis by (simp add: load_effective_def)
qed

lemma saved_setting_effective:
  assumes "distinct (map fst stored)" and "key \<in> KNOWN_KEYS"
  shows "map_of (load_effective (save_platform_setting key v stored)) key = Some v"
proof -
  have "distinct (map fst (save_platform_setting key v stored))"
    using assms by (simp add: save_platform_setting_def distinct_update)
  then show ?thesis using assms
    by (simp add: map_of_load_effective load_platform_settings_def map_of_fold_settings
        save_platform_setting_def update_conv' read_stored_value_def)
qed

lemma saved_setting_other:
  assumes "distinct (map fst stored)" and "k \<noteq> key"
  shows "map_of (load_effective (save_platform_setting key v stored)) k = map_of (load_effective stored) k"
proof -
  have "distinct (map fst (save_platform_setting key v stored))"
    using assms by (simp add: save_platform_setting_def distinct_update)
  then show ?thesis using assms
    by (simp add: map_of_load_effective load_platform_settings_def map_of_fold_settings
        save_platform_setting_def update_conv')
qed

section \<open>Properties\<close>

text \<open>
  A saved setting is what the effective settings then hold for its key, and saving one key leaves every
  other effective setting as it was.
\<close>

theorem settings_roundtrip:
  assumes "distinct (map fst stored)" and "key \<in> KNOWN_KEYS"
  shows "map_of (load_effective (save_platform_setting key v stored)) =
    (map_of (load_effective stored))(key \<mapsto> v)"
  using saved_setting_effective [OF assms] saved_setting_other [OF assms(1)] by auto

theorem settings_roundtrip_witness:
  "map_of (load_effective (save_platform_setting ''environment_label'' (JStr ''LAB'') [])) ''environment_label'' = Some (JStr ''LAB'')
   \<and> map_of (load_effective (save_platform_setting ''environment_label'' (JStr ''LAB'') [])) ''preferred_datastores'' = Some (JList [])"
proof -
  have "''environment_label'' \<in> KNOWN_KEYS" by (simp add: KNOWN_KEYS_def SETTING_DEFAULTS_def)
  from settings_roundtrip [of "[]", OF _ this, of "JStr ''LAB''"] show ?thesis
    by (simp add: load_effective_def load_platform_settings_def SETTING_DEFAULTS_def read_stored_value_def)
qed

end
