(* ===== verification/Ipv4.thy ===== *)
theory Ipv4
  imports Infra_Prelude "HOL-Library.Word"
begin

text \<open>
  The part of Python's \<^verbatim>\<open>ipaddress\<close> module the program uses, on 32-bit words (\<^verbatim>\<open>IPv4Address\<close> of a text, its
  text form, networks with \<^verbatim>\<open>strict=False\<close>), and the validation helpers of
  \<^verbatim>\<open>services/network/validation.py\<close> built on it. The lemmas show that reading and printing addresses are
  inverse, that masks and prefixes are inverse, and what the static-address validation accepts.
\<close>

unbundle bit_operations_syntax

type_synonym ipv4 = "32 word"

section \<open>Addresses and their text\<close>

definition ipv4_of_octets :: "nat \<Rightarrow> nat \<Rightarrow> nat \<Rightarrow> nat \<Rightarrow> ipv4" where
  "ipv4_of_octets a b c d = word_of_nat (((a * 256 + b) * 256 + c) * 256 + d)"

definition parse_octet :: "string \<Rightarrow> nat option" where
  "parse_octet s =
     (if s = [] \<or> \<not> list_all is_digit s \<or> 3 < length s \<or> (s \<noteq> ''0'' \<and> hd s = CHR ''0'') then None
      else let n = nat_of_text s in if 255 < n then None else Some n)"

definition parse_ipv4 :: "string \<Rightarrow> ipv4 option" where
  "parse_ipv4 s =
     (case map parse_octet (split_on (CHR ''.'') s) of
        [Some a, Some b, Some c, Some d] \<Rightarrow> Some (ipv4_of_octets a b c d)
      | _ \<Rightarrow> None)"

definition octet :: "nat \<Rightarrow> ipv4 \<Rightarrow> nat" where
  "octet i w = unat w div 256 ^ (3 - i) mod 256"

definition ipv4_text :: "ipv4 \<Rightarrow> string" where
  "ipv4_text w = join_on ''.'' (map (\<lambda>i. nat_text (octet i w)) [0, 1, 2, 3])"

section \<open>Networks\<close>

definition netmask :: "nat \<Rightarrow> ipv4" where
  "netmask prefix = push_bit (32 - prefix) (mask prefix)"

definition network_address :: "ipv4 \<Rightarrow> nat \<Rightarrow> ipv4" where
  "network_address addr prefix = addr AND netmask prefix"

definition broadcast_address :: "ipv4 \<Rightarrow> nat \<Rightarrow> ipv4" where
  "broadcast_address addr prefix = network_address addr prefix OR NOT (netmask prefix)"

text \<open>\<^verbatim>\<open>other in network\<close>.\<close>

definition in_network :: "ipv4 \<Rightarrow> ipv4 \<Rightarrow> nat \<Rightarrow> bool" where
  "in_network other addr prefix = (other AND netmask prefix = network_address addr prefix)"

definition with_prefixlen :: "ipv4 \<Rightarrow> nat \<Rightarrow> string" where
  "with_prefixlen addr prefix = ipv4_text (network_address addr prefix) @ ''/'' @ nat_text prefix"

section \<open>Masks and prefixes\<close>

definition is_contiguous_mask :: "string \<Rightarrow> bool" where
  "is_contiguous_mask subnet_mask =
     (case parse_ipv4 subnet_mask of
        None \<Rightarrow> False
      | Some packed \<Rightarrow>
          (let binary = rev (map (bit packed) [0..<32]); ones = length (filter id binary)
           in binary = replicate ones True @ replicate (32 - ones) False))"

definition mask_to_prefix :: "string \<Rightarrow> nat option" where
  "mask_to_prefix subnet_mask =
     (if is_contiguous_mask subnet_mask
      then map_option (\<lambda>w. length (filter id (map (bit w) [0..<32]))) (parse_ipv4 subnet_mask)
      else None)"

text \<open>A prefix outside 0 to 32 raises \<^verbatim>\<open>NetmaskValueError\<close>.\<close>

definition prefix_to_mask :: "int \<Rightarrow> string option" where
  "prefix_to_mask prefix = (if 0 \<le> prefix \<and> prefix \<le> 32 then Some (ipv4_text (netmask (nat prefix))) else None)"

section \<open>Validation of a static configuration\<close>

record IpValidationIssue =
  issue_field :: string
  issue_message :: string

definition ip_issue :: "string \<Rightarrow> string \<Rightarrow> IpValidationIssue" where
  "ip_issue f m = \<lparr>issue_field = f, issue_message = m\<rparr>"

definition address_issues :: "ipv4 \<Rightarrow> nat \<Rightarrow> IpValidationIssue list" where
  "address_issues addr prefix =
     (if addr = network_address addr prefix
      then [ip_issue ''address'' ''The address equals the network address.''] else [])
     @ (if addr = broadcast_address addr prefix
        then [ip_issue ''address'' ''The address equals the broadcast address.''] else [])"

definition gateway_issues :: "ipv4 \<Rightarrow> ipv4 \<Rightarrow> nat \<Rightarrow> IpValidationIssue list" where
  "gateway_issues gw addr prefix =
     (if \<not> in_network gw addr prefix
      then [ip_issue ''gateway'' (''Gateway '' @ ipv4_text gw @ '' is outside the '' @ with_prefixlen addr prefix @ '' subnet.'')]
      else if gw \<in> {network_address addr prefix, broadcast_address addr prefix}
      then [ip_issue ''gateway'' ''Gateway cannot be the network or broadcast address.''] else [])
     @ (if gw = addr then [ip_issue ''gateway'' (''Gateway must differ from the VM'' @ [CHR 0x27] @ ''s own address.'')] else [])"

fun dns_issues :: "nat \<Rightarrow> string set \<Rightarrow> string list \<Rightarrow> IpValidationIssue list" where
  "dns_issues index seen [] = []"
| "dns_issues index seen (dns # rest) =
     (let field = ''dns_servers['' @ nat_text index @ '']'' in
      case parse_ipv4 (strip dns) of
        None \<Rightarrow> ip_issue field (squoted dns @ '' is not a valid IPv4 address.'') # dns_issues (Suc index) seen rest
      | Some a \<Rightarrow>
          (let normalized = ipv4_text a
           in (if normalized \<in> {''0.0.0.0'', ''255.255.255.255''}
               then [ip_issue field (squoted dns @ '' is not a usable DNS server address.'')] else [])
              @ (if normalized \<in> seen then [ip_issue field (''Duplicate DNS server '' @ squoted dns @ ''.'')] else [])
              @ dns_issues (Suc index) (insert normalized seen) rest))"

definition validate_static_ipv4 :: "string \<Rightarrow> int \<Rightarrow> string \<Rightarrow> string list \<Rightarrow> IpValidationIssue list" where
  "validate_static_ipv4 address prefix gateway dns_servers =
     (case parse_ipv4 (strip address) of
        None \<Rightarrow> [ip_issue ''address'' (squoted address @ '' is not a valid IPv4 address.'')]
      | Some addr \<Rightarrow>
          (let gw = parse_ipv4 (strip gateway); supported = (8 \<le> prefix \<and> prefix \<le> 32)
           in (if \<not> supported
               then [ip_issue ''prefix'' (''Prefix /'' @ int_text prefix @ '' is outside the supported 8-32 range.'')] else [])
              @ (if gw = None then [ip_issue ''gateway'' (squoted gateway @ '' is not a valid IPv4 address.'')] else [])
              @ (if supported
                 then address_issues addr (nat prefix)
                      @ (case gw of None \<Rightarrow> [] | Some g \<Rightarrow> gateway_issues g addr (nat prefix))
                 else [])
              @ dns_issues 1 {} dns_servers))"

section \<open>Reading and printing addresses\<close>

lemma octet_less: "octet i w < 256"
  by (simp add: octet_def)

lemma parse_octet_text: "n < 256 \<Longrightarrow> parse_octet (nat_text n) = Some n"
proof -
  assume n: "n < 256"
  have "length (nat_text n) \<le> 3"
  proof -
    have "n div 100 < 10" using n by simp
    then show ?thesis by (simp add: nat_text.simps [of n] nat_text.simps [of "n div 10"] nat_text.simps [of "n div 10 div 10"])
  qed
  moreover have "nat_text n \<noteq> ''0'' \<Longrightarrow> hd (nat_text n) \<noteq> CHR ''0''"
  proof -
    assume "nat_text n \<noteq> ''0''"
    moreover have "nat_text 0 = ''0''" by code_simp
    ultimately have "n \<noteq> 0" by metis
    then show ?thesis by (simp add: nat_text_leading_zero)
  qed
  ultimately show ?thesis using n nat_text_digits [of n] by (auto simp: parse_octet_def)
qed

lemma nat_text_no_dot: "CHR ''.'' \<notin> set (nat_text n)"
  using nat_text_digits [of n] by (auto simp: list_all_iff is_digit_def)

lemma split_ipv4_text: "split_on (CHR ''.'') (ipv4_text w) = map (\<lambda>i. nat_text (octet i w)) [0, 1, 2, 3]"
  unfolding ipv4_text_def by (rule split_join) (auto simp: nat_text_no_dot)

lemma octets_reassemble: "ipv4_of_octets (octet 0 w) (octet 1 w) (octet 2 w) (octet 3 w) = w"
proof -
  define n where "n = unat w"
  have "n < 4294967296" using unsigned_less [of w] by (simp add: n_def)
  then have top: "n div 16777216 mod 256 = n div 16777216" by simp
  have "((n div 16777216 * 256 + n div 65536 mod 256) * 256 + n div 256 mod 256) * 256 + n mod 256 = n"
  proof -
    have "n div 65536 div 256 = n div 16777216" and "n div 256 div 256 = n div 65536" by (simp_all add: div_mult2_eq [symmetric])
    then have "n div 16777216 * 256 + n div 65536 mod 256 = n div 65536"
      and "n div 65536 * 256 + n div 256 mod 256 = n div 256"
      by (metis div_mult_mod_eq)+
    then show ?thesis by simp
  qed
  with top have "((octet 0 w * 256 + octet 1 w) * 256 + octet 2 w) * 256 + octet 3 w = unat w"
    by (simp add: octet_def n_def)
  then show ?thesis by (simp add: ipv4_of_octets_def)
qed

lemma parse_ipv4_text: "parse_ipv4 (ipv4_text w) = Some w"
  by (simp add: parse_ipv4_def split_ipv4_text parse_octet_text octet_less octets_reassemble [simplified])

lemma parse_octet_SomeD: "parse_octet s = Some n \<Longrightarrow> nat_text n = s \<and> n < 256"
proof -
  assume "parse_octet s = Some n"
  then have s: "s \<noteq> []" "list_all is_digit s" "s = ''0'' \<or> hd s \<noteq> CHR ''0''" and n: "n = nat_of_text s" "n < 256"
    by (auto simp: parse_octet_def Let_def split: if_splits)
  with nat_text_of_digits [OF s] show ?thesis by simp
qed

lemma octet_nested:
  "octet 0 w = unat w div 256 div 256 div 256 mod 256" "octet 1 w = unat w div 256 div 256 mod 256"
  "octet 2 w = unat w div 256 mod 256" "octet 3 w = unat w mod 256"
  by (simp_all add: octet_def div_mult2_eq [symmetric])

lemma octet_of_octets:
  assumes "a < 256" "b < 256" "c < 256" "d < 256"
  shows "octet 0 (ipv4_of_octets a b c d) = a" "octet 1 (ipv4_of_octets a b c d) = b"
    "octet 2 (ipv4_of_octets a b c d) = c" "octet 3 (ipv4_of_octets a b c d) = d"
proof -
  let ?n = "((a * 256 + b) * 256 + c) * 256 + d"
  have "?n < 2 ^ 32" using assms by simp
  moreover have "n < 2 ^ 32 \<Longrightarrow> unat (word_of_nat n :: ipv4) = n" for n
    by (simp add: unsigned_of_nat take_bit_nat_eq_self_iff)
  ultimately have "unat (ipv4_of_octets a b c d) = ?n" unfolding ipv4_of_octets_def by blast
  moreover have dm: "x < 256 \<Longrightarrow> (q * 256 + x) div 256 = q" "x < 256 \<Longrightarrow> (q * 256 + x) mod 256 = x" for q x :: nat
    by simp_all
  ultimately show "octet 0 (ipv4_of_octets a b c d) = a" "octet 1 (ipv4_of_octets a b c d) = b"
    "octet 2 (ipv4_of_octets a b c d) = c" "octet 3 (ipv4_of_octets a b c d) = d"
    using assms by (simp_all only: octet_nested dm mod_less)
qed

lemma ipv4_text_parse: "parse_ipv4 s = Some w \<Longrightarrow> ipv4_text w = s"
proof -
  assume p: "parse_ipv4 s = Some w"
  then obtain a b c d where os: "map parse_octet (split_on (CHR ''.'') s) = [Some a, Some b, Some c, Some d]"
    and w: "w = ipv4_of_octets a b c d"
    by (auto simp: parse_ipv4_def split: list.splits option.splits)
  then obtain sa sb sc sd where sp: "split_on (CHR ''.'') s = [sa, sb, sc, sd]"
    and po: "parse_octet sa = Some a" "parse_octet sb = Some b" "parse_octet sc = Some c" "parse_octet sd = Some d"
    by (auto simp: map_eq_Cons_conv)
  note oct = po [THEN parse_octet_SomeD]
  have "ipv4_text w = join_on ''.'' [sa, sb, sc, sd]"
    using oct octet_of_octets [of a b c d] by (simp add: ipv4_text_def w)
  then show ?thesis using join_split [of "CHR ''.''" s] sp by simp
qed

section \<open>Bits of masks\<close>

lemma bit_netmask: "prefix \<le> 32 \<Longrightarrow> bit (netmask prefix) n \<longleftrightarrow> 32 - prefix \<le> n \<and> n < 32"
  by (auto simp: netmask_def bit_push_bit_iff bit_mask_iff)

lemma netmask_bits: "prefix \<le> 32 \<Longrightarrow> map (bit (netmask prefix)) [0..<32] = replicate (32 - prefix) False @ replicate prefix True"
  by (rule nth_equalityI) (auto simp: bit_netmask nth_append)

lemma mask_prefix_roundtrip: "0 \<le> p \<Longrightarrow> p \<le> 32 \<Longrightarrow> mask_to_prefix (the (prefix_to_mask p)) = Some (nat p)"
proof -
  assume p: "0 \<le> p" "p \<le> 32"
  then have b: "map (bit (netmask (nat p))) [0..<32] = replicate (32 - nat p) False @ replicate (nat p) True"
    by (intro netmask_bits) simp
  then have "length (filter (bit (netmask (nat p))) [0..<32]) = nat p"
  proof -
    have "length (filter id (map (bit (netmask (nat p))) [0..<32])) = nat p" unfolding b by simp
    then show ?thesis by (simp add: filter_map comp_def del: upt_conv_Cons)
  qed
  then show ?thesis using p b
    by (simp add: mask_to_prefix_def is_contiguous_mask_def prefix_to_mask_def parse_ipv4_text Let_def rev_map del: upt_conv_Cons)
qed

lemma prefix_mask_roundtrip: "mask_to_prefix s = Some p \<Longrightarrow> prefix_to_mask (int p) = Some s"
proof -
  assume m: "mask_to_prefix s = Some p"
  then obtain w where w: "parse_ipv4 s = Some w" and cont: "is_contiguous_mask s"
    and p: "p = length (filter id (map (bit w) [0..<32]))"
    by (auto simp: mask_to_prefix_def split: if_splits)
  define bs where "bs = map (bit w) [0..<32]"
  have len: "length bs = 32" by (simp add: bs_def)
  have "rev bs = replicate p True @ replicate (32 - p) False"
    using cont w by (simp add: is_contiguous_mask_def Let_def p bs_def [symmetric] rev_filter [symmetric] del: upt_conv_Cons)
  then have bs: "bs = replicate (32 - p) False @ replicate p True" by (metis rev_append rev_replicate rev_rev_ident)
  have p32: "p \<le> 32" using len unfolding p bs_def [symmetric] by (metis length_filter_le)
  have "netmask p = w"
  proof (rule bit_word_eqI)
    fix n assume n: "n < LENGTH(32)"
    have "bit w n = bs ! n" using n by (simp add: bs_def del: upt_conv_Cons)
    also have "\<dots> = bit (netmask p) n" using n p32 by (simp add: bs nth_append bit_netmask)
    finally show "bit (netmask p) n = bit w n" by simp
  qed
  then show ?thesis using ipv4_text_parse [OF w] p32 by (simp add: prefix_to_mask_def)
qed

section \<open>Networks as arithmetic\<close>

definition same_subnet :: "ipv4 \<Rightarrow> ipv4 \<Rightarrow> nat \<Rightarrow> bool" where
  "same_subnet a b prefix \<longleftrightarrow> unat a div 2 ^ (32 - prefix) = unat b div 2 ^ (32 - prefix)"

definition host_part :: "ipv4 \<Rightarrow> nat \<Rightarrow> nat" where
  "host_part a prefix = unat a mod 2 ^ (32 - prefix)"

definition assignable :: "ipv4 \<Rightarrow> nat \<Rightarrow> bool" where
  "assignable a prefix \<longleftrightarrow> host_part a prefix \<noteq> 0 \<and> host_part a prefix \<noteq> 2 ^ (32 - prefix) - 1"

lemma in_network_iff: "prefix \<le> 32 \<Longrightarrow> in_network b a prefix \<longleftrightarrow> same_subnet a b prefix"
proof -
  assume p: "prefix \<le> 32"
  have "b AND netmask prefix = a AND netmask prefix \<longleftrightarrow> drop_bit (32 - prefix) b = drop_bit (32 - prefix) a"
    (is "?l \<longleftrightarrow> ?r")
  proof
    assume l: ?l
    have "bit b n = bit a n" if "32 - prefix \<le> n" "n < 32" for n
      using arg_cong [OF l, of "\<lambda>w. bit w n"] that p by (simp add: bit_and_iff bit_netmask)
    then have "bit b (32 - prefix + n) = bit a (32 - prefix + n)" for n
      by (cases "32 - prefix + n < 32") (auto dest: bit_imp_le_length)
    then show ?r by (intro bit_word_eqI) (simp add: bit_drop_bit_eq)
  next
    assume r: ?r
    have "bit b n = bit a n" if "32 - prefix \<le> n" for n
      using arg_cong [OF r, of "\<lambda>w. bit w (n - (32 - prefix))"] that by (simp add: bit_drop_bit_eq)
    then show ?l using p by (intro bit_word_eqI) (auto simp: bit_and_iff bit_netmask)
  qed
  also have "\<dots> \<longleftrightarrow> unat (drop_bit (32 - prefix) b) = unat (drop_bit (32 - prefix) a)"
    by (rule word_unat_eq_iff)
  also have "\<dots> \<longleftrightarrow> same_subnet a b prefix"
  proof -
    have "unat (drop_bit n w) = unat w div 2 ^ n" for w :: ipv4 and n
    proof -
      have "take_bit 32 (unat w) = unat w" using unsigned_less [of w] by (intro take_bit_nat_eq_self) simp
      then show ?thesis unfolding unsigned_drop_bit_eq by (simp add: drop_bit_eq_div)
    qed
    then show ?thesis by (auto simp: same_subnet_def)
  qed
  finally show ?thesis by (simp add: in_network_def network_address_def)
qed

lemma host_part_take_bit: "host_part a prefix = unat (take_bit (32 - prefix) a)"
  unfolding unsigned_take_bit_eq by (simp add: host_part_def take_bit_eq_mod)

lemma network_address_iff: "prefix \<le> 32 \<Longrightarrow> a = network_address a prefix \<longleftrightarrow> host_part a prefix = 0"
proof -
  assume p: "prefix \<le> 32"
  have "a = network_address a prefix \<longleftrightarrow> take_bit (32 - prefix) a = 0"
    using p by (auto simp: bit_eq_iff network_address_def bit_and_iff bit_netmask bit_take_bit_iff dest: bit_imp_le_length)
  then show ?thesis by (simp add: host_part_take_bit unsigned_eq_0_iff)
qed

lemma broadcast_address_iff:
  "prefix \<le> 32 \<Longrightarrow> a = broadcast_address a prefix \<longleftrightarrow> host_part a prefix = 2 ^ (32 - prefix) - 1"
proof -
  assume p: "prefix \<le> 32"
  have "a = broadcast_address a prefix \<longleftrightarrow> take_bit (32 - prefix) a = mask (32 - prefix)"
    using p by (auto simp: bit_eq_iff broadcast_address_def network_address_def bit_and_iff bit_or_iff bit_not_iff
        bit_netmask bit_take_bit_iff bit_mask_iff dest: bit_imp_le_length)
  also have "\<dots> \<longleftrightarrow> unat (take_bit (32 - prefix) a) = unat (mask (32 - prefix) :: ipv4)"
    by (rule word_unat_eq_iff)
  also have "unat (mask (32 - prefix) :: ipv4) = 2 ^ (32 - prefix) - 1"
  proof -
    have "unat (mask (32 - prefix) :: ipv4) = take_bit (32 - prefix) (unat (- 1 :: ipv4))"
      by (simp flip: unsigned_take_bit_eq add: take_bit_minus_one_eq_mask)
    also have "\<dots> = mask (32 - prefix)" by (simp add: unsigned_minus_1_eq_mask take_bit_of_mask)
    finally show ?thesis by (simp add: mask_eq_exp_minus_1)
  qed
  finally show ?thesis by (simp add: host_part_take_bit)
qed

lemma assignable_iff:
  "prefix \<le> 32 \<Longrightarrow> assignable a prefix \<longleftrightarrow> a \<noteq> network_address a prefix \<and> a \<noteq> broadcast_address a prefix"
  using network_address_iff [of prefix a] broadcast_address_iff [of prefix a] by (auto simp: assignable_def)

lemma assignable_prefix: "prefix \<le> 32 \<Longrightarrow> assignable a prefix \<Longrightarrow> prefix \<le> 30"
proof (rule ccontr)
  assume "prefix \<le> 32" "assignable a prefix" "\<not> prefix \<le> 30"
  then have "prefix = 31 \<or> prefix = 32" by linarith
  with \<open>assignable a prefix\<close> show False by (auto simp: assignable_def host_part_def)
qed

lemma address_issues_empty: "prefix \<le> 32 \<Longrightarrow> address_issues a prefix = [] \<longleftrightarrow> assignable a prefix"
  by (auto simp: address_issues_def assignable_iff)

lemma gateway_issues_empty:
  "prefix \<le> 32 \<Longrightarrow> gateway_issues g a prefix = [] \<longleftrightarrow> same_subnet a g prefix \<and> assignable g prefix \<and> g \<noteq> a"
proof -
  assume p: "prefix \<le> 32"
  have "network_address g prefix = network_address a prefix" if "same_subnet a g prefix"
    using that p by (simp add: in_network_iff [symmetric] in_network_def network_address_def)
  then show ?thesis
    using p by (auto simp: gateway_issues_def in_network_iff assignable_iff broadcast_address_def)
qed

section \<open>DNS server lists\<close>

definition dns_ok :: "string list \<Rightarrow> bool" where
  "dns_ok ds \<longleftrightarrow> (\<forall>d \<in> set ds. \<exists>a. parse_ipv4 (strip d) = Some a \<and> a \<noteq> 0 \<and> a \<noteq> - 1)
     \<and> distinct (map (\<lambda>d. parse_ipv4 (strip d)) ds)"

lemma ipv4_text_inject: "ipv4_text a = ipv4_text b \<longleftrightarrow> a = b"
  by (metis option.inject parse_ipv4_text)

lemma special_texts: "ipv4_text 0 = ''0.0.0.0''" "ipv4_text (- 1) = ''255.255.255.255''"
proof -
  have t: "nat_text 0 = ''0''" "nat_text 255 = ''255''" by code_simp+
  have m: "unat (- 1 :: ipv4) = 4294967295" by (simp add: unsigned_minus_1_eq_mask mask_eq_exp_minus_1)
  show "ipv4_text 0 = ''0.0.0.0''" by (simp add: ipv4_text_def octet_def t)
  show "ipv4_text (- 1) = ''255.255.255.255''" by (simp add: ipv4_text_def octet_def m t)
qed

lemma dns_issues_empty:
  "dns_issues i (ipv4_text ` seen) ds = [] \<longleftrightarrow>
     (\<forall>d \<in> set ds. \<exists>a. parse_ipv4 (strip d) = Some a \<and> a \<noteq> 0 \<and> a \<noteq> - 1 \<and> a \<notin> seen)
     \<and> distinct (map (\<lambda>d. parse_ipv4 (strip d)) ds)"
proof (induction ds arbitrary: i seen)
  case (Cons d ds)
  show ?case
  proof (cases "parse_ipv4 (strip d)")
    case (Some a)
    have texts: "ipv4_text a \<in> {''0.0.0.0'', ''255.255.255.255''} \<longleftrightarrow> a = 0 \<or> a = - 1"
      by (simp flip: special_texts add: ipv4_text_inject)
    have seen: "ipv4_text a \<in> ipv4_text ` seen \<longleftrightarrow> a \<in> seen" by (auto simp: ipv4_text_inject)
    have rest: "dns_issues (Suc i) (insert (ipv4_text a) (ipv4_text ` seen)) ds = [] \<longleftrightarrow>
        (\<forall>d \<in> set ds. \<exists>b. parse_ipv4 (strip d) = Some b \<and> b \<noteq> 0 \<and> b \<noteq> - 1 \<and> b \<notin> insert a seen)
        \<and> distinct (map (\<lambda>d. parse_ipv4 (strip d)) ds)"
      using Cons.IH [of "Suc i" "insert a seen"] by simp
    have "dns_issues i (ipv4_text ` seen) (d # ds) = [] \<longleftrightarrow>
        a \<noteq> 0 \<and> a \<noteq> - 1 \<and> a \<notin> seen \<and> dns_issues (Suc i) (insert (ipv4_text a) (ipv4_text ` seen)) ds = []"
      using Some texts seen by (simp add: Let_def)
    also have "\<dots> \<longleftrightarrow> a \<noteq> 0 \<and> a \<noteq> - 1 \<and> a \<notin> seen
        \<and> (\<forall>d \<in> set ds. \<exists>b. parse_ipv4 (strip d) = Some b \<and> b \<noteq> 0 \<and> b \<noteq> - 1 \<and> b \<notin> seen)
        \<and> Some a \<notin> (\<lambda>d. parse_ipv4 (strip d)) ` set ds \<and> distinct (map (\<lambda>d. parse_ipv4 (strip d)) ds)"
      unfolding rest by (auto simp: image_iff) metis+
    finally show ?thesis using Some by simp
  qed (simp add: Let_def)
qed simp

section \<open>The address block of a request\<close>

text \<open>
  \<^verbatim>\<open>Ipv4Config\<close> of \<^verbatim>\<open>schemas/provisioning.py\<close> with its model validator: the result is the normalised
  configuration or the message of the error raised. The bounds of the \<^verbatim>\<open>prefix\<close> field and the maximal
  length of the server list are checked by the schema library before the validator runs.
\<close>

record Ipv4Config =
  cfg_address :: string
  cfg_prefix :: nat
  cfg_gateway :: string
  cfg_dns_servers :: "string list"

definition validate_ipv4 :: "string \<Rightarrow> string \<Rightarrow> string + string" where
  "validate_ipv4 v field =
     (case parse_ipv4 (strip v) of
        None \<Rightarrow> Inl (field @ '': '' @ squoted v @ '' is not a valid IPv4 address.'')
      | Some a \<Rightarrow> Inr (ipv4_text a))"

fun normalize_dns :: "string list \<Rightarrow> string list \<Rightarrow> string + string list" where
  "normalize_dns acc [] = Inr acc"
| "normalize_dns acc (dns # rest) =
     (case validate_ipv4 dns ''DNS server'' of
        Inl e \<Rightarrow> Inl e
      | Inr normalized \<Rightarrow>
          if normalized \<in> set acc then Inl (''Duplicate DNS server: '' @ normalized)
          else normalize_dns (acc @ [normalized]) rest)"

definition ipv4_config_fields :: "Ipv4Config \<Rightarrow> bool" where
  "ipv4_config_fields c = (8 \<le> cfg_prefix c \<and> cfg_prefix c \<le> 32 \<and> length (cfg_dns_servers c) \<le> 8)"

definition validate_addresses :: "Ipv4Config \<Rightarrow> string + Ipv4Config" where
  "validate_addresses c =
     (case validate_ipv4 (cfg_address c) ''IP address'' of
        Inl e \<Rightarrow> Inl e
      | Inr address \<Rightarrow>
          (case validate_ipv4 (cfg_gateway c) ''Default gateway'' of
             Inl e \<Rightarrow> Inl e
           | Inr gateway \<Rightarrow>
               (case (parse_ipv4 address, parse_ipv4 gateway) of
                  (Some addr, Some gw) \<Rightarrow>
                    if addr = network_address addr (cfg_prefix c)
                    then Inl ''IP address equals the network address and cannot be assigned to a host.''
                    else if addr = broadcast_address addr (cfg_prefix c)
                    then Inl ''IP address equals the broadcast address and cannot be assigned to a host.''
                    else if \<not> in_network gw addr (cfg_prefix c)
                    then Inl (''Default gateway '' @ gateway @ '' is outside the ''
                      @ with_prefixlen addr (cfg_prefix c) @ '' subnet.'')
                    else if gw = addr then Inl (''Default gateway must differ from the VM'' @ [CHR 0x27] @ ''s own IP address.'')
                    else (case normalize_dns [] (cfg_dns_servers c) of
                            Inl e \<Rightarrow> Inl e
                          | Inr dns \<Rightarrow> Inr (c\<lparr>cfg_address := address, cfg_gateway := gateway, cfg_dns_servers := dns\<rparr>))
                | _ \<Rightarrow> Inl [])))"

definition subnet_mask :: "Ipv4Config \<Rightarrow> string option" where
  "subnet_mask c = prefix_to_mask (int (cfg_prefix c))"

text \<open>What a validated configuration is, in arithmetic.\<close>

definition sound_config :: "Ipv4Config \<Rightarrow> bool" where
  "sound_config c \<longleftrightarrow> (\<exists>a g. parse_ipv4 (cfg_address c) = Some a \<and> parse_ipv4 (cfg_gateway c) = Some g
     \<and> assignable a (cfg_prefix c) \<and> same_subnet a g (cfg_prefix c) \<and> g \<noteq> a)
     \<and> distinct (cfg_dns_servers c) \<and> (\<forall>d \<in> set (cfg_dns_servers c). parse_ipv4 d \<noteq> None)"

lemma validate_ipv4_SomeD: "validate_ipv4 v f = Inr t \<Longrightarrow> \<exists>a. parse_ipv4 (strip v) = Some a \<and> t = ipv4_text a \<and> parse_ipv4 t = Some a"
  by (auto simp: validate_ipv4_def parse_ipv4_text split: option.splits)

lemma normalize_dns_sound:
  "normalize_dns acc ds = Inr out \<Longrightarrow> distinct acc \<Longrightarrow> \<forall>d \<in> set acc. parse_ipv4 d \<noteq> None
     \<Longrightarrow> distinct out \<and> (\<forall>d \<in> set out. parse_ipv4 d \<noteq> None) \<and> length out = length acc + length ds"
proof (induction acc ds rule: normalize_dns.induct)
  case (2 acc dns rest)
  then obtain t where t: "validate_ipv4 dns ''DNS server'' = Inr t" "t \<notin> set acc"
    and r: "normalize_dns (acc @ [t]) rest = Inr out"
    by (cases "validate_ipv4 dns ''DNS server''") (auto split: if_splits)
  have "distinct (acc @ [t])" using t(2) "2.prems"(2) by simp
  moreover have "\<forall>d \<in> set (acc @ [t]). parse_ipv4 d \<noteq> None"
    using "2.prems"(3) validate_ipv4_SomeD [OF t(1)] by auto
  ultimately show ?case using "2.IH" [OF t(1,2) r] by simp
qed simp

lemma guard_chain:
  "(if A then Inl e1 else if B then Inl e2 else if C then Inl e3 else if D then Inl e4
    else case r of Inl e \<Rightarrow> Inl e | Inr d \<Rightarrow> Inr (f d)) = Inr v
   \<Longrightarrow> \<not> A \<and> \<not> B \<and> \<not> C \<and> \<not> D \<and> (\<exists>d. r = Inr d \<and> v = f d)"
  by (cases r) (auto split: if_splits)

lemma validate_addresses_sound:
  assumes "validate_addresses c = Inr c'" and "cfg_prefix c \<le> 32"
  shows "sound_config c' \<and> cfg_prefix c' = cfg_prefix c \<and> length (cfg_dns_servers c') = length (cfg_dns_servers c)"
proof -
  obtain ta where ta: "validate_ipv4 (cfg_address c) ''IP address'' = Inr ta"
    using assms(1) by (cases "validate_ipv4 (cfg_address c) ''IP address''") (simp_all add: validate_addresses_def)
  obtain tg where tg: "validate_ipv4 (cfg_gateway c) ''Default gateway'' = Inr tg"
    using assms(1) ta by (cases "validate_ipv4 (cfg_gateway c) ''Default gateway''") (simp_all add: validate_addresses_def)
  obtain a g where p: "parse_ipv4 ta = Some a" "parse_ipv4 tg = Some g"
    using validate_ipv4_SomeD [OF ta] validate_ipv4_SomeD [OF tg] by blast
  obtain dns where cond: "a \<noteq> network_address a (cfg_prefix c)" "a \<noteq> broadcast_address a (cfg_prefix c)"
      "in_network g a (cfg_prefix c)" "g \<noteq> a"
    and dns: "normalize_dns [] (cfg_dns_servers c) = Inr dns"
    and c': "c' = c\<lparr>cfg_address := ta, cfg_gateway := tg, cfg_dns_servers := dns\<rparr>"
    using guard_chain [OF assms(1) [unfolded validate_addresses_def ta tg sum.case p prod.case option.case]] by blast
  show ?thesis
    using p cond normalize_dns_sound [OF dns] assms(2)
    by (simp add: c' sound_config_def assignable_iff in_network_iff)
qed

section \<open>Properties\<close>

text \<open>
  Address texts are canonical: printing an address and reading it back gives the address, and every
  text that is accepted is exactly the text printed for the address it denotes.
\<close>

theorem ipv4_text_roundtrip: "parse_ipv4 (ipv4_text w) = Some w \<and> {s. parse_ipv4 s = Some w} = {ipv4_text w}"
  using parse_ipv4_text ipv4_text_parse by auto

text \<open>
  Subnet masks and prefix lengths are inverse: every prefix from 0 to 32 comes back from its mask,
  and only the masks of such prefixes are accepted.
\<close>

theorem mask_prefix_inverse:
  "(0 \<le> p \<and> p \<le> 32 \<longrightarrow> mask_to_prefix (the (prefix_to_mask p)) = Some (nat p))
   \<and> (mask_to_prefix s = Some q \<longrightarrow> prefix_to_mask (int q) = Some s)"
  using mask_prefix_roundtrip prefix_mask_roundtrip by blast

theorem mask_prefix_inverse_witness:
  "mask_to_prefix (the (prefix_to_mask 24)) = Some 24 \<and> prefix_to_mask (int 24) = Some (the (prefix_to_mask 24))"
proof
  show m: "mask_to_prefix (the (prefix_to_mask 24)) = Some 24"
    using mask_prefix_inverse [of 24] by simp
  show "prefix_to_mask (int 24) = Some (the (prefix_to_mask 24))"
    using mask_prefix_inverse [of 24 "the (prefix_to_mask 24)" 24] m by blast
qed

text \<open>
  C27. The static-address validation accepts exactly the usable configurations: both texts are
  addresses, the prefix is between 8 and 30, address and gateway are different assignable hosts of one
  subnet (equal quotients by the subnet size, remainders neither zero nor all ones), and the DNS
  servers are distinct usable addresses. In particular prefixes 31 and 32, which the message calls
  supported, are never accepted.
\<close>

theorem validate_static_ipv4_exact:
  "validate_static_ipv4 address prefix gateway dns = [] \<longleftrightarrow>
     8 \<le> prefix \<and> prefix \<le> 30 \<and> dns_ok dns \<and>
     (\<exists>a g. parse_ipv4 (strip address) = Some a \<and> parse_ipv4 (strip gateway) = Some g \<and> g \<noteq> a
       \<and> same_subnet a g (nat prefix) \<and> assignable a (nat prefix) \<and> assignable g (nat prefix))"
proof (cases "parse_ipv4 (strip address)")
  case (Some a)
  have d: "dns_issues (Suc 0) {} dns = [] \<longleftrightarrow> dns_ok dns" using dns_issues_empty [of "Suc 0" "{}" dns] by (simp add: dns_ok_def)
  have "assignable a (nat prefix) \<Longrightarrow> prefix \<le> 32 \<Longrightarrow> prefix \<le> 30" 
    using assignable_prefix [of "nat prefix" a] by linarith
  then show ?thesis
    using Some by (cases "parse_ipv4 (strip gateway)")
      (auto simp: validate_static_ipv4_def Let_def d address_issues_empty gateway_issues_empty)
qed (simp add: validate_static_ipv4_def)

text \<open>
  A configuration the request schema accepts is sound: canonical addresses, an assignable address, a
  different gateway in the same subnet, distinct servers; its prefix is at most 30 and it passes the
  validation again unchanged in length and prefix.
\<close>

theorem ipv4_config_sound:
  assumes "ipv4_config_fields c" and "validate_addresses c = Inr c'"
  shows "sound_config c' \<and> cfg_prefix c' = cfg_prefix c \<and> cfg_prefix c' \<le> 30 \<and> ipv4_config_fields c'"
proof -
  have p: "cfg_prefix c \<le> 32" using assms(1) by (simp add: ipv4_config_fields_def)
  note s = validate_addresses_sound [OF assms(2) p]
  then have "cfg_prefix c' \<le> 30" using p assignable_prefix by (auto simp: sound_config_def)
  with s assms(1) show ?thesis by (simp add: ipv4_config_fields_def)
qed

theorem ipv4_config_sound_witness:
  "case validate_addresses \<lparr>cfg_address = '' 10.0.0.5'', cfg_prefix = 24, cfg_gateway = ''10.0.0.1'', cfg_dns_servers = [''10.0.0.2'']\<rparr> of
     Inr c' \<Rightarrow> sound_config c' | Inl _ \<Rightarrow> False"
proof -
  let ?c = "\<lparr>cfg_address = '' 10.0.0.5'', cfg_prefix = 24, cfg_gateway = ''10.0.0.1'', cfg_dns_servers = [''10.0.0.2'']\<rparr>"
  have "validate_addresses ?c = Inr \<lparr>cfg_address = ''10.0.0.5'', cfg_prefix = 24, cfg_gateway = ''10.0.0.1'', cfg_dns_servers = [''10.0.0.2'']\<rparr>"
  proof -
    have texts: "strip '' 10.0.0.5'' = ''10.0.0.5''" "strip ''10.0.0.1'' = ''10.0.0.1''" "strip ''10.0.0.2'' = ''10.0.0.2''"
      by code_simp+
    have "map parse_octet (split_on (CHR ''.'') ''10.0.0.5'') = [Some 10, Some 0, Some 0, Some 5]"
      "map parse_octet (split_on (CHR ''.'') ''10.0.0.1'') = [Some 10, Some 0, Some 0, Some 1]"
      "map parse_octet (split_on (CHR ''.'') ''10.0.0.2'') = [Some 10, Some 0, Some 0, Some 2]" by code_simp+
    then have parses: "parse_ipv4 ''10.0.0.5'' = Some 167772165" "parse_ipv4 ''10.0.0.1'' = Some 167772161"
      "parse_ipv4 ''10.0.0.2'' = Some 167772162"
      by (simp_all only: parse_ipv4_def list.case option.case) (simp_all add: ipv4_of_octets_def)
    note printed = parses [THEN ipv4_text_parse]
    show ?thesis
      by (simp add: validate_addresses_def validate_ipv4_def texts parses printed network_address_iff
          broadcast_address_iff in_network_iff same_subnet_def host_part_def)
  qed
  with ipv4_config_sound [of ?c] show ?thesis by (simp add: ipv4_config_fields_def)
qed

end
