(* ===== verification/Regex.thy ===== *)
theory Regex
  imports Infra_Prelude
begin

text \<open>
  Regular expressions over characters with a derivative matcher: what \<^verbatim>\<open>re.fullmatch\<close> and anchored
  patterns decide in the program. A character class is a predicate. The matcher is shown to decide the
  language of the expression.
\<close>

datatype regex =
    Empty
  | Class "char \<Rightarrow> bool"
  | Seq regex regex
  | Alt regex regex
  | Many regex
  | Never

fun nullable :: "regex \<Rightarrow> bool" where
  "nullable Empty = True"
| "nullable (Class P) = False"
| "nullable (Seq r s) = (nullable r \<and> nullable s)"
| "nullable (Alt r s) = (nullable r \<or> nullable s)"
| "nullable (Many r) = True"
| "nullable Never = False"

fun after :: "char \<Rightarrow> regex \<Rightarrow> regex" where
  "after c Empty = Never"
| "after c (Class P) = (if P c then Empty else Never)"
| "after c (Seq r s) = (if nullable r then Alt (Seq (after c r) s) (after c s) else Seq (after c r) s)"
| "after c (Alt r s) = Alt (after c r) (after c s)"
| "after c (Many r) = Seq (after c r) (Many r)"
| "after c Never = Never"

fun fullmatch :: "regex \<Rightarrow> string \<Rightarrow> bool" where
  "fullmatch r [] = nullable r"
| "fullmatch r (c # cs) = fullmatch (after c r) cs"

section \<open>The language of an expression\<close>

inductive matches :: "regex \<Rightarrow> string \<Rightarrow> bool" where
  m_empty: "matches Empty []"
| m_class: "P c \<Longrightarrow> matches (Class P) [c]"
| m_seq: "matches r u \<Longrightarrow> matches s v \<Longrightarrow> matches (Seq r s) (u @ v)"
| m_alt1: "matches r u \<Longrightarrow> matches (Alt r s) u"
| m_alt2: "matches s u \<Longrightarrow> matches (Alt r s) u"
| m_stop: "matches (Many r) []"
| m_more: "matches r u \<Longrightarrow> matches (Many r) v \<Longrightarrow> matches (Many r) (u @ v)"

inductive_cases matches_ManyE: "matches (Many r) s"

inductive_simps matches_Empty [simp]: "matches Empty s"
inductive_simps matches_Class [simp]: "matches (Class P) s"
inductive_simps matches_Seq: "matches (Seq r t) s"
inductive_simps matches_Alt [simp]: "matches (Alt r t) s"
inductive_simps matches_Never [simp]: "matches Never s"

lemma nullable_iff: "nullable r \<longleftrightarrow> matches r []"
proof (induction r)
  case (Seq r s)
  then show ?case by (simp add: matches_Seq)
qed (simp_all add: m_stop)

lemma many_Cons: "matches (Many r) (c # s) \<longleftrightarrow> (\<exists>u v. s = u @ v \<and> matches r (c # u) \<and> matches (Many r) v)"
proof
  assume "matches (Many r) (c # s)"
  then show "\<exists>u v. s = u @ v \<and> matches r (c # u) \<and> matches (Many r) v"
  proof (induction "Many r" "c # s" arbitrary: s)
    case (m_more u v)
    show ?case
    proof (cases u)
      case Nil
      with m_more show ?thesis by auto
    next
      case (Cons d us)
      with m_more show ?thesis by auto
    qed
  qed
next
  assume "\<exists>u v. s = u @ v \<and> matches r (c # u) \<and> matches (Many r) v"
  then show "matches (Many r) (c # s)" using m_more [of r "c # _"] by fastforce
qed

lemma seq_Cons:
  "matches (Seq r t) (c # s) \<longleftrightarrow>
     (\<exists>u v. s = u @ v \<and> matches r (c # u) \<and> matches t v) \<or> matches r [] \<and> matches t (c # s)"
proof
  assume "matches (Seq r t) (c # s)"
  then obtain u v where "c # s = u @ v" "matches r u" "matches t v" by (auto simp: matches_Seq)
  then show "(\<exists>u v. s = u @ v \<and> matches r (c # u) \<and> matches t v) \<or> matches r [] \<and> matches t (c # s)"
    by (cases u) auto
next
  assume "(\<exists>u v. s = u @ v \<and> matches r (c # u) \<and> matches t v) \<or> matches r [] \<and> matches t (c # s)"
  then show "matches (Seq r t) (c # s)" using m_seq [of r "c # _" t] m_seq [of r "[]" t] by fastforce
qed

lemma after_iff: "matches (after c r) s \<longleftrightarrow> matches r (c # s)"
proof (induction r arbitrary: s)
  case (Seq r t)
  have "matches (Seq (after c r) t) s \<longleftrightarrow> (\<exists>u v. s = u @ v \<and> matches r (c # u) \<and> matches t v)" for s
    using Seq.IH(1) by (simp add: matches_Seq)
  then show ?case using Seq.IH(2) by (simp add: seq_Cons nullable_iff)
next
  case (Many r)
  then show ?case by (simp add: many_Cons matches_Seq)
qed auto

lemma fullmatch_iff: "fullmatch r s \<longleftrightarrow> matches r s"
  by (induction s arbitrary: r) (simp_all add: nullable_iff after_iff)

section \<open>Derived forms\<close>

definition lit :: "char \<Rightarrow> regex" where
  "lit c = Class (\<lambda>d. d = c)"

fun seqs :: "regex list \<Rightarrow> regex" where
  "seqs [] = Empty"
| "seqs (r # rs) = Seq r (seqs rs)"

definition many1 :: "regex \<Rightarrow> regex" where
  "many1 r = Seq r (Many r)"

definition optional :: "regex \<Rightarrow> regex" where
  "optional r = Alt Empty r"

fun exactly :: "nat \<Rightarrow> regex \<Rightarrow> regex" where
  "exactly 0 r = Empty"
| "exactly (Suc n) r = Seq r (exactly n r)"

fun up_to :: "nat \<Rightarrow> regex \<Rightarrow> regex" where
  "up_to 0 r = Empty"
| "up_to (Suc n) r = optional (Seq r (up_to n r))"

definition between :: "nat \<Rightarrow> nat \<Rightarrow> regex \<Rightarrow> regex" where
  "between m n r = Seq (exactly m r) (up_to (n - m) r)"

definition is_lower_char :: "char \<Rightarrow> bool" where
  "is_lower_char c = (let n = (of_char c :: nat) in 97 \<le> n \<and> n \<le> 122)"

definition is_upper_char :: "char \<Rightarrow> bool" where
  "is_upper_char c = (let n = (of_char c :: nat) in 65 \<le> n \<and> n \<le> 90)"

definition is_alnum :: "char \<Rightarrow> bool" where
  "is_alnum c = (is_digit c \<or> is_lower_char c \<or> is_upper_char c)"

lemma matches_Many_class: "matches (Many (Class P)) s \<longleftrightarrow> list_all P s"
  by (induction s) (simp_all add: many_Cons m_stop)

lemma seq_class: "matches (Seq (Class P) r) s \<longleftrightarrow> (\<exists>c t. s = c # t \<and> P c \<and> matches r t)"
  unfolding matches_Seq matches_Class by (metis append_Cons append_Nil)

lemma matches_exactly_class: "matches (exactly n (Class P)) s \<longleftrightarrow> list_all P s \<and> length s = n"
  by (induction n arbitrary: s) (auto simp: seq_class length_Suc_conv)

lemma matches_up_to_class: "matches (up_to n (Class P)) s \<longleftrightarrow> list_all P s \<and> length s \<le> n"
proof (induction n arbitrary: s)
  case (Suc n)
  then show ?case by (cases s) (simp_all add: optional_def seq_class)
qed auto

lemma matches_between_class:
  "m \<le> n \<Longrightarrow> matches (between m n (Class P)) s \<longleftrightarrow> list_all P s \<and> m \<le> length s \<and> length s \<le> n"
proof -
  assume mn: "m \<le> n"
  have "matches (between m n (Class P)) s \<longleftrightarrow>
      (\<exists>u v. s = u @ v \<and> (list_all P u \<and> length u = m) \<and> list_all P v \<and> length v \<le> n - m)"
    by (simp add: between_def matches_Seq matches_exactly_class matches_up_to_class)
  also have "\<dots> \<longleftrightarrow> list_all P s \<and> m \<le> length s \<and> length s \<le> n" (is "?l \<longleftrightarrow> ?r")
  proof
    assume ?r
    then have "s = take m s @ drop m s \<and> (list_all P (take m s) \<and> length (take m s) = m)
        \<and> list_all P (drop m s) \<and> length (drop m s) \<le> n - m"
      by (auto simp: list_all_iff dest: in_set_takeD in_set_dropD)
    then show ?l by blast
  qed (use mn in auto)
  finally show ?thesis .
qed

text \<open>Every character of a match satisfies any predicate that all classes of the expression imply.\<close>

fun all_classes :: "(char \<Rightarrow> bool) \<Rightarrow> regex \<Rightarrow> bool" where
  "all_classes Q (Class P) \<longleftrightarrow> (\<forall>c. P c \<longrightarrow> Q c)"
| "all_classes Q (Seq r s) \<longleftrightarrow> all_classes Q r \<and> all_classes Q s"
| "all_classes Q (Alt r s) \<longleftrightarrow> all_classes Q r \<and> all_classes Q s"
| "all_classes Q (Many r) \<longleftrightarrow> all_classes Q r"
| "all_classes Q Empty \<longleftrightarrow> True"
| "all_classes Q Never \<longleftrightarrow> True"

lemma matches_all_classes: "matches r s \<Longrightarrow> all_classes Q r \<Longrightarrow> list_all Q s"
  by (induction rule: matches.induct) auto

end
