(* ===== verification/Installer_Paths.thy ===== *)
theory Installer_Paths
  imports Regex
begin

text \<open>
  Installer path validation and approved-root matching of \<^verbatim>\<open>services/applications/paths.py\<close>. An error is
  the message of the \<^verbatim>\<open>ValueError\<close> raised. The lemmas show that an accepted path has no traversal, and
  that root matching respects segment boundaries.
\<close>

abbreviation bs :: char where
  "bs \<equiv> CHR 0x5C"

datatype InstallerType = MSI | EXE | POWERSHELL

fun installer_type_value :: "InstallerType \<Rightarrow> string" where
  "installer_type_value MSI = ''MSI''"
| "installer_type_value EXE = ''EXE''"
| "installer_type_value POWERSHELL = ''POWERSHELL''"

definition segment_char :: "char \<Rightarrow> bool" where
  "segment_char c = (c \<notin> {bs, CHR ''/'', CHR '':'', CHR ''*'', CHR ''?'', CHR 0x22, CHR ''<'', CHR ''>'', CHR ''|''}
     \<and> 31 < (of_char c :: nat))"

definition SEGMENT :: regex where
  "SEGMENT = many1 (Class segment_char)"

definition UNC_PATH_PATTERN :: regex where
  "UNC_PATH_PATTERN =
     Seq (lit bs) (Seq (lit bs) (Seq (Class is_alnum)
       (Seq (optional (Seq (between 0 251 (Class (\<lambda>c. is_alnum c \<or> c = CHR ''.'' \<or> c = CHR ''-''))) (Class is_alnum)))
         (Seq (lit bs) (Seq SEGMENT (Many (Seq (lit bs) SEGMENT)))))))"

definition DRIVE_PATH_PATTERN :: regex where
  "DRIVE_PATH_PATTERN =
     Seq (Class (\<lambda>c. is_lower_char c \<or> is_upper_char c)) (Seq (lit (CHR '':'')) (Seq (lit bs)
       (Seq SEGMENT (Many (Seq (lit bs) SEGMENT)))))"

definition EXPECTED_EXTENSIONS :: "InstallerType \<Rightarrow> string list" where
  "EXPECTED_EXTENSIONS t = (case t of MSI \<Rightarrow> [''.msi''] | EXE \<Rightarrow> [''.exe''] | POWERSHELL \<Rightarrow> [''.ps1''])"

definition segments :: "string \<Rightarrow> string list" where
  "segments path = filter (\<lambda>s. s \<noteq> []) (split_on bs path)"

definition validate_windows_path :: "string \<Rightarrow> string \<Rightarrow> string + string" where
  "validate_windows_path v label =
     (let path = strip v in
      if path = [] then Inl (label @ '' is required.'')
      else if CHR ''/'' \<in> set path then Inl (label @ '' must use backslashes ('' @ [bs] @ '') as separators.'')
      else if \<not> (fullmatch UNC_PATH_PATTERN path \<or> fullmatch DRIVE_PATH_PATTERN path)
      then Inl (label @ '' must be an absolute UNC path ('' @ [bs, bs] @ ''server'' @ [bs] @ ''share'' @ [bs]
        @ ''...) or drive path (C:'' @ [bs] @ ''...) without quotes, wildcards or control characters.'')
      else if list_ex (\<lambda>s. strip s \<in> {''.'', ''..''}) (segments path)
      then Inl (label @ '' must not contain '' @ [CHR 0x27] @ ''.'' @ [CHR 0x27] @ '' or '' @ [CHR 0x27] @ ''..''
        @ [CHR 0x27] @ '' segments.'')
      else if list_ex (\<lambda>s. s \<noteq> rstrip_chars (\<lambda>c. c = CHR '' '' \<or> c = CHR ''.'') s) (segments path)
      then Inl (label @ '' segments must not end with a space or a dot.'')
      else Inr path)"

definition validate_installer_path :: "string \<Rightarrow> InstallerType option \<Rightarrow> string + string" where
  "validate_installer_path v installer_type =
     (case validate_windows_path v ''Installer path'' of
        Inl e \<Rightarrow> Inl e
      | Inr path \<Rightarrow>
          (case installer_type of
             None \<Rightarrow> Inr path
           | Some t \<Rightarrow>
               (let extensions = EXPECTED_EXTENSIONS t in
                if extensions \<noteq> [] \<and> \<not> list_ex (endswith (lower path)) extensions
                then Inl (installer_type_value t @ '' installers must point to a '' @ join_on '' or '' extensions @ '' file.'')
                else Inr path)))"

definition validate_installer_root :: "string \<Rightarrow> string + string" where
  "validate_installer_root v = validate_windows_path (rstrip_chars (\<lambda>c. c = bs) (strip v)) ''Approved installer root''"

definition normalise :: "string \<Rightarrow> string" where
  "normalise path = casefold (rstrip_chars (\<lambda>c. c = bs) (strip path))"

definition path_within_roots :: "string \<Rightarrow> string list \<Rightarrow> bool" where
  "path_within_roots path roots =
     (case validate_windows_path path ''Path'' of
        Inl _ \<Rightarrow> False
      | Inr candidate \<Rightarrow>
          list_ex (\<lambda>root. case validate_installer_root root of
              Inl _ \<Rightarrow> False
            | Inr clean \<Rightarrow> startswith (normalise candidate) (normalise clean @ [bs])) roots)"

section \<open>Lemmas\<close>

lemma not_bad_segments:
  "validate_windows_path v label = Inr p \<Longrightarrow>
     p = strip v \<and> (\<forall>s \<in> set (split_on bs p). s \<noteq> ''.'' \<and> s \<noteq> ''..'' \<and> s = rstrip_chars (\<lambda>c. c = CHR '' '' \<or> c = CHR ''.'') s)"
proof -
  assume v: "validate_windows_path v label = Inr p"
  then have p: "p = strip v" and ok: "\<not> list_ex (\<lambda>s. strip s \<in> {''.'', ''..''}) (segments p)"
      "\<not> list_ex (\<lambda>s. s \<noteq> rstrip_chars (\<lambda>c. c = CHR '' '' \<or> c = CHR ''.'') s) (segments p)"
    by (auto simp: validate_windows_path_def Let_def split: if_splits)
  have dots: "strip ''.'' = ''.''" "strip ''..'' = ''..''" by code_simp+
  have "s \<noteq> ''.'' \<and> s \<noteq> ''..'' \<and> s = rstrip_chars (\<lambda>c. c = CHR '' '' \<or> c = CHR ''.'') s" if "s \<in> set (split_on bs p)" for s
  proof (cases "s = []")
    case False
    with that have "s \<in> set (segments p)" by (simp add: segments_def)
    with ok dots show ?thesis by (auto simp: list_ex_iff)
  qed simp
  with p show ?thesis by blast
qed

text \<open>Characters of an accepted path.\<close>

definition path_char :: "char \<Rightarrow> bool" where
  "path_char c \<longleftrightarrow> c \<notin> {CHR ''/'', CHR ''*'', CHR ''?'', CHR 0x22, CHR ''<'', CHR ''>'', CHR ''|''} \<and> 31 < (of_char c :: nat)"

lemma alnum_path_char: "is_alnum c \<Longrightarrow> path_char c"
  by (auto simp: is_alnum_def is_digit_def is_lower_char_def is_upper_char_def path_char_def Let_def)


lemma all_classes_up_to: "all_classes Q r \<Longrightarrow> all_classes Q (up_to n r)"
  by (induction n) (auto simp: optional_def)

lemma unc_path_chars: "all_classes path_char UNC_PATH_PATTERN"
proof -
  have "all_classes path_char (between 0 251 (Class (\<lambda>c. is_alnum c \<or> c = CHR ''.'' \<or> c = CHR ''-'')))"
    unfolding between_def using alnum_path_char by (auto intro!: all_classes_up_to simp: path_char_def)
  then show ?thesis
    using alnum_path_char
    by (auto simp: UNC_PATH_PATTERN_def SEGMENT_def many1_def lit_def optional_def segment_char_def path_char_def)
qed

lemma drive_path_chars: "all_classes path_char DRIVE_PATH_PATTERN"
  by (auto simp: DRIVE_PATH_PATTERN_def SEGMENT_def many1_def lit_def optional_def segment_char_def path_char_def
      is_lower_char_def is_upper_char_def Let_def)

section \<open>Properties\<close>

text \<open>
  C37. A path is inside an approved root exactly when the path segments of the normalised root are a
  proper prefix of those of the normalised path: a root never approves a sibling that only shares
  leading characters.
\<close>

theorem approved_root_respects_segments:
  "path_within_roots path roots \<longleftrightarrow>
     (\<exists>root \<in> set roots. \<exists>p r rest. validate_windows_path path ''Path'' = Inr p \<and> validate_installer_root root = Inr r
        \<and> rest \<noteq> [] \<and> split_on bs (normalise p) = split_on bs (normalise r) @ rest)"
  unfolding path_within_roots_def list_ex_iff
  unfolding case_error_False startswith_segment_iff by blast

text \<open>
  A path the validation accepts is the stripped input and has no traversal: none of its segments is
  a dot or dot-dot or ends with a space or a dot, and it contains no quote, wildcard, slash,
  redirection or control character.
\<close>

theorem validated_path_is_safe:
  assumes "validate_windows_path v label = Inr p"
  shows "p = strip v \<and> list_all path_char p
    \<and> (\<forall>s \<in> set (split_on bs p). s \<noteq> ''.'' \<and> s \<noteq> ''..'' \<and> s = rstrip_chars (\<lambda>c. c = CHR '' '' \<or> c = CHR ''.'') s)"
proof -
  have "fullmatch UNC_PATH_PATTERN p \<or> fullmatch DRIVE_PATH_PATTERN p"
    using assms by (auto simp: validate_windows_path_def Let_def split: if_splits)
  then have "list_all path_char p"
    using matches_all_classes unc_path_chars drive_path_chars by (auto simp: fullmatch_iff)
  with not_bad_segments [OF assms] show ?thesis by blast
qed

theorem validated_path_is_safe_witness:
  "case validate_windows_path (''C:'' @ [bs] @ ''apps'' @ [bs] @ ''setup.msi'') ''Path'' of
     Inr p \<Rightarrow> list_all path_char p | Inl _ \<Rightarrow> False"
proof -
  have "validate_windows_path (''C:'' @ [bs] @ ''apps'' @ [bs] @ ''setup.msi'') ''Path''
      = Inr (''C:'' @ [bs] @ ''apps'' @ [bs] @ ''setup.msi'')" by code_simp
  with validated_path_is_safe [OF this] show ?thesis by simp
qed

end
