(* ===== verification/Py_Text.thy ===== *)
theory Py_Text
  imports Infra_Prelude Py_Float
begin

text \<open>
  Python's \<^verbatim>\<open>repr\<close> and \<^verbatim>\<open>str\<close> of the values that occur in JSON columns, on ASCII text, and the fixed-point
  formats \<^verbatim>\<open>:.0f\<close> and \<^verbatim>\<open>:.1f\<close>.
\<close>

definition hex_nibble :: "nat \<Rightarrow> char" where
  "hex_nibble n = char_of (if n < 10 then 48 + n else 87 + n)"

definition repr_char :: "char \<Rightarrow> char \<Rightarrow> string" where
  "repr_char q c =
     (let n = of_char c :: nat in
      if c = q \<or> n = 92 then [CHR 0x5C, c]
      else if n = 10 then [CHR 0x5C, CHR ''n'']
      else if n = 13 then [CHR 0x5C, CHR ''r'']
      else if n = 9 then [CHR 0x5C, CHR ''t'']
      else if n < 32 \<or> n = 127 then [CHR 0x5C, CHR ''x'', hex_nibble (n div 16), hex_nibble (n mod 16)]
      else [c])"

definition py_repr :: "string \<Rightarrow> string" where
  "py_repr s =
     (let q = (if CHR 0x27 \<in> set s \<and> CHR 0x22 \<notin> set s then CHR 0x22 else CHR 0x27)
      in [q] @ concat (map (repr_char q) s) @ [q])"

lemma size_json_pair [termination_simp]:
  "kv \<in> set kvs \<Longrightarrow> size (snd kv) < Suc (size_list (size_prod (\<lambda>_. 0) size) kvs)"
proof (induction kvs)
  case (Cons a kvs)
  then show ?case by (cases a) (auto simp: less_Suc_eq_le)
qed simp

fun py_repr_json :: "json \<Rightarrow> string" where
  "py_repr_json JNull = ''None''"
| "py_repr_json (JBool b) = (if b then ''True'' else ''False'')"
| "py_repr_json (JInt i) = int_text i"
| "py_repr_json (JFloat q) = float_repr q"
| "py_repr_json (JStr s) = py_repr s"
| "py_repr_json (JList xs) = ''['' @ join_on '', '' (map py_repr_json xs) @ '']''"
| "py_repr_json (JObj kvs) = ''{'' @ join_on '', '' (map (\<lambda>kv. py_repr (fst kv) @ '': '' @ py_repr_json (snd kv)) kvs) @ ''}''"

definition py_str :: "json \<Rightarrow> string" where
  "py_str v = (case v of JStr s \<Rightarrow> s | _ \<Rightarrow> py_repr_json v)"

text \<open>\<^verbatim>\<open>str(v or "")\<close> and \<^verbatim>\<open>str(d.get(key) or "")\<close>\<close>

definition str_or_empty :: "json \<Rightarrow> string" where
  "str_or_empty v = (if truthy v then py_str v else [])"

definition get_text :: "json_dict \<Rightarrow> string \<Rightarrow> string" where
  "get_text d key = (case map_of d key of None \<Rightarrow> [] | Some v \<Rightarrow> str_or_empty v)"

text \<open>\<^verbatim>\<open>for x in v\<close> and \<^verbatim>\<open>for x in (v or [])\<close>: the items; \<^term>\<open>None\<close> when the value is not iterable.\<close>

definition json_items :: "json \<Rightarrow> json list option" where
  "json_items v =
     (case v of
        JList xs \<Rightarrow> Some xs
      | JStr s \<Rightarrow> Some (map (\<lambda>c. JStr [c]) s)
      | JObj kvs \<Rightarrow> Some (map (JStr \<circ> fst) kvs)
      | _ \<Rightarrow> None)"

definition json_iter :: "json option \<Rightarrow> json list option" where
  "json_iter v = (case v of None \<Rightarrow> Some [] | Some w \<Rightarrow> if truthy w then json_items w else Some [])"

text \<open>Fixed-point text of a finite float: round half to even on the exact value.\<close>

definition fixed_0 :: "rat \<Rightarrow> string" where
  "fixed_0 q = (if q < 0 then ''-'' else []) @ nat_text (nat (round_half_even \<bar>q\<bar>))"

definition fixed_1 :: "rat \<Rightarrow> string" where
  "fixed_1 q =
     (let t = nat (round_half_even (\<bar>q\<bar> * 10))
      in (if q < 0 then ''-'' else []) @ nat_text (t div 10) @ ''.'' @ nat_text (t mod 10))"

section \<open>Splitting\<close>

text \<open>\<^verbatim>\<open>s.rpartition(sep)\<close> for one character: what precedes the last separator (\<^term>\<open>None\<close> without one), and what follows.\<close>

definition rpartition :: "char \<Rightarrow> string \<Rightarrow> string option \<times> string" where
  "rpartition sep s =
     (if sep \<notin> set s then (None, s)
      else let rest = takeWhile (\<lambda>c. c \<noteq> sep) (rev s) in (Some (take (length s - length rest - 1) s), rev rest))"

text \<open>\<^verbatim>\<open>s.split()\<close>.\<close>

fun words_from :: "string \<Rightarrow> string \<Rightarrow> string list" where
  "words_from word [] = (if word = [] then [] else [rev word])"
| "words_from word (c # cs) =
     (if is_space c then (if word = [] then words_from [] cs else rev word # words_from [] cs)
      else words_from (c # word) cs)"

definition words :: "string \<Rightarrow> string list" where
  "words s = words_from [] s"

section \<open>UUIDs\<close>

text \<open>\<^verbatim>\<open>s.replace(p, '')\<close>.\<close>

function remove_all :: "string \<Rightarrow> string \<Rightarrow> string" where
  "remove_all p [] = []"
| "remove_all p (c # cs) =
     (if p \<noteq> [] \<and> startswith (c # cs) p then remove_all p (drop (length p) (c # cs)) else c # remove_all p cs)"
  by pat_completeness auto
termination by (relation "measure (length \<circ> snd)") auto

text \<open>
  \<^verbatim>\<open>uuid.UUID(s)\<close>, as canonical text; \<^term>\<open>None\<close> is the \<^verbatim>\<open>ValueError\<close>. Text of 32 characters that are not all
  hexadecimal digits is rejected.
\<close>

definition canonical_uuid :: "string \<Rightarrow> uuid" where
  "canonical_uuid h = join_on ''-'' [take 8 h, take 4 (drop 8 h), take 4 (drop 12 h), take 4 (drop 16 h), drop 20 h]"

definition parse_uuid :: "string \<Rightarrow> uuid option" where
  "parse_uuid s =
     (let h = remove_all ''-'' (strip_chars (\<lambda>c. c \<in> {CHR ''{'', CHR ''}''}) (remove_all ''uuid:'' (remove_all ''urn:'' s)))
      in if length h = 32 \<and> list_all is_hex_digit h then Some (canonical_uuid (lower h)) else None)"

end
