(* ===== verification/Indexed_Table.thy ===== *)
theory Indexed_Table
  imports Infra_Prelude
begin

text \<open>
  The contract of a PostgreSQL table with a primary key and unique indexes, as an interface: rows have
  a key, and two rows with different keys may clash (they would violate a unique index together). A
  table is consistent when keys are distinct and no two rows clash. The lemmas say which ways of
  writing a table keep it consistent; they are interpreted for the job table and for the refresh
  token table.
\<close>

locale indexed_table =
  fixes key :: "'r \<Rightarrow> 'k"
    and clash :: "'r \<Rightarrow> 'r \<Rightarrow> bool"
  assumes clash_sym: "clash a b \<Longrightarrow> clash b a"
begin

definition consistent :: "'r list \<Rightarrow> bool" where
  "consistent tbl \<longleftrightarrow> distinct (map key tbl)
     \<and> (\<forall>a \<in> set tbl. \<forall>b \<in> set tbl. key a \<noteq> key b \<longrightarrow> \<not> clash a b)"

lemma consistent_Nil: "consistent []"
  by (simp add: consistent_def)

lemma consistent_distinct: "consistent tbl \<Longrightarrow> distinct (map key tbl)"
  by (simp add: consistent_def)

lemma consistent_no_clash:
  "consistent tbl \<Longrightarrow> a \<in> set tbl \<Longrightarrow> b \<in> set tbl \<Longrightarrow> clash a b \<Longrightarrow> key a = key b"
  by (auto simp: consistent_def)

lemma consistent_key_inj:
  "consistent tbl \<Longrightarrow> a \<in> set tbl \<Longrightarrow> b \<in> set tbl \<Longrightarrow> key a = key b \<Longrightarrow> a = b"
  by (auto simp: consistent_def distinct_map inj_on_def)

text \<open>An update that keeps every key and introduces no clash.\<close>

lemma consistent_map:
  assumes "consistent tbl"
    and key: "\<And>r. r \<in> set tbl \<Longrightarrow> key (f r) = key r"
    and clash: "\<And>a b. a \<in> set tbl \<Longrightarrow> b \<in> set tbl \<Longrightarrow> key a \<noteq> key b \<Longrightarrow> clash (f a) (f b) \<Longrightarrow> clash a b"
  shows "consistent (map f tbl)"
proof -
  have "map key (map f tbl) = map key tbl" using key by simp
  then have "distinct (map key (map f tbl))" using assms(1) by (simp only: consistent_def)
  moreover have "\<not> clash (f a) (f b)" if "a \<in> set tbl" "b \<in> set tbl" "key (f a) \<noteq> key (f b)" for a b
    using that assms(1) key clash unfolding consistent_def by metis
  ultimately show ?thesis unfolding consistent_def by auto
qed

lemma consistent_snoc:
  assumes "consistent tbl" and "key r \<notin> key ` set tbl" and "\<And>a. a \<in> set tbl \<Longrightarrow> \<not> clash r a"
  shows "consistent (tbl @ [r])"
  using assms clash_sym unfolding consistent_def by auto

lemma consistent_filter: "consistent tbl \<Longrightarrow> consistent (filter P tbl)"
  by (auto simp: consistent_def distinct_map_filter)

text \<open>Replace the row with a given key by a row that clashes with no other row.\<close>

lemma consistent_replace:
  assumes "consistent tbl" and "\<And>a. a \<in> set tbl \<Longrightarrow> key a \<noteq> key r \<Longrightarrow> \<not> clash r a"
  shows "consistent (map (\<lambda>a. if key a = key r then r else a) tbl)"
proof (rule consistent_map [OF assms(1)])
  fix a b
  assume "a \<in> set tbl" "b \<in> set tbl" "key a \<noteq> key b"
    and "clash (if key a = key r then r else a) (if key b = key r then r else b)"
  then show "clash a b" using assms(2) clash_sym by (auto split: if_splits)
qed simp

end

end
