(* ===== verification/Job_Repository.thy ===== *)
theory Job_Repository
  imports Job_Model Indexed_Table
begin

text \<open>
  \<^verbatim>\<open>JobRepository\<close> of \<^verbatim>\<open>repositories/jobs.py\<close> over the \<^verbatim>\<open>provisioning_jobs\<close> table. The table is a list of
  rows. PostgreSQL's part is made explicit: the primary key, the unique idempotency key and the two
  partial unique indexes are checked when a row is written (\<open>flush_row\<close>, \<open>insert_row\<close>), a row written
  has its \<^verbatim>\<open>updated_at\<close> refreshed, and rows locked by concurrent transactions are an argument of the
  \<^verbatim>\<open>SKIP LOCKED\<close> queries. Rows with equal \<^verbatim>\<open>queued_at\<close>, which SQL may return in any order, keep table
  order. The clock is an argument (\<open>now\<close>).
\<close>

type_synonym job_table = "ProvisioningJob list"

section \<open>Unique indexes\<close>

datatype db_constraint =
    PK_JOB
  | IDEMPOTENCY_CONSTRAINT
  | VM_NAME_INDEX
  | IPV4_INDEX

definition is_active :: "ProvisioningJob \<Rightarrow> bool" where
  "is_active j = (job_status j \<in> set ACTIVE_JOB_STATUSES)"

text \<open>
  The constraints two different rows would violate together. PostgreSQL checks a row that is written against one unique
  index after the other, in the order in which they were created.
\<close>

definition violates :: "db_constraint \<Rightarrow> ProvisioningJob \<Rightarrow> ProvisioningJob \<Rightarrow> bool" where
  "violates c a b =
     (case c of
        PK_JOB \<Rightarrow> job_id a = job_id b
      | IDEMPOTENCY_CONSTRAINT \<Rightarrow> idempotency_key a \<noteq> None \<and> idempotency_key a = idempotency_key b
      | VM_NAME_INDEX \<Rightarrow> is_active a \<and> is_active b \<and> lower (job_vm_name a) = lower (job_vm_name b)
      | IPV4_INDEX \<Rightarrow> is_active a \<and> is_active b \<and> reserved_ipv4 a \<noteq> None \<and> reserved_ipv4 a = reserved_ipv4 b)"

definition INDEX_ORDER :: "db_constraint list" where
  "INDEX_ORDER = [IDEMPOTENCY_CONSTRAINT, VM_NAME_INDEX, IPV4_INDEX]"

definition first_conflict :: "ProvisioningJob \<Rightarrow> job_table \<Rightarrow> db_constraint option" where
  "first_conflict j tbl = find (\<lambda>c. list_ex (violates c j) tbl) INDEX_ORDER"

definition other_rows :: "uuid \<Rightarrow> job_table \<Rightarrow> job_table" where
  "other_rows jid tbl = filter (\<lambda>r. job_id r \<noteq> jid) tbl"

text \<open>Write an existing row back (\<^verbatim>\<open>UPDATE ... WHERE id\<close>), or fail with the violated constraint.\<close>

definition flush_row :: "timestamp \<Rightarrow> ProvisioningJob \<Rightarrow> job_table \<Rightarrow> db_constraint + job_table" where
  "flush_row now j tbl =
     (case first_conflict j (other_rows (job_id j) tbl) of
        Some c \<Rightarrow> Inl c
      | None \<Rightarrow> Inr (map (\<lambda>r. if job_id r = job_id j then j\<lparr>updated_at := now\<rparr> else r) tbl))"

definition insert_row :: "ProvisioningJob \<Rightarrow> job_table \<Rightarrow> db_constraint + job_table" where
  "insert_row j tbl =
     (if job_id j \<in> job_id ` set tbl then Inl PK_JOB
      else case first_conflict j tbl of Some c \<Rightarrow> Inl c | None \<Rightarrow> Inr (tbl @ [j]))"

section \<open>Creation\<close>

definition find_by_idempotency_key :: "string \<Rightarrow> job_table \<Rightarrow> ProvisioningJob option" where
  "find_by_idempotency_key key tbl = find (\<lambda>j. idempotency_key j = Some key) tbl"

definition has_active_job_for_vm :: "string \<Rightarrow> uuid option \<Rightarrow> job_table \<Rightarrow> bool" where
  "has_active_job_for_vm vm_name exclude_job_id tbl =
     (0 < length (filter (\<lambda>j. lower (job_vm_name j) = lower vm_name \<and> job_status j \<in> set ACTIVE_JOB_STATUSES
        \<and> (exclude_job_id = None \<or> exclude_job_id \<noteq> Some (job_id j))) tbl))"

definition has_ipv4_reservation :: "string \<Rightarrow> uuid option \<Rightarrow> job_table \<Rightarrow> bool" where
  "has_ipv4_reservation address exclude_job_id tbl =
     (0 < length (filter (\<lambda>j. reserved_ipv4 j = Some address \<and> job_status j \<in> set IP_RESERVING_JOB_STATUSES
        \<and> (exclude_job_id = None \<or> exclude_job_id \<noteq> Some (job_id j))) tbl))"

definition create_job ::
  "timestamp \<Rightarrow> uuid \<Rightarrow> string \<Rightarrow> string \<Rightarrow> uuid option \<Rightarrow> string option \<Rightarrow> json \<Rightarrow> string option
     \<Rightarrow> string option \<Rightarrow> job_table \<Rightarrow> db_constraint + (ProvisioningJob \<times> job_table)" where
  "create_job now new_id vm_name datacenter_id requested_by idem_key payload fingerprint ipv4 tbl =
     (let job = (new_job_row new_id vm_name now)
          \<lparr>job_datacenter_id := Some datacenter_id, requested_by_user_id := requested_by,
           idempotency_key := idem_key, job_fingerprint := fingerprint, reserved_ipv4 := ipv4,
           request_payload := Some payload\<rparr>
      in case insert_row job tbl of Inl c \<Rightarrow> Inl c | Inr tbl' \<Rightarrow> Inr (job, tbl'))"

section \<open>Queue operations\<close>

definition due_jobs :: "int \<Rightarrow> timestamp \<Rightarrow> uuid set \<Rightarrow> job_table \<Rightarrow> ProvisioningJob list" where
  "due_jobs limit now locked tbl =
     take (nat limit) (sort_key queued_at
       (filter (\<lambda>j. job_status j = J_QUEUED \<and> queued_at j \<le> now \<and> job_id j \<notin> locked) tbl))"

definition mark_claimed :: "timestamp \<Rightarrow> string \<Rightarrow> ProvisioningJob \<Rightarrow> ProvisioningJob" where
  "mark_claimed now wid j =
     j\<lparr>job_status := J_RUNNING, worker_id := Some wid, heartbeat_at := Some now,
       started_at := (case started_at j of None \<Rightarrow> Some now | Some t \<Rightarrow> Some t), updated_at := now\<rparr>"

definition claim_due_jobs ::
  "int \<Rightarrow> string \<Rightarrow> timestamp \<Rightarrow> uuid set \<Rightarrow> job_table \<Rightarrow> ProvisioningJob list \<times> job_table" where
  "claim_due_jobs limit wid now locked tbl =
     (if limit \<le> 0 then ([], tbl)
      else let due = due_jobs limit now locked tbl; ids = job_id ` set due
           in (map (mark_claimed now wid) due,
               map (\<lambda>j. if job_id j \<in> ids then mark_claimed now wid j else j) tbl))"

definition owns_running :: "uuid \<Rightarrow> string \<Rightarrow> ProvisioningJob \<Rightarrow> bool" where
  "owns_running jid wid j = (job_id j = jid \<and> worker_id j = Some wid \<and> job_status j = J_RUNNING)"

definition heartbeat ::
  "uuid \<Rightarrow> string \<Rightarrow> timestamp \<Rightarrow> job_table \<Rightarrow> bool option \<times> job_table" where
  "heartbeat jid wid now tbl =
     (case find (owns_running jid wid) tbl of
        Some row \<Rightarrow>
          (Some (cancel_requested row),
           map (\<lambda>j. if owns_running jid wid j then j\<lparr>heartbeat_at := Some now, updated_at := now\<rparr> else j) tbl)
      | None \<Rightarrow>
          (case find (\<lambda>j. job_id j = jid) tbl of
             Some current \<Rightarrow>
               (if worker_id current = Some wid \<and> job_status current \<in> TERMINAL_JOB_STATUSES
                then Some False else None, tbl)
           | None \<Rightarrow> (None, tbl)))"

definition claim_stale_running_jobs ::
  "timestamp \<Rightarrow> nat \<Rightarrow> uuid list \<Rightarrow> uuid set \<Rightarrow> job_table \<Rightarrow> ProvisioningJob list" where
  "claim_stale_running_jobs stale_before limit exclude_ids locked tbl =
     take limit (sort_key queued_at
       (filter (\<lambda>j. job_status j = J_RUNNING
          \<and> (case heartbeat_at j of Some h \<Rightarrow> h | None \<Rightarrow> updated_at j) < stale_before
          \<and> job_id j \<notin> set exclude_ids \<and> job_id j \<notin> locked) tbl))"

section \<open>Queries\<close>

definition get_job :: "uuid \<Rightarrow> job_table \<Rightarrow> ProvisioningJob option" where
  "get_job jid tbl = find (\<lambda>j. job_id j = jid) tbl"

text \<open>SQL \<^verbatim>\<open>LIKE\<close>: percent matches any text, underscore one character, backslash escapes.\<close>

fun sql_like :: "string \<Rightarrow> string \<Rightarrow> bool" where
  "sql_like [] s = (s = [])"
| "sql_like (p # ps) [] = (p = CHR ''%'' \<and> sql_like ps [])"
| "sql_like (p # ps) (c # s) =
     (if p = CHR ''%'' then sql_like ps (c # s) \<or> sql_like (p # ps) s
      else case (p = CHR 0x5C, ps) of
        (True, q # qs) \<Rightarrow> c = q \<and> sql_like qs s
      | _ \<Rightarrow> (p = CHR ''_'' \<or> p = c) \<and> sql_like ps s)"

definition list_jobs ::
  "nat \<Rightarrow> nat \<Rightarrow> JobStatus option \<Rightarrow> string option \<Rightarrow> job_table \<Rightarrow> ProvisioningJob list \<times> nat" where
  "list_jobs page page_size status_filter vm_name_contains tbl =
     (let matching = filter (\<lambda>j. (status_filter = None \<or> status_filter = Some (job_status j))
            \<and> (\<not> truthy_text vm_name_contains
               \<or> sql_like (lower (''%'' @ the vm_name_contains @ ''%'')) (lower (job_vm_name j)))) tbl
      in (take page_size (drop ((page - 1) * page_size) (sort_key (\<lambda>j. - queued_at j) matching)),
          length matching))"

section \<open>Steps\<close>

fun missing_steps ::
  "string set \<Rightarrow> nat \<Rightarrow> (string \<times> string \<times> bool) list \<Rightarrow> ProvisioningJobStep list" where
  "missing_steps existing sq [] = []"
| "missing_steps existing sq ((key, name, retryable) # defs) =
     (if key \<in> existing then missing_steps existing (Suc sq) defs
      else new_step_row key name sq retryable # missing_steps existing (Suc sq) defs)"

definition ensure_steps ::
  "(string \<times> string \<times> bool) list \<Rightarrow> ProvisioningJob \<Rightarrow> ProvisioningJob" where
  "ensure_steps defs j =
     j\<lparr>steps := sort_key sequence (steps j @ missing_steps (stage_key ` set (steps j)) 0 defs)\<rparr>"

definition step_by_key :: "uuid \<Rightarrow> string \<Rightarrow> job_table \<Rightarrow> ProvisioningJobStep option" where
  "step_by_key jid key tbl = (case get_job jid tbl of None \<Rightarrow> None | Some j \<Rightarrow> step_of key j)"

section \<open>Progress\<close>

definition actionable :: "ProvisioningJob \<Rightarrow> ProvisioningJobStep list" where
  "actionable j = filter (\<lambda>s. step_status s \<notin> {S_SKIPPED, S_NOT_APPLICABLE}) (steps j)"

text \<open>
  \<^verbatim>\<open>done + 0.5 * running\<close> is a multiple of one half and exact in binary64; the division and the
  multiplication by 100 are rounded.
\<close>

definition compute_progress :: "ProvisioningJob \<Rightarrow> int" where
  "compute_progress j =
     (let todo = actionable j in
      if todo = [] then 0
      else let
        finished = length (filter (\<lambda>s. step_status s \<in> {S_SUCCEEDED, S_WARNING, S_CANCELLED}) todo);
        running = length (filter (\<lambda>s. step_status s = S_RUNNING) todo);
        percent = py_int (double (double ((of_nat finished + 1 / 2 * of_nat running) / of_nat (length todo)) * 100))
      in max 0 (min 100 percent))"

definition is_terminal :: "JobStatus \<Rightarrow> bool" where
  "is_terminal s = (s \<in> TERMINAL_JOB_STATUSES)"

section \<open>Retry and cancel\<close>

definition retry_eligible :: "JobStatus \<Rightarrow> string list option \<Rightarrow> ProvisioningJobStep \<Rightarrow> bool" where
  "retry_eligible jstatus keys s =
     ((step_status s \<in> {S_FAILED, S_CANCELLED, S_RUNNING} \<and> (step_status s \<noteq> S_RUNNING \<or> jstatus = J_INTERRUPTED))
      \<and> (case keys of None \<Rightarrow> True | Some ks \<Rightarrow> stage_key s \<in> set ks))"

definition reset_steps :: "string list option \<Rightarrow> ProvisioningJob \<Rightarrow> string list \<times> ProvisioningJob" where
  "reset_steps keys j =
     (map stage_key (filter (retry_eligible (job_status j) keys) (steps j)),
      j\<lparr>steps := map (\<lambda>s. if retry_eligible (job_status j) keys s then s\<lparr>step_status := S_PENDING\<rparr> else s)
                  (steps j)\<rparr>)"

definition requeue :: "timestamp \<Rightarrow> ProvisioningJob \<Rightarrow> ProvisioningJob" where
  "requeue now j =
     (let j' = j\<lparr>job_status := J_QUEUED, cancel_requested := False, worker_id := None, heartbeat_at := None,
                 error_summary := None, error_detail := None, finished_at := None,
                 duration_seconds := None, queued_at := now\<rparr>
      in j'\<lparr>progress := compute_progress j'\<rparr>)"

text \<open>Returns the reset keys, the job as changed in the session, and the table after the commit.\<close>

definition reset_for_retry ::
  "timestamp \<Rightarrow> string list option \<Rightarrow> ProvisioningJob \<Rightarrow> job_table
     \<Rightarrow> db_constraint + (string list \<times> ProvisioningJob \<times> job_table)" where
  "reset_for_retry now keys j tbl =
     (let (reset, j') = reset_steps keys j in
      if reset = [] then Inr ([], j', tbl)
      else let j'' = requeue now j' in
        case flush_row now j'' tbl of Inl c \<Rightarrow> Inl c | Inr tbl' \<Rightarrow> Inr (reset, j'', tbl'))"

definition may_hold_unattended_media :: "ProvisioningJob \<Rightarrow> bool" where
  "may_hold_unattended_media j =
     (let prepare = step_of ''prepare_unattended_install'' j;
          cleanup = step_of ''cleanup_unattended_media'' j;
          arts = (case prepare of None \<Rightarrow> [] | Some p \<Rightarrow> artifacts p)
      in dict_truthy arts ''datastore_path'' \<and> \<not> dict_truthy arts ''media_removed''
         \<and> (case cleanup of None \<Rightarrow> True | Some c \<Rightarrow> step_status c \<noteq> S_SUCCEEDED))"

definition cancel_open_steps :: "ProvisioningJob \<Rightarrow> ProvisioningJob" where
  "cancel_open_steps j =
     j\<lparr>steps := map (\<lambda>s. if step_status s \<in> {S_PENDING, S_RUNNING} then s\<lparr>step_status := S_CANCELLED\<rparr> else s)
                 (steps j)\<rparr>"

definition request_cancel :: "timestamp \<Rightarrow> ProvisioningJob \<Rightarrow> ProvisioningJob" where
  "request_cancel now j =
     (let j' = j\<lparr>cancel_requested := True\<rparr> in
      if job_status j' \<in> {J_QUEUED, J_INTERRUPTED}
      then cancel_open_steps (j'\<lparr>job_status := J_CANCELLED, finished_at := Some now\<rparr>)
      else j')"

section \<open>The unique indexes as an indexed table\<close>

definition job_clash :: "ProvisioningJob \<Rightarrow> ProvisioningJob \<Rightarrow> bool" where
  "job_clash a b \<longleftrightarrow> list_ex (\<lambda>c. violates c a b) INDEX_ORDER"

lemma violates_sym: "violates c a b = violates c b a"
  unfolding violates_def by (cases c) (simp_all, metis+)

interpretation job_rows: indexed_table job_id job_clash
  by unfold_locales (simp add: job_clash_def violates_sym)

abbreviation unique_jobs :: "job_table \<Rightarrow> bool" where
  "unique_jobs \<equiv> job_rows.consistent"

lemma job_clash_iff:
  "job_clash a b \<longleftrightarrow> (\<exists>k. idempotency_key a = Some k \<and> idempotency_key b = Some k)
     \<or> is_active a \<and> is_active b \<and> (lower (job_vm_name a) = lower (job_vm_name b)
          \<or> (\<exists>ip. reserved_ipv4 a = Some ip \<and> reserved_ipv4 b = Some ip))"
  by (cases "idempotency_key a"; cases "reserved_ipv4 a") (auto simp: job_clash_def INDEX_ORDER_def violates_def)

text \<open>A row that becomes inactive, or stays as active as it was, creates no clash.\<close>

lemma job_clash_weaken:
  "job_clash a' b' \<Longrightarrow> (is_active a' \<Longrightarrow> is_active a) \<Longrightarrow> (is_active b' \<Longrightarrow> is_active b)
     \<Longrightarrow> job_vm_name a' = job_vm_name a \<Longrightarrow> job_vm_name b' = job_vm_name b
     \<Longrightarrow> reserved_ipv4 a' = reserved_ipv4 a \<Longrightarrow> reserved_ipv4 b' = reserved_ipv4 b
     \<Longrightarrow> idempotency_key a' = idempotency_key a \<Longrightarrow> idempotency_key b' = idempotency_key b
     \<Longrightarrow> job_clash a b"
  unfolding job_clash_iff by auto

lemma first_conflict_None: "first_conflict j tbl = None \<longleftrightarrow> (\<forall>r \<in> set tbl. \<not> job_clash j r)"
  by (auto simp: first_conflict_def job_clash_def find_None_iff list_ex_iff)

lemma first_conflict_Nil [simp]: "first_conflict j [] = None"
  by (simp add: first_conflict_None)

lemma insert_row_unique: "unique_jobs tbl \<Longrightarrow> insert_row j tbl = Inr tbl' \<Longrightarrow> unique_jobs tbl'"
  by (auto simp: insert_row_def first_conflict_None intro: job_rows.consistent_snoc
      split: if_splits option.splits)

lemma flush_row_unique: "unique_jobs tbl \<Longrightarrow> flush_row now j tbl = Inr tbl' \<Longrightarrow> unique_jobs tbl'"
proof -
  assume u: "unique_jobs tbl" and f: "flush_row now j tbl = Inr tbl'"
  let ?j = "j\<lparr>updated_at := now\<rparr>"
  from f have none: "first_conflict j (other_rows (job_id j) tbl) = None"
    and t: "tbl' = map (\<lambda>r. if job_id r = job_id ?j then ?j else r) tbl"
    by (auto simp: flush_row_def split: option.splits)
  have "\<not> job_clash ?j a" if "a \<in> set tbl" "job_id a \<noteq> job_id ?j" for a
  proof -
    have "\<not> job_clash j a" using none that by (simp add: first_conflict_None other_rows_def)
    then show ?thesis using job_clash_weaken [of ?j a j a] by (auto simp: is_active_def)
  qed
  then show ?thesis using job_rows.consistent_replace [OF u, of ?j] t by simp
qed

text \<open>The two guarantees the partial unique indexes give.\<close>

lemma unique_jobs_vm_name:
  "unique_jobs tbl \<Longrightarrow> a \<in> set tbl \<Longrightarrow> b \<in> set tbl \<Longrightarrow> is_active a \<Longrightarrow> is_active b
     \<Longrightarrow> lower (job_vm_name a) = lower (job_vm_name b) \<Longrightarrow> a = b"
  by (rule job_rows.consistent_key_inj, assumption+, rule job_rows.consistent_no_clash)
    (auto simp: job_clash_iff)

lemma unique_jobs_ipv4:
  "unique_jobs tbl \<Longrightarrow> a \<in> set tbl \<Longrightarrow> b \<in> set tbl \<Longrightarrow> is_active a \<Longrightarrow> is_active b
     \<Longrightarrow> reserved_ipv4 a = Some ip \<Longrightarrow> reserved_ipv4 b = Some ip \<Longrightarrow> a = b"
  by (rule job_rows.consistent_key_inj, assumption+, rule job_rows.consistent_no_clash)
    (auto simp: job_clash_iff)

lemma mark_claimed_fields [simp, frame]:
  "job_id (mark_claimed now w j) = job_id j"
  "job_status (mark_claimed now w j) = J_RUNNING"
  "worker_id (mark_claimed now w j) = Some w"
  "heartbeat_at (mark_claimed now w j) = Some now"
  "job_vm_name (mark_claimed now w j) = job_vm_name j"
  "reserved_ipv4 (mark_claimed now w j) = reserved_ipv4 j"
  "idempotency_key (mark_claimed now w j) = idempotency_key j"
  "queued_at (mark_claimed now w j) = queued_at j"
  "steps (mark_claimed now w j) = steps j"
  "cancel_requested (mark_claimed now w j) = cancel_requested j"
  by (simp_all add: mark_claimed_def)

section \<open>Claiming\<close>

lemma due_jobs_sound:
  "j \<in> set (due_jobs limit now locked tbl)
     \<Longrightarrow> j \<in> set tbl \<and> job_status j = J_QUEUED \<and> queued_at j \<le> now \<and> job_id j \<notin> locked"
  unfolding due_jobs_def by (auto dest: in_set_takeD)

lemma due_jobs_length: "0 \<le> limit \<Longrightarrow> int (length (due_jobs limit now locked tbl)) \<le> limit"
  unfolding due_jobs_def by simp

lemma due_jobs_sorted: "sorted (map queued_at (due_jobs limit now locked tbl))"
  unfolding due_jobs_def by (simp add: take_map [symmetric] sorted_wrt_take)

lemma claim_due_jobs_unique:
  assumes u: "unique_jobs tbl"
  shows "unique_jobs (snd (claim_due_jobs limit w now locked tbl))"
proof -
  let ?ids = "job_id ` set (due_jobs limit now locked tbl)"
  let ?f = "\<lambda>j. if job_id j \<in> ?ids then mark_claimed now w j else j"
  have act: "is_active (?f j) = is_active j" if "j \<in> set tbl" for j
  proof (cases "job_id j \<in> ?ids")
    case True
    then obtain d where "d \<in> set (due_jobs limit now locked tbl)" "job_id d = job_id j" by auto
    with due_jobs_sound [of d limit now locked tbl] have "d \<in> set tbl" "job_status d = J_QUEUED" by auto
    with \<open>job_id d = job_id j\<close> that u have "job_status j = J_QUEUED"
      using job_rows.consistent_key_inj by blast
    with True show ?thesis by (simp add: is_active_def status_sets)
  qed simp
  have "unique_jobs (map ?f tbl)"
  proof (rule job_rows.consistent_map [OF u])
    fix a b
    assume "a \<in> set tbl" "b \<in> set tbl" "job_clash (?f a) (?f b)"
    then show "job_clash a b"
      by (elim job_clash_weaken) (simp_all only: act, simp_all)
  qed simp
  with u show ?thesis by (simp add: claim_due_jobs_def Let_def)
qed

lemma claim_due_jobs_row:
  "0 < limit \<Longrightarrow> set (snd (claim_due_jobs limit w now locked tbl)) =
     (\<lambda>j. if job_id j \<in> job_id ` set (due_jobs limit now locked tbl) then mark_claimed now w j else j) ` set tbl"
  by (simp add: claim_due_jobs_def Let_def)

lemma due_jobs_first:
  assumes "j \<in> set (due_jobs limit now locked tbl)" and "r \<in> set tbl" and "job_status r = J_QUEUED"
    and "queued_at r \<le> now" and "job_id r \<notin> locked" and "r \<notin> set (due_jobs limit now locked tbl)"
  shows "queued_at j \<le> queued_at r" and "length (due_jobs limit now locked tbl) = nat limit"
proof -
  let ?xs = "sort_key queued_at
    (filter (\<lambda>j. job_status j = J_QUEUED \<and> queued_at j \<le> now \<and> job_id j \<notin> locked) tbl)"
  have tk: "due_jobs limit now locked tbl = take (nat limit) ?xs" by (simp add: due_jobs_def)
  have "r \<in> set ?xs" using assms by simp
  then have "r \<in> set (take (nat limit) ?xs) \<union> set (drop (nat limit) ?xs)"
    by (simp only: set_append [symmetric] append_take_drop_id)
  then have r: "r \<in> set (drop (nat limit) ?xs)" using assms(6) by (simp only: tk Un_iff simp_thms)
  then have "length (drop (nat limit) ?xs) \<noteq> 0" by auto
  then show "length (due_jobs limit now locked tbl) = nat limit" by (simp add: tk)
  define ys where "ys = ?xs"
  have "sorted (map queued_at ys)" by (simp add: ys_def)
  then have "sorted (map queued_at (take (nat limit) ys) @ map queued_at (drop (nat limit) ys))"
    by (simp only: map_append [symmetric] append_take_drop_id)
  then have "\<forall>x \<in> set (take (nat limit) ys). \<forall>y \<in> set (drop (nat limit) ys). queued_at x \<le> queued_at y"
    by (simp add: sorted_append del: append_take_drop_id)
  moreover have "j \<in> set (take (nat limit) ys)" using assms(1) by (simp only: tk ys_def)
  moreover have "r \<in> set (drop (nat limit) ys)" using r by (simp only: ys_def)
  ultimately show "queued_at j \<le> queued_at r" by blast
qed

section \<open>Heartbeats and the reaper\<close>

lemma heartbeat_owner:
  assumes "find (owns_running jid w) tbl = Some row"
  shows "fst (heartbeat jid w now tbl) = Some (cancel_requested row)"
  using assms by (simp add: heartbeat_def)

lemma heartbeat_not_owner:
  assumes "\<forall>j \<in> set tbl. \<not> owns_running jid w j"
  shows "snd (heartbeat jid w now tbl) = tbl"
  using assms by (simp add: heartbeat_def find_None_iff_all [THEN iffD2] split: option.splits)

lemma heartbeat_unique: "unique_jobs tbl \<Longrightarrow> unique_jobs (snd (heartbeat jid w now tbl))"
proof (cases "find (owns_running jid w) tbl")
  case None
  assume "unique_jobs tbl"
  with None show ?thesis by (simp add: heartbeat_def split: option.splits)
next
  case (Some row)
  assume u: "unique_jobs tbl"
  have "unique_jobs (map (\<lambda>j. if owns_running jid w j then j\<lparr>heartbeat_at := Some now, updated_at := now\<rparr>
          else j) tbl)"
  proof (rule job_rows.consistent_map [OF u])
    fix a b
    let ?f = "\<lambda>j. if owns_running jid w j then j\<lparr>heartbeat_at := Some now, updated_at := now\<rparr> else j"
    assume "job_clash (?f a) (?f b)"
    moreover have "is_active (?f x) = is_active x" for x by (simp add: is_active_def)
    ultimately show "job_clash a b" by (elim job_clash_weaken) simp_all
  qed simp
  with Some show ?thesis by (simp add: heartbeat_def)
qed

lemma claim_stale_sound:
  "j \<in> set (claim_stale_running_jobs t limit ex locked tbl)
     \<Longrightarrow> j \<in> set tbl \<and> job_status j = J_RUNNING \<and> job_id j \<notin> set ex \<and> job_id j \<notin> locked
       \<and> (case heartbeat_at j of Some h \<Rightarrow> h | None \<Rightarrow> updated_at j) < t"
  unfolding claim_stale_running_jobs_def by (auto dest: in_set_takeD)

section \<open>Steps\<close>

lemma missing_steps_keys:
  "map stage_key (missing_steps ex sq defs) = filter (\<lambda>k. k \<notin> ex) (map fst defs)"
  by (induction ex sq defs rule: missing_steps.induct) (auto simp: new_step_row_def)

lemma missing_steps_all: "fst ` set defs \<subseteq> ex \<Longrightarrow> missing_steps ex sq defs = []"
  by (induction ex sq defs rule: missing_steps.induct) auto

lemma set_ensure_steps:
  "set (steps (ensure_steps defs j)) = set (steps j) \<union> set (missing_steps (stage_key ` set (steps j)) 0 defs)"
  by (simp add: ensure_steps_def)

lemma ensure_steps_keys:
  "stage_key ` set (steps (ensure_steps defs j)) = stage_key ` set (steps j) \<union> fst ` set defs"
proof -
  have "stage_key ` set (missing_steps ex 0 defs) = fst ` set defs - ex" for ex
    using arg_cong [OF missing_steps_keys [of ex 0 defs], of set] by auto
  then show ?thesis by (simp add: set_ensure_steps image_Un)
qed

lemma ensure_steps_distinct:
  assumes "distinct (map stage_key (steps j))" and "distinct (map fst defs)"
  shows "distinct (map stage_key (steps (ensure_steps defs j)))"
proof -
  let ?new = "missing_steps (stage_key ` set (steps j)) 0 defs"
  have d: "distinct (map stage_key ?new)" using assms(2) by (simp add: missing_steps_keys)
  have "stage_key ` set ?new \<inter> stage_key ` set (steps j) = {}"
    using arg_cong [OF missing_steps_keys [of "stage_key ` set (steps j)" 0 defs], of set] by auto
  with assms(1) d have "distinct (map stage_key (steps j @ ?new))" by auto
  then have "inj_on stage_key (set (steps j @ ?new))" and "distinct (steps j @ ?new)"
    by (simp_all only: distinct_map)
  then show ?thesis by (simp add: ensure_steps_def distinct_map)
qed

lemma ensure_steps_idem: "ensure_steps defs (ensure_steps defs j) = ensure_steps defs j"
proof -
  have "missing_steps (stage_key ` set (steps (ensure_steps defs j))) 0 defs = []"
    by (rule missing_steps_all) (auto simp: ensure_steps_keys)
  then show ?thesis by (simp add: ensure_steps_def sort_key_id_if_sorted)
qed

section \<open>Progress\<close>

definition step_finished :: "ProvisioningJobStep \<Rightarrow> bool" where
  "step_finished s \<longleftrightarrow> step_status s \<in> {S_SUCCEEDED, S_WARNING, S_CANCELLED}"

lemma compute_progress_bounds: "0 \<le> compute_progress j \<and> compute_progress j \<le> 100"
  by (simp add: compute_progress_def Let_def)

lemma two_roundings_below_100:
  assumes "0 \<le> q" and "q \<le> 1 - 2 powi (-51)"
  shows "double (double q * 100) < 100"
proof (cases "q = 0")
  case False
  with assms have q: "0 < q" by simp
  have d: "double q \<le> q * (1 + 2 powi (-53))" by (rule double_upper [OF q])
  show ?thesis
  proof (cases "double q = 0")
    case False
    with double_nonneg [OF assms(1)] have p: "0 < double q * 100" by simp
    have "double (double q * 100) \<le> double q * 100 * (1 + 2 powi (-53))" by (rule double_upper [OF p])
    also have "\<dots> \<le> q * (1 + 2 powi (-53)) * 100 * (1 + 2 powi (-53))"
      using d by (intro mult_right_mono) simp_all
    also have "\<dots> \<le> (1 - 2 powi (-51)) * (1 + 2 powi (-53)) * 100 * (1 + 2 powi (-53))"
      using assms(2) by (intro mult_right_mono) simp_all
    also have "\<dots> < (100 :: rat)" by simp
    finally show ?thesis .
  qed simp
qed simp

lemma finished_running_le:
  "length (filter step_finished xs) + length (filter (\<lambda>s. step_status s = S_RUNNING) xs) \<le> length xs"
  by (induction xs) (auto simp: step_finished_def)

lemma filter_length_eq_iff: "length (filter P xs) = length xs \<longleftrightarrow> (\<forall>x \<in> set xs. P x)"
  by (metis filter_True filter_id_conv length_filter_less linorder_neq_iff)

lemma compute_progress_alt:
  "actionable j \<noteq> [] \<Longrightarrow> compute_progress j =
     max 0 (min 100 (py_int (double (double ((of_nat (length (filter step_finished (actionable j)))
        + 1 / 2 * of_nat (length (filter (\<lambda>s. step_status s = S_RUNNING) (actionable j))))
          / of_nat (length (actionable j))) * 100))))"
  by (simp add: compute_progress_def Let_def step_finished_def [abs_def])

lemma compute_progress_100_iff:
  assumes ne: "actionable j \<noteq> []" and small: "length (actionable j) \<le> 2 ^ 50"
  shows "compute_progress j = 100 \<longleftrightarrow> (\<forall>s \<in> set (actionable j). step_finished s)"
proof -
  define n f r where "n = length (actionable j)" and "f = length (filter step_finished (actionable j))"
    and "r = length (filter (\<lambda>s. step_status s = S_RUNNING) (actionable j))"
  define q :: rat where "q = (of_nat f + 1 / 2 * of_nat r) / of_nat n"
  have n: "0 < n" using ne by (simp add: n_def)
  have fr: "f + r \<le> n" using finished_running_le by (simp add: n_def f_def r_def)
  have cp: "compute_progress j = max 0 (min 100 (py_int (double (double q * 100))))"
    using compute_progress_alt [OF ne] by (simp add: q_def f_def r_def n_def)
  have all: "f = n \<longleftrightarrow> (\<forall>s \<in> set (actionable j). step_finished s)"
    unfolding f_def n_def by (rule filter_length_eq_iff)
  show ?thesis
  proof (cases "f = n")
    case True
    with fr n have "q = 1" by (simp add: q_def)
    then have "py_int (double (double q * 100)) = 100" using py_int_of_int [of 100] by simp
    with cp True all show ?thesis by simp
  next
    case False
    have q0: "0 \<le> q" by (simp add: q_def)
    have half: "2 * f + r + 1 \<le> 2 * n" using False fr by linarith
    have "q \<le> 1 - 1 / (2 * of_nat n)"
    proof -
      have "of_nat (2 * f + r + 1) \<le> (of_nat (2 * n) :: rat)" using half by (simp only: of_nat_le_iff)
      then have "of_nat f + 1 / 2 * of_nat r \<le> (of_nat n - 1 / 2 :: rat)" by simp
      then have "q \<le> (of_nat n - 1 / 2) / of_nat n" unfolding q_def by (rule divide_right_mono) simp
      also have "\<dots> = 1 - 1 / (2 * of_nat n)" using n by (simp add: field_simps)
      finally show ?thesis .
    qed
    moreover have "(2::rat) powi (-51) \<le> 1 / (2 * of_nat n)"
    proof -
      have "of_nat n \<le> (of_nat (2 ^ 50) :: rat)" using small by (simp only: n_def of_nat_le_iff)
      then show ?thesis using n by (simp add: field_simps)
    qed
    ultimately have "double (double q * 100) < 100"
      using q0 by (intro two_roundings_below_100) linarith+
    moreover have "0 \<le> double (double q * 100)" using q0 by (intro double_nonneg mult_nonneg_nonneg) simp_all
    ultimately have "py_int (double (double q * 100)) < 100" by (simp add: py_int_nonneg floor_less_iff)
    with cp have "compute_progress j \<noteq> 100" by simp
    with False all show ?thesis by blast
  qed
qed

section \<open>Retry and cancel\<close>

lemma reset_steps_length: "length (steps (snd (reset_steps keys j))) = length (steps j)"
  by (simp add: reset_steps_def)

lemma reset_steps_keys: "map stage_key (steps (snd (reset_steps keys j))) = map stage_key (steps j)"
  by (simp add: reset_steps_def comp_def)

lemma steps_requeue [simp]: "steps (requeue now j) = steps j"
  by (simp add: requeue_def Let_def)

lemma requeue_fields [simp, frame]:
  "job_id (requeue now j) = job_id j"
  "job_status (requeue now j) = J_QUEUED"
  "worker_id (requeue now j) = None"
  "cancel_requested (requeue now j) = False"
  "job_vm_name (requeue now j) = job_vm_name j"
  by (simp_all add: requeue_def Let_def)

lemma reset_for_retry_unique:
  "unique_jobs tbl \<Longrightarrow> reset_for_retry now keys j tbl = Inr (reset, j', tbl') \<Longrightarrow> unique_jobs tbl'"
  by (auto simp: reset_for_retry_def Let_def split: prod.splits if_splits sum.splits
      dest: flush_row_unique)

lemma request_cancel_fields [simp, frame]:
  "job_id (request_cancel now j) = job_id j"
  "job_vm_name (request_cancel now j) = job_vm_name j"
  "reserved_ipv4 (request_cancel now j) = reserved_ipv4 j"
  "idempotency_key (request_cancel now j) = idempotency_key j"
  "cancel_requested (request_cancel now j)"
  by (simp_all add: request_cancel_def cancel_open_steps_def Let_def)

section \<open>Properties\<close>

definition claimed_ids :: "int \<Rightarrow> string \<Rightarrow> timestamp \<Rightarrow> uuid set \<Rightarrow> job_table \<Rightarrow> uuid set" where
  "claimed_ids limit w now locked tbl = job_id ` set (fst (claim_due_jobs limit w now locked tbl))"

definition claimable :: "timestamp \<Rightarrow> uuid set \<Rightarrow> ProvisioningJob \<Rightarrow> bool" where
  "claimable now locked r \<longleftrightarrow> job_status r = J_QUEUED \<and> queued_at r \<le> now \<and> job_id r \<notin> locked"

definition sample_table :: job_table where
  "sample_table = [(new_job_row ''a'' ''srv-a'' 30)\<lparr>steps := [new_step_row ''create_vm'' ''Create'' 0 True]\<rparr>,
     new_job_row ''b'' ''srv-b'' 10,
     (new_job_row ''c'' ''srv-c'' 20)\<lparr>job_status := J_RUNNING, worker_id := Some ''w9''\<rparr>,
     new_job_row ''d'' ''srv-d'' 99]"

lemma unique_sample_table: "unique_jobs sample_table"
proof -
  have "distinct (map job_id sample_table)" by (simp add: sample_table_def new_job_row_def)
  moreover have "\<forall>a \<in> set sample_table. \<forall>b \<in> set sample_table. job_id a \<noteq> job_id b \<longrightarrow> \<not> job_clash a b"
    by code_simp
  ultimately show ?thesis by (simp add: job_rows.consistent_def)
qed

lemma claimed_ids_due: "0 < limit \<Longrightarrow> claimed_ids limit w now locked tbl = job_id ` set (due_jobs limit now locked tbl)"
  by (simp add: claimed_ids_def claim_due_jobs_def Let_def image_image)

lemma due_jobs_claimable: "j \<in> set (due_jobs limit now locked tbl) \<Longrightarrow> j \<in> set tbl \<and> claimable now locked j"
  using due_jobs_sound by (simp add: claimable_def)

lemma card_due_jobs:
  assumes "unique_jobs tbl"
  shows "card (job_id ` set (due_jobs limit now locked tbl)) = length (due_jobs limit now locked tbl)"
proof -
  have dist: "distinct (map job_id tbl)" using assms by (rule job_rows.consistent_distinct)
  then have "distinct tbl" by (simp add: distinct_map)
  then have "distinct (due_jobs limit now locked tbl)" by (simp add: due_jobs_def)
  moreover have "inj_on job_id (set (due_jobs limit now locked tbl))"
    using dist due_jobs_sound by (meson distinct_map inj_on_subset subsetI)
  ultimately show ?thesis by (simp add: card_image distinct_card)
qed

lemma claimed_member_iff:
  assumes "unique_jobs tbl" "r \<in> set tbl"
  shows "job_id r \<in> job_id ` set (due_jobs limit now locked tbl) \<longleftrightarrow> r \<in> set (due_jobs limit now locked tbl)"
  using assms job_rows.consistent_key_inj due_jobs_sound by blast

text \<open>
  C3. Claiming takes queued, due and unlocked rows only, never more than the free slots; every claimed
  row is marked running for this worker with a fresh heartbeat and every other row is untouched; rows
  are taken in queueing order, and a claimable row is left only when the limit is reached.
\<close>

theorem claim_due_jobs_correct:
  assumes u: "unique_jobs tbl" and lim: "0 < limit"
  shows "let ids = claimed_ids limit w now locked tbl in
    int (card ids) \<le> limit
    \<and> snd (claim_due_jobs limit w now locked tbl)
        = map (\<lambda>r. if job_id r \<in> ids then mark_claimed now w r else r) tbl
    \<and> (\<forall>r \<in> set tbl. job_id r \<in> ids \<longrightarrow> claimable now locked r)
    \<and> (\<forall>r \<in> set tbl. claimable now locked r \<and> job_id r \<notin> ids \<longrightarrow>
         int (card ids) = limit \<and> (\<forall>c \<in> set tbl. job_id c \<in> ids \<longrightarrow> queued_at c \<le> queued_at r))"
proof -
  let ?due = "due_jobs limit now locked tbl"
  have left: "length ?due = nat limit \<and> (\<forall>c \<in> set tbl. c \<in> set ?due \<longrightarrow> queued_at c \<le> queued_at r)"
    if "r \<in> set tbl" "claimable now locked r" "r \<notin> set ?due" for r
  proof (cases "?due = []")
    case True
    let ?xs = "filter (\<lambda>j. job_status j = J_QUEUED \<and> queued_at j \<le> now \<and> job_id j \<notin> locked) tbl"
    have "sort_key queued_at ?xs = []" using True lim by (simp add: due_jobs_def)
    then have "set ?xs = {}" by (metis set_sort set_empty)
    with that show ?thesis by (auto simp: claimable_def)
  next
    case False
    then obtain d where "d \<in> set ?due" by (meson list.set_sel(1))
    with that show ?thesis using due_jobs_first by (auto simp: claimable_def)
  qed
  have tbl': "snd (claim_due_jobs limit w now locked tbl)
      = map (\<lambda>r. if job_id r \<in> job_id ` set ?due then mark_claimed now w r else r) tbl"
    using lim by (simp add: claim_due_jobs_def Let_def)
  show ?thesis
    unfolding Let_def claimed_ids_due [OF lim] card_due_jobs [OF u]
    using lim due_jobs_length [of limit now locked tbl] tbl' left due_jobs_claimable
    by (auto simp: claimed_member_iff [OF u])
qed

theorem claim_due_jobs_correct_witness:
  "int (card (claimed_ids 1 ''w1'' 50 {} sample_table)) \<le> 1"
  using claim_due_jobs_correct [OF unique_sample_table, of 1 "''w1''" 50 "{}"] by (simp add: Let_def)

text \<open>
  C4. Two workers never execute the same job: a claim that runs while another one still holds its row
  locks, and a claim on the table the other one committed, take disjoint sets of jobs.
\<close>

theorem concurrent_claims_disjoint:
  assumes u: "unique_jobs tbl" and l1: "0 < l1" and l2: "0 < l2"
  shows "claimed_ids l1 w1 t1 locked tbl \<inter> claimed_ids l2 w2 t2 (locked \<union> claimed_ids l1 w1 t1 locked tbl) tbl = {}
    \<and> claimed_ids l1 w1 t1 locked tbl \<inter> claimed_ids l2 w2 t2 locked (snd (claim_due_jobs l1 w1 t1 locked tbl)) = {}"
proof
  let ?ids = "claimed_ids l1 w1 t1 locked tbl"
  show "?ids \<inter> claimed_ids l2 w2 t2 (locked \<union> ?ids) tbl = {}"
    by (auto simp: claimed_ids_due [OF l2] dest: due_jobs_sound)
  show "?ids \<inter> claimed_ids l2 w2 t2 locked (snd (claim_due_jobs l1 w1 t1 locked tbl)) = {}"
  proof -
    have "job_status r = J_RUNNING" if "r \<in> set (snd (claim_due_jobs l1 w1 t1 locked tbl))" "job_id r \<in> ?ids" for r
      using that by (auto simp: claim_due_jobs_row [OF l1] claimed_ids_due [OF l1] split: if_splits)
    moreover have "job_status d = J_QUEUED \<and> d \<in> set (snd (claim_due_jobs l1 w1 t1 locked tbl))"
      if "d \<in> set (due_jobs l2 t2 locked (snd (claim_due_jobs l1 w1 t1 locked tbl)))" for d
      using due_jobs_sound [OF that] by simp
    ultimately show ?thesis by (fastforce simp: claimed_ids_due [OF l2])
  qed
qed

theorem concurrent_claims_disjoint_witness:
  "claimed_ids 1 ''w1'' 50 {} sample_table
     \<inter> claimed_ids 2 ''w2'' 50 {} (snd (claim_due_jobs 1 ''w1'' 50 {} sample_table)) = {}"
  using concurrent_claims_disjoint [OF unique_sample_table, of 1 2 "''w1''" 50 "{}" "''w2''" 50] by simp

text \<open>
  A heartbeat is owner-only: a worker that does not hold the job as running changes nothing and is
  told so, unless it finished the job itself; the owner refreshes exactly its own row and learns
  whether cancellation was requested.
\<close>

theorem heartbeat_owner_only:
  assumes "unique_jobs tbl" and "r \<in> set tbl"
  shows "heartbeat (job_id r) w now tbl =
    (if worker_id r = Some w \<and> job_status r = J_RUNNING
     then (Some (cancel_requested r), map (\<lambda>x. if job_id x = job_id r then x\<lparr>heartbeat_at := Some now, updated_at := now\<rparr> else x) tbl)
     else (if worker_id r = Some w \<and> job_status r \<in> TERMINAL_JOB_STATUSES then Some False else None, tbl))"
proof -
  have only: "x = r" if "x \<in> set tbl" "job_id x = job_id r" for x
    using assms that job_rows.consistent_key_inj by blast
  have row: "find (\<lambda>j. job_id j = job_id r) tbl = Some r"
  proof (cases "find (\<lambda>j. job_id j = job_id r) tbl")
    case None
    then show ?thesis using assms(2) by (auto simp: find_None_iff_all)
  next
    case (Some x)
    then show ?thesis using only find_SomeD by fastforce
  qed
  show ?thesis
  proof (cases "worker_id r = Some w \<and> job_status r = J_RUNNING")
    case True
    then have same: "owns_running (job_id r) w x \<longleftrightarrow> job_id x = job_id r" if "x \<in> set tbl" for x
      using only that by (auto simp: owns_running_def)
    have "find (owns_running (job_id r) w) tbl = Some r"
      using row by (rule find_eqI) (simp add: same)
    moreover have "map (\<lambda>j. if owns_running (job_id r) w j then f j else j) tbl
        = map (\<lambda>j. if job_id j = job_id r then f j else j) tbl" for f
      by (intro map_cong refl) (simp add: same)
    ultimately show ?thesis using True by (simp only: heartbeat_def option.case if_True simp_thms)
  next
    case False
    then have "\<forall>x \<in> set tbl. \<not> owns_running (job_id r) w x" using only by (auto simp: owns_running_def)
    then have "find (owns_running (job_id r) w) tbl = None" by (simp only: find_None_iff_all)
    then show ?thesis unfolding if_not_P [OF False] by (simp add: heartbeat_def row)
  qed
qed

theorem heartbeat_owner_only_witness:
  "heartbeat ''c'' ''w1'' 60 sample_table = (None, sample_table)"
proof -
  let ?r = "(new_job_row ''c'' ''srv-c'' 20)\<lparr>job_status := J_RUNNING, worker_id := Some ''w9''\<rparr>"
  have "?r \<in> set sample_table" by (simp add: sample_table_def)
  from heartbeat_owner_only [OF unique_sample_table this, of "''w1''" 60]
  show ?thesis by (simp add: new_job_row_def)
qed

text \<open>
  A retry resets exactly the failed and cancelled steps (and the running ones of an interrupted
  job), optionally restricted to the given stages, and leaves every other step untouched; when it
  resets anything the job is queued again with no owner and no pending cancellation.
\<close>

theorem retry_resets_only_unfinished_steps:
  assumes "reset_for_retry now keys j tbl = Inr (reset, j', tbl')"
  shows "steps j' = map (\<lambda>s. if retry_eligible (job_status j) keys s then s\<lparr>step_status := S_PENDING\<rparr> else s) (steps j)
    \<and> (\<forall>s \<in> set (steps j). retry_eligible (job_status j) keys s \<longrightarrow> step_status s \<in> {S_FAILED, S_CANCELLED, S_RUNNING})
    \<and> reset = map stage_key (filter (retry_eligible (job_status j) keys) (steps j))
    \<and> (if reset = [] then tbl' = tbl
       else job_status j' = J_QUEUED \<and> worker_id j' = None \<and> \<not> cancel_requested j' \<and> error_summary j' = None
         \<and> progress j' = compute_progress j')"
proof -
  have "retry_eligible (job_status j) keys s \<Longrightarrow> step_status s \<in> {S_FAILED, S_CANCELLED, S_RUNNING}" for s
    by (simp add: retry_eligible_def)
  moreover have "progress (requeue now x) = compute_progress (requeue now x)" for x
    by (simp add: requeue_def Let_def compute_progress_def actionable_def)
  moreover have "error_summary (requeue now x) = None" for x by (simp add: requeue_def Let_def)
  ultimately show ?thesis
    using assms by (auto simp: reset_for_retry_def reset_steps_def Let_def split: if_splits sum.splits)
qed

theorem retry_resets_only_unfinished_steps_witness:
  "let j = (new_job_row ''a'' ''srv-a'' 30)\<lparr>job_status := J_FAILED,
             steps := [(new_step_row ''create_vm'' ''Create'' 0 True)\<lparr>step_status := S_SUCCEEDED\<rparr>,
                       (new_step_row ''power_on'' ''Power on'' 1 True)\<lparr>step_status := S_FAILED\<rparr>]\<rparr>
   in case reset_for_retry 70 None j [j] of
        Inr (reset, j', tbl') \<Rightarrow> reset = [''power_on''] \<and> map step_status (steps j') = [S_SUCCEEDED, S_PENDING]
      | Inl _ \<Rightarrow> False"
proof -
  define j where "j = (new_job_row ''a'' ''srv-a'' 30)\<lparr>job_status := J_FAILED,
             steps := [(new_step_row ''create_vm'' ''Create'' 0 True)\<lparr>step_status := S_SUCCEEDED\<rparr>,
                       (new_step_row ''power_on'' ''Power on'' 1 True)\<lparr>step_status := S_FAILED\<rparr>]\<rparr>"
  obtain reset j' tbl' where r: "reset_for_retry 70 None j [j] = Inr (reset, j', tbl')"
    by (simp add: reset_for_retry_def reset_steps_def Let_def j_def flush_row_def other_rows_def
        first_conflict_def INDEX_ORDER_def retry_eligible_def new_step_row_def new_job_row_def)
  from retry_resets_only_unfinished_steps [OF r] have "reset = [''power_on''] \<and> map step_status (steps j') = [S_SUCCEEDED, S_PENDING]"
    by (simp add: j_def retry_eligible_def new_step_row_def)
  with r show ?thesis unfolding j_def [symmetric] Let_def by simp
qed

text \<open>
  Progress is computed without rounding surprises: for any job of at most 2^50 actionable steps it
  is 100 exactly when every actionable step is finished, although the code divides and multiplies in
  binary floating point.
\<close>

theorem progress_100_iff_finished:
  assumes "actionable j \<noteq> []" and "length (actionable j) \<le> 2 ^ 50"
  shows "compute_progress j = 100 \<longleftrightarrow> (\<forall>s \<in> set (actionable j). step_status s \<in> {S_SUCCEEDED, S_WARNING, S_CANCELLED})"
  using compute_progress_100_iff [OF assms] by (simp add: step_finished_def)

theorem progress_100_iff_finished_witness:
  "compute_progress ((new_job_row ''a'' ''srv-a'' 30)\<lparr>steps := [new_step_row ''create_vm'' ''Create'' 0 True]\<rparr>) \<noteq> 100"
  using progress_100_iff_finished [of "(new_job_row ''a'' ''srv-a'' 30)\<lparr>steps := [new_step_row ''create_vm'' ''Create'' 0 True]\<rparr>"]
  by (simp add: actionable_def new_step_row_def)

text \<open>
  Materialising the steps is idempotent and complete: afterwards the job has exactly one row for
  every registered stage and every row it had before, and doing it again changes nothing.
\<close>

theorem ensure_steps_complete:
  assumes "distinct (map stage_key (steps j))"
  shows "distinct (map stage_key (steps (ensure_steps stage_definitions j)))
    \<and> set (map sd_key ORDERED_STAGES) \<subseteq> stage_key ` set (steps (ensure_steps stage_definitions j))
    \<and> set (steps j) \<subseteq> set (steps (ensure_steps stage_definitions j))
    \<and> ensure_steps stage_definitions (ensure_steps stage_definitions j) = ensure_steps stage_definitions j"
proof -
  have fst_defs: "map fst stage_definitions = map sd_key ORDERED_STAGES" by (simp add: stage_definitions_def)
  then have "fst ` set stage_definitions = set (map sd_key ORDERED_STAGES)" by (metis set_map)
  then show ?thesis
    using ensure_steps_distinct [OF assms, of stage_definitions] distinct_stage_keys fst_defs ensure_steps_idem
    by (simp add: ensure_steps_keys) (simp add: set_ensure_steps)
qed

theorem ensure_steps_complete_witness:
  "length (steps (ensure_steps stage_definitions (new_job_row ''a'' ''srv-a'' 30))) = 26
   \<and> distinct (map stage_key (steps (ensure_steps stage_definitions (new_job_row ''a'' ''srv-a'' 30))))"
proof
  let ?j = "new_job_row ''a'' ''srv-a'' 30"
  have ne: "steps ?j = []" by (simp add: new_job_row_def)
  show d: "distinct (map stage_key (steps (ensure_steps stage_definitions ?j)))"
    using ensure_steps_complete [of ?j] ne by simp
  show "length (steps (ensure_steps stage_definitions ?j)) = 26"
    using arg_cong [OF missing_steps_keys [of "{}" 0 stage_definitions], of length]
    by (simp add: ensure_steps_def ne stage_definitions_def length_ORDERED_STAGES)
qed

end
