(* ===== verification/Audit_Trail.thy ===== *)
theory Audit_Trail
  imports Infra_Prelude
begin

text \<open>
  The audit trail: \<^verbatim>\<open>redact\<close> of \<^verbatim>\<open>core/logging.py\<close>, \<^verbatim>\<open>AuditRecorder.record\<close> of \<^verbatim>\<open>audit/recorder.py\<close>
  and the \<^verbatim>\<open>AuditEvent\<close> row of \<^verbatim>\<open>models/audit.py\<close>. The row's \<^verbatim>\<open>id\<close> and \<^verbatim>\<open>timestamp\<close> are database
  defaults and are left out; the trail is the list of rows in insertion order. The lemmas show that
  what a caller puts under a sensitive key never influences the stored row.
\<close>

section \<open>Redaction\<close>

definition REDACTED_KEYS :: "string list" where
  "REDACTED_KEYS = [''password'', ''secret'', ''token'', ''api_key'', ''private_key'', ''credential'',
     ''authorization'']"

definition sensitive_key :: "string \<Rightarrow> bool" where
  "sensitive_key key = list_ex (\<lambda>marker. contains (lower key) marker) REDACTED_KEYS"

lemma size_dict_value [termination_simp]:
  "kv \<in> set kvs \<Longrightarrow> size (snd kv) < Suc (size_list (size_prod (\<lambda>_. 0) size) kvs)"
proof (induction kvs)
  case (Cons a kvs)
  then show ?case by (cases a) (auto simp: less_Suc_eq_le)
qed simp

fun redact :: "json \<Rightarrow> json" where
  "redact (JObj kvs) =
     JObj (map (\<lambda>kv. (fst kv, if sensitive_key (fst kv) then JStr ''[REDACTED]'' else redact (snd kv))) kvs)"
| "redact (JList xs) = JList (map redact xs)"
| "redact JNull = JNull"
| "redact (JBool b) = JBool b"
| "redact (JInt i) = JInt i"
| "redact (JFloat q) = JFloat q"
| "redact (JStr s) = JStr s"

text \<open>Every value under a sensitive key is the marker, at any depth.\<close>

fun no_secrets :: "json \<Rightarrow> bool" where
  "no_secrets (JObj kvs) =
     list_all (\<lambda>kv. if sensitive_key (fst kv) then snd kv = JStr ''[REDACTED]'' else no_secrets (snd kv)) kvs"
| "no_secrets (JList xs) = list_all no_secrets xs"
| "no_secrets v = True"

text \<open>Replace what stands under sensitive keys by \<open>f key value\<close>, at any depth.\<close>

fun swap_secrets :: "(string \<Rightarrow> json \<Rightarrow> json) \<Rightarrow> json \<Rightarrow> json" where
  "swap_secrets f (JObj kvs) =
     JObj (map (\<lambda>kv. (fst kv, if sensitive_key (fst kv) then f (fst kv) (snd kv)
                               else swap_secrets f (snd kv))) kvs)"
| "swap_secrets f (JList xs) = JList (map (swap_secrets f) xs)"
| "swap_secrets f v = v"

lemma no_secrets_redact: "no_secrets (redact v)"
  by (induction v rule: redact.induct) (auto simp: list_all_iff)

lemma redact_fixes_no_secrets: "no_secrets v \<Longrightarrow> redact v = v"
proof (induction v rule: redact.induct)
  case (1 kvs)
  have "map (\<lambda>kv. (fst kv, if sensitive_key (fst kv) then JStr ''[REDACTED]'' else redact (snd kv))) kvs
      = kvs"
    using 1 by (intro map_idI) (auto simp: list_all_iff split: if_splits)
  then show ?case by simp
next
  case (2 xs)
  then show ?case by (auto simp: list_all_iff intro: map_idI)
qed auto

lemma redact_idem: "redact (redact v) = redact v"
  by (rule redact_fixes_no_secrets) (rule no_secrets_redact)

lemma redact_swap_secrets: "redact (swap_secrets f v) = redact v"
  by (induction f v rule: swap_secrets.induct) auto

section \<open>Recording\<close>

text \<open>The keyword arguments of \<^verbatim>\<open>record\<close>; \<open>audit_defaults\<close> are their defaults.\<close>

record audit_args =
  au_user :: "(uuid \<times> string) option"
  au_username :: "string option"
  au_resource_type :: "string option"
  au_resource_name :: "string option"
  au_job_id :: "uuid option"
  au_datacenter_id :: "string option"
  au_datacenter_name :: "string option"
  au_result :: "string option"
  au_source_ip :: "string option"
  au_details :: json_dict
  au_detail_text :: "string option"

definition audit_defaults :: audit_args where
  "audit_defaults = \<lparr>au_user = None, au_username = None, au_resource_type = None,
     au_resource_name = None, au_job_id = None, au_datacenter_id = None, au_datacenter_name = None,
     au_result = None, au_source_ip = None, au_details = [], au_detail_text = None\<rparr>"

record AuditEvent =
  ev_user_id :: "uuid option"
  ev_username :: "string option"
  ev_action :: string
  ev_resource_type :: "string option"
  ev_resource_name :: "string option"
  ev_job_id :: "uuid option"
  ev_datacenter_id :: "string option"
  ev_datacenter_name :: "string option"
  ev_result :: "string option"
  ev_source_ip :: "string option"
  ev_details :: json_dict
  ev_detail_text :: "string option"

definition redact_dict :: "json_dict \<Rightarrow> json_dict" where
  "redact_dict d = (case redact (JObj d) of JObj e \<Rightarrow> e | _ \<Rightarrow> [])"

definition audit_event :: "string \<Rightarrow> audit_args \<Rightarrow> AuditEvent" where
  "audit_event action a =
     \<lparr>ev_user_id = map_option fst (au_user a),
      ev_username = (if truthy_text (au_username a) then au_username a else map_option snd (au_user a)),
      ev_action = action,
      ev_resource_type = au_resource_type a,
      ev_resource_name =
        (if truthy_text (au_resource_name a) then map_option (take 255) (au_resource_name a) else None),
      ev_job_id = au_job_id a,
      ev_datacenter_id = au_datacenter_id a,
      ev_datacenter_name = au_datacenter_name a,
      ev_result = au_result a,
      ev_source_ip = au_source_ip a,
      ev_details = redact_dict (au_details a),
      ev_detail_text = au_detail_text a\<rparr>"

definition record_audit :: "AuditEvent list \<Rightarrow> string \<Rightarrow> audit_args \<Rightarrow> AuditEvent list" where
  "record_audit trail action a = trail @ [audit_event action a]"

lemma audit_event_action [simp]: "ev_action (audit_event action a) = action"
  by (simp add: audit_event_def)

lemma record_audit_append_only: "take (length trail) (record_audit trail action a) = trail"
  by (simp add: record_audit_def)

lemma redact_dict_swap:
  "swap_secrets f (JObj d) = JObj e \<Longrightarrow> redact_dict e = redact_dict d"
  unfolding redact_dict_def using redact_swap_secrets [of f "JObj d"] by simp

section \<open>Properties\<close>

text \<open>
  C24. The stored audit row does not depend on any secret: replacing everything that stands under a
  sensitive key of the details, at any depth, by anything else gives the same row. What is stored holds
  only the marker under such keys, and redacting it again changes nothing.
\<close>

theorem audit_row_hides_secrets:
  assumes "swap_secrets f (JObj d) = JObj e"
  shows "audit_event action (a\<lparr>au_details := e\<rparr>) = audit_event action (a\<lparr>au_details := d\<rparr>)
    \<and> no_secrets (JObj (ev_details (audit_event action (a\<lparr>au_details := d\<rparr>))))
    \<and> redact_dict (redact_dict d) = redact_dict d"
proof -
  have r: "JObj (redact_dict d) = redact (JObj d)" for d by (simp add: redact_dict_def)
  have "no_secrets (JObj (redact_dict d))" unfolding r by (rule no_secrets_redact)
  moreover have "redact_dict (redact_dict d) = redact_dict d"
    using redact_idem [of "JObj d"] unfolding r [symmetric] by (simp add: redact_dict_def)
  ultimately show ?thesis using redact_dict_swap [OF assms] by (simp add: audit_event_def)
qed

theorem audit_row_hides_secrets_witness:
  "ev_details (audit_event ''X'' (audit_defaults\<lparr>au_details := [(''guest'', JObj [(''admin_Password'', JStr ''p2'')])]\<rparr>))
   = ev_details (audit_event ''X'' (audit_defaults\<lparr>au_details := [(''guest'', JObj [(''admin_Password'', JStr ''p1'')])]\<rparr>))"
proof -
  have "sensitive_key ''admin_Password''" "\<not> sensitive_key ''guest''" by code_simp+
  then have "swap_secrets (\<lambda>k v. JStr ''p2'') (JObj [(''guest'', JObj [(''admin_Password'', JStr ''p1'')])])
      = JObj [(''guest'', JObj [(''admin_Password'', JStr ''p2'')])]" by simp
  from audit_row_hides_secrets [OF this, of "''X''" audit_defaults] show ?thesis by simp
qed

end
