(* ===== verification/Notifications.thy ===== *)
theory Notifications
  imports Job_Model
begin

text \<open>
  In-app notifications (\<^verbatim>\<open>services/notifications.py\<close>, \<^verbatim>\<open>models/notifications.py\<close>): the messages and the
  row queued for the requester of a job. The row's id and timestamps are database defaults.
\<close>

datatype NotificationKind = JOB_COMPLETED | JOB_FAILED

record Notification =
  nt_user_id :: uuid
  nt_job_id :: "uuid option"
  nt_kind :: NotificationKind
  nt_title :: string
  nt_message :: string

definition MAX_MESSAGE_CHARS :: nat where
  "MAX_MESSAGE_CHARS = 2000"

text \<open>The text of a JSON summary value that is a string; other values do not occur in the summary.\<close>

definition json_text :: "json \<Rightarrow> string" where
  "json_text v = (case v of JStr s \<Rightarrow> s | _ \<Rightarrow> [])"

definition summary_text :: "json_dict \<Rightarrow> string \<Rightarrow> string" where
  "summary_text summary key = (case map_of summary key of None \<Rightarrow> [] | Some v \<Rightarrow> json_text v)"

definition completed_message :: "ProvisioningJob \<Rightarrow> json_dict \<Rightarrow> nat \<Rightarrow> string \<times> string" where
  "completed_message job summary checks_passed =
     (let identity = (if summary_text summary ''fqdn'' \<noteq> [] then summary_text summary ''fqdn''
                      else if summary_text summary ''computer_name'' \<noteq> [] then summary_text summary ''computer_name''
                      else job_vm_name job);
          address = summary_text summary ''ip_address'';
          details = identity @ (if address \<noteq> [] then '' '' @ [CHR 0xB7] @ '' '' @ address else []);
          checks = (if checks_passed \<noteq> 0 then '' All '' @ nat_text checks_passed @ '' final checks passed.'' else [])
      in (job_vm_name job @ '' is ready'',
          ''Deployment finished and was verified: '' @ details @ ''.'' @ checks))"

definition failed_message :: "ProvisioningJob \<Rightarrow> string \<Rightarrow> string \<Rightarrow> string \<times> string" where
  "failed_message job stage_name reason =
     (job_vm_name job @ '' deployment failed'', [CHR 0x27] @ stage_name @ [CHR 0x27] @ '' failed: '' @ reason)"

definition interrupted_message :: "ProvisioningJob \<Rightarrow> string \<Rightarrow> string \<times> string" where
  "interrupted_message job reason =
     (job_vm_name job @ '' deployment was interrupted'',
      reason @ '' Retry the job; stages that already finished are not repeated.'')"

definition notify_requester ::
  "ProvisioningJob \<Rightarrow> NotificationKind \<Rightarrow> string \<times> string \<Rightarrow> Notification list \<Rightarrow> Notification list" where
  "notify_requester job kind tm db =
     (case requested_by_user_id job of
        None \<Rightarrow> db
      | Some uid \<Rightarrow> db @ [\<lparr>nt_user_id = uid, nt_job_id = Some (job_id job), nt_kind = kind,
          nt_title = take 200 (fst tm), nt_message = take MAX_MESSAGE_CHARS (snd tm)\<rparr>])"

lemma notify_requester_only_requester:
  "n \<in> set (notify_requester job kind tm db) \<Longrightarrow> n \<notin> set db \<Longrightarrow>
     requested_by_user_id job = Some (nt_user_id n) \<and> nt_job_id n = Some (job_id job) \<and> nt_kind n = kind
     \<and> length (nt_title n) \<le> 200 \<and> length (nt_message n) \<le> 2000"
  by (auto simp: notify_requester_def MAX_MESSAGE_CHARS_def split: option.splits)

end
