(* ===== verification/Run_Context.thy ===== *)
theory Run_Context
  imports Job_Repository Audit_Trail Notifications Metrics Settings_Store
begin

text \<open>
  What one worker holds while it runs a job: \<^verbatim>\<open>JobRunContext\<close> of \<^verbatim>\<open>workers/context.py\<close> with the rows its
  session writes (audit, notifications), the process metrics and the published events
  (\<^verbatim>\<open>workers/events.py\<close>), and the removal of the answer media from \<^verbatim>\<open>workers/stages.py\<close>. Everything
  behind the VMware and guest adapters is the type parameter \<open>'w\<close>; the adapter calls are fields of
  the environment, and every clock reading is one element of the environment's \<open>clock\<close> sequence.
\<close>

section \<open>Errors and events\<close>

record InfraOperationError =
  human_message :: string
  reason :: string
  recommended_action :: string
  technical_detail :: string
  retryable :: bool

text \<open>The exceptions of a call into the infrastructure: a deliberate error, or any other (by its message).\<close>

datatype guest_error = Infra InfraOperationError | Other string

definition error_report :: "InfraOperationError \<Rightarrow> string" where
  "error_report e = human_message e @ '' Reason: '' @ reason e"

record JobEvent =
  je_job_id :: string
  je_stage :: "string option"
  je_status :: string
  je_progress :: int
  je_message :: string

definition job_channel :: "string \<Rightarrow> string" where
  "job_channel jid = ''infraops:job-events:'' @ jid"

definition make_event :: "string \<Rightarrow> string option \<Rightarrow> string \<Rightarrow> int \<Rightarrow> string \<Rightarrow> JobEvent" where
  "make_event jid stg status prog message =
     \<lparr>je_job_id = jid, je_stage = stg, je_status = status, je_progress = prog, je_message = message\<rparr>"

section \<open>The context\<close>

record VmRef =
  vm_ref_id :: string
  vm_ref_name :: string

record 'w JobRunContext =
  job :: ProvisioningJob
  vm_name :: string
  datacenter_id :: string
  actor_username :: "string option"
  vm_ref :: "VmRef option"
  reboot_required :: bool
  hostname_changed :: bool
  audit_rows :: "AuditEvent list"
  notification_rows :: "Notification list"
  metrics :: Registry
  published :: "(string \<times> JobEvent) list"
  ticks :: nat
  world :: 'w

record StageOutcome =
  outcome_status :: string
  outcome_output :: string
  outcome_artifacts :: json_dict

text \<open>
  How \<^verbatim>\<open>asyncio.wait_for(handler(ctx), timeout)\<close> ends: with an outcome, a timeout, a deliberate error or
  any other exception (with its traceback).
\<close>

datatype handler_result =
    Returned StageOutcome
  | TimedOut
  | Raised InfraOperationError
  | Crashed string

type_synonym 'w handler = "rat \<Rightarrow> 'w JobRunContext \<Rightarrow> handler_result \<times> 'w JobRunContext"

text \<open>
  The environment of a run. \<open>cancel_seen key\<close> is the value of \<^verbatim>\<open>cancel_requested\<close> that the row refresh
  before stage \<open>key\<close> loads; \<open>cancelled_first key c\<close> is \<open>Some c'\<close> when the cancel event fires before the
  handler ends, with \<open>c'\<close> the context the cancelled handler leaves.
\<close>

record 'w pipeline_env =
  stage_handlers :: "string \<Rightarrow> 'w handler option"
  cancel_seen :: "string \<Rightarrow> bool"
  cancelled_first :: "string \<Rightarrow> 'w JobRunContext \<Rightarrow> 'w JobRunContext option"
  settings_rows :: "json_dict option"
  clock :: "nat \<Rightarrow> timestamp"
  remove_answer_media :: "string \<Rightarrow> string \<Rightarrow> string \<Rightarrow> 'w \<Rightarrow> guest_error option \<times> 'w"
  capture_screenshot :: "string \<Rightarrow> 'w \<Rightarrow> string option \<times> 'w"

definition utcnow :: "('w, 'z) pipeline_env_scheme \<Rightarrow> 'w JobRunContext \<Rightarrow> timestamp \<times> 'w JobRunContext" where
  "utcnow env c = (clock env (ticks c), c\<lparr>ticks := Suc (ticks c)\<rparr>)"

definition publish_stage ::
  "string option \<Rightarrow> string \<Rightarrow> int \<Rightarrow> string \<Rightarrow> 'w JobRunContext \<Rightarrow> 'w JobRunContext" where
  "publish_stage stg status prog message c =
     c\<lparr>published := published c @ [(job_channel (job_id (job c)),
                      make_event (job_id (job c)) stg status prog message)]\<rparr>"

definition audit :: "string \<Rightarrow> audit_args \<Rightarrow> 'w JobRunContext \<Rightarrow> 'w JobRunContext" where
  "audit action a c = c\<lparr>audit_rows := record_audit (audit_rows c) action a\<rparr>"

definition notify :: "NotificationKind \<Rightarrow> string \<times> string \<Rightarrow> 'w JobRunContext \<Rightarrow> 'w JobRunContext" where
  "notify kind tm c = c\<lparr>notification_rows := notify_requester (job c) kind tm (notification_rows c)\<rparr>"

definition count_job :: "JobStatus \<Rightarrow> 'w JobRunContext \<Rightarrow> 'w JobRunContext" where
  "count_job s c =
     c\<lparr>metrics := (metrics c)\<lparr>jobs_total := inc 1 [(''status'', job_status_value s)] (jobs_total (metrics c))\<rparr>\<rparr>"

definition map_job :: "(ProvisioningJob \<Rightarrow> ProvisioningJob) \<Rightarrow> 'w JobRunContext \<Rightarrow> 'w JobRunContext" where
  "map_job f c = c\<lparr>job := f (job c)\<rparr>"

text \<open>The audit arguments every job-level event of a run shares.\<close>

definition job_audit_args :: "'w JobRunContext \<Rightarrow> string \<Rightarrow> string \<Rightarrow> string \<Rightarrow> audit_args" where
  "job_audit_args c rtype rname result =
     audit_defaults\<lparr>au_resource_type := Some rtype, au_resource_name := Some rname,
       au_job_id := Some (job_id (job c)), au_username := actor_username c,
       au_datacenter_id := Some (datacenter_id c), au_datacenter_name := job_datacenter_name (job c),
       au_result := Some result\<rparr>"

section \<open>The VM reference\<close>

definition require_vm_id ::
  "'w JobRunContext \<Rightarrow> (InfraOperationError + string) \<times> 'w JobRunContext" where
  "require_vm_id c =
     (case vm_ref c of
        Some ref \<Rightarrow> (Inr (vm_ref_id ref), c)
      | None \<Rightarrow>
          (let stored = (case step_of ''create_vm'' (job c) of
                           None \<Rightarrow> [] | Some s \<Rightarrow> summary_text (artifacts s) ''vm_id'')
           in if stored \<noteq> []
              then (Inr stored, c\<lparr>vm_ref := Some \<lparr>vm_ref_id = stored, vm_ref_name = vm_name c\<rparr>\<rparr>)
              else (Inl \<lparr>human_message = ''The created VM reference is missing.'',
                         reason = ''The VM creation stage has not produced a VM identifier.'',
                         recommended_action = ''Retry the '' @ [CHR 0x27] @ ''Create virtual machine'' @ [CHR 0x27]
                           @ '' stage.'',
                         technical_detail = [], retryable = True\<rparr>, c)))"

section \<open>Releasing the answer media\<close>

definition mark_media_removed :: "string \<Rightarrow> bool \<Rightarrow> ProvisioningJobStep \<Rightarrow> ProvisioningJobStep" where
  "mark_media_removed why booted s =
     (let s' = s\<lparr>artifacts := dict_update (artifacts s)
                   [(''media_removed'', JBool True), (''media_removed_reason'', JStr why)]\<rparr>
      in if step_status s' = S_SUCCEEDED \<and> \<not> booted
         then s'\<lparr>step_status := S_PENDING,
                 step_output := Some ''Answer media removed after the job stopped; it is regenerated on retry.''\<rparr>
         else s')"

definition booted :: "ProvisioningJob \<Rightarrow> bool" where
  "booted j = (case status_of ''power_on'' j of None \<Rightarrow> False | Some s \<Rightarrow> s \<in> {S_SUCCEEDED, S_SKIPPED})"

definition release_unattended_media ::
  "('w, 'z) pipeline_env_scheme \<Rightarrow> string \<Rightarrow> 'w JobRunContext \<Rightarrow> bool \<times> 'w JobRunContext" where
  "release_unattended_media env why c =
     (if \<not> may_hold_unattended_media (job c) then (False, c)
      else case require_vm_id c of
        (Inl e, c1) \<Rightarrow> (False, c1)
      | (Inr vm, c1) \<Rightarrow>
          (let path = (case step_of ''prepare_unattended_install'' (job c1) of
                         None \<Rightarrow> [] | Some p \<Rightarrow> summary_text (artifacts p) ''datastore_path'');
               (failure, w) = remove_answer_media env vm (datacenter_id c1) path (world c1);
               c2 = c1\<lparr>world := w\<rparr>
           in if failure \<noteq> None then (False, c2)
              else let c3 = map_job (\<lambda>j. update_step ''prepare_unattended_install''
                               (mark_media_removed why (booted j)) j) c2
                   in (True, audit ''UNATTENDED_MEDIA_REMOVED''
                        ((job_audit_args c3 ''virtual_machine'' (vm_name c3) ''success'')
                           \<lparr>au_details := [(''reason'', JStr why)]\<rparr>) c3)))"

section \<open>Frame lemmas\<close>

text \<open>The keys and statuses of the step rows; all that the control flow of the pipeline reads.\<close>

definition statuses :: "ProvisioningJob \<Rightarrow> (string \<times> StepStatus) list" where
  "statuses j = map (\<lambda>s. (stage_key s, step_status s)) (steps j)"

lemma status_of_statuses: "status_of k j = map_of (statuses j) k"
proof -
  have "map_option step_status (find (\<lambda>s. stage_key s = k) xs)
      = map_of (map (\<lambda>s. (stage_key s, step_status s)) xs) k" for xs
    by (induction xs) auto
  then show ?thesis by (simp add: status_of_def step_of_def statuses_def)
qed

lemma status_of_cong: "steps j = steps j' \<Longrightarrow> status_of k j = status_of k j'"
  by (simp add: status_of_def step_of_def)

lemma status_of_update_other [simp]:
  "k \<noteq> key \<Longrightarrow> (\<And>s. stage_key (f s) = stage_key s) \<Longrightarrow> status_of k (update_step key f j) = status_of k j"
  by (simp add: status_of_def)

lemma status_of_update_same:
  "(\<And>s. stage_key (f s) = stage_key s) \<Longrightarrow>
     status_of key (update_step key f j) = map_option (\<lambda>s. step_status (f s)) (step_of key j)"
  by (simp add: status_of_def option.map_comp comp_def)

lemma status_of_update_const:
  "(\<And>s. stage_key (f s) = stage_key s) \<Longrightarrow> (\<And>s. step_status (f s) = st) \<Longrightarrow>
     status_of key (update_step key f j) = map_option (\<lambda>_. st) (status_of key j)"
  by (simp add: status_of_def option.map_comp comp_def)

lemma status_of_update_status_same:
  "(\<And>s. stage_key (f s) = stage_key s) \<Longrightarrow> (\<And>s. step_status (f s) = step_status s) \<Longrightarrow>
     status_of k (update_step key f j) = status_of k j"
  by (cases "k = key") (simp_all add: status_of_def option.map_comp comp_def)

lemma step_of_None_iff: "step_of k j = None \<longleftrightarrow> status_of k j = None"
  by (simp add: status_of_def)

lemma context_job [simp]:
  "job (audit action a c) = job c" "job (notify kind tm c) = job c" "job (count_job s c) = job c"
  "job (publish_stage stg status prog msg c) = job c" "job (snd (utcnow env c)) = job c"
  "job (map_job f c) = f (job c)"
  by (simp_all add: audit_def notify_def count_job_def publish_stage_def utcnow_def map_job_def)

lemma context_published [simp]:
  "published (audit action a c) = published c" "published (notify kind tm c) = published c"
  "published (count_job s c) = published c" "published (snd (utcnow env c)) = published c"
  "published (map_job f c) = published c"
  "published (publish_stage stg status prog msg c) =
     published c @ [(job_channel (job_id (job c)), make_event (job_id (job c)) stg status prog msg)]"
  by (simp_all add: audit_def notify_def count_job_def publish_stage_def utcnow_def map_job_def)

lemma context_vm_ref [simp]:
  "vm_ref (audit action a c) = vm_ref c" "vm_ref (notify kind tm c) = vm_ref c" "vm_ref (count_job s c) = vm_ref c"
  "vm_ref (publish_stage stg status prog msg c) = vm_ref c" "vm_ref (snd (utcnow env c)) = vm_ref c"
  "vm_ref (map_job f c) = vm_ref c"
  by (simp_all add: audit_def notify_def count_job_def publish_stage_def utcnow_def map_job_def)

lemma require_vm_id_frame [simp]:
  "job (snd (require_vm_id c)) = job c" "published (snd (require_vm_id c)) = published c"
  "audit_rows (snd (require_vm_id c)) = audit_rows c"
  by (simp_all add: require_vm_id_def Let_def split: option.splits)

lemma mark_media_removed_key [simp]: "stage_key (mark_media_removed why b s) = stage_key s"
  by (simp add: mark_media_removed_def Let_def)

text \<open>The release with its two calls as projections.\<close>

definition media_path :: "ProvisioningJob \<Rightarrow> string" where
  "media_path j = (case step_of ''prepare_unattended_install'' j of
     None \<Rightarrow> [] | Some p \<Rightarrow> summary_text (artifacts p) ''datastore_path'')"

lemma release_unfold:
  "release_unattended_media env why c =
     (let c1 = snd (require_vm_id c) in
      if \<not> may_hold_unattended_media (job c) then (False, c)
      else case fst (require_vm_id c) of
        Inl e \<Rightarrow> (False, c1)
      | Inr vm \<Rightarrow>
          (let rw = remove_answer_media env vm (datacenter_id c1) (media_path (job c)) (world c1);
               c2 = c1\<lparr>world := snd rw\<rparr>
           in if fst rw \<noteq> None then (False, c2)
              else let c3 = map_job (update_step ''prepare_unattended_install''
                               (mark_media_removed why (booted (job c)))) c2
                   in (True, audit ''UNATTENDED_MEDIA_REMOVED''
                        ((job_audit_args c3 ''virtual_machine'' (vm_name c3) ''success'')
                           \<lparr>au_details := [(''reason'', JStr why)]\<rparr>) c3)))"
  by (simp add: release_unattended_media_def media_path_def Let_def prod.case_eq_if map_job_def
      require_vm_id_frame(1) [of c, symmetric] del: require_vm_id_frame split: sum.splits)

text \<open>Releasing the media writes at most the row of the preparation step.\<close>

lemma release_job:
  "job (snd (release_unattended_media env why c)) = job c
   \<or> job (snd (release_unattended_media env why c)) =
       update_step ''prepare_unattended_install'' (mark_media_removed why (booted (job c))) (job c)"
  by (simp add: release_unfold Let_def split: sum.split)

lemma release_fields [simp, frame]:
  "job_status (job (snd (release_unattended_media env why c))) = job_status (job c)"
  "job_id (job (snd (release_unattended_media env why c))) = job_id (job c)"
  "progress (job (snd (release_unattended_media env why c))) = progress (job c)"
  "started_at (job (snd (release_unattended_media env why c))) = started_at (job c)"
  using release_job [of env why c] by auto

lemma release_status_of:
  "k \<noteq> ''prepare_unattended_install'' \<Longrightarrow>
     status_of k (job (snd (release_unattended_media env why c))) = status_of k (job c)"
  using release_job [of env why c] by auto

lemma release_status_prepare:
  "status_of k (job (snd (release_unattended_media env why c))) = status_of k (job c)
   \<or> status_of k (job c) = Some S_SUCCEEDED
     \<and> status_of k (job (snd (release_unattended_media env why c))) = Some S_PENDING"
proof (cases "k = ''prepare_unattended_install''")
  case True
  show ?thesis using release_job [of env why c]
  proof
    assume eq: "job (snd (release_unattended_media env why c)) =
       update_step ''prepare_unattended_install'' (mark_media_removed why (booted (job c))) (job c)"
    show ?thesis unfolding True eq
      by (cases "step_of ''prepare_unattended_install'' (job c)")
        (auto simp: status_of_update_same status_of_def mark_media_removed_def Let_def)
  qed simp
qed (simp add: release_status_of)

lemma release_published [simp]:
  "published (snd (release_unattended_media env why c)) = published c"
  by (simp add: release_unfold Let_def split: sum.split)

text \<open>Marked media counts as released.\<close>

lemma marked_not_held: "\<not> may_hold_unattended_media (update_step ''prepare_unattended_install'' (mark_media_removed why b) j)"
  by (auto simp: may_hold_unattended_media_def Let_def dict_truthy_def mark_media_removed_def dict_update_def
      update_conv' split: option.splits)

text \<open>
  What a release does to the media: nothing when the rows hold none or name no machine, otherwise one removal call,
  whose success alone sets the marker.
\<close>

definition media_released :: "('w, 'z) pipeline_env_scheme \<Rightarrow> 'w JobRunContext \<Rightarrow> ProvisioningJob \<Rightarrow> 'w \<Rightarrow> bool" where
  "media_released env c j w \<longleftrightarrow>
     (if \<not> may_hold_unattended_media (job c) then w = world c \<and> \<not> may_hold_unattended_media j
      else case fst (require_vm_id c) of
        Inl e \<Rightarrow> w = world c \<and> may_hold_unattended_media j
      | Inr v \<Rightarrow> w = snd (remove_answer_media env v (datacenter_id c) (media_path (job c)) (world c))
          \<and> may_hold_unattended_media j
            = (fst (remove_answer_media env v (datacenter_id c) (media_path (job c)) (world c)) \<noteq> None))"

lemma require_vm_id_world: "world (snd (require_vm_id c)) = world c" "datacenter_id (snd (require_vm_id c)) = datacenter_id c"
  by (simp_all add: require_vm_id_def Let_def split: option.splits)

lemma release_media:
  "media_released env c (job (snd (release_unattended_media env why c))) (world (snd (release_unattended_media env why c)))"
  by (auto simp: media_released_def release_unfold Let_def require_vm_id_world marked_not_held audit_def map_job_def split: sum.split)

end
