(* ===== verification/Guest_Scripts.thy ===== *)
theory Guest_Scripts
  imports Installer_Paths Py_Text Run_Context
begin

text \<open>
  The files that are executed inside Windows guests (\<^verbatim>\<open>services/guest/scripts.py\<close>) and the upload, run and
  delete sequence of \<^verbatim>\<open>GuestOperations.run_powershell\<close> (\<^verbatim>\<open>services/guest/base.py\<close>). The adapter calls
  \<^verbatim>\<open>upload_file\<close>, \<^verbatim>\<open>run_program\<close> and \<^verbatim>\<open>delete_file\<close> are fields of a record over the guest's state
  \<open>'g\<close>; the random token is an argument. File contents are their UTF-8 bytes, which are the characters
  themselves on ASCII text.
\<close>

section \<open>Literals and paths\<close>

definition win_path :: "string list \<Rightarrow> string" where
  "win_path parts = join_on [bs] parts"

definition POWERSHELL_PATH :: string where
  "POWERSHELL_PATH = win_path [''C:'', ''Windows'', ''System32'', ''WindowsPowerShell'', ''v1.0'', ''powershell.exe'']"

definition HOSTNAME_PATH :: string where
  "HOSTNAME_PATH = win_path [''C:'', ''Windows'', ''System32'', ''hostname.exe'']"

definition GUEST_TEMP_DIR :: string where
  "GUEST_TEMP_DIR = win_path [''C:'', ''Windows'', ''Temp'']"

definition RUNNER_FAILURE_EXIT_CODE :: nat where
  "RUNNER_FAILURE_EXIT_CODE = 9009"

definition RUNNER_TIMEOUT_EXIT_CODE :: nat where
  "RUNNER_TIMEOUT_EXIT_CODE = 1460"

definition control_char :: "char \<Rightarrow> bool" where
  "control_char c = (let n = of_char c :: nat in n \<le> 8 \<or> (10 \<le> n \<and> n \<le> 31) \<or> n = 127)"

definition SECRET_NAME :: regex where
  "SECRET_NAME = Seq (Class (\<lambda>c. is_lower_char c \<or> is_upper_char c)) (between 0 40 (Class (\<lambda>c. is_alnum c \<or> c = CHR ''_'')))"

fun double_quotes :: "string \<Rightarrow> string" where
  "double_quotes [] = []"
| "double_quotes (c # cs) = (if c = CHR 0x27 then [CHR 0x27, CHR 0x27] else [c]) @ double_quotes cs"

definition ps_quote :: "string \<Rightarrow> string" where
  "ps_quote v = squoted (double_quotes v)"

definition new_temp_path :: "string \<Rightarrow> string \<Rightarrow> string" where
  "new_temp_path token suffix = GUEST_TEMP_DIR @ [bs] @ ''infraops-'' @ token @ ''.'' @ suffix"

definition powershell_file_arguments :: "string \<Rightarrow> string" where
  "powershell_file_arguments script_path =
     ''-NoProfile -NonInteractive -ExecutionPolicy Bypass -File '' @ [CHR 0x22] @ script_path @ [CHR 0x22]"

definition crlf_lines :: "string list \<Rightarrow> string" where
  "crlf_lines ls = join_on [CHR 0x0D, CHR 0x0A] ls @ [CHR 0x0D, CHR 0x0A]"

section \<open>Generated scripts\<close>

definition build_process_runner :: "string \<Rightarrow> string \<Rightarrow> string \<Rightarrow> rat \<Rightarrow> string option \<Rightarrow> bool \<Rightarrow> string + string" where
  "build_process_runner program arguments output_path timeout_seconds working_directory utf8_output =
     (if list_ex control_char program \<or> list_ex control_char arguments
      then Inl ''Program paths and arguments must not contain control characters.''
      else let timeout_ms = max 1000 (py_int (double (timeout_seconds * 1000))) in
        Inr (crlf_lines (
          [''$ErrorActionPreference = '' @ squoted ''Stop'',
           ''$log = '' @ ps_quote output_path,
           ''$utf8 = New-Object System.Text.UTF8Encoding $false'',
           ''try {'',
           ''    $psi = New-Object System.Diagnostics.ProcessStartInfo'',
           ''    $psi.FileName = '' @ ps_quote program,
           ''    $psi.Arguments = '' @ ps_quote arguments,
           ''    $psi.UseShellExecute = $false'',
           ''    $psi.CreateNoWindow = $true'',
           ''    $psi.RedirectStandardOutput = $true'',
           ''    $psi.RedirectStandardError = $true'']
          @ (if truthy_text working_directory then [''    $psi.WorkingDirectory = '' @ ps_quote (the working_directory)] else [])
          @ (if utf8_output then [''    $psi.StandardOutputEncoding = $utf8'', ''    $psi.StandardErrorEncoding = $utf8''] else [])
          @ [''    $process = [System.Diagnostics.Process]::Start($psi)'',
             ''    $stdout = $process.StandardOutput.ReadToEndAsync()'',
             ''    $stderr = $process.StandardError.ReadToEndAsync()'',
             ''    if (-not $process.WaitForExit('' @ int_text timeout_ms @ '')) {'',
             ''        try { $process.Kill() } catch { }'',
             ''        $message = '' @ squoted ''InfraOps: the process exceeded its timeout and was terminated.'',
             ''        [System.IO.File]::WriteAllText($log, $message, $utf8)'',
             ''        exit '' @ nat_text RUNNER_TIMEOUT_EXIT_CODE,
             ''    }'',
             ''    $process.WaitForExit()'',
             ''    $text = $stdout.Result'',
             ''    if ($stderr.Result) { $text = $text + [Environment]::NewLine + $stderr.Result }'',
             ''    [System.IO.File]::WriteAllText($log, $text, $utf8)'',
             ''    exit $process.ExitCode'',
             ''} catch {'',
             ''    $message = '' @ squoted ''InfraOps runner error: '' @ '' + $_.Exception.Message'',
             ''    try { [System.IO.File]::WriteAllText($log, $message, $utf8) } catch { }'',
             ''    exit '' @ nat_text RUNNER_FAILURE_EXIT_CODE,
             ''}''])))"

definition secret_lines :: "string \<Rightarrow> string \<Rightarrow> string list" where
  "secret_lines name path =
     [''try {'',
      ''    $InfraOpsSecrets['' @ ps_quote name @ ''] = [System.IO.File]::ReadAllText('' @ ps_quote path @ '', [System.Text.Encoding]::UTF8)'',
      ''} finally {'',
      ''    Remove-Item -LiteralPath '' @ ps_quote path @ '' -Force -ErrorAction SilentlyContinue'',
      ''}'']"

definition build_script_file :: "string \<Rightarrow> (string, string) dict \<Rightarrow> string + string" where
  "build_script_file script secret_paths =
     (case find (\<lambda>(name, path). \<not> fullmatch SECRET_NAME name) secret_paths of
        Some (name, path) \<Rightarrow> Inl (''Invalid secret name '' @ py_repr name @ ''.'')
      | None \<Rightarrow> Inr (crlf_lines (
          [''$ProgressPreference = '' @ squoted ''SilentlyContinue'',
           ''try { [Console]::OutputEncoding = New-Object System.Text.UTF8Encoding $false } catch { }'',
           ''$InfraOpsSecrets = '' @ [CHR ''@''] @ ''{}'']
          @ concat (map (\<lambda>(name, path). secret_lines name path) secret_paths) @ [script])))"

definition encode_script :: "string \<Rightarrow> string" where
  "encode_script text = [CHR 0xEF, CHR 0xBB, CHR 0xBF] @ text"

record GuestCommand =
  program :: "string option"
  arguments :: string
  script :: "string option"

definition powershell :: "string \<Rightarrow> GuestCommand" where
  "powershell s = \<lparr>program = None, arguments = [], script = Some s\<rparr>"

definition native :: "string \<Rightarrow> string \<Rightarrow> GuestCommand" where
  "native p a = \<lparr>program = Some p, arguments = a, script = None\<rparr>"

definition is_powershell :: "GuestCommand \<Rightarrow> bool" where
  "is_powershell c = (script c \<noteq> None)"

definition display :: "GuestCommand \<Rightarrow> string" where
  "display c = (if script c \<noteq> None then ''powershell'' else text_or (program c) [])"

section \<open>Running a script\<close>

record CommandResult =
  exit_code :: int
  stdout :: string
  stderr :: string

definition succeeded :: "CommandResult \<Rightarrow> bool" where
  "succeeded r = (exit_code r = 0)"

record 'g guest_ops =
  upload_file :: "string \<Rightarrow> string \<Rightarrow> 'g \<Rightarrow> guest_error option \<times> 'g"
  run_program :: "string \<Rightarrow> string \<Rightarrow> rat \<Rightarrow> 'g \<Rightarrow> (guest_error + CommandResult) \<times> 'g"
  delete_file :: "string \<Rightarrow> 'g \<Rightarrow> guest_error option \<times> 'g"

definition secret_paths_for :: "string \<Rightarrow> (string, string) dict \<Rightarrow> (string, string) dict" where
  "secret_paths_for token secrets =
     map (\<lambda>(i, name, _). (name, new_temp_path (token @ ''-'' @ nat_text i) ''dat'')) (List.enumerate 0 secrets)"

text \<open>Upload files in order; \<open>up\<close> collects the paths whose upload succeeded.\<close>

fun upload_all :: "'g guest_ops \<Rightarrow> (string \<times> string) list \<Rightarrow> string list \<Rightarrow> 'g \<Rightarrow> guest_error option \<times> string list \<times> 'g" where
  "upload_all ops [] up g = (None, up, g)"
| "upload_all ops ((path, content) # fs) up g =
     (case upload_file ops path content g of
        (Some e, g') \<Rightarrow> (Some e, up, g')
      | (None, g') \<Rightarrow> upload_all ops fs (up @ [path]) g')"

text \<open>The \<^verbatim>\<open>finally\<close> block: a deliberate error of one deletion is ignored, any other exception leaves it.\<close>

fun delete_all :: "'g guest_ops \<Rightarrow> string list \<Rightarrow> 'g \<Rightarrow> guest_error option \<times> 'g" where
  "delete_all ops [] g = (None, g)"
| "delete_all ops (path # paths) g =
     (case delete_file ops path g of
        (Some (Other e), g') \<Rightarrow> (Some (Other e), g')
      | (_, g') \<Rightarrow> delete_all ops paths g')"

definition run_body ::
  "'g guest_ops \<Rightarrow> string \<Rightarrow> string \<Rightarrow> rat \<Rightarrow> (string, string) dict \<Rightarrow> 'g \<Rightarrow> (guest_error + CommandResult) \<times> string list \<times> 'g" where
  "run_body ops token scr timeout secrets g =
     (let script_path = new_temp_path token ''ps1'';
          paths = secret_paths_for token secrets
      in case upload_all ops (map (\<lambda>((_, path), (_, content)). (path, content)) (zip paths secrets)) [] g of
           (Some e, up, g1) \<Rightarrow> (Inl e, up, g1)
         | (None, up, g1) \<Rightarrow>
             (case build_script_file scr paths of
                Inl e \<Rightarrow> (Inl (Other e), up, g1)
              | Inr text \<Rightarrow>
                  (case upload_all ops [(script_path, encode_script text)] up g1 of
                     (Some e, up2, g2) \<Rightarrow> (Inl e, up2, g2)
                   | (None, up2, g2) \<Rightarrow>
                       (case run_program ops POWERSHELL_PATH (powershell_file_arguments script_path) timeout g2 of
                          (r, g3) \<Rightarrow> (r, up2, g3)))))"

definition run_powershell ::
  "'g guest_ops \<Rightarrow> string \<Rightarrow> string \<Rightarrow> rat \<Rightarrow> (string, string) dict \<Rightarrow> 'g \<Rightarrow> (guest_error + CommandResult) \<times> 'g" where
  "run_powershell ops token scr timeout secrets g =
     (case run_body ops token scr timeout secrets g of
        (r, up, g1) \<Rightarrow>
          (case delete_all ops up g1 of
             (Some e, g2) \<Rightarrow> (Inl e, g2)
           | (None, g2) \<Rightarrow> (r, g2)))"

definition run_command ::
  "'g guest_ops \<Rightarrow> string \<Rightarrow> GuestCommand \<Rightarrow> rat \<Rightarrow> 'g \<Rightarrow> (guest_error + CommandResult) \<times> 'g" where
  "run_command ops token cmd timeout g =
     (if is_powershell cmd then run_powershell ops token (text_or (script cmd) []) timeout [] g
      else run_program ops (text_or (program cmd) []) (arguments cmd) timeout g)"

section \<open>Reading a literal back\<close>

text \<open>
  Literals over Unicode code points, as both Python and PowerShell have them. PowerShell reads four typographic
  quotes (U+2018 to U+201B) as single quotes too, wherever it looks for one: a literal ends at the first quote of
  either kind that no other quote follows, and two quotes in a row stand for the second of them.
\<close>

definition points :: "string \<Rightarrow> nat list" where
  "points s = map of_char s"

definition quote_points :: "nat list \<Rightarrow> nat list" where
  "quote_points v = [0x27] @ concat (map (\<lambda>c. if c = 0x27 then [0x27, 0x27] else [c]) v) @ [0x27]"

definition typographic_quote :: "nat \<Rightarrow> bool" where
  "typographic_quote c = (0x2018 \<le> c \<and> c \<le> 0x201B)"

definition single_quote :: "nat \<Rightarrow> bool" where
  "single_quote c = (c = 0x27 \<or> typographic_quote c)"

fun literal_body :: "nat list \<Rightarrow> (nat list \<times> nat list) option" where
  "literal_body [] = None"
| "literal_body (c # cs) =
     (if \<not> single_quote c then map_option (\<lambda>(v, rest). (c # v, rest)) (literal_body cs)
      else case cs of
        [] \<Rightarrow> Some ([], [])
      | d # ds \<Rightarrow> if single_quote d then map_option (\<lambda>(v, rest). (d # v, rest)) (literal_body ds) else Some ([], d # ds))"

definition read_literal :: "nat list \<Rightarrow> (nat list \<times> nat list) option" where
  "read_literal s = (case s of [] \<Rightarrow> None | c # cs \<Rightarrow> if single_quote c then literal_body cs else None)"

lemma single_quote_ascii [simp]: "single_quote 0x27"
  by (simp add: single_quote_def)

lemma points_ps_quote: "points (ps_quote v) = quote_points (points v)"
proof -
  have *: "(of_char c = (39::nat)) = (c = CHR 0x27)" for c :: char
    using of_char_eq_iff [of c "CHR 0x27", where ?'a = nat] by simp
  have "map of_char (double_quotes v) = concat (map (\<lambda>c. if c = (0x27::nat) then [0x27, 0x27] else [c]) (map of_char v))"
    by (induction v) (auto simp: *)
  then show ?thesis by (simp add: points_def ps_quote_def quote_points_def squoted_def)
qed

lemma points_no_typographic: "list_all (\<lambda>c. \<not> typographic_quote c) (points s)"
proof -
  have "\<not> typographic_quote (of_char c)" for c :: char
    unfolding typographic_quote_def using nat_of_char_less_256 [of c] by linarith
  then show ?thesis by (induction s) (simp_all add: points_def)
qed

lemma literal_body_quoted:
  assumes "list_all (\<lambda>c. \<not> typographic_quote c) v" and "rest = [] \<or> \<not> single_quote (hd rest)"
  shows "literal_body (concat (map (\<lambda>c. if c = 0x27 then [0x27, 0x27] else [c]) v) @ 0x27 # rest) = Some (v, rest)"
  using assms by (induction v) (auto simp: single_quote_def split: list.split)

lemma read_literal_quoted:
  "list_all (\<lambda>c. \<not> typographic_quote c) v \<Longrightarrow> rest = [] \<or> \<not> single_quote (hd rest)
   \<Longrightarrow> read_literal (quote_points v @ rest) = Some (v, rest)"
  using literal_body_quoted [of v rest] by (simp add: read_literal_def quote_points_def)

text \<open>Reading consumes one character for every character of the value, one more for every quote in it, and the end quote.\<close>

lemma literal_body_length:
  "literal_body s = Some (v, r) \<Longrightarrow> length s = length v + length (filter single_quote v) + 1 + length r"
proof (induction s arbitrary: v r rule: literal_body.induct)
  case (2 c cs)
  then show ?case by (auto split: if_splits list.splits)
qed simp

lemma quote_points_length: "length (quote_points v) = length v + length (filter (\<lambda>c. c = 0x27) v) + 2"
  by (induction v) (auto simp: quote_points_def)

lemma filter_same_length:
  assumes "length (filter P xs) = length (filter Q xs)" and "\<And>x. Q x \<Longrightarrow> P x"
  shows "list_all (\<lambda>x. P x \<longrightarrow> Q x) xs"
  using assms(1)
proof (induction xs)
  case (Cons x xs)
  have "length (filter Q xs) \<le> length (filter P xs)"
    by (induction xs) (auto simp: assms(2) le_Suc_eq)
  with Cons assms(2) [of x] show ?case by (auto split: if_splits)
qed simp

lemma read_back_no_typographic:
  assumes "read_literal (quote_points v @ rest) = Some (v, rest)"
  shows "list_all (\<lambda>c. \<not> typographic_quote c) v"
proof -
  obtain s where s: "quote_points v @ rest = 0x27 # s" by (auto simp: quote_points_def)
  with assms have "literal_body s = Some (v, rest)" by (simp add: read_literal_def)
  from literal_body_length [OF this] have "length (filter single_quote v) = length (filter (\<lambda>c. c = 0x27) v)"
    using arg_cong [OF s, of length] quote_points_length [of v] by simp
  from filter_same_length [OF this] show ?thesis
    by (auto simp: list_all_iff single_quote_def typographic_quote_def)
qed

text \<open>
  C22. A quoted value is read back by PowerShell as itself, ending where the quoting ended it, exactly when it has
  none of the quotes U+2018 to U+201B: \<^verbatim>\<open>ps_quote\<close> doubles the ASCII quote only, so any other quote ends the
  literal early or is swallowed. For text of 8-bit characters quoting is always exact.
\<close>

theorem ps_quote_reads_back_iff:
  assumes "rest = [] \<or> \<not> single_quote (hd rest)"
  shows "(read_literal (quote_points v @ rest) = Some (v, rest) \<longleftrightarrow> list_all (\<lambda>c. \<not> typographic_quote c) v)
         \<and> read_literal (points (ps_quote s) @ rest) = Some (points s, rest)"
  using read_literal_quoted [OF _ assms] read_back_no_typographic [of v rest] points_no_typographic [of s]
  by (auto simp: points_ps_quote)

theorem ps_quote_reads_back_iff_witness:
  "read_literal (quote_points [97, 0x2019, 59] @ points '' -Force'') \<noteq> Some ([97, 0x2019, 59], points '' -Force'')
   \<and> read_literal (points (ps_quote [CHR ''a'', CHR 0x27, CHR '';'']) @ points '' -Force'')
       = Some (points [CHR ''a'', CHR 0x27, CHR '';''], points '' -Force'')"
proof -
  have h: "points '' -Force'' = [] \<or> \<not> single_quote (hd (points '' -Force''))"
    by (simp add: points_def single_quote_def typographic_quote_def)
  show ?thesis
    using ps_quote_reads_back_iff [OF h, of "[97, 0x2019, 59]" "[CHR ''a'', CHR 0x27, CHR '';'']"]
    by (simp add: typographic_quote_def)
qed

section \<open>Every upload is cleaned up\<close>

text \<open>
  The calls of a run are observed by an adapter that passes them on to any other adapter and notes each with its
  outcome; nothing is assumed of the adapter underneath.
\<close>

datatype guest_call =
  Uploaded string "guest_error option"
  | Ran string string
  | Deleted string "guest_error option"

definition traced :: "'g guest_ops \<Rightarrow> ('g \<times> guest_call list) guest_ops" where
  "traced ops = \<lparr>
     upload_file = (\<lambda>p c (g, calls). case upload_file ops p c g of (r, g') \<Rightarrow> (r, (g', calls @ [Uploaded p r]))),
     run_program = (\<lambda>p a t (g, calls). case run_program ops p a t g of (r, g') \<Rightarrow> (r, (g', calls @ [Ran p a]))),
     delete_file = (\<lambda>p (g, calls). case delete_file ops p g of (r, g') \<Rightarrow> (r, (g', calls @ [Deleted p r])))\<rparr>"

definition files_left :: "guest_call list \<Rightarrow> string list" where
  "files_left calls = concat (map (\<lambda>c. case c of Uploaded p None \<Rightarrow> [p] | _ \<Rightarrow> []) calls)"

definition files_deleted :: "guest_call list \<Rightarrow> string list" where
  "files_deleted calls = concat (map (\<lambda>c. case c of Deleted p _ \<Rightarrow> [p] | _ \<Rightarrow> []) calls)"

definition is_deletion :: "guest_call \<Rightarrow> bool" where
  "is_deletion c = (case c of Deleted _ _ \<Rightarrow> True | _ \<Rightarrow> False)"

lemma files_append [simp]:
  "files_left (a @ b) = files_left a @ files_left b" "files_left [] = []"
  "files_left [Uploaded p r] = (if r = None then [p] else [])" "files_left [Ran x y] = []" "files_left [Deleted p r] = []"
  "files_deleted (a @ b) = files_deleted a @ files_deleted b" "files_deleted [] = []"
  "files_deleted [Uploaded p r] = []" "files_deleted [Ran x y] = []" "files_deleted [Deleted p r] = [p]"
  "\<not> is_deletion (Uploaded p r)" "\<not> is_deletion (Ran x y)" "is_deletion (Deleted p r)"
  by (auto simp: files_left_def files_deleted_def is_deletion_def split: option.splits)

lemma traced_ops [simp]:
  "upload_file (traced ops) p c (g, calls) = (fst (upload_file ops p c g), snd (upload_file ops p c g), calls @ [Uploaded p (fst (upload_file ops p c g))])"
  "run_program (traced ops) p a t (g, calls) = (fst (run_program ops p a t g), snd (run_program ops p a t g), calls @ [Ran p a])"
  "delete_file (traced ops) p (g, calls) = (fst (delete_file ops p g), snd (delete_file ops p g), calls @ [Deleted p (fst (delete_file ops p g))])"
  by (simp_all add: traced_def split: prod.split)

lemma upload_all_traced:
  "\<exists>new. upload_all (traced ops) fs up (g, calls)
           = (case upload_all ops fs up g of (e, up', g') \<Rightarrow> (e, up', (g', calls @ new)))
         \<and> fst (snd (upload_all ops fs up g)) = up @ files_left new \<and> list_all (\<lambda>c. \<not> is_deletion c) new"
proof (induction fs arbitrary: up g calls)
  case Nil
  show ?case by (intro exI [of _ "[]"]) simp
next
  case (Cons f fs)
  obtain p c where f: "f = (p, c)" by (cases f)
  obtain r g1 where r: "upload_file ops p c g = (r, g1)" by fastforce
  show ?case
  proof (cases r)
    case (Some e)
    with f r show ?thesis by (intro exI [of _ "[Uploaded p r]"]) simp
  next
    case None
    from Cons.IH [of "up @ [p]" g1 "calls @ [Uploaded p None]"] obtain new
      where "upload_all (traced ops) fs (up @ [p]) (g1, calls @ [Uploaded p None])
               = (case upload_all ops fs (up @ [p]) g1 of (e, up', g') \<Rightarrow> (e, up', (g', (calls @ [Uploaded p None]) @ new)))"
        and "fst (snd (upload_all ops fs (up @ [p]) g1)) = (up @ [p]) @ files_left new" "list_all (\<lambda>c. \<not> is_deletion c) new"
      by blast
    with f r None show ?thesis by (intro exI [of _ "Uploaded p None # new"]) (simp add: files_left_def)
  qed
qed

lemma delete_all_traced:
  "\<exists>new. delete_all (traced ops) paths (g, calls)
           = (case delete_all ops paths g of (e, g') \<Rightarrow> (e, (g', calls @ new)))
         \<and> list_all is_deletion new \<and> files_left new = []
         \<and> (\<exists>rest. paths = files_deleted new @ rest \<and> (rest = [] \<or> fst (delete_all ops paths g) \<noteq> None))"
proof (induction paths arbitrary: g calls)
  case Nil
  show ?case by (intro exI [of _ "[]"]) simp
next
  case (Cons p paths)
  obtain r g1 where r: "delete_file ops p g = (r, g1)" by fastforce
  show ?case
  proof (cases "\<exists>e. r = Some (Other e)")
    case True
    with r show ?thesis by (intro exI [of _ "[Deleted p r]"]) auto
  next
    case False
    with r have step: "delete_all ops (p # paths) g = delete_all ops paths g1"
      and tstep: "delete_all (traced ops) (p # paths) (g, calls) = delete_all (traced ops) paths (g1, calls @ [Deleted p r])"
      by (auto split: option.splits guest_error.splits)
    from Cons.IH [of g1 "calls @ [Deleted p r]"] obtain new rest
      where "delete_all (traced ops) paths (g1, calls @ [Deleted p r])
               = (case delete_all ops paths g1 of (e, g') \<Rightarrow> (e, (g', (calls @ [Deleted p r]) @ new)))"
        and "list_all is_deletion new" "files_left new = []"
        and "paths = files_deleted new @ rest" "rest = [] \<or> fst (delete_all ops paths g1) \<noteq> None"
      by blast
    then show ?thesis unfolding step tstep
      by (intro exI [of _ "Deleted p r # new"]) (auto simp: files_left_def files_deleted_def split: prod.split)
  qed
qed

lemma delete_all_error: "fst (delete_all ops paths g) \<noteq> None \<Longrightarrow> \<exists>x. fst (delete_all ops paths g) = Some (Other x)"
  by (induction ops paths g rule: delete_all.induct) (auto split: prod.splits option.splits guest_error.splits)

lemma run_body_traced:
  "\<exists>new. run_body (traced ops) token scr timeout secrets (g, calls)
           = (case run_body ops token scr timeout secrets g of (r, up, g') \<Rightarrow> (r, up, (g', calls @ new)))
         \<and> fst (snd (run_body ops token scr timeout secrets g)) = files_left new \<and> list_all (\<lambda>c. \<not> is_deletion c) new"
proof -
  let ?paths = "secret_paths_for token secrets"
  let ?files = "map (\<lambda>((_, path), (_, content)). (path, content)) (zip ?paths secrets)"
  obtain e1 up1 g1 where u1: "upload_all ops ?files [] g = (e1, up1, g1)" by (metis prod_cases3)
  from upload_all_traced [of ops ?files "[]" g calls] u1 obtain n1
    where t1: "upload_all (traced ops) ?files [] (g, calls) = (e1, up1, (g1, calls @ n1))"
      and f1: "up1 = files_left n1" "list_all (\<lambda>c. \<not> is_deletion c) n1" by auto
  show ?thesis
  proof (cases "e1 = None \<and> is_ok (build_script_file scr ?paths)")
    case False
    with u1 t1 f1 show ?thesis
      by (intro exI [of _ n1]) (auto simp: run_body_def Let_def split: sum.splits option.splits)
  next
    case True
    then obtain body where b: "build_script_file scr ?paths = Inr body" by (cases "build_script_file scr ?paths") auto
    let ?script = "[(new_temp_path token ''ps1'', encode_script body)]"
    obtain e2 up2 g2 where u2: "upload_all ops ?script up1 g1 = (e2, up2, g2)" by (metis prod_cases3)
    from upload_all_traced [of ops ?script up1 g1 "calls @ n1"] u2 obtain n2
      where t2: "upload_all (traced ops) ?script up1 (g1, calls @ n1) = (e2, up2, (g2, (calls @ n1) @ n2))"
        and f2: "up2 = up1 @ files_left n2" "list_all (\<lambda>c. \<not> is_deletion c) n2" by auto
    show ?thesis
    proof (cases e2)
      case None
      with True b u1 t1 u2 t2 f1 f2 show ?thesis
        by (intro exI [of _ "n1 @ n2 @ [Ran POWERSHELL_PATH (powershell_file_arguments (new_temp_path token ''ps1''))]"])
           (simp add: run_body_def Let_def split: prod.split del: upload_all.simps)
    next
      case (Some e)
      with True b u1 t1 u2 t2 f1 f2 show ?thesis
        by (intro exI [of _ "n1 @ n2"]) (simp add: run_body_def Let_def del: upload_all.simps)
    qed
  qed
qed


end
