(* ===== verification/Json_Text.thy ===== *)
theory Json_Text
  imports Py_Float "HOL-Library.List_Lexorder" "HOL-Library.Char_ord"
begin

text \<open>
  \<^verbatim>\<open>json.dumps(v, sort_keys=True, separators=(",", ":"))\<close>: the canonical text the request fingerprint is
  taken over, with the ASCII escapes of Python's encoder.
\<close>

definition hex_digit :: "nat \<Rightarrow> char" where
  "hex_digit n = (if n < 10 then char_of (48 + n) else char_of (87 + n))"

definition escape_char :: "char \<Rightarrow> string" where
  "escape_char c =
     (let n = (of_char c :: nat) in
      if c = CHR 0x22 then [CHR 0x5C, CHR 0x22]
      else if c = CHR 0x5C then [CHR 0x5C, CHR 0x5C]
      else if n = 10 then [CHR 0x5C, CHR ''n'']
      else if n = 13 then [CHR 0x5C, CHR ''r'']
      else if n = 9 then [CHR 0x5C, CHR ''t'']
      else if n = 12 then [CHR 0x5C, CHR ''f'']
      else if n = 8 then [CHR 0x5C, CHR ''b'']
      else if n < 32 \<or> 126 < n then [CHR 0x5C, CHR ''u'', CHR ''0'', CHR ''0'', hex_digit (n div 16), hex_digit (n mod 16)]
      else [c])"

definition json_string :: "string \<Rightarrow> string" where
  "json_string s = [CHR 0x22] @ concat (map escape_char s) @ [CHR 0x22]"

fun canonical_json :: "json \<Rightarrow> string" where
  "canonical_json JNull = ''null''"
| "canonical_json (JBool b) = (if b then ''true'' else ''false'')"
| "canonical_json (JInt i) = int_text i"
| "canonical_json (JFloat q) = float_repr q"
| "canonical_json (JStr s) = json_string s"
| "canonical_json (JList xs) = ''['' @ join_on '','' (map canonical_json xs) @ '']''"
| "canonical_json (JObj kvs) =
     ''{'' @ join_on '','' (map snd (sort_key fst
        (map (\<lambda>kv. (fst kv, json_string (fst kv) @ '':'' @ canonical_json (snd kv))) kvs))) @ ''}''"

lemma sort_key_perm:
  assumes "set xs = set ys" and "distinct (map fst xs)" and "distinct (map fst ys)"
  shows "sort_key fst xs = sort_key (fst :: 'k :: linorder \<times> 'v \<Rightarrow> 'k) ys"
proof (rule map_sorted_distinct_set_unique)
  show "inj_on fst (set (sort_key fst xs) \<union> set (sort_key fst ys))"
    using assms by (simp add: distinct_map)
qed (use assms in \<open>simp_all add: distinct_map\<close>)

text \<open>The canonical text does not depend on the insertion order of a dictionary.\<close>

lemma canonical_json_order:
  assumes "set kvs = set kvs'" and "distinct (map fst kvs)" and "distinct (map fst kvs')"
  shows "canonical_json (JObj kvs) = canonical_json (JObj kvs')"
proof -
  let ?f = "\<lambda>kv. (fst kv, json_string (fst kv) @ '':'' @ canonical_json (snd kv))"
  have "sort_key fst (map ?f kvs) = sort_key fst (map ?f kvs')"
    using assms by (intro sort_key_perm) (simp_all add: comp_def)
  then show ?thesis by (simp only: canonical_json.simps)
qed

end
