(* ===== verification/Json_Parse.thy ===== *)
theory Json_Parse
  imports Json_Text Py_Text
begin

text \<open>
  \<^verbatim>\<open>json.dumps(v)\<close> with the default separators, and \<^verbatim>\<open>json.loads(s)\<close>: Python's decoder for JSON texts
  (white space, escapes, numbers, duplicate keys where the last one wins). \<^term>\<open>None\<close> is \<^verbatim>\<open>JSONDecodeError\<close>; the
  extensions \<^verbatim>\<open>NaN\<close> and \<^verbatim>\<open>Infinity\<close> and escaped code points beyond 255 have no counterpart in the model's values
  and are rejected too.
\<close>

section \<open>Encoder and decoder\<close>

fun json_dumps :: "json \<Rightarrow> string" where
  "json_dumps JNull = ''null''"
| "json_dumps (JBool b) = (if b then ''true'' else ''false'')"
| "json_dumps (JInt i) = int_text i"
| "json_dumps (JFloat q) = float_repr q"
| "json_dumps (JStr s) = json_string s"
| "json_dumps (JList xs) = ''['' @ join_on '', '' (map json_dumps xs) @ '']''"
| "json_dumps (JObj kvs) = ''{'' @ join_on '', '' (map (\<lambda>kv. json_string (fst kv) @ '': '' @ json_dumps (snd kv)) kvs) @ ''}''"

definition skip_ws :: "string \<Rightarrow> string" where
  "skip_ws s = dropWhile (\<lambda>c. c \<in> {CHR '' '', CHR 0x09, CHR 0x0A, CHR 0x0D}) s"

definition hex_value :: "char \<Rightarrow> nat" where
  "hex_value c = (if is_digit c then digit_value c else of_char (lower_char c) - 87)"

definition unicode_escape :: "char \<Rightarrow> char \<Rightarrow> char \<Rightarrow> char \<Rightarrow> char option" where
  "unicode_escape a b c d =
     (if list_all is_hex_digit [a, b, c, d]
      then let n = ((hex_value a * 16 + hex_value b) * 16 + hex_value c) * 16 + hex_value d
           in if n < 256 then Some (char_of n) else None
      else None)"

definition simple_escape :: "char \<Rightarrow> char option" where
  "simple_escape c =
     map_of [(CHR 0x22, CHR 0x22), (CHR 0x5C, CHR 0x5C), (CHR ''/'', CHR ''/''), (CHR ''b'', CHR 0x08), (CHR ''f'', CHR 0x0C),
             (CHR ''n'', CHR 0x0A), (CHR ''r'', CHR 0x0D), (CHR ''t'', CHR 0x09)] c"

text \<open>The string after its opening quote, and what follows its closing quote.\<close>

function scan_string :: "string \<Rightarrow> (string \<times> string) option" where
  "scan_string [] = None"
| "scan_string (c # cs) =
     (if c = CHR 0x22 then Some ([], cs)
      else if c = CHR 0x5C then
        (if length cs \<ge> 5 \<and> hd cs = CHR ''u''
         then case unicode_escape (cs ! 1) (cs ! 2) (cs ! 3) (cs ! 4) of
             None \<Rightarrow> None
           | Some e \<Rightarrow> map_option (\<lambda>(v, rest). (e # v, rest)) (scan_string (drop 5 cs))
         else if cs = [] then None
         else case simple_escape (hd cs) of
             None \<Rightarrow> None
           | Some e \<Rightarrow> map_option (\<lambda>(v, rest). (e # v, rest)) (scan_string (tl cs)))
      else if (of_char c :: nat) < 32 then None
      else map_option (\<lambda>(v, rest). (c # v, rest)) (scan_string cs))"
  by pat_completeness auto
termination by (relation "measure length") auto

text \<open>A number: sign, integer part, optional fraction, optional exponent.\<close>

definition scan_int :: "string \<Rightarrow> (string \<times> string) option" where
  "scan_int s =
     (case s of
        [] \<Rightarrow> None
      | c # cs \<Rightarrow>
          if c = CHR ''0'' then Some ([c], cs)
          else if is_digit c then Some (takeWhile is_digit s, dropWhile is_digit s)
          else None)"

definition scan_frac :: "string \<Rightarrow> string \<times> string" where
  "scan_frac s =
     (case s of
        c # d # cs \<Rightarrow> if c = CHR ''.'' \<and> is_digit d then (takeWhile is_digit (d # cs), dropWhile is_digit (d # cs)) else ([], s)
      | _ \<Rightarrow> ([], s))"

definition scan_exp :: "string \<Rightarrow> int option \<times> string" where
  "scan_exp s =
     (case s of
        [] \<Rightarrow> (None, s)
      | c # cs \<Rightarrow>
          if c \<in> {CHR ''e'', CHR ''E''} then
            (let negative = (cs \<noteq> [] \<and> hd cs = CHR ''-'');
                 ds = (if cs \<noteq> [] \<and> hd cs \<in> {CHR ''+'', CHR ''-''} then tl cs else cs);
                 digits = takeWhile is_digit ds
             in if digits = [] then (None, s)
                else (Some ((if negative then - 1 else 1) * int (nat_of_text digits)), dropWhile is_digit ds))
          else (None, s))"

definition scan_number :: "string \<Rightarrow> (json \<times> string) option" where
  "scan_number s =
     (let negative = (s \<noteq> [] \<and> hd s = CHR ''-'');
          sgn = (if negative then - 1 else 1)
      in case scan_int (if negative then tl s else s) of
           None \<Rightarrow> None
         | Some (whole, r1) \<Rightarrow>
             (case scan_frac r1 of (fr, r2) \<Rightarrow>
                (case scan_exp r2 of (e, r3) \<Rightarrow>
                   if fr = [] \<and> e = None then Some (JInt (sgn * int (nat_of_text whole)), r3)
                   else Some (JFloat (double (of_int sgn * of_nat (nat_of_text (whole @ fr)) * 10 powi (case_option 0 id e - int (length fr)))), r3))))"

text \<open>Values, list items and object members; \<open>fuel\<close> bounds the nesting together with the number of items.\<close>

fun parse_value :: "nat \<Rightarrow> string \<Rightarrow> (json \<times> string) option"
  and parse_items :: "nat \<Rightarrow> string \<Rightarrow> (json list \<times> string) option"
  and parse_members :: "nat \<Rightarrow> string \<Rightarrow> ((string \<times> json) list \<times> string) option" where
  "parse_value 0 s = None"
| "parse_value (Suc fuel) s =
     (case s of
        [] \<Rightarrow> None
      | c # cs \<Rightarrow>
          if c = CHR 0x22 then map_option (\<lambda>(v, rest). (JStr v, rest)) (scan_string cs)
          else if c = CHR ''{'' then
            (if startswith (skip_ws cs) ''}'' then Some (JObj [], tl (skip_ws cs))
             else map_option (\<lambda>(kvs, rest). (JObj (dict_update [] kvs), rest)) (parse_members fuel (skip_ws cs)))
          else if c = CHR ''['' then
            (if startswith (skip_ws cs) '']'' then Some (JList [], tl (skip_ws cs))
             else map_option (\<lambda>(vs, rest). (JList vs, rest)) (parse_items fuel (skip_ws cs)))
          else if startswith s ''null'' then Some (JNull, drop 4 s)
          else if startswith s ''true'' then Some (JBool True, drop 4 s)
          else if startswith s ''false'' then Some (JBool False, drop 5 s)
          else scan_number s)"
| "parse_items 0 s = None"
| "parse_items (Suc fuel) s =
     (case parse_value fuel s of
        None \<Rightarrow> None
      | Some (v, r) \<Rightarrow>
          (case skip_ws r of
             [] \<Rightarrow> None
           | c # cs \<Rightarrow>
               if c = CHR '']'' then Some ([v], cs)
               else if c = CHR '','' then map_option (\<lambda>(vs, rest). (v # vs, rest)) (parse_items fuel (skip_ws cs))
               else None))"
| "parse_members 0 s = None"
| "parse_members (Suc fuel) s =
     (if \<not> startswith s [CHR 0x22] then None
      else case scan_string (tl s) of
        None \<Rightarrow> None
      | Some (key, r) \<Rightarrow>
          (if \<not> startswith (skip_ws r) '':'' then None
           else case parse_value fuel (skip_ws (tl (skip_ws r))) of
             None \<Rightarrow> None
           | Some (v, r2) \<Rightarrow>
               (case skip_ws r2 of
                  [] \<Rightarrow> None
                | c # cs \<Rightarrow>
                    if c = CHR ''}'' then Some ([(key, v)], cs)
                    else if c = CHR '','' then map_option (\<lambda>(kvs, rest). ((key, v) # kvs, rest)) (parse_members fuel (skip_ws cs))
                    else None)))"

definition json_loads :: "string \<Rightarrow> json option" where
  "json_loads s =
     (case parse_value (2 * length s + 2) (skip_ws s) of
        None \<Rightarrow> None
      | Some (v, rest) \<Rightarrow> if skip_ws rest = [] then Some v else None)"

section \<open>What is written reads back\<close>

text \<open>Values without floats whose objects have distinct keys, as Python's dictionaries do.\<close>

fun plain_json :: "json \<Rightarrow> bool" where
  "plain_json (JFloat q) = False"
| "plain_json (JList xs) = list_all plain_json xs"
| "plain_json (JObj kvs) = (distinct (map fst kvs) \<and> list_all (\<lambda>kv. plain_json (snd kv)) kvs)"
| "plain_json _ = True"

lemma of_char_hex_digit: "n < 16 \<Longrightarrow> of_char (hex_digit n) = (if n < 10 then 48 + n else 87 + n)"
  by (simp add: hex_digit_def)

lemma hex_digit_props: "n < 16 \<Longrightarrow> is_hex_digit (hex_digit n) \<and> hex_value (hex_digit n) = n"
  by (auto simp: is_hex_digit_def is_digit_def hex_value_def digit_value_def lower_char_def of_char_hex_digit Let_def)

lemma scan_escaped: "scan_string (escape_char c @ s) = map_option (\<lambda>(v, rest). (c # v, rest)) (scan_string s)"
proof -
  let ?n = "of_char c :: nat"
  have n: "?n < 256" by simp
  have ch: "?n = 10 \<longleftrightarrow> c = CHR 0x0A" "?n = 13 \<longleftrightarrow> c = CHR 0x0D" "?n = 9 \<longleftrightarrow> c = CHR 0x09" "?n = 12 \<longleftrightarrow> c = CHR 0x0C" "?n = 8 \<longleftrightarrow> c = CHR 0x08"
    by (fold of_char_eq_iff [where ?'a = nat]) simp_all
  consider "c \<in> {CHR 0x22, CHR 0x5C, CHR 0x0A, CHR 0x0D, CHR 0x09, CHR 0x0C, CHR 0x08}"
    | "c \<notin> {CHR 0x22, CHR 0x5C, CHR 0x0A, CHR 0x0D, CHR 0x09, CHR 0x0C, CHR 0x08}" "?n < 32 \<or> 126 < ?n"
    | "c \<notin> {CHR 0x22, CHR 0x5C}" "\<not> (?n < 32 \<or> 126 < ?n)" by blast
  then show ?thesis
  proof cases
    case 1
    then show ?thesis by (auto simp: escape_char_def Let_def simple_escape_def)
  next
    case 2
    then have e: "escape_char c = [CHR 0x5C, CHR ''u'', CHR ''0'', CHR ''0'', hex_digit (?n div 16), hex_digit (?n mod 16)]"
      by (simp add: escape_char_def Let_def ch)
    have "unicode_escape (CHR ''0'') (CHR ''0'') (hex_digit (?n div 16)) (hex_digit (?n mod 16)) = Some c"
    proof -
      have z: "is_hex_digit (CHR ''0'')" "hex_value (CHR ''0'') = 0" by code_simp+
      have "?n div 16 < 16" by (rule less_mult_imp_div_less) simp
      moreover have "?n mod 16 < 16" by simp
      ultimately have "?n div 16 < 16" "?n mod 16 < 16" by simp_all
      from hex_digit_props [OF this(1)] hex_digit_props [OF this(2)] show ?thesis
        by (simp add: unicode_escape_def Let_def z)
    qed
    then show ?thesis unfolding e by (simp add: nth_Cons')
  next
    case 3
    then have "escape_char c = [c]" by (auto simp: escape_char_def Let_def)
    with 3 show ?thesis by simp
  qed
qed

lemma scan_json_string: "scan_string (concat (map escape_char s) @ [CHR 0x22] @ rest) = Some (s, rest)"
  by (induction s) (simp_all add: scan_escaped del: scan_string.simps(2), simp)

text \<open>A number ends where no digit, fraction or exponent follows.\<close>

definition ends_number :: "string \<Rightarrow> bool" where
  "ends_number rest \<longleftrightarrow> rest = [] \<or> (\<not> is_digit (hd rest) \<and> hd rest \<notin> {CHR ''.'', CHR ''e'', CHR ''E''})"

lemma scan_int_nat_text:
  assumes "ends_number rest"
  shows "scan_int (nat_text n @ rest) = Some (nat_text n, rest)"
proof -
  have d: "list_all is_digit (nat_text n)" by (rule nat_text_digits)
  obtain c cs where e: "nat_text n = c # cs" by (cases "nat_text n") auto
  have t: "takeWhile is_digit (nat_text n @ rest) = nat_text n" "dropWhile is_digit (nat_text n @ rest) = rest"
    using d assms by (auto simp: list_all_iff takeWhile_append dropWhile_append ends_number_def takeWhile_eq_Nil_iff dropWhile_eq_self_iff)
  show ?thesis
  proof (cases "c = CHR ''0''")
    case True
    then have "n = 0" using nat_text_leading_zero [of n] e by simp
    moreover have "nat_text 0 = ''0''" by code_simp
    ultimately show ?thesis by (simp add: scan_int_def)
  next
    case False
    then show ?thesis using t d e by (simp add: scan_int_def)
  qed
qed

lemma scan_number_int_text:
  assumes "ends_number rest"
  shows "scan_number (int_text i @ rest) = Some (JInt i, rest)"
proof -
  have f: "scan_frac rest = ([], rest)" "scan_exp rest = (None, rest)"
    using assms by (auto simp: ends_number_def scan_frac_def scan_exp_def split: list.splits)
  obtain c cs where e: "nat_text (nat i) = c # cs" by (cases "nat_text (nat i)") auto
  have "is_digit c" using nat_text_digits [of "nat i"] e by simp
  then have "c \<noteq> CHR ''-''" by (auto simp: is_digit_def)
  then show ?thesis
    using f scan_int_nat_text [OF assms, of "nat i"] scan_int_nat_text [OF assms, of "nat (- i)"] e
      nat_of_text_nat_text [of "nat i"]
    by (auto simp: scan_number_def int_text_def Let_def)
qed

lemma skip_ws_plain: "s = [] \<or> hd s \<notin> {CHR '' '', CHR 0x09, CHR 0x0A, CHR 0x0D} \<Longrightarrow> skip_ws s = s"
  by (cases s) (auto simp: skip_ws_def)

lemma hd_json_dumps: "json_dumps v \<noteq> [] \<and> hd (json_dumps v) \<notin> {CHR '' '', CHR 0x09, CHR 0x0A, CHR 0x0D, CHR ''}'', CHR '']''}" if "plain_json v"
proof (cases v)
  case (JInt i)
  have "is_digit (hd (nat_text n))" for n using nat_text_digits [of n] by (cases "nat_text n") auto
  from this [of "nat i"] JInt show ?thesis by (auto simp: int_text_def is_digit_def)
qed (use that in \<open>auto simp: json_string_def\<close>)

lemma update_absent: "k \<notin> fst ` set d \<Longrightarrow> AList.update k v d = d @ [(k, v)]"
  by (induction d) auto

lemma dict_update_distinct: "distinct (map fst (d @ e)) \<Longrightarrow> dict_update d e = d @ e"
proof (induction e arbitrary: d)
  case (Cons kv e)
  obtain k v where kv: "kv = (k, v)" by (cases kv)
  have "dict_update (d @ [(k, v)]) e = (d @ [(k, v)]) @ e" using Cons.prems kv by (intro Cons.IH) auto
  moreover have "AList.update k v d = d @ [(k, v)]" using Cons.prems kv by (intro update_absent) auto
  ultimately show ?case by (simp add: kv dict_update_def)
qed (simp add: dict_update_def)

lemma parse_items_dumps:
  assumes "xs \<noteq> []" and "list_all plain_json xs" and "2 * length (join_on '', '' (map json_dumps xs)) + 1 \<le> fuel"
    and IH: "\<And>x f r. x \<in> set xs \<Longrightarrow> ends_number r \<Longrightarrow> 2 * length (json_dumps x) \<le> f \<Longrightarrow> parse_value f (json_dumps x @ r) = Some (x, r)"
  shows "parse_items fuel (join_on '', '' (map json_dumps xs) @ CHR '']'' # rest) = Some (xs, rest)"
  using assms
proof (induction xs arbitrary: fuel)
  case (Cons x xs)
  then obtain f where f: "fuel = Suc f" by (cases fuel) auto
  show ?case
  proof (cases "xs = []")
    case True
    have "parse_value f (json_dumps x @ CHR '']'' # rest) = Some (x, CHR '']'' # rest)"
      using Cons.prems True f by (intro Cons.prems(4)) (auto simp: ends_number_def is_digit_def)
    with True f show ?thesis by (simp add: skip_ws_plain)
  next
    case False
    then obtain y ys where xs: "xs = y # ys" by (cases xs) auto
    let ?t = "join_on '', '' (map json_dumps xs) @ CHR '']'' # rest"
    have v: "parse_value f (json_dumps x @ CHR '','' # CHR '' '' # ?t) = Some (x, CHR '','' # CHR '' '' # ?t)"
      using Cons.prems xs f by (intro Cons.prems(4)) (auto simp: ends_number_def is_digit_def)
    have i: "parse_items f ?t = Some (xs, rest)"
      using Cons.prems xs f by (intro Cons.IH) auto
    have "skip_ws (CHR '' '' # ?t) = ?t"
      using hd_json_dumps [of y] Cons.prems(2) xs skip_ws_plain [of ?t] by (cases ys) (auto simp: skip_ws_def)
    with v i f show ?thesis by (simp add: xs skip_ws_plain)
  qed
qed simp

definition member_text :: "string \<times> json \<Rightarrow> string" where
  "member_text kv = json_string (fst kv) @ '': '' @ json_dumps (snd kv)"

lemma parse_member:
  assumes "plain_json v" and "ends_number r" and "parse_value f (json_dumps v @ r) = Some (v, r)"
  shows "parse_members (Suc f) (member_text (k, v) @ r) =
    (case skip_ws r of
       [] \<Rightarrow> None
     | c # cs \<Rightarrow> if c = CHR ''}'' then Some ([(k, v)], cs)
         else if c = CHR '','' then map_option (\<lambda>(kvs, rest). ((k, v) # kvs, rest)) (parse_members f (skip_ws cs)) else None)"
proof -
  have s: "scan_string (concat (map escape_char k) @ CHR 0x22 # CHR '':'' # CHR '' '' # json_dumps v @ r) = Some (k, CHR '':'' # CHR '' '' # json_dumps v @ r)"
    using scan_json_string [of k "CHR '':'' # CHR '' '' # json_dumps v @ r"] by simp
  have "hd (json_dumps v @ r) = hd (json_dumps v)" "json_dumps v @ r \<noteq> []" using hd_json_dumps [OF assms(1)] by auto
  then have w: "skip_ws (json_dumps v @ r) = json_dumps v @ r" using hd_json_dumps [OF assms(1)] by (intro skip_ws_plain) auto
  have "skip_ws (CHR '' '' # json_dumps v @ r) = json_dumps v @ r" using w by (simp add: skip_ws_def)
  moreover have "skip_ws (CHR '':'' # CHR '' '' # json_dumps v @ r) = CHR '':'' # CHR '' '' # json_dumps v @ r" by (simp add: skip_ws_plain)
  ultimately show ?thesis using s assms(3) by (simp add: member_text_def json_string_def cong: list.case_cong)
qed

lemma parse_members_dumps:
  assumes "kvs \<noteq> []" and "list_all (\<lambda>kv. plain_json (snd kv)) kvs" and "2 * length (join_on '', '' (map member_text kvs)) + 1 \<le> fuel"
    and IH: "\<And>kv f r. kv \<in> set kvs \<Longrightarrow> ends_number r \<Longrightarrow> 2 * length (json_dumps (snd kv)) \<le> f
      \<Longrightarrow> parse_value f (json_dumps (snd kv) @ r) = Some (snd kv, r)"
  shows "parse_members fuel (join_on '', '' (map member_text kvs) @ CHR ''}'' # rest) = Some (kvs, rest)"
  using assms
proof (induction kvs arbitrary: fuel)
  case (Cons kv kvs)
  obtain k v where kv: "kv = (k, v)" by (cases kv)
  from Cons.prems obtain f where f: "fuel = Suc f" by (cases fuel) auto
  have p: "plain_json v" using Cons.prems(2) kv by simp
  have t: "length (member_text kv) \<ge> length (json_dumps v)" by (simp add: member_text_def kv)
  have step: "parse_members fuel (member_text kv @ r) =
      (case skip_ws r of
         [] \<Rightarrow> None
       | c # cs \<Rightarrow> if c = CHR ''}'' then Some ([(k, v)], cs)
           else if c = CHR '','' then map_option (\<lambda>(kvs, rest). ((k, v) # kvs, rest)) (parse_members f (skip_ws cs)) else None)"
    if "ends_number r" "2 * length (json_dumps v) \<le> f" for r
    unfolding f kv using Cons.prems(4) [of kv r f] that kv by (intro parse_member [OF p]) simp_all
  show ?case
  proof (cases "kvs = []")
    case True
    have "2 * length (json_dumps v) \<le> f" using Cons.prems(3) True f t by simp
    from step [OF _ this, of "CHR ''}'' # rest"] show ?thesis
      using True kv by (simp add: ends_number_def is_digit_def skip_ws_plain)
  next
    case False
    then obtain y ys where ks: "kvs = y # ys" by (cases kvs) auto
    let ?t = "join_on '', '' (map member_text kvs) @ CHR ''}'' # rest"
    have i: "parse_members f ?t = Some (kvs, rest)" using Cons.prems ks f by (intro Cons.IH) auto
    have "hd ?t = CHR 0x22" by (cases ys) (simp_all add: ks member_text_def json_string_def)
    then have "skip_ws (CHR '' '' # ?t) = ?t" using skip_ws_plain [of ?t] by (simp add: skip_ws_def)
    moreover have "2 * length (json_dumps v) \<le> f" using Cons.prems(3) ks f t by simp
    ultimately show ?thesis using step [of "CHR '','' # CHR '' '' # ?t"] i
      by (simp add: ks kv ends_number_def is_digit_def skip_ws_plain)
  qed
qed simp

lemma parse_json_dumps:
  "plain_json v \<Longrightarrow> ends_number rest \<Longrightarrow> 2 * length (json_dumps v) \<le> fuel \<Longrightarrow> parse_value fuel (json_dumps v @ rest) = Some (v, rest)"
proof (induction v arbitrary: fuel rest rule: plain_json.induct [case_names Float List Obj Null Bool Int Str])
  case (List xs)
  then obtain f where f: "fuel = Suc f" by (cases fuel) auto
  show ?case
  proof (cases "xs = []")
    case False
    let ?j = "join_on '', '' (map json_dumps xs) @ CHR '']'' # rest"
    have p: "parse_items f ?j = Some (xs, rest)"
      using List f False by (intro parse_items_dumps) (auto simp: list_all_iff)
    obtain y ys where xs: "xs = y # ys" using False by (cases xs) auto
    have "hd ?j = hd (json_dumps y)" "?j \<noteq> []" using hd_json_dumps [of y] List(2) xs by (cases ys; auto)+
    then have "skip_ws ?j = ?j" "\<not> startswith ?j '']''" using hd_json_dumps [of y] List(2) xs by (auto intro: skip_ws_plain simp: startswith_iff)
    with p f show ?thesis by simp
  qed (use f in \<open>simp add: skip_ws_plain\<close>)
next
  case (Obj kvs)
  then obtain f where f: "fuel = Suc f" by (cases fuel) auto
  have m: "json_dumps (JObj kvs) = ''{'' @ join_on '', '' (map member_text kvs) @ ''}''" by (simp add: member_text_def [abs_def])
  show ?case
  proof (cases "kvs = []")
    case False
    let ?j = "join_on '', '' (map member_text kvs) @ CHR ''}'' # rest"
    have p: "parse_members f ?j = Some (kvs, rest)"
      using Obj f False unfolding m by (intro parse_members_dumps) (auto simp: list_all_iff)
    obtain y ys where ks: "kvs = y # ys" using False by (cases kvs) auto
    have "hd ?j = CHR 0x22" "?j \<noteq> []" by (cases ys; simp add: ks member_text_def json_string_def)+
    then have "skip_ws ?j = ?j" "\<not> startswith ?j ''}''" by (auto intro: skip_ws_plain simp: startswith_iff)
    moreover have "dict_update [] kvs = kvs" using Obj(2) dict_update_distinct [of "[]" kvs] by simp
    ultimately show ?thesis using p f unfolding m by simp
  qed (use f in \<open>simp add: skip_ws_plain\<close>)
next
  case Null
  then show ?case by (cases fuel) auto
next
  case (Bool b)
  then show ?case by (cases fuel; cases b) auto
next
  case (Int i)
  then obtain f where f: "fuel = Suc f" by (cases fuel) (auto simp: int_text_def split: if_splits)
  obtain c cs where c: "int_text i @ rest = c # cs" by (cases "int_text i @ rest") (auto simp: int_text_def split: if_splits)
  have "is_digit (hd (nat_text (nat i)))" using nat_text_digits [of "nat i"] by (cases "nat_text (nat i)") auto
  then have "c = CHR ''-'' \<or> is_digit c" using c by (auto simp: int_text_def hd_append split: if_splits dest: arg_cong [where f = hd])
  then have "c \<notin> {CHR 0x22, CHR ''{'', CHR ''['', CHR ''n'', CHR ''t'', CHR ''f''}" by (auto simp: is_digit_def)
  then show ?case using scan_number_int_text [OF Int(2), of i] f c by simp
qed (auto simp: json_string_def scan_json_string [simplified] gr0_conv_Suc dest!: Suc_le_D split: if_splits)

lemma loads_dumps: "plain_json v \<Longrightarrow> json_loads (json_dumps v) = Some v"
proof -
  assume v: "plain_json v"
  have "skip_ws (json_dumps v) = json_dumps v" using hd_json_dumps [OF v] by (intro skip_ws_plain) auto
  moreover have "parse_value (2 * length (json_dumps v) + 2) (json_dumps v) = Some (v, [])"
    using parse_json_dumps [OF v, of "[]" "2 * length (json_dumps v) + 2"] by (simp only: ends_number_def append_Nil2) simp
  ultimately show ?thesis by (simp only: json_loads_def) (simp add: skip_ws_def)
qed

section \<open>Objects printed without spaces\<close>

text \<open>
  An object of plain values as \<^verbatim>\<open>json.dumps(..., separators=(",", ":"))\<close> and PowerShell's
  \<^verbatim>\<open>ConvertTo-Json -Compress\<close> lay it out.
\<close>

definition compact_member :: "string \<times> json \<Rightarrow> string" where
  "compact_member kv = json_string (fst kv) @ '':'' @ json_dumps (snd kv)"

definition compact_object :: "(string \<times> json) list \<Rightarrow> string" where
  "compact_object kvs = ''{'' @ join_on '','' (map compact_member kvs) @ ''}''"

lemma parse_compact_member:
  assumes "plain_json v" and "parse_value f (json_dumps v @ r) = Some (v, r)"
  shows "parse_members (Suc f) (compact_member (k, v) @ r) =
    (case skip_ws r of
       [] \<Rightarrow> None
     | c # cs \<Rightarrow> if c = CHR ''}'' then Some ([(k, v)], cs)
         else if c = CHR '','' then map_option (\<lambda>(kvs, rest). ((k, v) # kvs, rest)) (parse_members f (skip_ws cs)) else None)"
proof -
  have s: "scan_string (concat (map escape_char k) @ CHR 0x22 # CHR '':'' # json_dumps v @ r) = Some (k, CHR '':'' # json_dumps v @ r)"
    using scan_json_string [of k "CHR '':'' # json_dumps v @ r"] by simp
  have "hd (json_dumps v @ r) = hd (json_dumps v)" "json_dumps v @ r \<noteq> []" using hd_json_dumps [OF assms(1)] by auto
  then have "skip_ws (json_dumps v @ r) = json_dumps v @ r" using hd_json_dumps [OF assms(1)] by (intro skip_ws_plain) auto
  moreover have "skip_ws (CHR '':'' # json_dumps v @ r) = CHR '':'' # json_dumps v @ r" by (simp add: skip_ws_plain)
  ultimately show ?thesis using s assms(2) by (simp add: compact_member_def json_string_def cong: list.case_cong)
qed

lemma parse_compact_members:
  assumes "kvs \<noteq> []" and "list_all (\<lambda>kv. plain_json (snd kv)) kvs" and "2 * length (join_on '','' (map compact_member kvs)) + 1 \<le> fuel"
  shows "parse_members fuel (join_on '','' (map compact_member kvs) @ CHR ''}'' # rest) = Some (kvs, rest)"
  using assms
proof (induction kvs arbitrary: fuel)
  case (Cons kv kvs)
  obtain k v where kv: "kv = (k, v)" by (cases kv)
  from Cons.prems obtain f where f: "fuel = Suc f" by (cases fuel) auto
  have p: "plain_json v" using Cons.prems(2) kv by simp
  have t: "length (compact_member kv) \<ge> length (json_dumps v)" by (simp add: compact_member_def kv)
  have fv: "2 * length (json_dumps v) \<le> f" using Cons.prems(3) f t by (cases kvs) simp_all
  have step: "parse_members fuel (compact_member kv @ r) =
      (case skip_ws r of
         [] \<Rightarrow> None
       | c # cs \<Rightarrow> if c = CHR ''}'' then Some ([(k, v)], cs)
           else if c = CHR '','' then map_option (\<lambda>(kvs, rest). ((k, v) # kvs, rest)) (parse_members f (skip_ws cs)) else None)"
    if "ends_number r" for r
    unfolding f kv by (intro parse_compact_member [OF p] parse_json_dumps [OF p that fv])
  show ?case
  proof (cases "kvs = []")
    case True
    then show ?thesis using step [of "CHR ''}'' # rest"] kv by (simp add: ends_number_def is_digit_def skip_ws_plain)
  next
    case False
    then obtain y ys where ks: "kvs = y # ys" by (cases kvs) auto
    let ?t = "join_on '','' (map compact_member kvs) @ CHR ''}'' # rest"
    have i: "parse_members f ?t = Some (kvs, rest)" using Cons.prems ks f by (intro Cons.IH) auto
    have "hd ?t = CHR 0x22" "?t \<noteq> []" by (cases ys; simp add: ks compact_member_def json_string_def)+
    then have "skip_ws ?t = ?t" by (intro skip_ws_plain) auto
    then show ?thesis using step [of "CHR '','' # ?t"] i by (simp add: ks kv ends_number_def is_digit_def skip_ws_plain)
  qed
qed simp

lemma loads_compact_object:
  assumes "kvs \<noteq> []" and "list_all (\<lambda>kv. plain_json (snd kv)) kvs" and "distinct (map fst kvs)"
  shows "json_loads (compact_object kvs) = Some (JObj kvs)"
proof -
  let ?j = "join_on '','' (map compact_member kvs) @ ''}''"
  obtain y ys where ks: "kvs = y # ys" using assms(1) by (cases kvs) auto
  have "hd ?j = CHR 0x22" "?j \<noteq> []" by (cases ys; simp add: ks compact_member_def json_string_def)+
  then have w: "skip_ws ?j = ?j" "\<not> startswith ?j ''}''" by (auto intro: skip_ws_plain simp: startswith_iff)
  have p: "parse_members (2 * length (compact_object kvs) + 1) ?j = Some (kvs, [])"
    using assms(1,2) by (intro parse_compact_members) (simp_all add: compact_object_def)
  have "dict_update [] kvs = kvs" using assms(3) dict_update_distinct [of "[]" kvs] by simp
  with w p have "parse_value (Suc (2 * length (compact_object kvs) + 1)) (''{'' @ ?j) = Some (JObj kvs, [])"
    by (simp del: parse_members.simps)
  then have "parse_value (2 * length (compact_object kvs) + 2) (compact_object kvs) = Some (JObj kvs, [])"
    by (simp only: compact_object_def) simp
  moreover have "skip_ws (compact_object kvs) = compact_object kvs" by (intro skip_ws_plain) (simp add: compact_object_def)
  ultimately show ?thesis by (simp only: json_loads_def) (simp add: skip_ws_def)
qed

end
