(* ===== verification/Stage_Scripts.thy ===== *)
theory Stage_Scripts
  imports Guest_Scripts Json_Parse
begin

text \<open>
  The scripts that the provisioning stages run inside Windows and the readers of their output (the first part of
  \<^verbatim>\<open>workers/stages.py\<close>). Values enter a script only as PowerShell literals or integers. The identity probe and the
  data-disk script print one line of JSON, which is searched from the end of the output.
\<close>

section \<open>Scripts\<close>

definition SHUTDOWN_PATH :: string where
  "SHUTDOWN_PATH = win_path [''C:'', ''Windows'', ''System32'', ''shutdown.exe'']"

definition SELECT_ADAPTER :: string where
  "SELECT_ADAPTER =
     (''$adapter = Get-NetAdapter | Where-Object { $_.Status -eq 'Up' } | Select-Object -First 1'' @ nl
      @ ''if (-not $adapter) { throw 'No connected network adapter found' }'' @ nl)"

definition build_static_ip_script :: "string \<Rightarrow> int \<Rightarrow> string \<Rightarrow> string list \<Rightarrow> string" where
  "build_static_ip_script address prefix gateway dns_servers =
     (let dns_line =
        (if dns_servers \<noteq> []
         then ''Set-DnsClientServerAddress -InterfaceIndex $adapter.ifIndex -ServerAddresses ''
              @ join_on '','' (map ps_quote dns_servers) @ '' | Out-Null'' @ nl
         else ''Set-DnsClientServerAddress -InterfaceIndex $adapter.ifIndex -ResetServerAddresses | Out-Null'' @ nl)
      in (''$ErrorActionPreference = '' @ [CHR 0x27] @ ''Stop'' @ [CHR 0x27] @ nl) @ SELECT_ADAPTER
         @ (''Set-NetIPInterface -InterfaceIndex $adapter.ifIndex -AddressFamily IPv4 -Dhcp Disabled'' @ nl)
         @ (''Get-NetIPAddress -InterfaceIndex $adapter.ifIndex -AddressFamily IPv4 -ErrorAction SilentlyContinue |'' @ nl)
         @ (''    Remove-NetIPAddress -Confirm:$false -ErrorAction SilentlyContinue'' @ nl)
         @ (''Get-NetRoute -InterfaceIndex $adapter.ifIndex -DestinationPrefix '0.0.0.0/0' -ErrorAction SilentlyContinue |'' @ nl)
         @ (''    Remove-NetRoute -Confirm:$false -ErrorAction SilentlyContinue'' @ nl)
         @ ''New-NetIPAddress -InterfaceIndex $adapter.ifIndex -IPAddress '' @ ps_quote address
         @ '' -PrefixLength '' @ int_text prefix @ '' -DefaultGateway '' @ ps_quote gateway @ '' | Out-Null'' @ nl
         @ dns_line @ squoted ''NETWORK-CONFIGURED'')"

definition build_dhcp_script :: string where
  "build_dhcp_script =
     (''$ErrorActionPreference = '' @ [CHR 0x27] @ ''Stop'' @ [CHR 0x27] @ nl) @ SELECT_ADAPTER
     @ (''Set-NetIPInterface -InterfaceIndex $adapter.ifIndex -AddressFamily IPv4 -Dhcp Enabled'' @ nl)
     @ (''Set-DnsClientServerAddress -InterfaceIndex $adapter.ifIndex -ResetServerAddresses | Out-Null'' @ nl)
     @ squoted ''NETWORK-DHCP-ENABLED''"

definition build_dhcp_probe_script :: string where
  "build_dhcp_probe_script =
     (''$ip = (Get-NetIPAddress -AddressFamily IPv4 -ErrorAction SilentlyContinue | Where-Object {'' @ nl)
     @ (''    $_.IPAddress -notlike '' @ [CHR 0x27] @ ''169.254*'' @ [CHR 0x27] @ '' -and $_.IPAddress -ne '' @ [CHR 0x27]
      @ ''127.0.0.1'' @ [CHR 0x27] @ nl)
     @ (''} | Select-Object -First 1).IPAddress'' @ nl) @ (''if ($ip) { '' @ [CHR 0x22] @ ''DHCP-IP:$ip'' @ [CHR 0x22] @ '' } else { exit 1 }'')"

definition build_rename_script :: "string \<Rightarrow> string" where
  "build_rename_script new_name =
     ''Rename-Computer -NewName '' @ ps_quote new_name @ '' -Force -ErrorAction Stop | Out-Null'' @ nl @ squoted ''RENAMED''"

definition build_windows_identity_probe_script :: string where
  "build_windows_identity_probe_script =
     ''$cs = Get-CimInstance -ClassName Win32_ComputerSystem -ErrorAction Stop; ''
     @ (''$active = (Get-ItemProperty -LiteralPath 'Registry::HKEY_LOCAL_MACHINE'' @ [bs] @ ''SYSTEM'' @ [bs]
      @ ''CurrentControlSet'' @ [bs] @ ''Control'' @ [bs] @ ''ComputerName'' @ [bs]
      @ ''ActiveComputerName' -ErrorAction SilentlyContinue).ComputerName; '')
     @ (''$pending = (Get-ItemProperty -LiteralPath 'Registry::HKEY_LOCAL_MACHINE'' @ [bs] @ ''SYSTEM'' @ [bs]
      @ ''CurrentControlSet'' @ [bs] @ ''Control'' @ [bs] @ ''ComputerName'' @ [bs]
      @ ''ComputerName' -ErrorAction SilentlyContinue).ComputerName; '')
     @ (''$netlogon = 'Registry::HKEY_LOCAL_MACHINE'' @ [bs] @ ''SYSTEM'' @ [bs] @ ''CurrentControlSet'' @ [bs] @ ''Services''
      @ [bs] @ ''Netlogon'; '')
     @ (''$pendingJoin = ((Test-Path -LiteralPath ($netlogon + '' @ [CHR 0x27] @ [bs] @ ''JoinDomain'' @ [CHR 0x27]
      @ '')) -or (Test-Path -LiteralPath ($netlogon + '' @ [CHR 0x27] @ [bs] @ ''AvoidSpnSet'))); '')
     @ (''[pscustomobject]'' @ [CHR ''@''] @ ''{Name=[string]$cs.Name;Domain=[string]$cs.Domain;'')
     @ ''PartOfDomain=[bool]$cs.PartOfDomain;ActiveName=[string]$active;''
     @ ''PendingName=[string]$pending;PendingDomainJoin=[bool]$pendingJoin} | ConvertTo-Json -Compress''"

definition DOMAIN_JOIN_PASSWORD_SECRET :: string where
  "DOMAIN_JOIN_PASSWORD_SECRET = ''domain_join_password''"

definition build_domain_join_script :: "string \<Rightarrow> string \<Rightarrow> string option \<Rightarrow> string option \<Rightarrow> string" where
  "build_domain_join_script dns_domain username ou_path new_name =
     (let ou_clause = (if truthy_text ou_path then '' -OUPath '' @ ps_quote (the ou_path) else []);
          rename_clause = (if truthy_text new_name then '' -NewName '' @ ps_quote (the new_name) else [])
      in ''$secpw = ConvertTo-SecureString $InfraOpsSecrets['' @ ps_quote DOMAIN_JOIN_PASSWORD_SECRET @ ''] -AsPlainText -Force'' @ nl
         @ ''$InfraOpsSecrets.Remove('' @ ps_quote DOMAIN_JOIN_PASSWORD_SECRET @ '')'' @ nl
         @ ''$cred = New-Object System.Management.Automation.PSCredential('' @ ps_quote username @ '', $secpw)'' @ nl
         @ ''Add-Computer -DomainName '' @ ps_quote dns_domain @ rename_clause @ ou_clause
         @ '' -Credential $cred -Force -ErrorAction Stop | Out-Null'' @ nl @ squoted ''DOMAIN-JOINED'')"

definition DATA_DISKS_NOT_VISIBLE_EXIT :: int where
  "DATA_DISKS_NOT_VISIBLE_EXIT = 3"

definition build_initialize_data_disks_script :: "nat \<Rightarrow> string" where
  "build_initialize_data_disks_script expected_count =
     (''$ErrorActionPreference = '' @ [CHR 0x27] @ ''Stop'' @ [CHR 0x27] @ nl @ ''Update-HostStorageCache'' @ nl)
     @ (''$data = @(Get-Disk | Where-Object { -not ($_.IsBoot -or $_.IsSystem) } | Sort-Object Number)'' @ nl)
     @ ''if ($data.Count -lt '' @ nat_text expected_count @ ('') { '' @ [CHR 0x22] @ ''FOUND:$($data.Count)'' @ [CHR 0x22] @ ''; exit '') @ int_text DATA_DISKS_NOT_VISIBLE_EXIT @ ('' }'' @ nl)
     @ (''$index = 0'' @ nl @ ''$volumes = foreach ($disk in $data) {'' @ nl @ ''    $index++'' @ nl)
     @ (''    if ($disk.IsOffline) { Set-Disk -Number $disk.Number -IsOffline $false }'' @ nl)
     @ (''    if ($disk.IsReadOnly) { Set-Disk -Number $disk.Number -IsReadOnly $false }'' @ nl)
     @ (''    $disk = Get-Disk -Number $disk.Number'' @ nl)
     @ (''    if ($disk.PartitionStyle -eq 'RAW') { Initialize-Disk -Number $disk.Number -PartitionStyle GPT }'' @ nl)
     @ (''    $partition = Get-Partition -DiskNumber $disk.Number -ErrorAction SilentlyContinue |'' @ nl)
     @ (''        Where-Object { $_.Type -eq 'Basic' } | Select-Object -First 1'' @ nl)
     @ (''    if (-not $partition) {'' @ nl
      @ ''        $partition = New-Partition -DiskNumber $disk.Number -UseMaximumSize -AssignDriveLetter'' @ nl
      @ ''    }'' @ nl)
     @ (''    $volume = $partition | Get-Volume'' @ nl @ ''    if (-not $volume.FileSystem) {'' @ nl)
     @ (''        $volume = Format-Volume -Partition $partition -FileSystem NTFS -NewFileSystemLabel ('Data' + $index) -Confirm:$false''
      @ nl @ ''    }'' @ nl)
     @ (''    [pscustomobject]'' @ [CHR ''@''] @ ''{Number=[int]$disk.Number; SizeGB=[int][math]::Round($disk.Size / 1GB);'')
     @ ('' DriveLetter=[string]$partition.DriveLetter; Label=[string]$volume.FileSystemLabel; FileSystem=[string]$volume.FileSystem}''
      @ nl @ ''}'' @ nl)
     @ ''ConvertTo-Json -Compress -InputObject @($volumes)''"

section \<open>The Windows identity\<close>

record WindowsIdentityState =
  wi_name :: string
  wi_domain :: string
  part_of_domain :: bool
  active_name :: string
  pending_name :: string
  pending_domain_join :: bool

definition has_pending_rename :: "WindowsIdentityState \<Rightarrow> bool" where
  "has_pending_rename s = (active_name s \<noteq> [] \<and> pending_name s \<noteq> [] \<and> casefold (active_name s) \<noteq> casefold (pending_name s))"

definition identity_fqdn :: "WindowsIdentityState \<Rightarrow> string option" where
  "identity_fqdn s =
     (if \<not> part_of_domain s \<or> wi_name s = [] \<or> wi_domain s = [] then None
      else Some (lower (wi_name s @ ''.'' @ wi_domain s)))"

text \<open>\<^verbatim>\<open>[entry.strip() for entry in s.splitlines() if entry.strip()]\<close>\<close>

definition nonblank_lines :: "string \<Rightarrow> string list" where
  "nonblank_lines s = filter (\<lambda>l. l \<noteq> []) (map strip (splitlines s))"

fun identity_payload :: "string list \<Rightarrow> json_dict option" where
  "identity_payload [] = None"
| "identity_payload (line # rest) =
     (case json_loads line of
        Some (JObj kvs) \<Rightarrow> if map_of kvs ''PartOfDomain'' \<noteq> None then Some kvs else identity_payload rest
      | _ \<Rightarrow> identity_payload rest)"

definition json_flag :: "json \<Rightarrow> bool option" where
  "json_flag v =
     (case v of
        JBool b \<Rightarrow> Some b
      | JStr s \<Rightarrow> if casefold s \<in> {''true'', ''false''} then Some (casefold s = ''true'') else None
      | _ \<Rightarrow> None)"

definition parse_windows_identity_state :: "string \<Rightarrow> string + WindowsIdentityState" where
  "parse_windows_identity_state out =
     (case identity_payload (rev (nonblank_lines out)) of
        None \<Rightarrow> Inl ''The Windows identity probe did not return a JSON object.''
      | Some payload \<Rightarrow>
          (case json_flag (the (map_of payload ''PartOfDomain'')) of
             None \<Rightarrow> Inl ''The Windows identity probe returned an invalid PartOfDomain value.''
           | Some member \<Rightarrow>
               (let name = strip (get_text payload ''Name'');
                    dns_domain = rstrip_chars (\<lambda>c. c = CHR ''.'') (strip (get_text payload ''Domain''));
                    active = strip (text_or (Some (get_text payload ''ActiveName'')) name);
                    pending = strip (text_or (Some (get_text payload ''PendingName'')) active)
                in if name = [] \<or> dns_domain = [] then Inl ''The Windows identity probe omitted Name or Domain.''
                   else case json_flag (dict_get payload ''PendingDomainJoin'' (JBool False)) of
                     None \<Rightarrow> Inl ''The Windows identity probe returned an invalid PendingDomainJoin value.''
                   | Some joining \<Rightarrow>
                       Inr \<lparr>wi_name = name, wi_domain = dns_domain, part_of_domain = member, active_name = active,
                            pending_name = pending, pending_domain_join = joining\<rparr>)))"

definition windows_identity_matches :: "WindowsIdentityState \<Rightarrow> string \<Rightarrow> string \<Rightarrow> bool" where
  "windows_identity_matches s computer_name dns_domain =
     (part_of_domain s \<and> casefold (wi_name s) = casefold computer_name
      \<and> casefold (wi_domain s) = casefold (rstrip_chars (\<lambda>c. c = CHR ''.'') dns_domain)
      \<and> \<not> has_pending_rename s \<and> \<not> pending_domain_join s)"

definition windows_identity_detail :: "WindowsIdentityState \<Rightarrow> string" where
  "windows_identity_detail s =
     ''Name='' @ wi_name s @ '', Domain='' @ wi_domain s @ '', PartOfDomain='' @ py_str (JBool (part_of_domain s))
     @ '', ActiveName='' @ active_name s @ '', PendingName='' @ pending_name s
     @ '', PendingDomainJoin='' @ py_str (JBool (pending_domain_join s))
     @ '' ('' @ (if part_of_domain s then ''domain member'' else ''not domain joined'') @ '')''"

section \<open>Data volumes\<close>

record DataVolume =
  vol_number :: int
  vol_size_gb :: int
  drive_letter :: string
  vol_label :: string
  file_system :: string

datatype parse_error = ValueError string | TypeError

definition volume_int :: "json \<Rightarrow> parse_error + int" where
  "volume_int v =
     (case int_of_json v of
        Some i \<Rightarrow> Inr i
      | None \<Rightarrow> (case v of JStr s \<Rightarrow> Inl (ValueError (''invalid literal for int() with base 10: '' @ py_repr s)) | _ \<Rightarrow> Inl TypeError))"

definition data_volume :: "json_dict \<Rightarrow> parse_error + DataVolume" where
  "data_volume item =
     (case volume_int (the (map_of item ''Number'')) of
        Inl e \<Rightarrow> Inl e
      | Inr number \<Rightarrow>
          (case volume_int (let v = dict_get item ''SizeGB'' JNull in if truthy v then v else JInt 0) of
             Inl e \<Rightarrow> Inl e
           | Inr gb \<Rightarrow> Inr \<lparr>vol_number = number, vol_size_gb = gb, drive_letter = get_text item ''DriveLetter'',
                              vol_label = get_text item ''Label'', file_system = get_text item ''FileSystem''\<rparr>))"

fun data_volumes :: "json_dict list \<Rightarrow> parse_error + DataVolume list" where
  "data_volumes [] = Inr []"
| "data_volumes (item # items) =
     (case data_volume item of
        Inl e \<Rightarrow> Inl e
      | Inr v \<Rightarrow> (case data_volumes items of Inl e \<Rightarrow> Inl e | Inr vs \<Rightarrow> Inr (v # vs)))"

text \<open>The objects with a number, when every item is one.\<close>

fun numbered_objects :: "json list \<Rightarrow> json_dict list option" where
  "numbered_objects [] = Some []"
| "numbered_objects (v # vs) =
     (case v of
        JObj kvs \<Rightarrow> if map_of kvs ''Number'' \<noteq> None then map_option ((#) kvs) (numbered_objects vs) else None
      | _ \<Rightarrow> None)"

fun volume_payload :: "string list \<Rightarrow> json_dict list option" where
  "volume_payload [] = None"
| "volume_payload (line # rest) =
     (case json_loads line of
        None \<Rightarrow> volume_payload rest
      | Some payload \<Rightarrow>
          (case numbered_objects (case payload of JList xs \<Rightarrow> xs | v \<Rightarrow> [v]) of
             Some items \<Rightarrow> Some items
           | None \<Rightarrow> volume_payload rest))"

definition parse_data_volumes :: "string \<Rightarrow> parse_error + DataVolume list" where
  "parse_data_volumes out =
     (case volume_payload (rev (nonblank_lines out)) of
        None \<Rightarrow> Inl (ValueError ''The data-disk script did not return a JSON list.'')
      | Some items \<Rightarrow> data_volumes items)"

section \<open>The probe reads back\<close>

definition printable :: "char \<Rightarrow> bool" where
  "printable c \<longleftrightarrow> 32 \<le> (of_char c :: nat) \<and> (of_char c :: nat) < 127"

lemma printable_not_break: "printable c \<Longrightarrow> \<not> is_line_break c"
  by (auto simp: printable_def is_line_break_def)

lemma escape_char_printable: "list_all printable (escape_char c)"
proof -
  have "printable (hex_digit n)" if "n < 16" for n
    using that by (auto simp: of_char_hex_digit printable_def)
  moreover have "(of_char c :: nat) div 16 < 16" using nat_of_char_less_256 [of c] by (simp add: less_mult_imp_div_less)
  ultimately have "printable (hex_digit (of_char c div 16))" "printable (hex_digit (of_char c mod 16))" by simp_all
  then show ?thesis by (auto simp: escape_char_def Let_def printable_def)
qed

lemma json_string_printable: "list_all printable (json_string s)"
  using escape_char_printable by (induction s) (auto simp: json_string_def printable_def)

text \<open>
  The line for a state as the guests print it: the members in the order of the script's object, without spaces
  (\<^verbatim>\<open>separators=(",", ":")\<close> in the simulated guest, \<^verbatim>\<open>ConvertTo-Json -Compress\<close> in Windows).
\<close>

definition identity_members :: "WindowsIdentityState \<Rightarrow> (string \<times> json) list" where
  "identity_members s = [(''Name'', JStr (wi_name s)), (''Domain'', JStr (wi_domain s)), (''PartOfDomain'', JBool (part_of_domain s)),
     (''ActiveName'', JStr (active_name s)), (''PendingName'', JStr (pending_name s)), (''PendingDomainJoin'', JBool (pending_domain_join s))]"

definition identity_line :: "WindowsIdentityState \<Rightarrow> string" where
  "identity_line s = compact_object (identity_members s)"

definition one_line :: "string \<Rightarrow> bool" where
  "one_line t \<longleftrightarrow> t \<noteq> [] \<and> strip t = t \<and> list_all (\<lambda>c. \<not> is_line_break c \<and> c \<noteq> CHR 0x0D) t"

lemma identity_line_one_line: "one_line (identity_line s)"
proof -
  have "list_all printable (identity_line s)"
    using json_string_printable by (auto simp: identity_line_def identity_members_def compact_object_def compact_member_def printable_def)
  moreover have "\<not> is_line_break c \<and> c \<noteq> CHR 0x0D" if "printable c" for c
    using printable_not_break [OF that] that by (auto simp: printable_def)
  ultimately have "list_all (\<lambda>c. \<not> is_line_break c \<and> c \<noteq> CHR 0x0D) (identity_line s)" by (auto simp: list_all_iff)
  moreover have "strip (identity_line s) = identity_line s" "identity_line s \<noteq> []"
    by (simp_all add: identity_line_def identity_members_def compact_object_def strip_chars_def lstrip_chars_def rstrip_chars_def is_space_def)
  ultimately show ?thesis by (simp add: one_line_def)
qed

lemma identity_line_loads: "json_loads (identity_line s) = Some (JObj (identity_members s))"
  unfolding identity_line_def by (rule loads_compact_object) (simp_all add: identity_members_def)

lemma splitlines_from_line:
  "list_all (\<lambda>c. \<not> is_line_break c \<and> c \<noteq> CHR 0x0D) t \<Longrightarrow> tail \<in> {[], nl, CHR 0x0D # nl} \<Longrightarrow> t \<noteq> [] \<or> acc \<noteq> []
   \<Longrightarrow> splitlines_from acc (t @ tail) = [rev acc @ t]"
  by (induction t arbitrary: acc) (auto simp: nl_def is_line_break_def)

lemma splitlines_from_last:
  "one_line t \<Longrightarrow> tail \<in> {[], nl, CHR 0x0D # nl} \<Longrightarrow> \<exists>ls. splitlines_from acc (pre @ CHR 0x0A # t @ tail) = ls @ [t]"
proof (induction acc pre rule: splitlines_from.induct)
  case (1 acc)
  then show ?case using splitlines_from_line [of t tail "[]"] by (simp add: one_line_def is_line_break_def)
next
  case (2 acc c cs)
  show ?case
  proof (cases "c = CHR 0x0D")
    case True
    show ?thesis
    proof (cases cs)
      case Nil
      with True 2(5,6) show ?thesis using splitlines_from_line [of t tail "[]"] by (simp add: one_line_def)
    next
      case (Cons d ds)
      have "\<exists>ls. splitlines_from [] (ds @ CHR 0x0A # t @ tail) = ls @ [t]" if "d = CHR 0x0A"
        using 2(1) [OF True Cons that 2(5,6)] .
      moreover have "\<exists>ls. splitlines_from [] (cs @ CHR 0x0A # t @ tail) = ls @ [t]" if "d \<noteq> CHR 0x0A"
        using 2(2) [OF True Cons that 2(5,6)] .
      ultimately show ?thesis using True Cons by (cases "d = CHR 0x0A") (auto intro: exI [of _ "rev acc # _"])
    qed
  next
    case False
    with 2(3,4) 2(5,6) show ?thesis by (cases "is_line_break c") (auto intro: exI [of _ "rev acc # _"])
  qed
qed

definition clean :: "string \<Rightarrow> bool" where
  "clean s \<longleftrightarrow> s \<noteq> [] \<and> strip s = s"

lemma identity_line_parsed:
  assumes "clean (wi_name s)" and "clean (wi_domain s)" and "clean (active_name s)" and "clean (pending_name s)"
    and "last (wi_domain s) \<noteq> CHR ''.''" and "tail \<in> {[], nl, CHR 0x0D # nl}"
    and "one_line t" and "json_loads t = Some (JObj (identity_members s))"
  shows "parse_windows_identity_state (noise @ nl @ t @ tail) = Inr s"
proof -
  obtain ls where "splitlines (noise @ nl @ t @ tail) = ls @ [t]"
    using splitlines_from_last [OF assms(7,6), of "[]" noise] by (auto simp: splitlines_def nl_def)
  then have "rev (nonblank_lines (noise @ nl @ t @ tail)) = t # rev (filter (\<lambda>l. l \<noteq> []) (map strip ls))"
    using assms(7) by (simp add: nonblank_lines_def one_line_def)
  moreover have "rstrip_chars (\<lambda>c. c = CHR ''.'') (wi_domain s) = wi_domain s"
    using assms(2,5) by (cases "wi_domain s" rule: rev_cases) (simp_all add: clean_def rstrip_chars_snoc)
  ultimately show ?thesis
    using assms by (simp add: parse_windows_identity_state_def identity_members_def clean_def get_text_def str_or_empty_def py_str_def
        json_flag_def text_or_def dict_get_def Let_def)
qed

text \<open>
  C20. Whatever is printed before it, and with or without a line end after it, the line the identity probe prints
  reads back as exactly the state it describes, for the names and domains that Windows reports (non-empty, without
  surrounding white space or a trailing dot): the compact line of the simulated guest, and every other line that a
  JSON reader takes for the same object (Windows PowerShell escapes some characters differently).
\<close>

theorem identity_probe_roundtrip:
  assumes "clean (wi_name s)" and "clean (wi_domain s)" and "clean (active_name s)" and "clean (pending_name s)"
    and "last (wi_domain s) \<noteq> CHR ''.''" and "tail \<in> {[], nl, CHR 0x0D # nl}"
  shows "parse_windows_identity_state (noise @ nl @ identity_line s @ tail) = Inr s
    \<and> (\<forall>t. one_line t \<and> json_loads t = Some (JObj (identity_members s)) \<longrightarrow> parse_windows_identity_state (noise @ nl @ t @ tail) = Inr s)"
  using identity_line_parsed [OF assms] identity_line_one_line identity_line_loads by auto

theorem identity_probe_roundtrip_witness:
  "let s = \<lparr>wi_name = ''WEB01'', wi_domain = ''corp.example.com'', part_of_domain = True, active_name = ''WEB01'',
             pending_name = ''WEB01'', pending_domain_join = False\<rparr>
   in parse_windows_identity_state (''WARNING: x'' @ nl @ identity_line s @ [CHR 0x0D] @ nl) = Inr s
      \<and> parse_windows_identity_state (''WARNING: x'' @ nl @ json_dumps (JObj (identity_members s))) = Inr s
      \<and> windows_identity_matches s ''web01'' ''corp.example.com.''"
proof -
  let ?s = "\<lparr>wi_name = ''WEB01'', wi_domain = ''corp.example.com'', part_of_domain = True, active_name = ''WEB01'',
             pending_name = ''WEB01'', pending_domain_join = False\<rparr>"
  have c: "clean (wi_name ?s)" "clean (wi_domain ?s)" "clean (active_name ?s)" "clean (pending_name ?s)" "last (wi_domain ?s) \<noteq> CHR ''.''"
  proof -
    have "strip ''WEB01'' = ''WEB01''" "strip ''corp.example.com'' = ''corp.example.com''" by code_simp+
    then show "clean (wi_name ?s)" "clean (wi_domain ?s)" "clean (active_name ?s)" "clean (pending_name ?s)" "last (wi_domain ?s) \<noteq> CHR ''.''"
      by (simp_all add: clean_def)
  qed
  have "parse_windows_identity_state (''WARNING: x'' @ nl @ identity_line ?s @ CHR 0x0D # nl) = Inr ?s"
    using identity_probe_roundtrip [OF c, of "CHR 0x0D # nl" "''WARNING: x''"] by simp
  moreover have "one_line (json_dumps (JObj (identity_members ?s)))" by code_simp
  moreover have "json_loads (json_dumps (JObj (identity_members ?s))) = Some (JObj (identity_members ?s))"
    by (rule loads_dumps) (simp add: identity_members_def)
  moreover note identity_probe_roundtrip [OF c, of "[]" "''WARNING: x''"]
  moreover have "windows_identity_matches ?s ''web01'' ''corp.example.com.''" by code_simp
  ultimately show ?thesis by (simp add: Let_def del: json_dumps.simps)
qed

end
