(* ===== verification/Request_Schema.thy ===== *)
theory Request_Schema
  imports Regex Ipv4 Py_Float "HOL-Library.List_Lexorder" "HOL-Library.Char_ord"
begin

text \<open>
  The provisioning request of \<^verbatim>\<open>schemas/provisioning.py\<close>: its fragments as records, the field constraints
  and model validators, the Windows identity derived from it, its stored JSON form and the reading of
  stored payloads. The schema library itself (parsing of arbitrary JSON into the typed fields) is the
  parameter of \<open>parse_stored_request\<close>; field constraints are boolean functions of the typed record.
\<close>

section \<open>Enumerations and patterns\<close>

datatype DiskProvisioning = THIN | THICK
datatype FirmwareType = BIOS | EFI
datatype IpMode = DHCP | STATIC
datatype AdapterType = VMXNET3 | E1000E
datatype IdentityPolicyVersion = V1 | V2

definition VM_NAME_PATTERN :: regex where
  "VM_NAME_PATTERN = Seq (Class is_alnum)
     (optional (Seq (between 0 61 (Class (\<lambda>c. is_alnum c \<or> c = CHR ''-'' \<or> c = CHR ''.''))) (Class is_alnum)))"

definition WINDOWS_COMPUTER_NAME_PATTERN :: regex where
  "WINDOWS_COMPUTER_NAME_PATTERN = Seq (Class is_alnum)
     (optional (Seq (between 0 61 (Class (\<lambda>c. is_alnum c \<or> c = CHR ''-''))) (Class is_alnum)))"

definition lower_alnum :: "char \<Rightarrow> bool" where
  "lower_alnum c = (is_lower_char c \<or> is_digit c)"

definition DNS_DOMAIN_PATTERN :: regex where
  "DNS_DOMAIN_PATTERN =
     Seq (many1 (Seq (Class lower_alnum) (Seq
           (optional (Seq (Many (Class (\<lambda>c. lower_alnum c \<or> c = CHR ''-''))) (Class lower_alnum))) (lit (CHR ''.'')))))
       (Seq (exactly 2 (Class is_lower_char)) (Many (Class is_lower_char)))"

definition GUID_PATTERN :: regex where
  "GUID_PATTERN =
     (let h = (\<lambda>n. exactly n (Class is_hex_digit)); d = lit (CHR ''-'')
      in seqs [optional (lit (CHR ''{'')), h 8, d, h 4, d, h 4, d, h 4, d, h 12, optional (lit (CHR ''}''))])"

definition THUMBPRINT_PATTERN :: regex where
  "THUMBPRINT_PATTERN = between 40 64 (Class is_hex_digit)"

definition SECRET_REFERENCE_PATTERN :: regex where
  "SECRET_REFERENCE_PATTERN =
     (let segment = Seq (Class lower_alnum) (Many (Class (\<lambda>c. lower_alnum c \<or> c \<in> {CHR ''_'', CHR ''.'', CHR ''-''})))
      in Seq segment (Many (Seq (lit (CHR ''/'')) segment)))"

section \<open>Fragments\<close>

record VmSpec =
  vms_name :: string
  vms_description :: string

record ComputeSpec =
  vcenter_id :: uuid
  comp_datacenter_id :: string
  cluster_id :: string
  host_id :: "string option"
  resource_pool_id :: "string option"

record DiskSpec =
  size_gb :: int
  disk_provisioning :: DiskProvisioning
  disk_datastore_id :: "string option"

record HardwareSpec =
  cpu :: int
  memory_mb :: int
  firmware :: FirmwareType
  secure_boot :: bool
  disks :: "DiskSpec list"

record DomainJoinSpec =
  domain :: string
  ou :: "string option"
  domain_credential_ref :: string

record GuestSpec =
  iso_id :: string
  hostname :: "string option"
  timezone :: "string option"
  installation_locale :: string
  input_locale :: string
  windows_image_index :: int
  guest_credential_ref :: string
  product_key_ref :: "string option"
  domain_join :: "DomainJoinSpec option"

record NetworkSpec =
  network_id :: string
  adapter_type :: AdapterType
  ip_mode :: IpMode
  ipv4 :: "Ipv4Config option"

record ProvisioningRequest =
  identity_policy_version :: IdentityPolicyVersion
  vm :: VmSpec
  compute :: ComputeSpec
  hardware :: HardwareSpec
  guest :: GuestSpec
  network :: NetworkSpec
  certificate_package_ids :: "uuid list"
  application_ids :: "uuid list"

section \<open>Field constraints and validators\<close>

definition len_between :: "nat \<Rightarrow> nat \<Rightarrow> string \<Rightarrow> bool" where
  "len_between a b s = (a \<le> length s \<and> length s \<le> b)"

definition opt_ok :: "('a \<Rightarrow> bool) \<Rightarrow> 'a option \<Rightarrow> bool" where
  "opt_ok P x = (case x of None \<Rightarrow> True | Some v \<Rightarrow> P v)"

definition vm_fields :: "VmSpec \<Rightarrow> bool" where
  "vm_fields v = (len_between 2 64 (vms_name v) \<and> fullmatch VM_NAME_PATTERN (vms_name v) \<and> length (vms_description v) \<le> 500)"

definition compute_fields :: "ComputeSpec \<Rightarrow> bool" where
  "compute_fields c = (len_between 1 120 (comp_datacenter_id c) \<and> len_between 1 120 (cluster_id c)
     \<and> opt_ok (len_between 0 120) (host_id c) \<and> opt_ok (len_between 0 120) (resource_pool_id c))"

definition disk_fields :: "DiskSpec \<Rightarrow> bool" where
  "disk_fields d = (1 \<le> size_gb d \<and> size_gb d \<le> 8000 \<and> opt_ok (len_between 0 120) (disk_datastore_id d))"

definition hardware_fields :: "HardwareSpec \<Rightarrow> bool" where
  "hardware_fields h = (1 \<le> cpu h \<and> cpu h \<le> 256 \<and> 512 \<le> memory_mb h \<and> memory_mb h \<le> 8388608
     \<and> 1 \<le> length (disks h) \<and> length (disks h) \<le> 8 \<and> list_all disk_fields (disks h))"

definition secure_boot_requires_efi :: "HardwareSpec \<Rightarrow> bool" where
  "secure_boot_requires_efi h = (\<not> (secure_boot h \<and> firmware h \<noteq> EFI))"

definition normalize_domain :: "string \<Rightarrow> string" where
  "normalize_domain v = lower (rstrip_chars (\<lambda>c. c = CHR ''.'') (strip v))"

definition domain_join_fields :: "DomainJoinSpec \<Rightarrow> bool" where
  "domain_join_fields d = (len_between 3 255 (domain d) \<and> fullmatch DNS_DOMAIN_PATTERN (domain d)
     \<and> opt_ok (len_between 0 400) (ou d) \<and> len_between 2 150 (domain_credential_ref d))"

definition guest_fields :: "GuestSpec \<Rightarrow> bool" where
  "guest_fields g = (len_between 1 2048 (iso_id g)
     \<and> opt_ok (\<lambda>h. length h \<le> 64 \<and> fullmatch VM_NAME_PATTERN h) (hostname g)
     \<and> opt_ok (len_between 0 100) (timezone g) \<and> len_between 2 35 (installation_locale g)
     \<and> len_between 2 100 (input_locale g) \<and> 1 \<le> windows_image_index g \<and> windows_image_index g \<le> 99
     \<and> len_between 2 150 (guest_credential_ref g)
     \<and> opt_ok (\<lambda>r. len_between 2 150 r \<and> fullmatch SECRET_REFERENCE_PATTERN r) (product_key_ref g)
     \<and> opt_ok domain_join_fields (domain_join g))"

definition static_requires_ipv4 :: "NetworkSpec \<Rightarrow> bool" where
  "static_requires_ipv4 n = (\<not> (ip_mode n = STATIC \<and> ipv4 n = None))"

definition network_fields :: "NetworkSpec \<Rightarrow> bool" where
  "network_fields n = (len_between 1 120 (network_id n) \<and> opt_ok ipv4_config_fields (ipv4 n) \<and> static_requires_ipv4 n)"

definition request_fields :: "ProvisioningRequest \<Rightarrow> bool" where
  "request_fields r = (vm_fields (vm r) \<and> compute_fields (compute r) \<and> hardware_fields (hardware r)
     \<and> secure_boot_requires_efi (hardware r) \<and> guest_fields (guest r) \<and> network_fields (network r)
     \<and> length (certificate_package_ids r) \<le> 20 \<and> length (application_ids r) \<le> 50)"

section \<open>The Windows identity\<close>

definition hostname_or_name :: "ProvisioningRequest \<Rightarrow> string" where
  "hostname_or_name r = (case hostname (guest r) of Some h \<Rightarrow> if h \<noteq> [] then h else vms_name (vm r) | None \<Rightarrow> vms_name (vm r))"

definition short_name :: "ProvisioningRequest \<Rightarrow> string" where
  "short_name r =
     (if domain_join (guest r) \<noteq> None
      then (if identity_policy_version r = V1 then hostname_or_name r else vms_name (vm r))
      else hostname_or_name r)"

definition isdigit :: "string \<Rightarrow> bool" where
  "isdigit s = (s \<noteq> [] \<and> list_all is_digit s)"

definition validate_identity :: "ProvisioningRequest \<Rightarrow> string + ProvisioningRequest" where
  "validate_identity r =
     (let v2 = (identity_policy_version r = V2); name = short_name r in
      if v2 \<and> \<not> fullmatch SECRET_REFERENCE_PATTERN (guest_credential_ref (guest r))
      then Inl ''guest.credential_secret_ref must be a safe lowercase, slash-separated secret reference.''
      else if v2 \<and> (\<not> fullmatch WINDOWS_COMPUTER_NAME_PATTERN name \<or> isdigit name)
      then Inl ((if domain_join (guest r) = None \<or> identity_policy_version r = V1 then ''guest.hostname'' else ''vm.name'')
             @ '' must be a valid Windows computer name (letters, numbers and hyphens only; not all-numeric; maximum 63 characters).'')
      else case domain_join (guest r) of
        Some d \<Rightarrow>
          (if v2 \<and> \<not> fullmatch SECRET_REFERENCE_PATTERN (domain_credential_ref d)
           then Inl ''guest.domain_join.credential_secret_ref must be a safe lowercase, slash-separated secret reference.''
           else if v2 \<and> list_ex (\<lambda>label. 63 < length label) (split_on (CHR ''.'') (domain d))
           then Inl ''Each DNS domain label must not exceed 63 characters.''
           else if v2 \<and> 253 < length (name @ ''.'' @ domain d)
           then Inl ''The resulting domain-joined FQDN must not exceed 253 characters.''
           else Inr (if v2 then r\<lparr>guest := (guest r)\<lparr>hostname := Some (upper name)\<rparr>\<rparr> else r))
      | None \<Rightarrow> Inr (r\<lparr>guest := (guest r)\<lparr>hostname := Some (upper name)\<rparr>\<rparr>))"

definition effective_computer_name :: "ProvisioningRequest \<Rightarrow> string" where
  "effective_computer_name r =
     (if domain_join (guest r) \<noteq> None
      then (if identity_policy_version r = V1 then upper (hostname_or_name r) else upper (vms_name (vm r)))
      else upper (hostname_or_name r))"

definition effective_fqdn :: "ProvisioningRequest \<Rightarrow> string option" where
  "effective_fqdn r =
     (case domain_join (guest r) of
        None \<Rightarrow> None
      | Some d \<Rightarrow> Some (lower (effective_computer_name r @ ''.'' @ domain d)))"

definition total_disk_gb :: "ProvisioningRequest \<Rightarrow> int" where
  "total_disk_gb r = sum_list (map size_gb (disks (hardware r)))"

definition DESKTOP_EXPERIENCE_EDITIONS :: "(int, string) dict" where
  "DESKTOP_EXPERIENCE_EDITIONS = [(2, ''Standard (Desktop Experience)''), (4, ''Datacenter (Desktop Experience)'')]"

definition desktop_experience_only :: "ProvisioningRequest \<Rightarrow> bool" where
  "desktop_experience_only r = (map_of DESKTOP_EXPERIENCE_EDITIONS (windows_image_index (guest r)) \<noteq> None)"

text \<open>The checks of the public submission body, in one predicate.\<close>

definition submission_ok :: "ProvisioningRequest \<Rightarrow> bool" where
  "submission_ok r = (request_fields r \<and> identity_policy_version r = V2 \<and> desktop_experience_only r
     \<and> is_ok (validate_identity r))"

section \<open>Stored payloads\<close>

definition GUEST_FIELDS :: "string list" where
  "GUEST_FIELDS = [''iso_id'', ''hostname'', ''timezone'', ''installation_locale'', ''input_locale'', ''windows_image_index'',
     ''credential_secret_ref'', ''product_key_secret_ref'', ''domain_join'']"

definition stored_candidate :: "json_dict \<Rightarrow> json_dict" where
  "stored_candidate payload =
     (let c = (if map_of payload ''identity_policy_version'' = None
               then AList.update ''identity_policy_version'' (JStr ''v1'') payload else payload)
      in case map_of c ''guest'' of
           Some (JObj g) \<Rightarrow> AList.update ''guest'' (JObj (filter (\<lambda>(k, v). v \<noteq> JNull \<or> k \<in> set GUEST_FIELDS) g)) c
         | _ \<Rightarrow> c)"

definition parse_stored_request ::
  "(json_dict \<Rightarrow> ProvisioningRequest option) \<Rightarrow> json option \<Rightarrow> ProvisioningRequest option" where
  "parse_stored_request model_validate payload =
     (case payload of Some (JObj kvs) \<Rightarrow> model_validate (stored_candidate kvs) | _ \<Rightarrow> None)"

section \<open>Identity lemmas\<close>

fun closed_classes :: "(char \<Rightarrow> char) \<Rightarrow> regex \<Rightarrow> bool" where
  "closed_classes f (Class P) \<longleftrightarrow> (\<forall>c. P c \<longrightarrow> P (f c))"
| "closed_classes f (Seq r s) \<longleftrightarrow> closed_classes f r \<and> closed_classes f s"
| "closed_classes f (Alt r s) \<longleftrightarrow> closed_classes f r \<and> closed_classes f s"
| "closed_classes f (Many r) \<longleftrightarrow> closed_classes f r"
| "closed_classes f Empty \<longleftrightarrow> True"
| "closed_classes f Never \<longleftrightarrow> True"

lemma matches_map: "matches r s \<Longrightarrow> closed_classes f r \<Longrightarrow> matches r (map f s)"
  by (induction rule: matches.induct) (auto intro: m_seq [unfolded matches_Seq] m_more simp: matches_Seq m_stop)

lemma of_char_upper_char: "(of_char (upper_char c) :: nat) = (let n = of_char c in if 97 \<le> n \<and> n \<le> 122 then n - 32 else n)"
  by (auto simp: upper_char_def Let_def of_char_of)

lemma upper_char_alnum: "is_alnum c \<Longrightarrow> is_alnum (upper_char c)"
  by (auto simp: is_alnum_def is_digit_def is_lower_char_def is_upper_char_def of_char_upper_char Let_def)

lemma upper_char_digit: "is_digit (upper_char c) \<longleftrightarrow> is_digit c"
  by (auto simp: is_digit_def of_char_upper_char Let_def)

lemma upper_char_idem: "upper_char (upper_char c) = upper_char c"
proof -
  have "(of_char (upper_char (upper_char c)) :: nat) = of_char (upper_char c)"
    unfolding of_char_upper_char Let_def by (cases "97 \<le> (of_char c :: nat) \<and> of_char c \<le> (122 :: nat)") auto
  then show ?thesis by (simp only: of_char_eq_iff)
qed

lemma upper_idem: "upper (upper s) = upper s"
  by (simp add: upper_def upper_char_idem)

lemma length_upper [simp]: "length (upper s) = length s"
  by (simp add: upper_def)

lemma upper_Nil_iff [simp]: "upper s = [] \<longleftrightarrow> s = []"
  by (simp add: upper_def)

lemma isdigit_upper: "isdigit (upper s) \<longleftrightarrow> isdigit s"
  by (simp add: isdigit_def upper_def list_all_iff upper_char_digit)

lemma closed_up_to: "closed_classes f r \<Longrightarrow> closed_classes f (up_to n r)"
  by (induction n) (auto simp: optional_def)

lemma computer_name_upper: "fullmatch WINDOWS_COMPUTER_NAME_PATTERN s \<Longrightarrow> fullmatch WINDOWS_COMPUTER_NAME_PATTERN (upper s)"
proof -
  have "upper_char (CHR ''-'') = CHR ''-''" by code_simp
  then have "closed_classes upper_char (between 0 61 (Class (\<lambda>c. is_alnum c \<or> c = CHR ''-'')))"
    unfolding between_def using upper_char_alnum by (auto intro!: closed_up_to)
  then have "closed_classes upper_char WINDOWS_COMPUTER_NAME_PATTERN"
    using upper_char_alnum by (auto simp: WINDOWS_COMPUTER_NAME_PATTERN_def optional_def)
  then show "fullmatch WINDOWS_COMPUTER_NAME_PATTERN s \<Longrightarrow> fullmatch WINDOWS_COMPUTER_NAME_PATTERN (upper s)"
    unfolding fullmatch_iff upper_def by (rule matches_map [rotated])
qed

lemma computer_name_length: "fullmatch WINDOWS_COMPUTER_NAME_PATTERN s \<Longrightarrow> s \<noteq> [] \<and> length s \<le> 63"
  unfolding fullmatch_iff WINDOWS_COMPUTER_NAME_PATTERN_def
  by (auto simp: seq_class optional_def matches_Seq matches_between_class)

lemma hostname_normalised:
  "r' = r\<lparr>guest := (guest r)\<lparr>hostname := Some (upper n)\<rparr>\<rparr> \<Longrightarrow> (n = [] \<Longrightarrow> vms_name (vm r) = []) \<Longrightarrow> hostname_or_name r' = upper n"
  by (simp add: hostname_or_name_def upper_def)

lemma hostname_or_name_empty: "hostname_or_name r = [] \<Longrightarrow> vms_name (vm r) = []"
  by (auto simp: hostname_or_name_def split: option.splits if_splits)

lemma validate_identity_result:
  assumes "validate_identity r = Inr r'"
  shows "r' = (if domain_join (guest r) \<noteq> None \<and> identity_policy_version r = V1 then r
               else r\<lparr>guest := (guest r)\<lparr>hostname := Some (upper (short_name r))\<rparr>\<rparr>)"
  using assms by (cases "identity_policy_version r")
    (auto simp: validate_identity_def Let_def split: if_splits option.splits)

lemma short_name_normalised:
  assumes "validate_identity r = Inr r'"
  shows "short_name r' = (if domain_join (guest r) = None then upper (short_name r) else short_name r)"
proof (cases "domain_join (guest r)")
  case None
  then have r': "r' = r\<lparr>guest := (guest r)\<lparr>hostname := Some (upper (short_name r))\<rparr>\<rparr>"
    using validate_identity_result [OF assms] by simp
  have "hostname_or_name r' = upper (short_name r)"
    using r' None hostname_or_name_empty [of r] by (intro hostname_normalised) (simp_all add: short_name_def)
  with None r' show ?thesis by (simp add: short_name_def)
next
  case (Some d)
  then show ?thesis using validate_identity_result [OF assms]
    by (cases "identity_policy_version r") (simp_all add: short_name_def)
qed

section \<open>Properties\<close>

text \<open>
  The identity of an accepted request is stable: validating the normalised request again, as the
  worker does when it reads the stored payload, accepts it unchanged.
\<close>

theorem identity_validation_idempotent:
  assumes "validate_identity r = Inr r'"
  shows "validate_identity r' = Inr r'"
proof -
  note res = validate_identity_result [OF assms] and name = short_name_normalised [OF assms]
  have same: "identity_policy_version r' = identity_policy_version r" "domain_join (guest r') = domain_join (guest r)"
    "guest_credential_ref (guest r') = guest_credential_ref (guest r)"
    using res by (simp_all split: if_splits)
  have host: "r'\<lparr>guest := (guest r')\<lparr>hostname := Some (upper (short_name r'))\<rparr>\<rparr> = r'"
    if "\<not> (domain_join (guest r) \<noteq> None \<and> identity_policy_version r = V1)"
    using res that name by (auto simp: upper_idem)
  show ?thesis
  proof (cases "domain_join (guest r)")
    case None
    then have "validate_identity r' = Inr (r'\<lparr>guest := (guest r')\<lparr>hostname := Some (upper (short_name r'))\<rparr>\<rparr>)"
      using assms name same computer_name_upper isdigit_upper
      by (auto simp: validate_identity_def Let_def split: if_splits)
    with host None show ?thesis by simp
  next
    case (Some d)
    then have "validate_identity r' = Inr (if identity_policy_version r = V2
        then r'\<lparr>guest := (guest r')\<lparr>hostname := Some (upper (short_name r'))\<rparr>\<rparr> else r')"
      using assms name same by (auto simp: validate_identity_def Let_def split: if_splits)
    with host show ?thesis by (cases "identity_policy_version r") simp_all
  qed
qed

definition sample_request :: ProvisioningRequest where
  "sample_request =
     \<lparr>identity_policy_version = V2, vm = \<lparr>vms_name = ''web01'', vms_description = []\<rparr>,
      compute = \<lparr>vcenter_id = ''v-1'', comp_datacenter_id = ''dc-1'', cluster_id = ''c-1'', host_id = None, resource_pool_id = None\<rparr>,
      hardware = \<lparr>cpu = 2, memory_mb = 4096, firmware = EFI, secure_boot = True,
        disks = [\<lparr>size_gb = 60, disk_provisioning = THIN, disk_datastore_id = None\<rparr>]\<rparr>,
      guest = \<lparr>iso_id = ''iso-1'', hostname = None, timezone = None, installation_locale = ''en-US'',
        input_locale = ''0409:00000409'', windows_image_index = 2, guest_credential_ref = ''guest/local-admin'',
        product_key_ref = None,
        domain_join = Some \<lparr>domain = ''corp.example.com'', ou = None, domain_credential_ref = ''ad/join''\<rparr>\<rparr>,
      network = \<lparr>network_id = ''n-1'', adapter_type = VMXNET3, ip_mode = DHCP, ipv4 = None\<rparr>,
      certificate_package_ids = [], application_ids = []\<rparr>"

lemma sample_request_valid:
  "validate_identity sample_request = Inr (sample_request\<lparr>guest := (guest sample_request)\<lparr>hostname := Some ''WEB01''\<rparr>\<rparr>)"
  by code_simp

theorem identity_validation_idempotent_witness:
  "validate_identity (sample_request\<lparr>guest := (guest sample_request)\<lparr>hostname := Some ''WEB01''\<rparr>\<rparr>)
     = Inr (sample_request\<lparr>guest := (guest sample_request)\<lparr>hostname := Some ''WEB01''\<rparr>\<rparr>)"
  by (rule identity_validation_idempotent [OF sample_request_valid])

text \<open>
  C38. Every current (v2) request that passes validation names one well-formed Windows computer: a
  name of 1 to 63 characters that fits the computer-name pattern and is not all digits, stored in upper case as the host name, equal to
  the VM name when the machine joins a domain; its FQDN then has at most 253 characters.
\<close>

theorem accepted_identity_well_formed:
  assumes "validate_identity r = Inr r'" and "identity_policy_version r = V2"
  shows "fullmatch WINDOWS_COMPUTER_NAME_PATTERN (effective_computer_name r') \<and> \<not> isdigit (effective_computer_name r')
    \<and> length (effective_computer_name r') \<in> {1..63}
    \<and> hostname (guest r') = Some (effective_computer_name r')
    \<and> (case effective_fqdn r' of
         None \<Rightarrow> domain_join (guest r) = None
       | Some f \<Rightarrow> effective_computer_name r' = upper (vms_name (vm r)) \<and> length f \<le> 253)"
proof -
  have res: "r' = r\<lparr>guest := (guest r)\<lparr>hostname := Some (upper (short_name r))\<rparr>\<rparr>"
    using validate_identity_result [OF assms(1)] assms(2) by simp
  have ok: "fullmatch WINDOWS_COMPUTER_NAME_PATTERN (short_name r)" "\<not> isdigit (short_name r)"
    using assms by (auto simp: validate_identity_def Let_def split: if_splits)
  have name: "effective_computer_name r' = upper (short_name r)"
  proof (cases "domain_join (guest r)")
    case None
    have "hostname_or_name r' = upper (short_name r)"
      using res None hostname_or_name_empty [of r] by (intro hostname_normalised) (simp_all add: short_name_def)
    with None res assms(2) show ?thesis by (simp add: effective_computer_name_def upper_idem)
  next
    case (Some d)
    then show ?thesis using res assms(2) by (simp add: effective_computer_name_def short_name_def)
  qed
  have fqdn: "length (short_name r @ ''.'' @ domain d) \<le> 253" if "domain_join (guest r) = Some d" for d
    using assms that by (auto simp: validate_identity_def Let_def split: if_splits)
  have l: "1 \<le> length (short_name r)" "length (short_name r) \<le> 63"
    using computer_name_length [OF ok(1)] by (auto simp: Suc_le_eq)
  show ?thesis unfolding name
    using computer_name_upper [OF ok(1)] ok(2) l fqdn res assms(2) name
    by (cases "domain_join (guest r)") (simp_all add: isdigit_upper effective_fqdn_def short_name_def)
qed

theorem accepted_identity_well_formed_witness:
  "let r' = sample_request\<lparr>guest := (guest sample_request)\<lparr>hostname := Some ''WEB01''\<rparr>\<rparr>
   in hostname (guest r') = Some (effective_computer_name r')"
proof -
  have "identity_policy_version sample_request = V2" by (simp add: sample_request_def)
  with accepted_identity_well_formed [OF sample_request_valid] show ?thesis by simp
qed

end
