(* ===== verification/Infrastructure.thy ===== *)
theory Infrastructure
  imports Guest_Scripts Request_Schema
begin

text \<open>
  The value objects of the vSphere interface (\<^verbatim>\<open>schemas/infrastructure.py\<close>, \<^verbatim>\<open>services/vmware/base.py\<close>, \<^verbatim>\<open>models/infrastructure.py\<close>)
  and the ownership marker of created virtual machines. Calls into vSphere return a value or raise: \<open>guest_error + 'a\<close>.
\<close>

section \<open>Value objects\<close>

record VCenterConnection =
  vc_id :: uuid
  vc_name :: string
  vc_host :: string
  vc_enabled :: bool

record DatacenterOut =
  dc_id :: string
  dc_name :: string

record ClusterOut =
  cl_id :: string
  cl_name :: string
  drs_enabled :: bool
  hosts_count :: int

record HostOut =
  host_out_id :: string
  host_name :: string
  connection_state :: string
  maintenance_mode :: bool
  available_for_provisioning :: bool

record DatastoreOut =
  ds_id :: string
  ds_name :: string
  free_gb :: rat
  accessible :: bool

record NetworkOut =
  net_id :: string
  net_name :: string
  net_type :: string

record IsoImageOut =
  iso_out_id :: string
  iso_name :: string
  iso_datastore_id :: string
  iso_datastore_name :: string
  iso_path :: string

record VmOwnership =
  owned_vm_id :: string
  owned_name :: string
  owner_job_id :: "string option"

text \<open>\<^verbatim>\<open>{x.id: x for x in xs}\<close>: the last value of a key wins.\<close>

definition dict_by :: "('a \<Rightarrow> 'k) \<Rightarrow> 'a list \<Rightarrow> ('k, 'a) dict" where
  "dict_by key xs = dict_update [] (map (\<lambda>x. (key x, x)) xs)"

lemma map_of_dict_by: "map_of (dict_by key xs) k = find (\<lambda>x. key x = k) (rev xs)"
proof (induction xs rule: rev_induct)
  case (snoc x xs)
  have "map_of (dict_by key (xs @ [x])) = (map_of (dict_by key xs))(key x \<mapsto> x)"
    by (simp add: dict_by_def dict_update_def update_conv')
  with snoc show ?case by simp
qed (simp add: dict_by_def dict_update_def)

lemma dict_by_SomeD: "map_of (dict_by key xs) k = Some x \<Longrightarrow> x \<in> set xs \<and> key x = k"
  unfolding map_of_dict_by by (auto dest: find_SomeD)

lemma dict_by_values: "snd ` set (dict_by key xs) \<subseteq> set xs"
proof (induction xs rule: rev_induct)
  case (snoc x xs)
  have "dict_by key (xs @ [x]) = AList.update (key x) x (dict_by key xs)" by (simp add: dict_by_def dict_update_def)
  moreover have "snd ` set (AList.update k v d) \<subseteq> insert v (snd ` set d)" for k :: 'b and v :: 'a and d
    by (induction d) auto
  ultimately show ?case using snoc by fastforce
qed (simp add: dict_by_def dict_update_def)

section \<open>Ownership marker\<close>

definition OWNER_ANNOTATION_PREFIX :: string where
  "OWNER_ANNOTATION_PREFIX = ''infraops-job-id:''"

definition owner_annotation :: "string \<Rightarrow> string option \<Rightarrow> string" where
  "owner_annotation description jid =
     (if \<not> truthy_text jid then description
      else let marker = OWNER_ANNOTATION_PREFIX @ '' '' @ the jid
           in if description \<noteq> [] then description @ [CHR 0x0A, CHR 0x0A] @ marker else marker)"

fun first_owner :: "string list \<Rightarrow> string option" where
  "first_owner [] = None"
| "first_owner (l # ls) =
     (let stripped = strip l in
      if startswith (lower stripped) OWNER_ANNOTATION_PREFIX
      then let value = strip (drop (length OWNER_ANNOTATION_PREFIX) stripped) in if value \<noteq> [] then Some value else None
      else first_owner ls)"

definition owner_from_annotation :: "string option \<Rightarrow> string option" where
  "owner_from_annotation annotation = first_owner (splitlines (text_or annotation []))"

end
