(* ===== verification/Storage_Placement.thy ===== *)
theory Storage_Placement
  imports Infrastructure
begin

text \<open>
  Automatic storage placement (\<^verbatim>\<open>services/provisioning/placement.py\<close>): the first fitting datastore of the administrators'
  preferred list, or the one with the most free space when there is no list.
\<close>

record DatastoreChoice =
  chosen_datastore :: "DatastoreOut option"
  choice_detail :: string
  preferred_configured :: bool

fun normalize_from :: "string list \<Rightarrow> json list \<Rightarrow> string list" where
  "normalize_from seen [] = []"
| "normalize_from seen (raw # rs) =
     (let name = strip (py_str raw) in
      if name \<noteq> [] \<and> casefold name \<notin> set seen then name # normalize_from (casefold name # seen) rs else normalize_from seen rs)"

definition normalize_preferred :: "json list \<Rightarrow> string list" where
  "normalize_preferred names = normalize_from [] names"

text \<open>\<^verbatim>\<open>max(xs, key=f, default=None)\<close>: the first maximal element.\<close>

fun first_max :: "('a \<Rightarrow> rat) \<Rightarrow> 'a list \<Rightarrow> 'a option" where
  "first_max f [] = None"
| "first_max f (x # xs) = (case first_max f xs of None \<Rightarrow> Some x | Some y \<Rightarrow> if f y > f x then Some y else Some x)"

definition most_free :: "DatastoreOut list \<Rightarrow> int \<Rightarrow> DatastoreChoice" where
  "most_free datastores required_gb =
     (let fitting = filter (\<lambda>e. accessible e \<and> free_gb e \<ge> of_int required_gb) datastores in
      case first_max free_gb fitting of
        None \<Rightarrow>
          (let largest = (case first_max id (map free_gb (filter accessible datastores)) of None \<Rightarrow> 0 | Some q \<Rightarrow> q)
           in \<lparr>chosen_datastore = None,
               choice_detail = ''No accessible datastore has '' @ fixed_0 (of_int required_gb) @ '' GB free (largest: ''
                 @ fixed_0 largest @ '' GB).'',
               preferred_configured = False\<rparr>)
      | Some best \<Rightarrow>
          \<lparr>chosen_datastore = Some best,
           choice_detail = ds_name best @ '' ('' @ fixed_0 (free_gb best) @ '' GB free): the datastore with the most free space, ''
             @ ''because no preferred datastores are configured'',
           preferred_configured = False\<rparr>)"

text \<open>The walk over the preferred names; \<open>rank\<close> counts from 1 of \<open>count\<close> names, \<open>problems\<close> collects why names were passed over.\<close>

fun first_preferred ::
  "(string, DatastoreOut) dict \<Rightarrow> int \<Rightarrow> nat \<Rightarrow> nat \<Rightarrow> string list \<Rightarrow> string list \<Rightarrow> DatastoreChoice" where
  "first_preferred by_name required_gb count rank [] problems =
     \<lparr>chosen_datastore = None,
      choice_detail = ''None of the preferred datastores can take the '' @ fixed_0 (of_int required_gb) @ '' GB this VM needs: ''
        @ join_on ''; '' problems @ ''.'',
      preferred_configured = True\<rparr>"
| "first_preferred by_name required_gb count rank (name # names) problems =
     (case map_of by_name (casefold name) of
        None \<Rightarrow> first_preferred by_name required_gb count (Suc rank) names
                 (problems @ [name @ '' is not connected to this compute target''])
      | Some e \<Rightarrow>
          if \<not> accessible e
          then first_preferred by_name required_gb count (Suc rank) names (problems @ [ds_name e @ '' is not accessible''])
          else if free_gb e < of_int required_gb
          then first_preferred by_name required_gb count (Suc rank) names
                 (problems @ [ds_name e @ '' has '' @ fixed_0 (free_gb e) @ '' GB free''])
          else \<lparr>chosen_datastore = Some e,
                choice_detail = ds_name e @ '' (preferred datastore '' @ nat_text rank @ '' of '' @ nat_text count @ '', ''
                  @ fixed_0 (free_gb e) @ '' GB free)'',
                preferred_configured = True\<rparr>)"

definition choose_automatic_datastore :: "DatastoreOut list \<Rightarrow> json list \<Rightarrow> int \<Rightarrow> DatastoreChoice" where
  "choose_automatic_datastore datastores preferred required_gb =
     (let ordered = normalize_preferred preferred in
      if ordered = [] then most_free datastores required_gb
      else first_preferred (dict_by (\<lambda>e. casefold (ds_name e)) datastores) required_gb (length ordered) 1 ordered [])"

section \<open>The choice\<close>

definition fits :: "int \<Rightarrow> DatastoreOut \<Rightarrow> bool" where
  "fits required_gb e \<longleftrightarrow> accessible e \<and> of_int required_gb \<le> free_gb e"

lemma first_max_None: "first_max f xs = None \<longleftrightarrow> xs = []"
  by (cases xs) (auto split: option.splits)

lemma first_max_Some: "first_max f xs = Some y \<Longrightarrow> y \<in> set xs \<and> (\<forall>x \<in> set xs. f x \<le> f y)"
  by (induction xs arbitrary: y) (auto split: option.splits if_splits simp: first_max_None)

lemma most_free_chosen:
  "(case chosen_datastore (most_free ds n) of
      None \<Rightarrow> \<forall>x \<in> set ds. \<not> fits n x
    | Some e \<Rightarrow> e \<in> set ds \<and> fits n e \<and> (\<forall>x \<in> set ds. fits n x \<longrightarrow> free_gb x \<le> free_gb e))"
proof (cases "first_max free_gb (filter (\<lambda>e. accessible e \<and> free_gb e \<ge> of_int n) ds)")
  case None
  then show ?thesis by (auto simp: most_free_def Let_def fits_def first_max_None filter_empty_conv)
next
  case (Some e)
  from first_max_Some [OF this] Some show ?thesis by (auto simp: most_free_def Let_def fits_def)
qed

definition named :: "DatastoreOut list \<Rightarrow> string \<Rightarrow> DatastoreOut option" where
  "named ds name = find (\<lambda>e. casefold (ds_name e) = casefold name) (rev ds)"

lemma first_preferred_chosen:
  "chosen_datastore (first_preferred (dict_by (\<lambda>e. casefold (ds_name e)) ds) n count rank names problems)
     = map_option (\<lambda>name. the (named ds name)) (find (\<lambda>name. \<exists>e. named ds name = Some e \<and> fits n e) names)"
  by (induction names arbitrary: rank problems)
    (auto simp: map_of_dict_by named_def [symmetric] fits_def split: option.split)

lemma chosen_fits:
  assumes "chosen_datastore (choose_automatic_datastore ds preferred n) = Some e"
  shows "e \<in> set ds" "fits n e"
proof -
  have "e \<in> set ds \<and> fits n e"
  proof (cases "normalize_preferred preferred = []")
    case True
    then show ?thesis using assms most_free_chosen [of ds n] by (simp add: choose_automatic_datastore_def)
  next
    case False
    then obtain name where "named ds name = Some e" "fits n e"
      using assms by (auto simp: choose_automatic_datastore_def Let_def first_preferred_chosen dest!: find_SomeD)
    then show ?thesis by (auto simp: named_def dest!: find_SomeD)
  qed
  then show "e \<in> set ds" "fits n e" by simp_all
qed

text \<open>
  Automatic placement chooses exactly as documented: a chosen datastore is connected, accessible and has room for every
  disk. With a preferred list it is the datastore of the first listed name that fits, and none is chosen only when no
  listed one fits; without a list it has the most free space, and none is chosen only when none fits.
\<close>

theorem automatic_placement_correct:
  "(normalize_preferred preferred \<noteq> [] \<longrightarrow>
      chosen_datastore (choose_automatic_datastore ds preferred n)
        = map_option (\<lambda>name. the (named ds name)) (find (\<lambda>name. \<exists>e. named ds name = Some e \<and> fits n e) (normalize_preferred preferred)))
   \<and> (normalize_preferred preferred = [] \<longrightarrow>
      (case chosen_datastore (choose_automatic_datastore ds preferred n) of
         None \<Rightarrow> \<forall>x \<in> set ds. \<not> fits n x
       | Some e \<Rightarrow> e \<in> set ds \<and> fits n e \<and> (\<forall>x \<in> set ds. fits n x \<longrightarrow> free_gb x \<le> free_gb e)))
   \<and> (\<forall>e. chosen_datastore (choose_automatic_datastore ds preferred n) = Some e \<longrightarrow> e \<in> set ds \<and> fits n e)"
  using most_free_chosen [of ds n] chosen_fits
  by (auto simp: choose_automatic_datastore_def Let_def first_preferred_chosen split: option.splits)

definition sample_stores :: "DatastoreOut list" where
  "sample_stores = [\<lparr>ds_id = ''d1'', ds_name = ''SSD-1'', free_gb = 40, accessible = True\<rparr>,
     \<lparr>ds_id = ''d2'', ds_name = ''SSD-2'', free_gb = 500, accessible = True\<rparr>,
     \<lparr>ds_id = ''d3'', ds_name = ''NAS'', free_gb = 9000, accessible = True\<rparr>]"

theorem automatic_placement_correct_witness:
  "chosen_datastore (choose_automatic_datastore sample_stores [JStr ''ssd-1'', JStr '' ssd-2 '', JStr ''nas''] 100) = Some (sample_stores ! 1)
   \<and> fits 100 (sample_stores ! 1)"
proof -
  have p: "normalize_preferred [JStr ''ssd-1'', JStr '' ssd-2 '', JStr ''nas''] = [''ssd-1'', ''ssd-2'', ''nas'']" by code_simp
  have l: "lower ''SSD-1'' = ''ssd-1''" "lower ''SSD-2'' = ''ssd-2''" "lower ''NAS'' = ''nas''" "lower ''ssd-1'' = ''ssd-1''" "lower ''ssd-2'' = ''ssd-2''"
    by code_simp+
  have "named sample_stores ''ssd-1'' = Some (sample_stores ! 0)" "named sample_stores ''ssd-2'' = Some (sample_stores ! 1)"
    unfolding named_def sample_stores_def by (simp_all add: l)
  moreover have "\<not> fits 100 (sample_stores ! 0)" "fits 100 (sample_stores ! 1)" by (simp_all add: fits_def sample_stores_def)
  moreover note conjunct1 [OF automatic_placement_correct [of "[JStr ''ssd-1'', JStr '' ssd-2 '', JStr ''nas'']" sample_stores 100], unfolded p]
  ultimately show ?thesis by simp
qed

end
