(* ===== verification/Ip_Conflict.thy ===== *)
theory Ip_Conflict
  imports Infrastructure
begin

text \<open>
  The IP conflict check (\<^verbatim>\<open>services/network/conflict.py\<close>): the providers, and the report that aggregates them. The ping
  program and the resolver are parameters; a provider that raises is given by the name of its exception.
\<close>

datatype ConflictProviderStatus = NO_CONFLICT | CONFLICT_DETECTED | NOT_CONFIGURED | ERROR

record ProviderResult =
  provider_name :: string
  provider_status :: ConflictProviderStatus
  provider_detail :: string

record IpConflictReport =
  conf_address :: string
  conf_prefix :: int
  conf_providers :: "ProviderResult list"
  conflict_detected :: bool
  confidence_note :: string

type_synonym provider = "string \<times> (string \<Rightarrow> int \<Rightarrow> string + ProviderResult)"

definition provider_result :: "string \<Rightarrow> ConflictProviderStatus \<Rightarrow> string \<Rightarrow> ProviderResult" where
  "provider_result name st detail = \<lparr>provider_name = name, provider_status = st, provider_detail = detail\<rparr>"

section \<open>Providers\<close>

text \<open>\<open>which\<close> is the ping program, \<open>exec\<close> runs a command line: the message of a timeout or an operating system error, or the exit code and the output.\<close>

definition ping_command :: "bool \<Rightarrow> string \<Rightarrow> string \<Rightarrow> string list" where
  "ping_command windows ping address =
     (if windows then [ping, ''-n'', ''1'', ''-w'', ''1500'', address] else [ping, ''-c'', ''1'', ''-W'', ''1'', address])"

definition icmp_check :: "string option \<Rightarrow> bool \<Rightarrow> (string list \<Rightarrow> string + int \<times> string) \<Rightarrow> string \<Rightarrow> ProviderResult" where
  "icmp_check which windows exec address =
     (case which of
        None \<Rightarrow> provider_result ''ICMP'' NOT_CONFIGURED ''ICMP probe is unavailable because the ping utility is not installed.''
      | Some ping \<Rightarrow>
          (case exec (ping_command windows ping address) of
             Inl e \<Rightarrow> provider_result ''ICMP'' ERROR (''Ping could not be executed: '' @ e)
           | Inr (code, output) \<Rightarrow>
               (let t = lower output;
                    replied = (code = 0 \<and> (contains t ''ttl='' \<or> contains t ''time<'' \<or> contains t ''time=''));
                    unreachable = (contains t ''unreachable'' \<or> contains t ''timed out'' \<or> contains t ''could not find host'')
                in if replied \<and> \<not> unreachable
                   then provider_result ''ICMP'' CONFLICT_DETECTED (''A device responded to ICMP echo at '' @ address @ ''.'')
                   else provider_result ''ICMP'' NO_CONFLICT ''No ICMP response received (may simply be filtered).'')))"

definition dns_check :: "string \<Rightarrow> (string \<Rightarrow> string option) \<Rightarrow> string \<Rightarrow> ProviderResult" where
  "dns_check name lookup address =
     (if truthy_text (lookup address)
      then provider_result name CONFLICT_DETECTED (''Reverse lookup resolves to '' @ squoted (the (lookup address)) @ ''.'')
      else provider_result name NO_CONFLICT ''No PTR record found.'')"

definition inventory_check :: "guest_error + (string, string) dict \<Rightarrow> string option \<Rightarrow> string \<Rightarrow> ProviderResult" where
  "inventory_check used exclude address =
     (case used of
        Inl _ \<Rightarrow> provider_result ''VMware inventory'' ERROR ''Inventory could not be queried.''
      | Inr ips \<Rightarrow>
          (let owner = text_or (map_of ips address) [];
               excluded = (owner \<noteq> [] \<and> truthy_text exclude \<and> casefold owner = casefold (the exclude))
           in if owner \<noteq> [] \<and> \<not> excluded
              then provider_result ''VMware inventory'' CONFLICT_DETECTED (''Address is assigned to VM '' @ squoted owner @ ''.'')
              else provider_result ''VMware inventory'' NO_CONFLICT ''Not present in the vCenter guest inventory.''))"

section \<open>The report\<close>

definition run_provider :: "string \<Rightarrow> int \<Rightarrow> provider \<Rightarrow> ProviderResult" where
  "run_provider address prefix p =
     (case snd p address prefix of Inl exn \<Rightarrow> provider_result (fst p) ERROR (''Provider failed: '' @ exn) | Inr r \<Rightarrow> r)"

definition run_conflict_check :: "string \<Rightarrow> int \<Rightarrow> provider list \<Rightarrow> IpConflictReport" where
  "run_conflict_check address prefix providers =
     (let results = map (run_provider address prefix) providers;
          conflict = list_ex (\<lambda>r. provider_status r = CONFLICT_DETECTED) results;
          definitive = length (filter (\<lambda>r. provider_status r \<in> {NO_CONFLICT, CONFLICT_DETECTED}) results);
          available = length (filter (\<lambda>r. provider_status r \<noteq> NOT_CONFIGURED) results)
      in \<lparr>conf_address = address, conf_prefix = prefix, conf_providers = results, conflict_detected = conflict,
          confidence_note =
            (if conflict then ''A potential conflict WAS detected - choose a different address.''
             else if available = 0 then ''No validation source was available; the address is unverified.''
             else ''No conflict detected with '' @ nat_text available @ '' available validation method(s) ('' @ nat_text definitive
               @ '' returned a definitive answer). Validation confidence depends on the configured sources; a filtered network can hide active devices.'')\<rparr>)"

lemma run_provider_conflict:
  "provider_status (run_provider address prefix p) = CONFLICT_DETECTED \<longleftrightarrow>
     (\<exists>r. snd p address prefix = Inr r \<and> provider_status r = CONFLICT_DETECTED)"
  by (auto simp: run_provider_def provider_result_def split: sum.split)

lemma conflict_detected_iff:
  "conflict_detected (run_conflict_check address prefix providers) \<longleftrightarrow>
     (\<exists>p \<in> set providers. \<exists>r. snd p address prefix = Inr r \<and> provider_status r = CONFLICT_DETECTED)"
  by (simp add: run_conflict_check_def Let_def list_ex_iff run_provider_conflict)

end
