(* ===== verification/Detection_Rules.thy ===== *)
theory Detection_Rules
  imports Guest_Scripts Request_Schema
begin

text \<open>
  Detection rules (\<^verbatim>\<open>services/applications/detection_rules.py\<close>): validation of an administrator's rule and
  the probe commands built from it. An error is the message of the \<^verbatim>\<open>ValueError\<close>; a missing key of a
  stored rule, a \<^verbatim>\<open>KeyError\<close>, is \<^term>\<open>None\<close>. The last part reads a command line back with the documented
  rules of Windows programs and shows which arguments the probes really receive.
\<close>

section \<open>Validation\<close>

datatype DetectionMethod = MSI_PRODUCT_CODE | REGISTRY_KEY | FILE_EXISTS | SERVICE_EXISTS | SCRIPT

definition REG_PATH :: string where
  "REG_PATH = win_path [''C:'', ''Windows'', ''System32'', ''reg.exe'']"

definition SC_PATH :: string where
  "SC_PATH = win_path [''C:'', ''Windows'', ''System32'', ''sc.exe'']"

definition MSIEXEC_PATH :: string where
  "MSIEXEC_PATH = win_path [''C:'', ''Windows'', ''System32'', ''msiexec.exe'']"

definition WINDOWS_ABS_PATH :: regex where
  "WINDOWS_ABS_PATH = seqs [Class (\<lambda>c. is_lower_char c \<or> is_upper_char c), lit (CHR '':''), lit bs,
     many1 (Class (\<lambda>c. c \<notin> {CHR ''<'', CHR ''>'', CHR '':'', CHR 0x22, CHR ''|'', CHR ''?'', CHR ''*''} \<and> 31 < (of_char c :: nat)))]"

definition SERVICE_NAME :: regex where
  "SERVICE_NAME = between 1 80 (Class (\<lambda>c. is_alnum c \<or> c \<in> {CHR ''_'', CHR ''.'', CHR ''-''}))"

text \<open>\<^verbatim>\<open>pattern.match\<close> of a pattern that ends with \<^verbatim>\<open>$\<close>: the end, or before one final newline.\<close>

definition match_end :: "regex \<Rightarrow> string \<Rightarrow> bool" where
  "match_end r s = (fullmatch r s \<or> (s \<noteq> [] \<and> last s = CHR 0x0A \<and> fullmatch r (butlast s)))"

definition DETECTION_ABSENT_EXIT_CODES :: "int set" where
  "DETECTION_ABSENT_EXIT_CODES = {1, 1060}"

definition clean_text :: "string \<Rightarrow> string \<Rightarrow> nat \<Rightarrow> string + string" where
  "clean_text v label max_length =
     (let t = strip v in
      if t = [] then Inl (label @ '' is required.'')
      else if max_length < length t then Inl (label @ '' exceeds '' @ nat_text max_length @ '' characters.'')
      else if list_ex control_char t then Inl (label @ '' contains control characters.'')
      else Inr t)"

definition validate_registry_key :: "json_dict \<Rightarrow> string + (string, string) dict" where
  "validate_registry_key config =
     (case clean_text (get_text config ''key_path'') ''Registry key path'' 400 of
        Inl e \<Rightarrow> Inl e
      | Inr key \<Rightarrow>
          if \<not> (startswith key (''HKLM'' @ [bs]) \<or> startswith key (''HKCU'' @ [bs]))
          then Inl (''Registry key paths must start with HKLM'' @ [bs] @ '' or HKCU'' @ [bs] @ ''.'')
          else if CHR 0x22 \<in> set key then Inl ''Registry key paths must not contain quotes.''
          else (let value_name = strip (get_text config ''value_name'') in
            if value_name = [] then Inr [(''key_path'', key)]
            else (case clean_text value_name ''Value name'' 200 of
                    Inl e \<Rightarrow> Inl e
                  | Inr vname \<Rightarrow>
                      if CHR 0x22 \<in> set vname then Inl ''Registry value names must not contain quotes.''
                      else Inr [(''key_path'', key), (''value_name'', vname)])))"

definition validate_detection_config :: "DetectionMethod \<Rightarrow> json_dict \<Rightarrow> string + (string, string) dict" where
  "validate_detection_config method config =
     (case method of
        MSI_PRODUCT_CODE \<Rightarrow>
          (case clean_text (get_text config ''product_code'') ''Product code'' 60 of
             Inl e \<Rightarrow> Inl e
           | Inr code \<Rightarrow>
               if \<not> fullmatch GUID_PATTERN code then Inl ''Product code must be a valid MSI GUID.''
               else Inr [(''product_code'', strip_chars (\<lambda>c. c \<in> {CHR ''{'', CHR ''}''}) code)])
      | REGISTRY_KEY \<Rightarrow> validate_registry_key config
      | FILE_EXISTS \<Rightarrow>
          (case clean_text (get_text config ''path'') ''File path'' 400 of
             Inl e \<Rightarrow> Inl e
           | Inr path \<Rightarrow>
               if \<not> match_end WINDOWS_ABS_PATH path \<or> contains path ''..''
               then Inl ''File path must be an absolute Windows path without traversal segments.''
               else Inr [(''path'', path)])
      | SERVICE_EXISTS \<Rightarrow>
          (case clean_text (get_text config ''service_name'') ''Service name'' 80 of
             Inl e \<Rightarrow> Inl e
           | Inr service \<Rightarrow>
               if \<not> match_end SERVICE_NAME service
               then Inl ''Service names may contain letters, digits, dots, dashes and underscores.''
               else Inr [(''service_name'', service)])
      | SCRIPT \<Rightarrow>
          (let scr = get_text config ''script'' in
           if strip scr = [] then Inl ''Custom detection scripts must not be empty.''
           else if 8000 < length scr then Inl ''Custom detection scripts are limited to 8000 characters.''
           else Inr [(''script'', scr)]))"

section \<open>Probe commands\<close>

definition dquoted :: "string \<Rightarrow> string" where
  "dquoted s = [CHR 0x22] @ s @ [CHR 0x22]"

definition UNINSTALL_ROOT :: string where
  "UNINSTALL_ROOT = win_path [''HKLM'', ''SOFTWARE'', ''Microsoft'', ''Windows'', ''CurrentVersion'', ''Uninstall'']"

definition detection_programs :: "DetectionMethod \<Rightarrow> (string, string) dict \<Rightarrow> GuestCommand list option" where
  "detection_programs method config =
     (case method of
        MSI_PRODUCT_CODE \<Rightarrow>
          map_option (\<lambda>code.
            [native REG_PATH (''query '' @ dquoted (UNINSTALL_ROOT @ [bs] @ ''{'' @ code @ ''}'') @ '' /v DisplayName''),
             native REG_PATH (''query '' @ dquoted (UNINSTALL_ROOT @ [bs] @ ''{'' @ code @ ''}'') @ '' /v DisplayName /reg:32'')])
            (map_of config ''product_code'')
      | REGISTRY_KEY \<Rightarrow>
          map_option (\<lambda>key.
            [native REG_PATH (''query '' @ dquoted key
               @ (if truthy_text (map_of config ''value_name'') then '' /v '' @ dquoted (the (map_of config ''value_name'')) else []))])
            (map_of config ''key_path'')
      | FILE_EXISTS \<Rightarrow>
          map_option (\<lambda>path. [powershell (''if (Test-Path -LiteralPath '' @ ps_quote path @ '') { exit 0 } else { exit 1 }'')])
            (map_of config ''path'')
      | SERVICE_EXISTS \<Rightarrow> map_option (\<lambda>s. [native SC_PATH (''query '' @ dquoted s)]) (map_of config ''service_name'')
      | SCRIPT \<Rightarrow> map_option (\<lambda>s. [powershell s]) (map_of config ''script''))"

section \<open>Reading a command line\<close>

text \<open>
  The documented rules by which a Windows program splits its command line: blanks separate arguments outside quotes;
  \<open>2n\<close> backslashes before a quote stand for \<open>n\<close> of them and the quote delimits, \<open>2n+1\<close> for \<open>n\<close> and a
  literal quote; other backslashes stand for themselves.
\<close>

fun argv_from :: "bool \<Rightarrow> nat \<Rightarrow> string option \<Rightarrow> string \<Rightarrow> string list" where
  "argv_from q n cur [] = (case cur of None \<Rightarrow> if n = 0 then [] else [replicate n bs] | Some u \<Rightarrow> [u @ replicate n bs])"
| "argv_from q n cur (c # cs) =
     (let u = (case cur of None \<Rightarrow> [] | Some u \<Rightarrow> u) in
      if c = bs then argv_from q (Suc n) cur cs
      else if c = CHR 0x22
      then (if even n then argv_from (\<not> q) 0 (Some (u @ replicate (n div 2) bs)) cs
            else argv_from q 0 (Some (u @ replicate (n div 2) bs @ [c])) cs)
      else if c \<in> {CHR '' '', CHR 0x09} \<and> \<not> q
      then (if cur = None \<and> n = 0 then argv_from False 0 None cs else (u @ replicate n bs) # argv_from False 0 None cs)
      else argv_from q 0 (Some (u @ replicate n bs @ [c])) cs)"

definition argv :: "string \<Rightarrow> string list" where
  "argv s = argv_from False 0 None s"

lemma argv_quoted_body:
  "CHR 0x22 \<notin> set s \<Longrightarrow> s \<noteq> [] \<Longrightarrow> last s \<noteq> bs \<Longrightarrow>
     argv_from True n (Some u) (s @ CHR 0x22 # rest) = argv_from False 0 (Some (u @ replicate n bs @ s)) rest"
proof (induction s arbitrary: n u)
  case (Cons c s)
  show ?case
  proof (cases "s = []")
    case True
    with Cons.prems show ?thesis by (simp add: Let_def)
  next
    case False
    with Cons show ?thesis by (auto simp: Let_def replicate_app_Cons_same)
  qed
qed simp

lemma argv_quoted:
  assumes "CHR 0x22 \<notin> set s" and "s \<noteq> []" and "last s \<noteq> bs"
  shows "argv_from False 0 None (dquoted s @ rest) = argv_from False 0 (Some s) rest"
  using argv_quoted_body [OF assms, of 0 "[]" rest] by (simp add: dquoted_def Let_def)

lemma argv_query: "argv_from False 0 None (''query '' @ rest) = ''query'' # argv_from False 0 None rest"
  by (simp add: Let_def)

lemma argv_value: "argv_from False 0 (Some k) ('' /v '' @ rest) = k # ''/v'' # argv_from False 0 None rest"
  by (simp add: Let_def)

section \<open>Properties\<close>

lemma clean_textD: "clean_text v label n = Inr t \<Longrightarrow> t \<noteq> [] \<and> \<not> list_ex control_char t \<and> length t \<le> n"
  by (auto simp: clean_text_def Let_def split: if_splits)

lemma guid_no_quote: "fullmatch GUID_PATTERN code \<Longrightarrow> CHR 0x22 \<notin> set (strip_chars P code)"
proof -
  assume "fullmatch GUID_PATTERN code"
  moreover have "all_classes (\<lambda>c. c \<noteq> CHR 0x22) (exactly n (Class is_hex_digit))" for n
    by (induction n) (auto simp: is_hex_digit_def is_digit_def Let_def)
  then have "all_classes (\<lambda>c. c \<noteq> CHR 0x22) GUID_PATTERN"
    by (simp add: GUID_PATTERN_def Let_def optional_def lit_def del: exactly.simps)
  ultimately have "CHR 0x22 \<notin> set code" using matches_all_classes by (fastforce simp: fullmatch_iff list_all_iff)
  with set_strip_chars [of P code] show ?thesis by blast
qed

lemma service_no_quote:
  assumes "match_end SERVICE_NAME s" and "\<not> list_ex control_char s"
  shows "CHR 0x22 \<notin> set s \<and> last s \<noteq> bs"
proof -
  have nl: "control_char (CHR 0x0A)" by (simp add: control_char_def)
  have "s = [] \<or> last s \<noteq> CHR 0x0A" using assms(2) nl unfolding list_ex_iff by (metis last_in_set)
  with assms(1) have m: "matches SERVICE_NAME s" by (auto simp: match_end_def fullmatch_iff)
  have "\<not> (is_alnum bs \<or> bs \<in> {CHR ''_'', CHR ''.'', CHR ''-''})" "\<not> (is_alnum (CHR 0x22) \<or> CHR 0x22 \<in> {CHR ''_'', CHR ''.'', CHR ''-''})"
    by (simp_all add: is_alnum_def is_digit_def is_lower_char_def is_upper_char_def)
  moreover from m have "s \<noteq> []" "\<forall>c \<in> set s. is_alnum c \<or> c \<in> {CHR ''_'', CHR ''.'', CHR ''-''}"
    unfolding SERVICE_NAME_def by (auto simp: matches_between_class list_all_iff)
  ultimately show ?thesis by (metis last_in_set)
qed

definition probe_shape :: "DetectionMethod \<Rightarrow> (string, string) dict \<Rightarrow> GuestCommand list \<Rightarrow> bool" where
  "probe_shape method cfg probes \<longleftrightarrow>
     (case method of
        MSI_PRODUCT_CODE \<Rightarrow>
          (let key = UNINSTALL_ROOT @ [bs] @ ''{'' @ the (map_of cfg ''product_code'') @ ''}''
           in map (\<lambda>p. argv (arguments p)) probes = [[''query'', key, ''/v'', ''DisplayName''], [''query'', key, ''/v'', ''DisplayName'', ''/reg:32'']])
      | REGISTRY_KEY \<Rightarrow>
          map (\<lambda>p. argv (arguments p)) probes =
            [[''query'', the (map_of cfg ''key_path'')] @ (case map_of cfg ''value_name'' of None \<Rightarrow> [] | Some v \<Rightarrow> [''/v'', v])]
      | FILE_EXISTS \<Rightarrow>
          (\<exists>pre post. map script probes = [Some (pre @ ps_quote (the (map_of cfg ''path'')) @ post)]
             \<and> read_literal (points (ps_quote (the (map_of cfg ''path''))) @ points post) = Some (points (the (map_of cfg ''path'')), points post))
      | SERVICE_EXISTS \<Rightarrow> map (\<lambda>p. argv (arguments p)) probes = [[''query'', the (map_of cfg ''service_name'')]]
      | SCRIPT \<Rightarrow> map script probes = [map_of cfg ''script''])"

lemma registry_config:
  assumes "validate_registry_key config = Inr cfg"
  obtains key where "cfg = [(''key_path'', key)]" "key \<noteq> []" "CHR 0x22 \<notin> set key"
  | key v where "cfg = [(''key_path'', key), (''value_name'', v)]" "key \<noteq> []" "CHR 0x22 \<notin> set key" "v \<noteq> []" "CHR 0x22 \<notin> set v"
  using assms by (auto simp: validate_registry_key_def Let_def dest!: clean_textD split: sum.splits if_splits)

lemma uninstall_key_argv:
  assumes "CHR 0x22 \<notin> set code"
  shows "argv (''query '' @ dquoted (UNINSTALL_ROOT @ [bs] @ ''{'' @ code @ ''}'') @ '' /v '' @ rest)
    = [''query'', UNINSTALL_ROOT @ [bs] @ ''{'' @ code @ ''}'', ''/v''] @ argv rest"
proof -
  let ?k = "UNINSTALL_ROOT @ [bs] @ ''{'' @ code @ ''}''"
  have "CHR 0x22 \<notin> set UNINSTALL_ROOT" by code_simp
  with assms have k: "CHR 0x22 \<notin> set ?k" "?k \<noteq> []" "last ?k \<noteq> bs" by simp_all
  show ?thesis unfolding argv_def argv_query argv_quoted [OF k] argv_value by simp
qed

text \<open>
  The probes built from an accepted rule have the intended shape when none of its values ends with a backslash:
  the started program receives exactly the fixed arguments and the rule's values, each as one argument, and a file
  path reads back as one PowerShell literal.
\<close>

theorem accepted_rule_probe_shape:
  assumes acc: "validate_detection_config method config = Inr cfg" and bsl: "\<forall>v \<in> snd ` set cfg. last v \<noteq> bs"
  shows "\<exists>probes. detection_programs method cfg = Some probes \<and> probe_shape method cfg probes"
proof (cases "method")
  case MSI_PRODUCT_CODE
  with acc obtain code where c: "fullmatch GUID_PATTERN code" "cfg = [(''product_code'', strip_chars (\<lambda>c. c \<in> {CHR ''{'', CHR ''}''}) code)]"
    by (auto simp: validate_detection_config_def split: sum.splits if_splits)
  have "argv (''query '' @ dquoted (UNINSTALL_ROOT @ [bs] @ ''{'' @ the (map_of cfg ''product_code'') @ ''}'') @ '' /v '' @ rest)
      = [''query'', UNINSTALL_ROOT @ [bs] @ ''{'' @ the (map_of cfg ''product_code'') @ ''}'', ''/v''] @ argv rest" for rest
    using guid_no_quote [OF c(1)] c(2) by (intro uninstall_key_argv) simp
  from this [of "''DisplayName''"] this [of "''DisplayName /reg:32''"] show ?thesis
    by (simp add: MSI_PRODUCT_CODE detection_programs_def probe_shape_def native_def c(2)) (simp add: argv_def Let_def)
next
  case REGISTRY_KEY
  with acc have "validate_registry_key config = Inr cfg" by (simp add: validate_detection_config_def)
  then show ?thesis
  proof (cases rule: registry_config)
    case (1 key)
    with bsl have "argv_from False 0 None (dquoted key @ []) = [key]" by (subst argv_quoted) simp_all
    with 1 REGISTRY_KEY show ?thesis
      by (simp add: detection_programs_def probe_shape_def native_def argv_def argv_query [simplified])
  next
    case (2 key v)
    with bsl have "argv_from False 0 None (dquoted v @ []) = [v]" by (subst argv_quoted) simp_all
    moreover have "argv (''query '' @ dquoted key @ '' /v '' @ dquoted v) = ''query'' # key # ''/v'' # argv_from False 0 None (dquoted v)"
      using 2 bsl unfolding argv_def argv_query by (subst argv_quoted) (simp_all only: argv_value image_set snd_conv, simp_all)
    ultimately show ?thesis using 2 REGISTRY_KEY by (simp add: detection_programs_def probe_shape_def native_def)
  qed
next
  case FILE_EXISTS
  with acc obtain path where c: "cfg = [(''path'', path)]"
    by (auto simp: validate_detection_config_def split: sum.splits if_splits)
  let ?post = "'') { exit 0 } else { exit 1 }''"
  have "points ?post = [] \<or> \<not> single_quote (hd (points ?post))"
    by (simp add: points_def single_quote_def typographic_quote_def)
  then have "read_literal (points (ps_quote path) @ points ?post) = Some (points path, points ?post)"
    unfolding points_ps_quote by (intro read_literal_quoted points_no_typographic)
  then have "\<exists>pre post. ''if (Test-Path -LiteralPath '' @ ps_quote path @ '') { exit 0 } else { exit 1 }'' = pre @ ps_quote path @ post
      \<and> read_literal (points (ps_quote path) @ points post) = Some (points path, points post)" by blast
  then show ?thesis by (simp add: FILE_EXISTS c detection_programs_def probe_shape_def powershell_def)
next
  case SERVICE_EXISTS
  with acc obtain s where c: "cfg = [(''service_name'', s)]" "match_end SERVICE_NAME s" "\<not> list_ex control_char s" "s \<noteq> []"
    by (auto simp: validate_detection_config_def dest: clean_textD split: sum.splits if_splits)
  with service_no_quote have "argv_from False 0 None (dquoted s @ []) = [s]" by (subst argv_quoted) simp_all
  with c SERVICE_EXISTS show ?thesis
    by (simp add: detection_programs_def probe_shape_def native_def argv_def argv_query [simplified])
next
  case SCRIPT
  with acc show ?thesis
    by (auto simp: validate_detection_config_def Let_def detection_programs_def probe_shape_def powershell_def split: if_splits)
qed

theorem accepted_rule_probe_shape_witness:
  "let cfg = [(''service_name'', ''W32Time'')]
   in validate_detection_config SERVICE_EXISTS [(''service_name'', JStr '' W32Time '')] = Inr cfg
      \<and> (\<exists>probes. detection_programs SERVICE_EXISTS cfg = Some probes \<and> probe_shape SERVICE_EXISTS cfg probes)"
proof -
  have acc: "validate_detection_config SERVICE_EXISTS [(''service_name'', JStr '' W32Time '')] = Inr [(''service_name'', ''W32Time'')]"
    by code_simp
  from accepted_rule_probe_shape [OF acc] acc show ?thesis by (simp add: Let_def)
qed

text \<open>
  Known defect: a registry key that ends with a backslash is accepted, and the probe's command line then escapes
  its own closing quote: the program receives one wrong argument instead of the key and the value name.
\<close>

theorem trailing_backslash_breaks_probe:
  "let key = ''HKLM'' @ [bs] @ ''SOFTWARE'' @ [bs];
       config = [(''key_path'', JStr key), (''value_name'', JStr ''Version'')];
       cfg = [(''key_path'', key), (''value_name'', ''Version'')]
   in validate_detection_config REGISTRY_KEY config = Inr cfg
      \<and> map_option (map (\<lambda>p. argv (arguments p))) (detection_programs REGISTRY_KEY cfg)
          = Some [[''query'', ''HKLM'' @ [bs] @ ''SOFTWARE'' @ [CHR 0x22] @ '' /v Version'']]"
  by code_simp

end
