(* ===== verification/Dependency_Resolver.thy ===== *)
theory Dependency_Resolver
  imports Infra_Prelude "HOL-Library.FSet" "HOL-Library.Char_ord" "HOL-Library.List_Lexorder"
begin

text \<open>
  The installation order of applications, \<^verbatim>\<open>services/applications/resolver.py\<close>: a depth-first search
  that collects the selected applications with everything they depend on and reports missing entries
  and cycles, then Kahn's algorithm on what was collected. The catalog is a dictionary. The recursion of
  \<^verbatim>\<open>visit\<close> is bounded by fuel, one unit per level: the applications on the search path are distinct
  catalog entries, so one more than the size of the catalog is enough, and the loop of Kahn's algorithm
  runs once per collected application.
\<close>

section \<open>The search\<close>

record AppNode =
  node_id :: uuid
  node_name :: string
  node_enabled :: bool
  dependency_ids :: "uuid fset"

type_synonym catalog = "(uuid, AppNode) dict"

datatype colour = WHITE | GRAY | BLACK

record dfs_state =
  dfs_errors :: "string list"
  required :: "(uuid, AppNode) dict"
  color :: "(uuid, colour) dict"
  chain :: "uuid list"

definition colour_of :: "dfs_state \<Rightarrow> uuid \<Rightarrow> colour" where
  "colour_of s a = dict_get (color s) a WHITE"

definition cycle_error :: "catalog \<Rightarrow> uuid list \<Rightarrow> uuid \<Rightarrow> string" where
  "cycle_error cat ch a =
     ''Circular dependency detected: ''
     @ join_on '' -> '' (map (\<lambda>c. case map_of cat c of Some n \<Rightarrow> node_name n | None \<Rightarrow> c) (dropWhile (\<lambda>c. c \<noteq> a) ch))"

definition missing_error :: "uuid \<Rightarrow> string" where
  "missing_error a = ''A selected application depends on application '' @ [CHR 0x27] @ a @ [CHR 0x27] @ '', which does not exist.''"

fun visit_all :: "(uuid \<Rightarrow> dfs_state \<Rightarrow> dfs_state option) \<Rightarrow> uuid list \<Rightarrow> dfs_state \<Rightarrow> dfs_state option" where
  "visit_all f [] s = Some s"
| "visit_all f (a # as) s = (case f a s of None \<Rightarrow> None | Some s' \<Rightarrow> visit_all f as s')"

definition enter :: "uuid \<Rightarrow> dfs_state \<Rightarrow> dfs_state" where
  "enter a s = s\<lparr>color := AList.update a GRAY (color s), chain := chain s @ [a]\<rparr>"

definition leave :: "uuid \<Rightarrow> AppNode \<Rightarrow> dfs_state \<Rightarrow> dfs_state" where
  "leave a n s = s\<lparr>chain := butlast (chain s), color := AList.update a BLACK (color s), required := AList.update a n (required s)\<rparr>"

primrec visit :: "nat \<Rightarrow> catalog \<Rightarrow> uuid \<Rightarrow> dfs_state \<Rightarrow> dfs_state option" where
  "visit 0 cat a s = None"
| "visit (Suc k) cat a s =
     (case colour_of s a of
        BLACK \<Rightarrow> Some s
      | GRAY \<Rightarrow> Some (s\<lparr>dfs_errors := dfs_errors s @ [cycle_error cat (chain s) a]\<rparr>)
      | WHITE \<Rightarrow>
          (case map_of cat a of
             None \<Rightarrow> Some (s\<lparr>dfs_errors := dfs_errors s @ [missing_error a], color := AList.update a BLACK (color s)\<rparr>)
           | Some n \<Rightarrow>
               (case visit_all (visit k cat) (sorted_list_of_fset (dependency_ids n)) (enter a s) of
                  None \<Rightarrow> None
                | Some s' \<Rightarrow> Some (leave a n s'))))"

definition start_state :: dfs_state where
  "start_state = \<lparr>dfs_errors = [], required = [], color = [], chain = []\<rparr>"

definition disabled_errors :: "(uuid, AppNode) dict \<Rightarrow> string list" where
  "disabled_errors req =
     map (\<lambda>(a, n). ''Application '' @ [CHR 0x27] @ node_name n @ [CHR 0x27] @ '' is disabled in the catalog and cannot be installed.'')
       (filter (\<lambda>(a, n). \<not> node_enabled n) req)"

section \<open>Kahn's algorithm\<close>

record dependency_graph =
  indegree :: "(uuid, int) dict"
  edges_out :: "(uuid, uuid list) dict"

definition add_edge :: "uuid \<Rightarrow> uuid \<Rightarrow> dependency_graph \<Rightarrow> dependency_graph" where
  "add_edge dep a g = g\<lparr>edges_out := AList.update dep (dict_get (edges_out g) dep [] @ [a]) (edges_out g),
     indegree := AList.update a (dict_get (indegree g) a 0 + 1) (indegree g)\<rparr>"

definition add_deps :: "(uuid, AppNode) dict \<Rightarrow> uuid \<times> AppNode \<Rightarrow> dependency_graph \<Rightarrow> dependency_graph" where
  "add_deps req an g = fold (\<lambda>dep g. if map_of req dep \<noteq> None then add_edge dep (fst an) g else g)
                         (sorted_list_of_fset (dependency_ids (snd an))) g"

definition build_graph :: "(uuid, AppNode) dict \<Rightarrow> dependency_graph" where
  "build_graph req =
     fold (add_deps req) req \<lparr>indegree = map (\<lambda>(a, n). (a, 0)) req, edges_out = map (\<lambda>(a, n). (a, [])) req\<rparr>"

definition name_of :: "(uuid, AppNode) dict \<Rightarrow> uuid \<Rightarrow> string" where
  "name_of req a = (case map_of req a of Some n \<Rightarrow> node_name n | None \<Rightarrow> [])"

fun release :: "uuid list \<Rightarrow> (uuid, int) dict \<Rightarrow> uuid list \<Rightarrow> (uuid, int) dict \<times> uuid list" where
  "release [] indeg ready = (indeg, ready)"
| "release (d # ds) indeg ready =
     (let left = dict_get indeg d 0 - 1
      in release ds (AList.update d left indeg) (if left = 0 then ready @ [d] else ready))"

fun kahn :: "nat \<Rightarrow> (uuid, AppNode) dict \<Rightarrow> (uuid, uuid list) dict \<Rightarrow> (uuid, int) dict \<Rightarrow> uuid list \<Rightarrow> uuid list \<Rightarrow> uuid list option" where
  "kahn fuel req out indeg [] ordered = Some ordered"
| "kahn 0 req out indeg (c # ready) ordered = None"
| "kahn (Suc fuel) req out indeg (c # ready) ordered =
     (let (indeg', ready') = release (dict_get out c []) indeg ready
      in kahn fuel req out indeg' (sort_key (name_of req) ready') (ordered @ [c]))"

definition initial_ready :: "(uuid, AppNode) dict \<Rightarrow> dependency_graph \<Rightarrow> uuid list" where
  "initial_ready req g = sort_key (name_of req) (map fst (filter (\<lambda>(a, d). d = 0) (indegree g)))"

definition install_order :: "(uuid, AppNode) dict \<Rightarrow> uuid list option" where
  "install_order req =
     (let g = build_graph req in kahn (length req) req (edges_out g) (indegree g) (initial_ready req g) [])"

definition resolve_install_order :: "uuid list \<Rightarrow> catalog \<Rightarrow> (AppNode list \<times> string list) option" where
  "resolve_install_order selected cat =
     (case visit_all (visit (Suc (length cat)) cat) selected start_state of
        None \<Rightarrow> None
      | Some s \<Rightarrow>
          (let errors = dfs_errors s @ disabled_errors (required s) in
           if errors \<noteq> [] then Some ([], errors)
           else (case install_order (required s) of
                   None \<Rightarrow> None
                 | Some ids \<Rightarrow>
                     if length ids \<noteq> length (required s)
                     then Some ([], [''Dependencies could not be ordered (internal consistency error).''])
                     else Some (map (\<lambda>a. the (map_of (required s) a)) ids, []))))"

section \<open>Specification\<close>

definition depends :: "catalog \<Rightarrow> (uuid \<times> uuid) set" where
  "depends cat = {(a, b). \<exists>n. map_of cat a = Some n \<and> b |\<in>| dependency_ids n}"

definition needed :: "uuid list \<Rightarrow> catalog \<Rightarrow> uuid set" where
  "needed selected cat = (depends cat)\<^sup>* `` set selected"

definition installable :: "uuid list \<Rightarrow> catalog \<Rightarrow> bool" where
  "installable selected cat \<longleftrightarrow>
     (\<forall>a \<in> needed selected cat. (case map_of cat a of None \<Rightarrow> False | Some n \<Rightarrow> node_enabled n) \<and> (a, a) \<notin> (depends cat)\<^sup>+)"

section \<open>The search is correct\<close>

definition deps_first :: "(uuid, AppNode) dict \<Rightarrow> bool" where
  "deps_first req \<longleftrightarrow> (\<forall>i < length req. fset (dependency_ids (snd (req ! i))) \<subseteq> fst ` set (take i req))"

lemma deps_first_Nil [simp]: "deps_first []"
  by (simp add: deps_first_def)

lemma deps_first_snoc: "deps_first (req @ [(a, n)]) \<longleftrightarrow> deps_first req \<and> fset (dependency_ids n) \<subseteq> fst ` set req"
  by (auto simp: deps_first_def nth_append less_Suc_eq)

definition broken :: "uuid set \<Rightarrow> catalog \<Rightarrow> bool" where
  "broken nd cat \<longleftrightarrow> (\<exists>a \<in> nd. map_of cat a = None \<or> (a, a) \<in> (depends cat)\<^sup>+)"

definition path_ok :: "catalog \<Rightarrow> uuid list \<Rightarrow> bool" where
  "path_ok cat ch \<longleftrightarrow> (\<forall>i. Suc i < length ch \<longrightarrow> (ch ! i, ch ! Suc i) \<in> depends cat)"

definition dfs_inv :: "uuid set \<Rightarrow> catalog \<Rightarrow> dfs_state \<Rightarrow> bool" where
  "dfs_inv nd cat s \<longleftrightarrow>
     distinct (chain s) \<and> set (chain s) = {a. colour_of s a = GRAY} \<and> set (chain s) \<subseteq> dom (map_of cat)
     \<and> path_ok cat (chain s)
     \<and> distinct (map fst (required s)) \<and> fst ` set (required s) = {a. colour_of s a = BLACK \<and> map_of cat a \<noteq> None}
     \<and> (\<forall>(a, n) \<in> set (required s). map_of cat a = Some n)
     \<and> {a. colour_of s a \<noteq> WHITE} \<subseteq> nd
     \<and> (dfs_errors s = [] \<longrightarrow> deps_first (required s) \<and> (\<forall>a. colour_of s a = BLACK \<longrightarrow> map_of cat a \<noteq> None))
     \<and> (dfs_errors s \<noteq> [] \<longrightarrow> broken nd cat)"

definition visited :: "uuid set \<Rightarrow> catalog \<Rightarrow> uuid set \<Rightarrow> dfs_state \<Rightarrow> dfs_state \<Rightarrow> bool" where
  "visited nd cat as s s' \<longleftrightarrow> dfs_inv nd cat s' \<and> chain s' = chain s
     \<and> (dfs_errors s' = [] \<longrightarrow> dfs_errors s = [] \<and> (\<forall>a \<in> as. colour_of s' a = BLACK))
     \<and> (\<forall>a. colour_of s a = BLACK \<longrightarrow> colour_of s' a = BLACK)"

lemma visited_trans: "visited nd cat as s s1 \<Longrightarrow> visited nd cat bs s1 s2 \<Longrightarrow> visited nd cat (as \<union> bs) s s2"
  by (auto simp: visited_def)

lemma path_ok_rtrancl: "path_ok cat ch \<Longrightarrow> i \<le> j \<Longrightarrow> j < length ch \<Longrightarrow> (ch ! i, ch ! j) \<in> (depends cat)\<^sup>*"
proof (induction j)
  case (Suc j)
  show ?case
  proof (cases "i = Suc j")
    case False
    with Suc have "(ch ! i, ch ! j) \<in> (depends cat)\<^sup>*" by simp
    moreover have "(ch ! j, ch ! Suc j) \<in> depends cat" using Suc.prems by (simp add: path_ok_def)
    ultimately show ?thesis by (rule rtrancl_into_rtrancl)
  qed simp
qed simp

lemma path_ok_snoc: "path_ok cat ch \<Longrightarrow> ch = [] \<or> (last ch, a) \<in> depends cat \<Longrightarrow> path_ok cat (ch @ [a])"
  by (auto simp: path_ok_def nth_append last_conv_nth less_Suc_eq) (metis diff_Suc_1 last_conv_nth list.size(3) nat.distinct(1))

lemma path_ok_butlast: "path_ok cat (ch @ [a]) \<Longrightarrow> path_ok cat ch"
  unfolding path_ok_def by (metis Suc_lessD length_append_singleton less_SucI nth_append)

lemma chain_cycle:
  assumes "path_ok cat ch" and "a \<in> set ch" and "(last ch, a) \<in> depends cat"
  shows "(a, a) \<in> (depends cat)\<^sup>+"
proof -
  from assms(2) obtain i where i: "i < length ch" "ch ! i = a" by (auto simp: in_set_conv_nth)
  then have "ch \<noteq> []" by auto
  with path_ok_rtrancl [OF assms(1), of i "length ch - 1"] i have "(a, last ch) \<in> (depends cat)\<^sup>*"
    by (simp add: last_conv_nth)
  with assms(3) show ?thesis by (simp add: rtrancl_into_trancl1)
qed

lemma colour_of_simps [simp]:
  "colour_of (s\<lparr>dfs_errors := e\<rparr>) = colour_of s"
  "colour_of (enter a s) x = (if x = a then GRAY else colour_of s x)"
  "colour_of (leave a n s) x = (if x = a then BLACK else colour_of s x)"
  "colour_of (s\<lparr>dfs_errors := e, color := AList.update a c (color s)\<rparr>) x = (if x = a then c else colour_of s x)"
  "dfs_errors (enter a s) = dfs_errors s" "dfs_errors (leave a n s) = dfs_errors s"
  "required (enter a s) = required s" "chain (enter a s) = chain s @ [a]"
  "chain (leave a n s) = butlast (chain s)"
  by (auto simp: colour_of_def enter_def leave_def)

lemma required_leave: "a \<notin> fst ` set (required s) \<Longrightarrow> required (leave a n s) = required s @ [(a, n)]"
proof -
  have "AList.update a n xs = xs @ [(a, n)]" if "a \<notin> fst ` set xs" for xs using that by (induction xs) auto
  then show "a \<notin> fst ` set (required s) \<Longrightarrow> ?thesis" by (simp add: leave_def)
qed

lemma dfs_inv_enter:
  assumes "dfs_inv nd cat s" and "colour_of s a = WHITE" and "map_of cat a = Some n" and "a \<in> nd"
    and "chain s = [] \<or> (last (chain s), a) \<in> depends cat"
  shows "dfs_inv nd cat (enter a s)"
proof -
  have "a \<notin> set (chain s)" using assms(1,2) by (auto simp: dfs_inv_def)
  with assms show ?thesis by (auto simp: dfs_inv_def path_ok_snoc)
qed

lemma dfs_inv_leave:
  assumes inv: "dfs_inv nd cat s'" and v: "visited nd cat (fset (dependency_ids n)) (enter a s) s'"
    and a: "map_of cat a = Some n" "colour_of s a = WHITE"
  shows "dfs_inv nd cat (leave a n s')"
proof -
  have ch: "chain s' = chain s @ [a]" using v by (simp add: visited_def)
  then have gray: "colour_of s' a = GRAY" using inv by (auto simp: dfs_inv_def)
  then have req: "required (leave a n s') = required s' @ [(a, n)]" using inv by (intro required_leave) (auto simp: dfs_inv_def)
  have "fset (dependency_ids n) \<subseteq> fst ` set (required s')" if "dfs_errors s' = []"
    using that v inv by (auto simp: visited_def dfs_inv_def)
  then have first: "deps_first (required s' @ [(a, n)])" if "dfs_errors s' = []"
    using that inv by (simp add: deps_first_snoc dfs_inv_def)
  have "path_ok cat (chain s @ [a])" using inv ch by (simp add: dfs_inv_def)
  then have p: "path_ok cat (chain s)" by (rule path_ok_butlast)
  have d: "distinct (chain s @ [a])" "set (chain s @ [a]) = {x. colour_of s' x = GRAY}" "set (chain s @ [a]) \<subseteq> dom (map_of cat)"
    using inv unfolding dfs_inv_def ch by blast+
  have g: "set (chain s) = {x. colour_of (leave a n s') x = GRAY}" using d(1,2) by auto
  have keys: "distinct (map fst (required s'))" "fst ` set (required s') = {x. colour_of s' x = BLACK \<and> map_of cat x \<noteq> None}"
    "\<forall>(x, m) \<in> set (required s'). map_of cat x = Some m" "{x. colour_of s' x \<noteq> WHITE} \<subseteq> nd"
    using inv unfolding dfs_inv_def by blast+
  have "a \<in> nd" using keys(4) gray by auto
  then have nd: "{x. colour_of (leave a n s') x \<noteq> WHITE} \<subseteq> nd" using keys(4) by auto
  have dist: "distinct (map fst (required s' @ [(a, n)]))" using keys(1,2) gray by auto
  have black: "fst ` set (required s' @ [(a, n)]) = {x. colour_of (leave a n s') x = BLACK \<and> map_of cat x \<noteq> None}"
    using keys(2) a(1) by auto
  have nodes: "\<forall>(x, m) \<in> set (required s' @ [(a, n)]). map_of cat x = Some m" using keys(3) a(1) by simp
  have blacks: "\<forall>x. colour_of (leave a n s') x = BLACK \<longrightarrow> map_of cat x \<noteq> None" if "dfs_errors s' = []"
    using that inv a(1) by (auto simp: dfs_inv_def)
  have br: "broken nd cat" if "dfs_errors s' \<noteq> []" using that inv by (simp add: dfs_inv_def)
  have chain: "chain (leave a n s') = chain s" using ch by simp
  have sub: "distinct (chain s)" "set (chain s) \<subseteq> dom (map_of cat)" using d by auto
  show ?thesis
    unfolding dfs_inv_def chain req colour_of_simps(6)
    using sub g p dist black nodes nd first blacks br by blast
qed

lemma visited_all:
  assumes "\<And>a s. a \<in> set as \<Longrightarrow> dfs_inv nd cat s \<Longrightarrow> chain s = ch \<Longrightarrow> \<exists>s'. f a s = Some s' \<and> visited nd cat {a} s s'"
    and "dfs_inv nd cat s" and "chain s = ch"
  shows "\<exists>s'. visit_all f as s = Some s' \<and> visited nd cat (set as) s s'"
  using assms
proof (induction as arbitrary: s)
  case Nil
  then show ?case by (simp add: visited_def)
next
  case (Cons a as)
  from Cons.prems obtain s1 where s1: "f a s = Some s1" "visited nd cat {a} s s1" by force
  then have "dfs_inv nd cat s1" "chain s1 = ch" using Cons.prems(3) by (simp_all add: visited_def)
  with Cons.IH Cons.prems(1) obtain s2 where "visit_all f as s1 = Some s2" "visited nd cat (set as) s1 s2" by force
  with s1 visited_trans [of nd cat "{a}" s s1 "set as" s2] show ?case by simp
qed

lemma visit_correct:
  assumes "dfs_inv nd cat s" and "a \<in> nd" and "chain s = [] \<or> (last (chain s), a) \<in> depends cat"
    and "card (dom (map_of cat) - set (chain s)) < k" and closed: "depends cat `` nd \<subseteq> nd"
  shows "\<exists>s'. visit k cat a s = Some s' \<and> visited nd cat {a} s s'"
  using assms(1-4)
proof (induction k arbitrary: a s)
  case (Suc k)
  note inv = Suc.prems(1)
  show ?case
  proof (cases "colour_of s a")
    case BLACK
    with inv show ?thesis by (simp add: visited_def)
  next
    case GRAY
    then have "a \<in> set (chain s)" using inv by (auto simp: dfs_inv_def)
    then have "(a, a) \<in> (depends cat)\<^sup>+" using Suc.prems(3) chain_cycle inv by (auto simp: dfs_inv_def)
    with Suc.prems(2) have "broken nd cat" by (auto simp: broken_def)
    with GRAY inv show ?thesis by (auto simp: visited_def dfs_inv_def)
  next
    case WHITE
    show ?thesis
    proof (cases "map_of cat a")
      case None
      with Suc.prems(2) have "broken nd cat" by (auto simp: broken_def)
      with None WHITE inv Suc.prems(2) show ?thesis by (auto simp: visited_def dfs_inv_def)
    next
      case (Some n)
      have e: "dfs_inv nd cat (enter a s)" using inv WHITE Some Suc.prems(2,3) by (rule dfs_inv_enter)
      have "a \<notin> set (chain s)" using inv WHITE by (auto simp: dfs_inv_def)
      then have "dom (map_of cat) - set (chain s @ [a]) = dom (map_of cat) - set (chain s) - {a}"
        and mem: "a \<in> dom (map_of cat) - set (chain s)" using Some by auto
      then have fuel: "card (dom (map_of cat) - set (chain s @ [a])) < k"
        using Suc.prems(4) by (simp add: finite_dom_map_of card_Diff_singleton)
          (metis card_gt_0_iff empty_iff finite_Diff finite_dom_map_of Suc_pred less_Suc_eq_le Suc_le_eq mem)
      have deps: "(a, b) \<in> depends cat" if "b \<in> set (sorted_list_of_fset (dependency_ids n))" for b
        using that Some by (simp add: depends_def)
      have "\<exists>s'. visit_all (visit k cat) (sorted_list_of_fset (dependency_ids n)) (enter a s) = Some s'
          \<and> visited nd cat (set (sorted_list_of_fset (dependency_ids n))) (enter a s) s'"
      proof (rule visited_all [OF _ e])
        fix b s'
        assume b: "b \<in> set (sorted_list_of_fset (dependency_ids n))" and "dfs_inv nd cat s'" "chain s' = chain s @ [a]"
        moreover have "b \<in> nd" using deps [OF b] Suc.prems(2) closed by blast
        ultimately show "\<exists>s''. visit k cat b s' = Some s'' \<and> visited nd cat {b} s' s''"
          using Suc.IH [of s' b] deps [OF b] fuel by simp
      qed simp
      then obtain s' where s': "visit_all (visit k cat) (sorted_list_of_fset (dependency_ids n)) (enter a s) = Some s'"
        "visited nd cat (fset (dependency_ids n)) (enter a s) s'" by auto
      then have "dfs_inv nd cat (leave a n s')" using Some WHITE by (intro dfs_inv_leave) (auto simp: visited_def)
      with s' WHITE have "visited nd cat {a} s (leave a n s')" by (auto simp: visited_def)
      with s' WHITE Some show ?thesis by simp
    qed
  qed
qed simp

section \<open>Kahn's algorithm is correct\<close>

definition deps_in :: "(uuid, AppNode) dict \<Rightarrow> uuid \<Rightarrow> uuid set" where
  "deps_in req a = (case map_of req a of None \<Rightarrow> {} | Some n \<Rightarrow> fset (dependency_ids n))"

definition topological :: "(uuid \<Rightarrow> uuid set) \<Rightarrow> uuid list \<Rightarrow> bool" where
  "topological D ids \<longleftrightarrow> (\<forall>i < length ids. D (ids ! i) \<subseteq> set (take i ids))"

lemma topological_snoc: "topological D (ids @ [c]) \<longleftrightarrow> topological D ids \<and> D c \<subseteq> set ids"
  by (auto simp: topological_def nth_append less_Suc_eq)

lemma add_edges:
  assumes "distinct ds" and "\<forall>d \<in> set ds. map_of req d \<noteq> None" and "a \<in> fst ` set (indegree g)"
  shows "let g' = fold (\<lambda>dep g. if map_of req dep \<noteq> None then add_edge dep a g else g) ds g in
    dict_get (indegree g') x 0 = dict_get (indegree g) x 0 + (if x = a then int (length ds) else 0)
    \<and> dict_get (edges_out g') x [] = dict_get (edges_out g) x [] @ (if x \<in> set ds then [a] else [])
    \<and> map fst (indegree g') = map fst (indegree g)"
  using assms
proof (induction ds arbitrary: g)
  case (Cons d ds)
  have keys: "map fst (indegree (add_edge d a g)) = map fst (indegree g)"
    using Cons.prems(3) by (simp add: add_edge_def update_keys) 
  have "fst ` set (indegree (add_edge d a g)) = fst ` set (indegree g)" using arg_cong [OF keys, of set] by simp
  then have "a \<in> fst ` set (indegree (add_edge d a g))" using Cons.prems(3) by simp
  with Cons.IH [of "add_edge d a g"] Cons.prems keys show ?case by (auto simp: Let_def add_edge_def)
qed simp

lemma build_edges:
  assumes "distinct (map fst xs)" and "fst ` set xs \<subseteq> fst ` set (indegree g)"
    and "\<forall>(a, n) \<in> set xs. \<forall>d. d |\<in>| dependency_ids n \<longrightarrow> map_of req d \<noteq> None"
  shows "let g' = fold (add_deps req) xs g in
    dict_get (indegree g') x 0 = dict_get (indegree g) x 0 + int (card (deps_in xs x))
    \<and> dict_get (edges_out g') x [] = dict_get (edges_out g) x [] @ map fst (filter (\<lambda>(a, n). x |\<in>| dependency_ids n) xs)
    \<and> map fst (indegree g') = map fst (indegree g)"
  using assms
proof (induction xs arbitrary: g)
  case Nil
  show ?case by (simp add: deps_in_def)
next
  case (Cons an xs)
  obtain a n where an: "an = (a, n)" by (cases an)
  let ?ds = "sorted_list_of_fset (dependency_ids n)"
  define g1 where "g1 = add_deps req an g"
  have ds: "distinct ?ds" "set ?ds = fset (dependency_ids n)" "length ?ds = card (fset (dependency_ids n))"
    by (simp_all add: sorted_list_of_fset.rep_eq)
  have h: "\<forall>d \<in> set ?ds. map_of req d \<noteq> None" "a \<in> fst ` set (indegree g)" using Cons.prems an ds(2) by auto
  have e: "dict_get (indegree g1) y 0 = dict_get (indegree g) y 0 + (if y = a then int (card (fset (dependency_ids n))) else 0)"
    "dict_get (edges_out g1) y [] = dict_get (edges_out g) y [] @ (if y |\<in>| dependency_ids n then [a] else [])"
    "map fst (indegree g1) = map fst (indegree g)" for y
    using add_edges [OF ds(1) h, of y] unfolding g1_def add_deps_def Let_def an fst_conv snd_conv ds(2,3) by blast+
  have "fst ` set (indegree g1) = fst ` set (indegree g)" using arg_cong [OF e(3), of set] by simp
  then have IH: "let g' = fold (add_deps req) xs g1 in
    dict_get (indegree g') x 0 = dict_get (indegree g1) x 0 + int (card (deps_in xs x))
    \<and> dict_get (edges_out g') x [] = dict_get (edges_out g1) x [] @ map fst (filter (\<lambda>(a, n). x |\<in>| dependency_ids n) xs)
    \<and> map fst (indegree g') = map fst (indegree g1)"
    using Cons.prems an by (intro Cons.IH) auto
  have "map_of xs a = None" using Cons.prems(1) an by (auto simp: map_of_eq_None_iff)
  then have "int (card (deps_in (an # xs) x)) = (if x = a then int (card (fset (dependency_ids n))) else 0) + int (card (deps_in xs x))"
    by (simp add: deps_in_def an)
  with IH e show ?case by (auto simp: an g1_def [symmetric, unfolded an] Let_def)
qed

lemma deps_first_closed:
  assumes "deps_first req" and "distinct (map fst req)" and "(a, n) \<in> set req"
  shows "fset (dependency_ids n) \<subseteq> fst ` set req"
proof -
  from assms(3) obtain i where i: "i < length req" "req ! i = (a, n)" by (auto simp: in_set_conv_nth)
  with assms(1) have "fset (dependency_ids (snd (req ! i))) \<subseteq> fst ` set (take i req)" unfolding deps_first_def by blast
  with i(2) show ?thesis by (auto dest: in_set_takeD)
qed

lemma build_graph_correct:
  assumes "deps_first req" and "distinct (map fst req)"
  shows "a \<in> fst ` set req \<Longrightarrow> dict_get (indegree (build_graph req)) a 0 = int (card (deps_in req a))"
    and "distinct (dict_get (edges_out (build_graph req)) d [])"
    and "set (dict_get (edges_out (build_graph req)) d []) = {a \<in> fst ` set req. d \<in> deps_in req a}"
    and "map fst (indegree (build_graph req)) = map fst req"
proof -
  let ?g = "\<lparr>indegree = map (\<lambda>(a, n). (a, 0 :: int)) req, edges_out = map (\<lambda>(a, n). (a, [] :: uuid list)) req\<rparr>"
  have keys: "map fst (map (\<lambda>(a, n). (a, v)) req) = map fst req" for v :: 'v by (simp add: comp_def case_prod_beta)
  have zero: "dict_get (map (\<lambda>(a, n). (a, v)) req) x v = v" for x and v :: 'v
    by (induction req) (auto simp: dict_get_def)
  have closed: "\<forall>(a, n) \<in> set req. \<forall>d. d |\<in>| dependency_ids n \<longrightarrow> map_of req d \<noteq> None"
    using deps_first_closed [OF assms] by (auto simp: map_of_eq_None_iff)
  have "fst ` set req \<subseteq> fst ` set (indegree ?g)" using keys by (force simp: image_image)
  note built = build_edges [OF assms(2) this closed, of _, folded build_graph_def, unfolded Let_def]
  show "dict_get (indegree (build_graph req)) a 0 = int (card (deps_in req a))"
    using built [of a] by (simp add: zero)
  have out: "dict_get (edges_out (build_graph req)) d [] = map fst (filter (\<lambda>(a, n). d |\<in>| dependency_ids n) req)"
    using built [of d] by (simp add: zero)
  show "distinct (dict_get (edges_out (build_graph req)) d [])"
    unfolding out using assms(2) by (simp add: distinct_map_filter)
  have look: "map_of req a = Some n" if "(a, n) \<in> set req" for a n using that assms(2) by simp
  show "set (dict_get (edges_out (build_graph req)) d []) = {a \<in> fst ` set req. d \<in> deps_in req a}"
    unfolding out by (auto simp: deps_in_def look image_iff split: option.splits dest: map_of_SomeD)
      (metis look option.inject)
  show "map fst (indegree (build_graph req)) = map fst req" using built [of a] keys by simp
qed

lemma release_correct:
  "distinct ds \<Longrightarrow> release ds indeg ready = (indeg', ready') \<Longrightarrow>
     (\<forall>x. dict_get indeg' x 0 = dict_get indeg x 0 - (if x \<in> set ds then 1 else 0))
     \<and> ready' = ready @ filter (\<lambda>d. dict_get indeg d 0 = 1) ds"
proof (induction ds arbitrary: indeg ready)
  case (Cons d ds)
  let ?v = "dict_get indeg d 0 - 1"
  have same: "filter (\<lambda>x. dict_get (AList.update d ?v indeg) x 0 = 1) ds = filter (\<lambda>x. dict_get indeg x 0 = 1) ds"
    using Cons.prems(1) by (intro filter_cong) auto
  have "release ds (AList.update d ?v indeg) (if ?v = 0 then ready @ [d] else ready) = (indeg', ready')"
    using Cons.prems(2) by (simp add: Let_def)
  from Cons.IH [OF _ this, unfolded same] Cons.prems(1) show ?case by auto
qed simp

definition kahn_inv :: "uuid set \<Rightarrow> (uuid \<Rightarrow> uuid set) \<Rightarrow> (uuid, int) dict \<Rightarrow> uuid list \<Rightarrow> uuid list \<Rightarrow> bool" where
  "kahn_inv R D indeg ready ordered \<longleftrightarrow>
     distinct (ordered @ ready) \<and> set (ordered @ ready) \<subseteq> R \<and> topological D ordered
     \<and> (\<forall>a \<in> R. dict_get indeg a 0 = int (card (D a - set ordered)))
     \<and> (\<forall>a \<in> R. D a \<subseteq> set ordered \<longleftrightarrow> a \<in> set ordered \<union> set ready)"

lemma kahn_inv_sort: "kahn_inv R D indeg ready ordered \<Longrightarrow> kahn_inv R D indeg (sort_key f ready) ordered"
  by (simp add: kahn_inv_def)

lemma card_minus_insert: "finite A \<Longrightarrow> c \<notin> B \<Longrightarrow> int (card (A - insert c B)) = int (card (A - B)) - (if c \<in> A then 1 else 0)"
proof (cases "c \<in> A")
  case True
  assume "finite A" "c \<notin> B"
  then have eq: "A - B = insert c (A - insert c B)" using True by auto
  have "card (insert c (A - insert c B)) = Suc (card (A - insert c B))" using \<open>finite A\<close> by simp
  then have "card (A - B) = Suc (card (A - insert c B))" by (subst eq)
  with True show ?thesis by simp
next
  case False
  then have "A - insert c B = A - B" by auto
  with False show ?thesis by simp
qed

lemma card_one_left: "finite A \<Longrightarrow> c \<in> A \<Longrightarrow> c \<notin> B \<Longrightarrow> int (card (A - B)) = 1 \<longleftrightarrow> A \<subseteq> insert c B"
proof -
  assume A: "finite A" "c \<in> A" "c \<notin> B"
  have "int (card (A - insert c B)) = int (card (A - B)) - 1" using card_minus_insert [OF A(1,3)] A(2) by simp
  then have "int (card (A - B)) = 1 \<longleftrightarrow> card (A - insert c B) = 0" by linarith
  with A(1) show ?thesis by auto
qed

lemma kahn_inv_step:
  assumes inv: "kahn_inv R D indeg (c # ready) ordered" and fin: "\<And>a. finite (D a)"
    and ds: "distinct ds" "set ds = {a \<in> R. c \<in> D a}" and rel: "release ds indeg ready = (indeg', ready')"
  shows "kahn_inv R D indeg' ready' (ordered @ [c])"
proof -
  note I = inv [unfolded kahn_inv_def]
  have r: "\<And>x. dict_get indeg' x 0 = dict_get indeg x 0 - (if x \<in> set ds then 1 else 0)"
    "ready' = ready @ filter (\<lambda>d. dict_get indeg d 0 = 1) ds"
    using release_correct [OF ds(1) rel] by auto
  have c: "c \<in> R" "c \<notin> set ordered" "D c \<subseteq> set ordered" using I by auto
  have released: "x \<in> set ready' \<longleftrightarrow> x \<in> set ready \<or> (x \<in> R \<and> c \<in> D x \<and> D x \<subseteq> insert c (set ordered))" for x
    using I ds(2) card_one_left [OF fin, of c x "set ordered"] c(2) by (auto simp: r(2))
  have new: "x \<notin> set ordered \<union> set (c # ready)" if "x \<in> R" "c \<in> D x" for x
    using that I c(2) by blast
  have "distinct (ordered @ [c] @ ready')"
    using I ds new by (auto simp: r(2))
  moreover have "set (ordered @ [c] @ ready') \<subseteq> R" using I c(1) ds(2) by (auto simp: r(2))
  moreover have "topological D (ordered @ [c])" using I c(3) by (simp add: topological_snoc)
  moreover have "dict_get indeg' a 0 = int (card (D a - set (ordered @ [c])))" if a: "a \<in> R" for a
  proof -
    have "int (card (D a - set (ordered @ [c]))) = int (card (D a - set ordered)) - (if c \<in> D a then 1 else 0)"
      using card_minus_insert [OF fin c(2), of a] by simp
    moreover have "dict_get indeg a 0 = int (card (D a - set ordered))" using I a by blast
    ultimately show ?thesis using a ds(2) by (simp add: r(1))
  qed
  moreover have "D a \<subseteq> set (ordered @ [c]) \<longleftrightarrow> a \<in> set (ordered @ [c]) \<union> set ready'" if a: "a \<in> R" for a
  proof (cases "c \<in> D a")
    case True
    then show ?thesis using new [OF a True] a released [of a] by auto
  next
    case False
    then have "D a \<subseteq> set (ordered @ [c]) \<longleftrightarrow> D a \<subseteq> set ordered" by auto
    also have "\<dots> \<longleftrightarrow> a \<in> set ordered \<union> set (c # ready)" using I a by blast
    finally show ?thesis using False released [of a] by auto
  qed
  ultimately show ?thesis by (simp add: kahn_inv_def)
qed

lemma kahn_correct:
  assumes fin: "\<And>a. finite (D a)" and out: "\<And>d. distinct (dict_get out d []) \<and> set (dict_get out d []) = {a \<in> R. d \<in> D a}"
    and "finite R" and "kahn_inv R D indeg ready ordered" and "card R \<le> length ordered + fuel"
  shows "\<exists>ids indeg'. kahn fuel req out indeg ready ordered = Some ids \<and> kahn_inv R D indeg' [] ids"
  using assms(2,4,5)
proof (induction fuel req out indeg ready ordered rule: kahn.induct)
  case (2 req out indeg c ready ordered)
  then have "length (ordered @ c # ready) \<le> card R" using \<open>finite R\<close>
    by (metis card_mono distinct_card kahn_inv_def)
  with 2 show ?case by simp
next
  case (3 fuel req out indeg c ready ordered)
  obtain indeg' ready' where r: "release (dict_get out c []) indeg ready = (indeg', ready')" by fastforce
  have "kahn_inv R D indeg' ready' (ordered @ [c])" using "3.prems"(1) [of c] by (intro kahn_inv_step [OF "3.prems"(2) fin _ _ r]) auto
  then have "kahn_inv R D indeg' (sort_key (name_of req) ready') (ordered @ [c])" by (rule kahn_inv_sort)
  with 3 r show ?case by simp
qed auto

lemma kahn_complete:
  assumes "kahn_inv (fst ` set req) (deps_in req) indeg [] ids" and "deps_first req" and "distinct (map fst req)"
  shows "set ids = fst ` set req"
proof -
  have "fst ` set (take i req) \<subseteq> set ids" if "i \<le> length req" for i
    using that
  proof (induction i)
    case (Suc i)
    let ?a = "fst (req ! i)"
    have mem: "req ! i \<in> set req" using Suc.prems by simp
    have "map_of req ?a = Some (snd (req ! i))" using mem assms(3) by (simp add: map_of_is_SomeI)
    then have "deps_in req ?a = fset (dependency_ids (snd (req ! i)))" by (simp add: deps_in_def)
    also have "\<dots> \<subseteq> fst ` set (take i req)" using assms(2) Suc.prems by (simp add: deps_first_def)
    finally have "deps_in req ?a \<subseteq> set ids" using Suc by auto
    moreover have "?a \<in> fst ` set req" using mem by blast
    moreover have "\<forall>a \<in> fst ` set req. deps_in req a \<subseteq> set ids \<longleftrightarrow> a \<in> set ids \<union> set []"
      using assms(1) unfolding kahn_inv_def by blast
    ultimately have "?a \<in> set ids" by (metis Un_empty_right empty_set)
    with Suc show ?case by (simp add: take_Suc_conv_app_nth)
  qed simp
  from this [of "length req"] show ?thesis using assms(1) by (auto simp: kahn_inv_def)
qed

lemma install_order_correct:
  assumes "deps_first req" and "distinct (map fst req)"
  shows "\<exists>ids. install_order req = Some ids \<and> distinct ids \<and> set ids = fst ` set req \<and> topological (deps_in req) ids"
proof -
  let ?g = "build_graph req" and ?R = "fst ` set req"
  note g = build_graph_correct [OF assms]
  have fin: "finite (deps_in req a)" for a by (simp add: deps_in_def split: option.split)
  have dist: "distinct (map fst (indegree ?g))" using g(4) assms(2) by simp
  have R: "fst ` set (indegree ?g) = ?R" using arg_cong [OF g(4), of set] by simp
  have val: "d = dict_get (indegree ?g) a 0" if "(a, d) \<in> set (indegree ?g)" for a d
    using that dist by (simp add: dict_get_def)
  have ready: "set (initial_ready req ?g) = {a \<in> ?R. deps_in req a = {}}"
  proof -
    have "set (initial_ready req ?g) = {a \<in> ?R. dict_get (indegree ?g) a 0 = 0}"
      unfolding initial_ready_def R [symmetric] using val by (force simp: image_iff)
    moreover have "dict_get (indegree ?g) a 0 = 0 \<longleftrightarrow> deps_in req a = {}" if "a \<in> ?R" for a
      using g(1) [OF that] fin [of a] by simp
    ultimately show ?thesis by blast
  qed
  have "distinct (initial_ready req ?g)" unfolding initial_ready_def using dist by (simp add: distinct_map_filter)
  with ready g(1) have inv: "kahn_inv ?R (deps_in req) (indegree ?g) (initial_ready req ?g) []"
    by (auto simp: kahn_inv_def topological_def)
  have "card ?R \<le> length [] + length req" by (simp add: card_image_le [THEN order_trans] card_length)
  from kahn_correct [OF fin _ _ inv this, of "edges_out ?g" req] g(2,3) obtain ids indeg' where
    k: "install_order req = Some ids" "kahn_inv ?R (deps_in req) indeg' [] ids" by (auto simp: install_order_def Let_def)
  with kahn_complete [OF k(2) assms] show ?thesis by (auto simp: kahn_inv_def)
qed

section \<open>Resolution\<close>

lemma needed_closed: "depends cat `` needed selected cat \<subseteq> needed selected cat" "set selected \<subseteq> needed selected cat"
  by (auto simp: needed_def intro: rtrancl_into_rtrancl)

lemma search_correct:
  "\<exists>s. visit_all (visit (Suc (length cat)) cat) selected start_state = Some s
     \<and> visited (needed selected cat) cat (set selected) start_state s"
proof (rule visited_all [where ch = "[]"])
  have "card (dom (map_of cat)) \<le> length cat"
    by (metis card_image_le card_length dom_map_of_conv_image_fst finite_set le_trans)
  then have fuel: "card (dom (map_of cat) - set []) < Suc (length cat)" by simp
  fix a s
  assume a: "a \<in> set selected" "dfs_inv (needed selected cat) cat s" and ch: "chain s = []"
  show "\<exists>s'. visit (Suc (length cat)) cat a s = Some s' \<and> visited (needed selected cat) cat {a} s s'"
  proof (rule visit_correct [OF a(2)])
    show "a \<in> needed selected cat" using a(1) needed_closed(2) by blast
    show "card (dom (map_of cat) - set (chain s)) < Suc (length cat)" using fuel by (simp add: ch)
  qed (simp_all add: ch needed_closed(1))
next
  show "dfs_inv (needed selected cat) cat start_state"
    by (simp add: dfs_inv_def start_state_def colour_of_def dict_get_def path_ok_def)
qed (simp add: start_state_def)

lemma deps_first_step:
  assumes "deps_first req" and nodes: "\<forall>(a, n) \<in> set req. map_of cat a = Some n"
    and i: "i < length req" and dep: "(fst (req ! i), c) \<in> depends cat"
  shows "\<exists>j < i. c = fst (req ! j)"
proof -
  have "(fst (req ! i), snd (req ! i)) \<in> set req" using i by simp
  with nodes have "map_of cat (fst (req ! i)) = Some (snd (req ! i))" by blast
  with dep have "c \<in> fset (dependency_ids (snd (req ! i)))" by (auto simp: depends_def)
  moreover have "fset (dependency_ids (snd (req ! i))) \<subseteq> fst ` set (take i req)" using assms(1) i by (simp add: deps_first_def)
  ultimately have "c \<in> fst ` set (take i req)" by blast
  then show ?thesis using i by (auto simp: in_set_conv_nth) (metis fst_conv)
qed

lemma deps_first_descends:
  assumes "deps_first req" and "\<forall>(a, n) \<in> set req. map_of cat a = Some n" and "i < length req"
  shows "(fst (req ! i), b) \<in> (depends cat)\<^sup>+ \<Longrightarrow> \<exists>j < i. b = fst (req ! j)"
proof (induction rule: trancl_induct)
  case (base b)
  show ?case by (rule deps_first_step [OF assms base])
next
  case (step b c)
  then obtain j where j: "j < i" "b = fst (req ! j)" by blast
  with deps_first_step [OF assms(1,2), of j c] step.hyps(2) assms(3) show ?case by (metis less_trans)
qed

lemma keys_are_needed:
  assumes inv: "dfs_inv (needed selected cat) cat s" and "dfs_errors s = []" and sel: "\<forall>a \<in> set selected. colour_of s a = BLACK"
  shows "fst ` set (required s) = needed selected cat"
proof
  have "{a. colour_of s a \<noteq> WHITE} \<subseteq> needed selected cat"
    "fst ` set (required s) = {a. colour_of s a = BLACK \<and> map_of cat a \<noteq> None}" using inv unfolding dfs_inv_def by blast+
  moreover have "{a. colour_of s a = BLACK \<and> map_of cat a \<noteq> None} \<subseteq> {a. colour_of s a \<noteq> WHITE}" by auto
  ultimately show "fst ` set (required s) \<subseteq> needed selected cat" by simp
  have first: "deps_first (required s)" "distinct (map fst (required s))" "\<forall>(a, n) \<in> set (required s). map_of cat a = Some n"
    using inv assms(2) by (simp_all add: dfs_inv_def)
  have "b \<in> fst ` set (required s)" if "(a, b) \<in> (depends cat)\<^sup>*" "a \<in> fst ` set (required s)" for a b
    using that
  proof (induction rule: rtrancl_induct)
    case (step b c)
    then obtain n where "(b, n) \<in> set (required s)" by auto
    with first(3) have "map_of cat b = Some n" by auto
    with step(2) have "c \<in> fset (dependency_ids n)" by (auto simp: depends_def)
    with deps_first_closed [OF first(1,2) \<open>(b, n) \<in> set (required s)\<close>] show ?case by blast
  qed
  moreover have "set selected \<subseteq> fst ` set (required s)" using inv assms(2) sel by (auto simp: dfs_inv_def)
  ultimately show "needed selected cat \<subseteq> fst ` set (required s)" unfolding needed_def by blast
qed

lemma required_acyclic:
  assumes "deps_first req" and "distinct (map fst req)" and "\<forall>(a, n) \<in> set req. map_of cat a = Some n" and "a \<in> fst ` set req"
  shows "(a, a) \<notin> (depends cat)\<^sup>+"
proof
  assume cyc: "(a, a) \<in> (depends cat)\<^sup>+"
  from assms(4) have "a \<in> set (map fst req)" by simp
  then obtain i where i: "i < length req" "a = fst (req ! i)" by (auto simp only: in_set_conv_nth length_map nth_map)
  from cyc have "(fst (req ! i), a) \<in> (depends cat)\<^sup>+" unfolding i(2) .
  then obtain j where j: "j < i" "a = fst (req ! j)" using deps_first_descends [OF assms(1,3) i(1)] by blast
  then have "map fst req ! j = map fst req ! i" using i by simp
  with j i assms(2) show False by (simp add: nth_eq_iff_index_eq del: nth_map)
qed

lemma disabled_errors_Nil: "disabled_errors req = [] \<longleftrightarrow> (\<forall>(a, n) \<in> set req. node_enabled n)"
  by (auto simp: disabled_errors_def filter_empty_conv)

lemma installable_iff:
  assumes inv: "dfs_inv (needed selected cat) cat s"
    and sel: "dfs_errors s = [] \<Longrightarrow> \<forall>a \<in> set selected. colour_of s a = BLACK"
  shows "installable selected cat \<longleftrightarrow> dfs_errors s @ disabled_errors (required s) = []"
proof (cases "dfs_errors s = []")
  case False
  then have "broken (needed selected cat) cat" using inv by (simp add: dfs_inv_def)
  then have "\<not> installable selected cat" unfolding broken_def installable_def by (metis (no_types, lifting) option.simps(4))
  with False show ?thesis by simp
next
  case True
  have first: "deps_first (required s)" "distinct (map fst (required s))" "\<forall>(a, n) \<in> set (required s). map_of cat a = Some n"
    using inv True by (simp_all add: dfs_inv_def)
  have keys: "needed selected cat = fst ` set (required s)" using keys_are_needed [OF inv True sel [OF True]] by simp
  have "installable selected cat \<longleftrightarrow> (\<forall>(a, n) \<in> set (required s). node_enabled n)"
    unfolding installable_def keys using first(3) required_acyclic [OF first] by fastforce
  with True show ?thesis by (simp add: disabled_errors_Nil)
qed

section \<open>Property\<close>

lemma resolve_install_order_spec:
  "case resolve_install_order selected cat of
     None \<Rightarrow> False
   | Some (ordered, errors) \<Rightarrow>
       if installable selected cat
       then errors = [] \<and> (\<exists>ids. ordered = map (\<lambda>a. the (map_of cat a)) ids \<and> distinct ids
              \<and> set ids = needed selected cat \<and> topological (deps_in cat) ids)
       else errors \<noteq> [] \<and> ordered = []"
proof -
  obtain s where s: "visit_all (visit (Suc (length cat)) cat) selected start_state = Some s"
    and v: "visited (needed selected cat) cat (set selected) start_state s" using search_correct by blast
  have inv: "dfs_inv (needed selected cat) cat s" and sel: "dfs_errors s = [] \<Longrightarrow> \<forall>a \<in> set selected. colour_of s a = BLACK"
    using v by (simp_all add: visited_def)
  note iff = installable_iff [OF inv sel]
  show ?thesis
  proof (cases "dfs_errors s @ disabled_errors (required s) = []")
    case False
    then have "\<not> installable selected cat" using iff by blast
    with False s show ?thesis by (simp add: resolve_install_order_def Let_def del: visit.simps)
  next
    case True
    have first: "deps_first (required s)" "distinct (map fst (required s))" and nodes: "\<forall>(a, n) \<in> set (required s). map_of cat a = Some n"
      using inv True by (simp_all add: dfs_inv_def)
    have same: "map_of (required s) a = map_of cat a" if "a \<in> fst ` set (required s)" for a
      using that nodes first(2) by (auto simp: image_iff)
    have keys: "fst ` set (required s) = needed selected cat" using True by (intro keys_are_needed [OF inv _ sel]) simp_all
    obtain ids where ids: "install_order (required s) = Some ids" "distinct ids" "set ids = fst ` set (required s)"
      "topological (deps_in (required s)) ids" using install_order_correct [OF first] by blast
    have len: "length ids = length (required s)" by (metis distinct_card first(2) ids(2,3) length_map set_map)
    have D: "deps_in (required s) a = deps_in cat a" if "a \<in> set ids" for a using that same ids(3) by (simp add: deps_in_def)
    have "topological (deps_in cat) ids" using ids(4) D by (simp add: topological_def)
    moreover have "map (\<lambda>a. the (map_of (required s) a)) ids = map (\<lambda>a. the (map_of cat a)) ids" using same ids(3) by simp
    ultimately have "\<exists>is. map (\<lambda>a. the (map_of (required s) a)) ids = map (\<lambda>a. the (map_of cat a)) is \<and> distinct is
        \<and> set is = needed selected cat \<and> topological (deps_in cat) is" using ids(2,3) keys by blast
    then show ?thesis using s True len ids(1) iff by (simp add: resolve_install_order_def Let_def del: visit.simps)
  qed
qed

text \<open>
  C5. Resolution always ends with a result. The selection is rejected, with at least one error and no order, exactly
  when something it needs, directly or through dependencies, is missing from the catalog, disabled or part of a
  dependency cycle; otherwise the result lists every needed application exactly once, and each one after everything
  it depends on.
\<close>

theorem resolve_install_order_correct:
  "case resolve_install_order selected cat of
     None \<Rightarrow> False
   | Some (ordered, errors) \<Rightarrow>
       if installable selected cat
       then errors = [] \<and> (\<exists>ids. ordered = map (\<lambda>a. the (map_of cat a)) ids \<and> distinct ids
              \<and> set ids = needed selected cat \<and> topological (deps_in cat) ids)
       else errors \<noteq> [] \<and> ordered = []"
  by (rule resolve_install_order_spec)

lemma resolved_installable:
  assumes "resolve_install_order selected cat = Some (ordered, [])"
  shows "installable selected cat"
  using resolve_install_order_spec [of selected cat] assms by (auto split: if_splits)

end
