(* ===== verification/App_Installer.thy ===== *)
theory App_Installer
  imports Detection_Rules Dependency_Resolver
begin

text \<open>
  Idempotent installation of one application (\<^verbatim>\<open>services/applications/installer.py\<close>): detection, the
  installer command, and the outcome of an installation. The state is the guest's and the failure counter.
  An exception other than a deliberate error leaves \<^verbatim>\<open>install\<close>; every temporary script gets the next of
  the random tokens.
\<close>

section \<open>Commands\<close>

record ApplicationDefinition =
  app_id :: uuid
  app_name :: string
  installer_type :: InstallerType
  installer_path :: string
  install_arguments :: string
  detection_method :: DetectionMethod
  detection_config :: "(string, string) dict"
  timeout_seconds :: int
  app_reboot_required :: bool

text \<open>The catalog row, with the identifiers of its dependencies.\<close>

record Application =
  appl_id :: uuid
  appl_name :: string
  appl_installer_type :: InstallerType
  appl_installer_path :: string
  appl_install_arguments :: string
  appl_detection_method :: DetectionMethod
  appl_detection_config :: "(string, string) dict"
  appl_timeout_seconds :: int
  appl_reboot_required :: bool
  appl_enabled :: bool
  appl_depends_on :: "uuid list"

record InstallOutcome =
  outcome_app_id :: uuid
  outcome_name :: string
  install_status :: string
  install_output :: string
  outcome_reboot_required :: bool

definition MSI_REBOOT_EXIT_CODE :: int where
  "MSI_REBOOT_EXIT_CODE = 3010"

definition infra_error :: "string \<Rightarrow> string \<Rightarrow> string \<Rightarrow> string \<Rightarrow> bool \<Rightarrow> InfraOperationError" where
  "infra_error human why action detail again =
     \<lparr>human_message = human, reason = why, recommended_action = action, technical_detail = detail, retryable = again\<rparr>"

definition sanitize_arguments :: "string \<Rightarrow> InfraOperationError + string" where
  "sanitize_arguments args =
     (if list_ex control_char args
      then Inl (infra_error ''An application definition contains invalid control characters.''
             ''Installer arguments include control characters.''
             ''Ask an administrator to correct the application definition.'' (''arguments='' @ py_repr args) False)
      else Inr (strip args))"

definition build_install_program :: "ApplicationDefinition \<Rightarrow> InfraOperationError + string \<times> string" where
  "build_install_program app =
     (case sanitize_arguments (install_arguments app) of
        Inl e \<Rightarrow> Inl e
      | Inr args \<Rightarrow>
          (case validate_installer_path (installer_path app) (Some (installer_type app)) of
             Inl msg \<Rightarrow> Inl (infra_error ''An application definition has an invalid installer path.'' msg
                 ''Ask an administrator to correct the application definition.''
                 (''installer_path='' @ py_repr (installer_path app)) False)
           | Inr path \<Rightarrow>
               Inr (case installer_type app of
                 MSI \<Rightarrow> (MSIEXEC_PATH, ''/i '' @ dquoted path @ (if args \<noteq> [] then '' '' @ args else []) @ '' /qn /norestart'')
               | EXE \<Rightarrow> (path, args)
               | POWERSHELL \<Rightarrow> (POWERSHELL_PATH,
                   rstrip_chars is_space (''-NoProfile -ExecutionPolicy Bypass -File '' @ dquoted path @ '' '' @ args)))))"

section \<open>Detection and installation\<close>

fun probe_all ::
  "'g guest_ops \<Rightarrow> (nat \<Rightarrow> string) \<Rightarrow> nat \<Rightarrow> ApplicationDefinition \<Rightarrow> GuestCommand list \<Rightarrow> 'g \<Rightarrow> (guest_error + bool) \<times> 'g" where
  "probe_all ops tokens k app [] g = (Inr False, g)"
| "probe_all ops tokens k app (p # ps) g =
     (case run_command ops (tokens k) p (of_int (min (timeout_seconds app) 300)) g of
        (Inl e, g') \<Rightarrow> (Inl e, g')
      | (Inr r, g') \<Rightarrow>
          if exit_code r = 0 then (Inr True, g')
          else if exit_code r \<in> DETECTION_ABSENT_EXIT_CODES then probe_all ops tokens (Suc k) app ps g'
          else (Inl (Infra (infra_error (''Detection for '' @ squoted (app_name app) @ '' could not run inside the guest.'')
                  (squoted (display p) @ '' exited with unexpected code '' @ int_text (exit_code r) @ ''.'')
                  ''Inspect the stage output and retry application installation.''
                  (last_chars 1500 (stdout r @ stderr r)) True)), g'))"

definition detect ::
  "'g guest_ops \<Rightarrow> (nat \<Rightarrow> string) \<Rightarrow> ApplicationDefinition \<Rightarrow> 'g \<Rightarrow> (guest_error + bool) \<times> 'g" where
  "detect ops tokens app g =
     (case detection_programs (detection_method app) (detection_config app) of
        None \<Rightarrow> (Inl (Other ''KeyError''), g)
      | Some probes \<Rightarrow> probe_all ops tokens 0 app probes g)"

definition outcome_of :: "ApplicationDefinition \<Rightarrow> string \<Rightarrow> string \<Rightarrow> bool \<Rightarrow> InstallOutcome" where
  "outcome_of app st out reboot =
     \<lparr>outcome_app_id = app_id app, outcome_name = app_name app, install_status = st, install_output = out,
      outcome_reboot_required = reboot\<rparr>"

definition count_failure :: "ApplicationDefinition \<Rightarrow> Counter \<Rightarrow> Counter" where
  "count_failure app c = inc 1 [(''application'', app_name app)] c"

definition failed_install :: "ApplicationDefinition \<Rightarrow> string \<Rightarrow> Counter \<Rightarrow> InstallOutcome \<times> Counter" where
  "failed_install app out c = (outcome_of app ''FAILED'' out False, count_failure app c)"

text \<open>Only a deliberate error becomes a failed outcome.\<close>

definition install ::
  "'g guest_ops \<Rightarrow> (nat \<Rightarrow> string) \<Rightarrow> ApplicationDefinition \<Rightarrow> Counter \<Rightarrow> 'g \<Rightarrow> (string + InstallOutcome \<times> Counter) \<times> 'g" where
  "install ops tokens app c g =
     (case detect ops tokens app g of
        (Inl (Other e), g') \<Rightarrow> (Inl e, g')
      | (Inl (Infra e), g') \<Rightarrow> (Inr (failed_install app (error_report e) c), g')
      | (Inr True, g') \<Rightarrow>
          (Inr (outcome_of app ''ALREADY_INSTALLED'' ''Detection matched - installation skipped (idempotent).'' False, c), g')
      | (Inr False, g') \<Rightarrow>
          (case build_install_program app of
             Inl e \<Rightarrow> (Inr (failed_install app (error_report e) c), g')
           | Inr (prog, args) \<Rightarrow>
               (case run_program ops prog args (of_int (timeout_seconds app)) g' of
                  (Inl (Other e), g'') \<Rightarrow> (Inl e, g'')
                | (Inl (Infra e), g'') \<Rightarrow> (Inr (failed_install app (error_report e) c), g'')
                | (Inr r, g'') \<Rightarrow>
                    if exit_code r = 0
                    then (Inr (outcome_of app ''INSTALLED'' (last_chars 4000 (stdout r)) (app_reboot_required app), c), g'')
                    else if installer_type app = MSI \<and> exit_code r = MSI_REBOOT_EXIT_CODE
                    then (Inr (outcome_of app ''REBOOT_REQUIRED'' (last_chars 4000 (stdout r)) True, c), g'')
                    else (Inr (failed_install app
                           (strip (''exit='' @ int_text (exit_code r) @ [CHR 0x0A] @ last_chars 3000 (stdout r) @ [CHR 0x0A]
                              @ last_chars 1000 (stderr r))) c), g''))))"

section \<open>Properties\<close>

text \<open>
  An installation that is already present is never run again: when detection finds the application, the guest is
  exactly as detection left it, and otherwise the installer is started at most once, with the command built for it. The
  failure counter grows exactly for failed outcomes.
\<close>

theorem install_is_idempotent:
  "case install ops tokens app c g of
     (Inl e, g') \<Rightarrow> True
   | (Inr (oc, c'), g') \<Rightarrow>
       (c' = (if install_status oc = ''FAILED'' then count_failure app c else c))
       \<and> (install_status oc = ''ALREADY_INSTALLED'') = (fst (detect ops tokens app g) = Inr True)
       \<and> (g' = snd (detect ops tokens app g)
           \<or> (\<exists>prog args. build_install_program app = Inr (prog, args) \<and> fst (detect ops tokens app g) = Inr False
                \<and> g' = snd (run_program ops prog args (of_int (timeout_seconds app)) (snd (detect ops tokens app g)))))"
proof -
  obtain d g1 where d: "detect ops tokens app g = (d, g1)" by fastforce
  note o = outcome_of_def failed_install_def
  show ?thesis
  proof (cases "d = Inr False \<and> is_ok (build_install_program app)")
    case False
    then show ?thesis
      by (cases "build_install_program app")
        (auto simp: install_def d o split: sum.splits guest_error.splits bool.splits)
  next
    case True
    then obtain prog args where b: "build_install_program app = Inr (prog, args)" by (cases "build_install_program app") auto
    obtain r g2 where r: "run_program ops prog args (of_int (timeout_seconds app)) g1 = (r, g2)" by fastforce
    show ?thesis using True b r
      by (cases r) (auto simp: install_def d o split: guest_error.splits)
  qed
qed

end
