(* ===== verification/Certificates.thy ===== *)
theory Certificates
  imports Infrastructure "HOL-Library.Product_Lexorder"
begin

text \<open>
  Certificate deployment into a guest (\<^verbatim>\<open>services/certificates/store_logic.py\<close>, \<^verbatim>\<open>services/certificates/deployer.py\<close>): the
  commands, and the sequence expiry check, probe, upload, import, delete, probe of one certificate. A date is its year, month
  and day; every temporary script gets one of the random tokens. Parsing X.509 is the work of a library and not modelled.
\<close>

section \<open>Commands\<close>

datatype CertificateType = CERT_ROOT | CERT_INTERMEDIATE

datatype CertificateStore = STORE_ROOT | STORE_CA

fun store_value :: "CertificateStore \<Rightarrow> string" where
  "store_value STORE_ROOT = ''Root''"
| "store_value STORE_CA = ''CA''"

fun STORE_FOR_TYPE :: "CertificateType \<Rightarrow> CertificateStore" where
  "STORE_FOR_TYPE CERT_ROOT = STORE_ROOT"
| "STORE_FOR_TYPE CERT_INTERMEDIATE = STORE_CA"

definition CERTUTIL_PATH :: string where
  "CERTUTIL_PATH = win_path [''C:'', ''Windows'', ''System32'', ''certutil.exe'']"

type_synonym date = "nat \<times> nat \<times> nat"

definition padded :: "nat \<Rightarrow> nat \<Rightarrow> string" where
  "padded width n = replicate (width - length (nat_text n)) (CHR ''0'') @ nat_text n"

definition date_text :: "date \<Rightarrow> string" where
  "date_text d = (case d of (y, m, dd) \<Rightarrow> padded 4 y @ ''-'' @ padded 2 m @ ''-'' @ padded 2 dd)"

definition is_expired :: "date option \<Rightarrow> date \<Rightarrow> bool" where
  "is_expired not_after today = (case not_after of None \<Rightarrow> False | Some d \<Rightarrow> d < today)"

definition build_presence_script :: "string \<Rightarrow> string \<Rightarrow> string + string" where
  "build_presence_script store thumbprint =
     (if \<not> fullmatch THUMBPRINT_PATTERN thumbprint then Inl ''Thumbprint must be 40-64 hexadecimal characters.''
      else if store \<notin> {''Root'', ''CA''} then Inl ''Invalid certificate store.''
      else Inr (''$match = Get-ChildItem Cert:'' @ [bs] @ ''LocalMachine'' @ [bs] @ store
        @ '' -ErrorAction SilentlyContinue | Where-Object { $_.Thumbprint -eq '' @ squoted (upper thumbprint)
        @ '' }; if ($match) { '' @ squoted ''PRESENT'' @ '' } else { '' @ squoted ''ABSENT'' @ '' }''))"

definition presence_command :: "string \<Rightarrow> string \<Rightarrow> string + GuestCommand" where
  "presence_command store thumbprint =
     (case build_presence_script store thumbprint of Inl e \<Rightarrow> Inl e | Inr s \<Rightarrow> Inr (powershell s))"

definition import_program :: "string \<Rightarrow> string \<Rightarrow> string + string \<times> string" where
  "import_program store path =
     (if store \<notin> {''Root'', ''CA''} then Inl ''Invalid certificate store.''
      else if \<not> startswith path (GUEST_TEMP_DIR @ [bs]) \<or> CHR 0x22 \<in> set path
      then Inl ''Certificate files must be staged inside the managed temp directory.''
      else Inr (CERTUTIL_PATH, ''-addstore -f '' @ store @ '' '' @ [CHR 0x22] @ path @ [CHR 0x22]))"

definition parse_presence_output :: "string \<Rightarrow> bool" where
  "parse_presence_output out = contains (upper out) ''PRESENT''"

definition make_guest_cert_file_name :: "string \<Rightarrow> string \<Rightarrow> string" where
  "make_guest_cert_file_name friendly thumbprint =
     take 40 (map (\<lambda>c. if is_alnum c \<or> c = CHR ''_'' \<or> c = CHR ''-'' then c else CHR ''_'') friendly)
     @ ''_'' @ lower (take 12 thumbprint) @ ''.cer''"

section \<open>Rows\<close>

record CertificatePackage =
  pkg_id :: uuid
  pkg_name :: string
  pkg_enabled :: bool
  pkg_certificates_enabled :: "bool list"

record Certificate =
  crt_package_id :: uuid
  crt_friendly_name :: string
  crt_type :: CertificateType
  crt_fingerprint_sha256 :: string
  crt_not_after :: "date option"
  crt_pem_body :: string
  crt_enabled :: bool

section \<open>Deployment\<close>

record CertificateToDeploy =
  cert_friendly_name :: string
  cert_type :: CertificateType
  cert_thumbprint :: string
  cert_pem_body :: string
  cert_not_after :: "date option"

record CertificateInstallRecord =
  rec_friendly_name :: string
  rec_store :: string
  rec_thumbprint :: string
  rec_action :: string
  rec_verified :: bool
  rec_detail :: string

definition cert_record :: "CertificateToDeploy \<Rightarrow> string \<Rightarrow> string \<Rightarrow> bool \<Rightarrow> string \<Rightarrow> CertificateInstallRecord" where
  "cert_record cert store action verified detail =
     \<lparr>rec_friendly_name = cert_friendly_name cert, rec_store = store, rec_thumbprint = cert_thumbprint cert,
      rec_action = action, rec_verified = verified, rec_detail = detail\<rparr>"

definition guest_failure :: "string \<Rightarrow> string \<Rightarrow> string \<Rightarrow> string \<Rightarrow> InfraOperationError" where
  "guest_failure human why action detail =
     \<lparr>human_message = human, reason = why, recommended_action = action, technical_detail = detail, retryable = True\<rparr>"

definition probe_presence ::
  "'g guest_ops \<Rightarrow> string \<Rightarrow> string \<Rightarrow> string \<Rightarrow> 'g \<Rightarrow> (guest_error + bool) \<times> 'g" where
  "probe_presence ops token store thumbprint g =
     (case presence_command store thumbprint of
        Inl e \<Rightarrow> (Inl (Other e), g)
      | Inr cmd \<Rightarrow>
          (case run_command ops token cmd 90 g of
             (Inl e, g') \<Rightarrow> (Inl e, g')
           | (Inr r, g') \<Rightarrow>
               if \<not> succeeded r
               then (Inl (Infra (guest_failure ''The certificate presence probe could not run inside the guest.''
                      (''PowerShell exited with code '' @ int_text (exit_code r) @ ''.'')
                      ''Verify VMware Tools health and retry.'' (last_chars 1000 (stdout r) @ last_chars 1000 (stderr r)))), g')
               else (Inr (parse_presence_output (stdout r)), g')))"

text \<open>Import of the staged file, then its deletion whatever the import did.\<close>

definition import_staged ::
  "'g guest_ops \<Rightarrow> CertificateToDeploy \<Rightarrow> string \<Rightarrow> string \<Rightarrow> 'g \<Rightarrow> guest_error option \<times> 'g" where
  "import_staged ops cert store path g =
     (let (res, g1) =
        (case import_program store path of
           Inl e \<Rightarrow> (Some (Other e), g)
         | Inr (prog, args) \<Rightarrow>
             (case run_program ops prog args 180 g of
                (Inl e, g') \<Rightarrow> (Some e, g')
              | (Inr r, g') \<Rightarrow>
                  (if \<not> succeeded r
                   then Some (Infra (guest_failure (''Import of '' @ squoted (cert_friendly_name cert) @ '' failed inside the guest.'')
                          (''certutil exited with code '' @ int_text (exit_code r) @ ''.'')
                          ''Review the stage output and retry certificate installation.''
                          (text_or (Some (last_chars 2000 (stdout r))) (last_chars 2000 (stderr r)))))
                   else None, g')))
      in case delete_file ops path g1 of
           (Some (Other e), g2) \<Rightarrow> (Some (Other e), g2)
         | (_, g2) \<Rightarrow> (res, g2))"

definition deploy_steps ::
  "'g guest_ops \<Rightarrow> (nat \<Rightarrow> string) \<Rightarrow> date \<Rightarrow> CertificateToDeploy \<Rightarrow> string \<Rightarrow> 'g \<Rightarrow> (guest_error + CertificateInstallRecord) \<times> 'g" where
  "deploy_steps ops tokens today cert store g =
     (if is_expired (cert_not_after cert) today
      then (Inr (cert_record cert store ''FAILED'' False (''The certificate expired on '' @ date_text (the (cert_not_after cert)) @ ''.'')), g)
      else case probe_presence ops (tokens 0) store (cert_thumbprint cert) g of
        (Inl e, g1) \<Rightarrow> (Inl e, g1)
      | (Inr True, g1) \<Rightarrow>
          (Inr (cert_record cert store ''ALREADY_PRESENT'' True ''Thumbprint already present - skipped reinstall.''), g1)
      | (Inr False, g1) \<Rightarrow>
          (let path = GUEST_TEMP_DIR @ [bs] @ make_guest_cert_file_name (cert_friendly_name cert) (cert_thumbprint cert) in
           case upload_file ops path (cert_pem_body cert) g1 of
             (Some e, g2) \<Rightarrow> (Inl e, g2)
           | (None, g2) \<Rightarrow>
               (case import_staged ops cert store path g2 of
                  (Some e, g3) \<Rightarrow> (Inl e, g3)
                | (None, g3) \<Rightarrow>
                    (case probe_presence ops (tokens 1) store (cert_thumbprint cert) g3 of
                       (Inl e, g4) \<Rightarrow> (Inl e, g4)
                     | (Inr verified, g4) \<Rightarrow>
                         (Inr (cert_record cert store ''INSTALLED'' verified
                            (if verified then [] else ''Import reported success but verification probe failed.'')), g4)))))"

definition deploy_one ::
  "'g guest_ops \<Rightarrow> (nat \<Rightarrow> string) \<Rightarrow> date \<Rightarrow> CertificateToDeploy \<Rightarrow> string \<Rightarrow> 'g \<Rightarrow> (string + CertificateInstallRecord) \<times> 'g" where
  "deploy_one ops tokens today cert store g =
     (case deploy_steps ops tokens today cert store g of
        (Inl (Infra e), g') \<Rightarrow> (Inr (cert_record cert store ''FAILED'' False (human_message e)), g')
      | (Inl (Other e), g') \<Rightarrow> (Inl e, g')
      | (Inr r, g') \<Rightarrow> (Inr r, g'))"

fun deploy ::
  "'g guest_ops \<Rightarrow> (nat \<Rightarrow> string) \<Rightarrow> nat \<Rightarrow> date \<Rightarrow> CertificateToDeploy list \<Rightarrow> 'g \<Rightarrow> (string + CertificateInstallRecord list) \<times> 'g" where
  "deploy ops tokens k today [] g = (Inr [], g)"
| "deploy ops tokens k today (cert # certs) g =
     (case deploy_one ops (\<lambda>i. tokens (k + i)) today cert (store_value (STORE_FOR_TYPE (cert_type cert))) g of
        (Inl e, g') \<Rightarrow> (Inl e, g')
      | (Inr r, g') \<Rightarrow>
          (case deploy ops tokens (k + 2) today certs g' of
             (Inl e, g'') \<Rightarrow> (Inl e, g'')
           | (Inr rs, g'') \<Rightarrow> (Inr (r # rs), g'')))"

text \<open>The verification pass; an error of a probe leaves it.\<close>

fun verify_all ::
  "'g guest_ops \<Rightarrow> (nat \<Rightarrow> string) \<Rightarrow> nat \<Rightarrow> CertificateToDeploy list \<Rightarrow> 'g \<Rightarrow> (guest_error + CertificateInstallRecord list) \<times> 'g" where
  "verify_all ops tokens k [] g = (Inr [], g)"
| "verify_all ops tokens k (cert # certs) g =
     (let store = store_value (STORE_FOR_TYPE (cert_type cert)) in
      case probe_presence ops (tokens k) store (cert_thumbprint cert) g of
        (Inl e, g') \<Rightarrow> (Inl e, g')
      | (Inr present, g') \<Rightarrow>
          (case verify_all ops tokens (Suc k) certs g' of
             (Inl e, g'') \<Rightarrow> (Inl e, g'')
           | (Inr rs, g'') \<Rightarrow>
               (Inr (cert_record cert store (if present then ''ALREADY_PRESENT'' else ''FAILED'') present
                  (if present then [] else ''Thumbprint not found after installation.'') # rs), g'')))"

section \<open>Properties\<close>

lemma cert_record_simps [simp]:
  "rec_action (cert_record cert store action verified detail) = action"
  "rec_verified (cert_record cert store action verified detail) = verified"
  by (simp_all add: cert_record_def)

lemma deploy_steps_verified:
  assumes "deploy_steps ops tokens today cert store g = (Inr r, g')" and "rec_verified r"
  shows "\<exists>token g0. probe_presence ops token store (cert_thumbprint cert) g0 = (Inr True, g')" "\<not> is_expired (cert_not_after cert) today"
  using assms by (auto simp: deploy_steps_def Let_def split: if_splits prod.splits sum.splits bool.splits option.splits)

text \<open>
  C35. A certificate is reported as verified only when the last thing that happened in the guest was a probe that found its
  thumbprint in its store, and never when it has expired; an expired certificate is refused without touching the guest, and
  one that is already present is not installed again.
\<close>

theorem verified_certificate_was_probed:
  assumes "deploy_one ops tokens today cert store g = (Inr r, g')"
  shows "(rec_verified r \<longrightarrow> \<not> is_expired (cert_not_after cert) today
            \<and> (\<exists>token g0. probe_presence ops token store (cert_thumbprint cert) g0 = (Inr True, g')))
    \<and> (is_expired (cert_not_after cert) today \<longrightarrow> rec_action r = ''FAILED'' \<and> g' = g)
    \<and> (rec_action r = ''ALREADY_PRESENT'' \<longrightarrow> (\<exists>token. probe_presence ops token store (cert_thumbprint cert) g = (Inr True, g')))"
proof -
  obtain d where d: "deploy_steps ops tokens today cert store g = (d, g')" "(\<exists>e. d = Inl (Infra e) \<and> rec_action r = ''FAILED'' \<and> \<not> rec_verified r) \<or> d = Inr r"
    using assms by (auto simp: deploy_one_def split: prod.splits sum.splits guest_error.splits)
  have "is_expired (cert_not_after cert) today \<longrightarrow> rec_action r = ''FAILED'' \<and> g' = g"
    using d by (auto simp: deploy_steps_def)
  moreover have "rec_action r = ''ALREADY_PRESENT'' \<longrightarrow> (\<exists>token. probe_presence ops token store (cert_thumbprint cert) g = (Inr True, g'))"
    using d by (auto simp: deploy_steps_def Let_def split: if_splits prod.splits sum.splits bool.splits option.splits)
  moreover have "rec_verified r \<longrightarrow> \<not> is_expired (cert_not_after cert) today
      \<and> (\<exists>token g0. probe_presence ops token store (cert_thumbprint cert) g0 = (Inr True, g'))"
    using d deploy_steps_verified [of ops tokens today cert store g r g'] by auto
  ultimately show ?thesis by blast
qed

text \<open>A guest without any certificate, whose files are the state: every probe answers ABSENT, every import succeeds.\<close>

definition empty_store_guest :: "string set guest_ops" where
  "empty_store_guest = \<lparr>upload_file = (\<lambda>p c g. (None, insert p g)),
     run_program = (\<lambda>p a t g. (Inr \<lparr>exit_code = 0, stdout = ''ABSENT'', stderr = []\<rparr>, g)),
     delete_file = (\<lambda>p g. (None, g - {p}))\<rparr>"

definition sample_certificate :: CertificateToDeploy where
  "sample_certificate = \<lparr>cert_friendly_name = ''Corp Root'', cert_type = CERT_ROOT, cert_thumbprint = replicate 64 (CHR ''A''),
     cert_pem_body = ''PEM'', cert_not_after = Some (2030, 1, 1)\<rparr>"

lemma upper_absent: "\<not> parse_presence_output ''ABSENT''"
  by code_simp

lemma empty_store_runs: "\<exists>g'. run_command empty_store_guest token (powershell scr) t g = (Inr \<lparr>exit_code = 0, stdout = ''ABSENT'', stderr = []\<rparr>, g')"
  by (simp add: run_command_def powershell_def is_powershell_def run_powershell_def run_body_def build_script_file_def
      secret_paths_for_def Let_def empty_store_guest_def text_or_def)

lemma empty_store_probe: "\<exists>g'. probe_presence empty_store_guest token ''Root'' (replicate 64 (CHR ''A'')) g = (Inr False, g')"
proof -
  have "fullmatch THUMBPRINT_PATTERN (replicate 64 (CHR ''A''))" by code_simp
  then obtain s where s: "presence_command ''Root'' (replicate 64 (CHR ''A'')) = Inr (powershell s)"
    by (simp add: presence_command_def build_presence_script_def)
  obtain g' where "run_command empty_store_guest token (powershell s) 90 g = (Inr \<lparr>exit_code = 0, stdout = ''ABSENT'', stderr = []\<rparr>, g')"
    using empty_store_runs by blast
  then show ?thesis using s upper_absent by (simp add: probe_presence_def succeeded_def)
qed

lemma empty_store_deploy:
  "\<exists>r g'. deploy_one empty_store_guest tokens (2026, 1, 1) sample_certificate ''Root'' g = (Inr r, g') \<and> rec_action r = ''INSTALLED''"
proof -
  let ?path = "GUEST_TEMP_DIR @ [bs] @ make_guest_cert_file_name (cert_friendly_name sample_certificate) (cert_thumbprint sample_certificate)"
  have e: "\<not> is_expired (cert_not_after sample_certificate) (2026, 1, 1)" by code_simp
  have "startswith ?path (GUEST_TEMP_DIR @ [bs])" "CHR 0x22 \<notin> set ?path" by code_simp+
  then have i: "import_staged empty_store_guest sample_certificate ''Root'' ?path g = (None, g - {?path})" for g
    by (simp add: import_staged_def import_program_def empty_store_guest_def succeeded_def)
  obtain g1 where g1: "probe_presence empty_store_guest (tokens 0) ''Root'' (cert_thumbprint sample_certificate) g = (Inr False, g1)"
    using empty_store_probe by (auto simp: sample_certificate_def)
  obtain g2 where g2: "probe_presence empty_store_guest (tokens 1) ''Root'' (cert_thumbprint sample_certificate) (insert ?path g1 - {?path}) = (Inr False, g2)"
    using empty_store_probe by (auto simp: sample_certificate_def)
  have "upload_file empty_store_guest ?path (cert_pem_body sample_certificate) g1 = (None, insert ?path g1)" by (simp add: empty_store_guest_def)
  then have "deploy_steps empty_store_guest tokens (2026, 1, 1) sample_certificate ''Root'' g
      = (Inr (cert_record sample_certificate ''Root'' ''INSTALLED'' False ''Import reported success but verification probe failed.''), g2)"
    using e g1 g2 i [of "insert ?path g1"] by (simp add: deploy_steps_def Let_def)
  then show ?thesis by (simp add: deploy_one_def)
qed

text \<open>A guest that has every certificate.\<close>

definition full_store_guest :: "string set guest_ops" where
  "full_store_guest = \<lparr>upload_file = (\<lambda>p c g. (None, insert p g)),
     run_program = (\<lambda>p a t g. (Inr \<lparr>exit_code = 0, stdout = ''PRESENT'', stderr = []\<rparr>, g)),
     delete_file = (\<lambda>p g. (None, g - {p}))\<rparr>"

lemma full_store_deploy:
  "\<exists>r g'. deploy_one full_store_guest tokens (2026, 1, 1) sample_certificate ''Root'' g = (Inr r, g') \<and> rec_action r = ''ALREADY_PRESENT'' \<and> rec_verified r"
proof -
  have "fullmatch THUMBPRINT_PATTERN (replicate 64 (CHR ''A''))" by code_simp
  then obtain s where s: "presence_command ''Root'' (replicate 64 (CHR ''A'')) = Inr (powershell s)"
    by (simp add: presence_command_def build_presence_script_def)
  have "\<exists>g'. run_command full_store_guest (tokens 0) (powershell s) 90 g = (Inr \<lparr>exit_code = 0, stdout = ''PRESENT'', stderr = []\<rparr>, g')"
    by (simp add: run_command_def powershell_def is_powershell_def run_powershell_def run_body_def build_script_file_def
        secret_paths_for_def Let_def full_store_guest_def text_or_def)
  moreover have "parse_presence_output ''PRESENT''" by code_simp
  ultimately obtain g1 where "probe_presence full_store_guest (tokens 0) ''Root'' (cert_thumbprint sample_certificate) g = (Inr True, g1)"
    using s by (auto simp: probe_presence_def succeeded_def sample_certificate_def)
  moreover have "\<not> is_expired (cert_not_after sample_certificate) (2026, 1, 1)" by code_simp
  ultimately show ?thesis by (simp add: deploy_one_def deploy_steps_def)
qed

theorem verified_certificate_was_probed_witness:
  "(\<exists>r g' token g0. deploy_one full_store_guest (\<lambda>_. ''t'') (2026, 1, 1) sample_certificate ''Root'' {} = (Inr r, g') \<and> rec_verified r
      \<and> probe_presence full_store_guest token ''Root'' (cert_thumbprint sample_certificate) g0 = (Inr True, g'))
   \<and> (\<exists>r g'. deploy_one full_store_guest (\<lambda>_. ''t'') (2031, 1, 1) sample_certificate ''Root'' {} = (Inr r, g') \<and> rec_action r = ''FAILED'' \<and> g' = {})"
proof
  obtain r g' where r: "deploy_one full_store_guest (\<lambda>_. ''t'') (2026, 1, 1) sample_certificate ''Root'' {} = (Inr r, g')" "rec_verified r"
    using full_store_deploy by blast
  with verified_certificate_was_probed [OF r(1)] show "\<exists>r g' token g0. deploy_one full_store_guest (\<lambda>_. ''t'') (2026, 1, 1) sample_certificate ''Root'' {} = (Inr r, g') \<and> rec_verified r
      \<and> probe_presence full_store_guest token ''Root'' (cert_thumbprint sample_certificate) g0 = (Inr True, g')" by blast
next
  have e: "is_expired (cert_not_after sample_certificate) (2031, 1, 1)" by code_simp
  obtain r g' where r: "deploy_one full_store_guest (\<lambda>_. ''t'') (2031, 1, 1) sample_certificate ''Root'' {} = (Inr r, g')"
    using e by (simp add: deploy_one_def deploy_steps_def)
  with verified_certificate_was_probed [OF r] e
  show "\<exists>r g'. deploy_one full_store_guest (\<lambda>_. ''t'') (2031, 1, 1) sample_certificate ''Root'' {} = (Inr r, g') \<and> rec_action r = ''FAILED'' \<and> g' = {}" by blast
qed

section \<open>Thumbprints\<close>

text \<open>
  How Windows answers the probe: \<^verbatim>\<open>Thumbprint\<close> is the SHA-1 hash of a certificate, 40 hexadecimal digits, and the probe reports
  PRESENT only when one in the store equals the given one.
\<close>

definition windows_probe :: "'g guest_ops \<Rightarrow> ('g \<Rightarrow> string set) \<Rightarrow> bool" where
  "windows_probe ops thumbprints \<longleftrightarrow>
     (\<forall>g. \<forall>t \<in> thumbprints g. length t = 40)
     \<and> (\<forall>store tp scr token g r g'. build_presence_script store tp = Inr scr \<longrightarrow>
          run_command ops token (powershell scr) 90 g = (Inr r, g') \<longrightarrow> parse_presence_output (stdout r) \<longrightarrow> upper tp \<in> thumbprints g)"

lemma windows_probe_sha256:
  assumes "windows_probe ops thumbprints" and "length tp \<noteq> 40"
  shows "fst (probe_presence ops token store tp g) \<noteq> Inr True"
proof -
  have "length (upper tp) \<noteq> 40" using assms(2) by simp
  then have "upper tp \<notin> thumbprints g" for g using assms(1) unfolding windows_probe_def by blast
  then show ?thesis using assms(1)
    by (auto simp: probe_presence_def presence_command_def windows_probe_def split: sum.splits prod.splits) blast
qed

lemma verify_all_sha256:
  assumes "windows_probe ops thumbprints"
  shows "list_all (\<lambda>cert. length (cert_thumbprint cert) \<noteq> 40) certs \<Longrightarrow> verify_all ops tokens k certs g = (Inr rs, g')
    \<Longrightarrow> length rs = length certs \<and> list_all (\<lambda>r. rec_action r = ''FAILED'' \<and> \<not> rec_verified r) rs"
proof (induction certs arbitrary: k g rs)
  case (Cons cert certs)
  have n: "probe_presence ops token store (cert_thumbprint cert) g0 \<noteq> (Inr True, g1)" for token store g0 g1
    using windows_probe_sha256 [OF assms, of "cert_thumbprint cert" token store g0] Cons.prems(1) by auto
  from Cons.prems(2) obtain present g1 rs' where p: "probe_presence ops (tokens k) (store_value (STORE_FOR_TYPE (cert_type cert))) (cert_thumbprint cert) g = (Inr present, g1)"
    and rest: "verify_all ops tokens (Suc k) certs g1 = (Inr rs', g')"
    and rs: "rs = cert_record cert (store_value (STORE_FOR_TYPE (cert_type cert))) (if present then ''ALREADY_PRESENT'' else ''FAILED'') present
        (if present then [] else ''Thumbprint not found after installation.'') # rs'"
    by (auto simp: Let_def split: prod.splits sum.splits)
  have "\<not> present" using n p by (cases present) auto
  with Cons.IH [OF _ rest] Cons.prems(1) rs show ?case by simp
qed simp



end
