(* ===== verification/Windows_Media.thy ===== *)
theory Windows_Media
  imports Regex
begin

text \<open>
  Recognition of Windows installation media and the product key format (\<^verbatim>\<open>services/windows_media.py\<close>).
\<close>

datatype WindowsMediaKind = SERVER | CLIENT | UNKNOWN

definition ISO_HEADER_BYTES :: nat where
  "ISO_HEADER_BYTES = 16 * 2048 + 2048"

definition PRODUCT_KEY :: regex where
  "PRODUCT_KEY = (let block = exactly 5 (Class (\<lambda>c. is_upper_char c \<or> is_digit c)) in Seq block (exactly 4 (Seq (lit (CHR ''-'')) block)))"

text \<open>A byte that is not ASCII decodes to the replacement character, here a question mark.\<close>

definition iso_volume_label :: "string \<Rightarrow> string option" where
  "iso_volume_label header =
     (let descriptor = take 2048 (drop (16 * 2048) header) in
      if length descriptor < 72 \<or> descriptor ! 0 \<noteq> CHR 0x01 \<or> take 5 (drop 1 descriptor) \<noteq> ''CD001'' then None
      else let label = strip (map (\<lambda>c. if (of_char c :: nat) < 128 then c else CHR ''?'') (take 32 (drop 40 descriptor)))
           in if label \<noteq> [] then Some label else None)"

definition classify_windows_media :: "string option \<Rightarrow> WindowsMediaKind" where
  "classify_windows_media label =
     (let n = upper (strip (text_or label []));
          client = (\<lambda>s. list_ex (\<lambda>p. startswith s (p @ ''_'')) [''CCCOMA'', ''CCOMA'', ''CPBA'', ''CPRA'', ''CENA'', ''CCSA''])
      in if startswith n ''SSS_'' \<or> contains n ''_SSS_'' then SERVER
         else if client n \<or> (startswith n ''J_'' \<and> client (drop 2 n)) \<or> n \<in> {''ESD-ISO'', ''ESD_ISO''} then CLIENT
         else UNKNOWN)"

end
