(* ===== verification/Windows_Unattend.thy ===== *)
theory Windows_Unattend
  imports Guest_Scripts Windows_Media
begin

text \<open>
  The answer file of an unattended Windows installation (\<^verbatim>\<open>services/windows_unattend.py\<close>): the element tree, its
  serialisation as \<^verbatim>\<open>ElementTree\<close> writes it, and the first-logon command line with its Base64 encoding. Elements
  are built bottom up where the code appends to a parent. Text is ASCII; the serialised bytes are its characters.
\<close>

section \<open>Elements\<close>

datatype qname = Unattend string | Wcm string | Plain string

datatype element = Element (el_tag: qname) (el_attributes: "(qname \<times> string) list") (el_text: "string option") (el_children: "element list")

definition UNATTEND_NS :: string where "UNATTEND_NS = ''urn:schemas-microsoft-com:unattend''"
definition WCM_NS :: string where "WCM_NS = ''http://schemas.microsoft.com/WMIConfig/2002/State''"
definition ANSWER_FILE_NAME :: string where "ANSWER_FILE_NAME = ''Autounattend.xml''"

definition node :: "string \<Rightarrow> element list \<Rightarrow> element" where
  "node name children = Element (Unattend name) [] None children"

definition xml_text :: "string \<Rightarrow> string \<Rightarrow> element" where
  "xml_text name v = Element (Unattend name) [] (Some v) []"

definition action_child :: "string \<Rightarrow> element list \<Rightarrow> element" where
  "action_child name children = Element (Unattend name) [(Wcm ''action'', ''add'')] None children"

definition component :: "string \<Rightarrow> element list \<Rightarrow> element" where
  "component name children =
     Element (Unattend ''component'') [(Plain ''name'', name), (Plain ''processorArchitecture'', ''amd64''),
       (Plain ''publicKeyToken'', ''31bf3856ad364e35''), (Plain ''language'', ''neutral''), (Plain ''versionScope'', ''nonSxS'')] None children"

definition settings_pass :: "string \<Rightarrow> element list \<Rightarrow> element" where
  "settings_pass pass_name children = Element (Unattend ''settings'') [(Plain ''pass'', pass_name)] None children"

record WindowsUnattendSpec =
  us_computer_name :: string
  us_administrator_username :: string
  us_administrator_password :: string
  us_image_index :: int
  us_locale :: string
  us_input_locale :: string
  us_timezone :: string
  us_firmware :: string
  us_product_key :: "string option"
  us_builtin_password :: "string option"

section \<open>Disk layout\<close>

record partition_layout =
  pl_type :: string
  pl_size :: "string option"
  pl_format :: "string option"
  pl_label :: "string option"
  pl_letter :: "string option"
  pl_active :: bool

definition disk_layouts :: "string \<Rightarrow> partition_layout list" where
  "disk_layouts fw =
     (if upper fw = ''EFI''
      then [\<lparr>pl_type = ''EFI'', pl_size = Some ''100'', pl_format = Some ''FAT32'', pl_label = Some ''System'', pl_letter = None, pl_active = False\<rparr>,
            \<lparr>pl_type = ''MSR'', pl_size = Some ''16'', pl_format = None, pl_label = None, pl_letter = None, pl_active = False\<rparr>,
            \<lparr>pl_type = ''Primary'', pl_size = None, pl_format = Some ''NTFS'', pl_label = Some ''Windows'', pl_letter = Some ''C'', pl_active = False\<rparr>]
      else [\<lparr>pl_type = ''Primary'', pl_size = Some ''550'', pl_format = Some ''NTFS'', pl_label = Some ''System'', pl_letter = None, pl_active = True\<rparr>,
            \<lparr>pl_type = ''Primary'', pl_size = None, pl_format = Some ''NTFS'', pl_label = Some ''Windows'', pl_letter = Some ''C'', pl_active = False\<rparr>])"

definition optional_text :: "string \<Rightarrow> string option \<Rightarrow> element list" where
  "optional_text name v = (if truthy_text v then [xml_text name (the v)] else [])"

definition create_partition :: "nat \<times> partition_layout \<Rightarrow> element" where
  "create_partition ol = (case ol of (order, l) \<Rightarrow>
     action_child ''CreatePartition'' [xml_text ''Order'' (nat_text order), xml_text ''Type'' (pl_type l),
       if truthy_text (pl_size l) then xml_text ''Size'' (the (pl_size l)) else xml_text ''Extend'' ''true''])"

definition modify_partition :: "nat \<times> partition_layout \<Rightarrow> element" where
  "modify_partition ol = (case ol of (order, l) \<Rightarrow>
     action_child ''ModifyPartition'' ([xml_text ''Order'' (nat_text order), xml_text ''PartitionID'' (nat_text order)]
       @ optional_text ''Format'' (pl_format l) @ optional_text ''Label'' (pl_label l) @ optional_text ''Letter'' (pl_letter l)
       @ (if pl_active l then [xml_text ''Active'' ''true''] else [])))"

definition disk_configuration :: "string \<Rightarrow> element" where
  "disk_configuration fw =
     (let layouts = List.enumerate 1 (disk_layouts fw) in
      node ''DiskConfiguration''
        [action_child ''Disk'' [xml_text ''DiskID'' ''0'', xml_text ''WillWipeDisk'' ''true'',
           node ''CreatePartitions'' (map create_partition layouts), node ''ModifyPartitions'' (map modify_partition layouts)],
         xml_text ''WillShowUI'' ''OnError''])"

section \<open>Accounts and language\<close>

definition bad_account_char :: "char \<Rightarrow> bool" where
  "bad_account_char c = ((of_char c :: nat) < 32 \<or> c \<in> {CHR 0x22, CHR ''/'', bs, CHR ''['', CHR '']'', CHR '':'', CHR '';'', CHR ''|'', CHR ''='',
     CHR '','', CHR ''+'', CHR ''*'', CHR ''?'', CHR ''<'', CHR ''>'', CHR ''@''})"

definition local_account_name :: "string \<Rightarrow> string + string" where
  "local_account_name username =
     (let (qualifier, local) = rpartition bs (strip username) in
      if (qualifier \<noteq> None \<and> qualifier \<noteq> Some ''.'') \<or> local = [] \<or> length local > 20 \<or> endswith local ''.'' \<or> list_ex bad_account_char local
      then Inl ''The Windows provisioning credential username must be a valid local account name.''
      else Inr local)"

definition plain_password :: "string \<Rightarrow> string \<Rightarrow> element" where
  "plain_password name v = node name [xml_text ''Value'' v, xml_text ''PlainText'' ''true'']"

definition user_accounts :: "string \<Rightarrow> string \<Rightarrow> string option \<Rightarrow> element" where
  "user_accounts local password builtin_password =
     (let is_builtin = (casefold local = ''administrator'') in
      node ''UserAccounts''
        ((if is_builtin \<or> truthy_text builtin_password
          then [plain_password ''AdministratorPassword'' (if is_builtin then password else the builtin_password)] else [])
         @ (if is_builtin then []
            else [node ''LocalAccounts'' [action_child ''LocalAccount''
                   [plain_password ''Password'' password, xml_text ''DisplayName'' local, xml_text ''Group'' ''Administrators'',
                    xml_text ''Name'' local]]])))"

definition international_core :: "string \<Rightarrow> WindowsUnattendSpec \<Rightarrow> element" where
  "international_core name spec =
     component name
       ((if endswith name ''-WinPE'' then [node ''SetupUILanguage'' [xml_text ''UILanguage'' (us_locale spec)]] else [])
        @ [xml_text ''InputLocale'' (us_input_locale spec), xml_text ''SystemLocale'' (us_locale spec),
           xml_text ''UILanguage'' (us_locale spec), xml_text ''UserLocale'' (us_locale spec)])"

section \<open>First logon\<close>

definition FIRST_LOGON_SCRIPT_NAME :: string where
  "FIRST_LOGON_SCRIPT_NAME = ''InfraOps-FirstLogon.ps1''"

definition FIRST_LOGON_LOG :: string where
  "FIRST_LOGON_LOG = win_path [''C:'', ''Windows'', ''Temp'', ''infraops-firstlogon.log'']"

definition TOOLS_MSI_LOG :: string where
  "TOOLS_MSI_LOG = win_path [''C:'', ''Windows'', ''Temp'', ''infraops-vmtools-msi.log'']"

definition FIRST_LOGON_SCRIPT :: string where
  "FIRST_LOGON_SCRIPT = join_on [CHR 0x0D, CHR 0x0A] [
     ''# InfraOps first logon: install VMware Tools from the host's VMware Tools CD.'',
     ''Start-Transcript -LiteralPath '' @ squoted FIRST_LOGON_LOG @ '' -Append | Out-Null'',
     (''Write-Host '' @ [CHR 0x27] @ ''InfraOps is installing VMware Tools. Do not close this window.'' @ [CHR 0x27]),
     ''$deadline = (Get-Date).AddHours(2)'',
     ''$installer = $null'',
     ''$exitCode = 1'',
     ''while (-not $installer -and (Get-Date) -lt $deadline) {'',
     ''    foreach ($root in (Get-PSDrive -PSProvider FileSystem).Root) {'',
     (''        # Windows installation media also has setup.exe at its root; only it has '' @ [bs] @ ''sources.''),
     ''        if (Test-Path -LiteralPath (Join-Path $root 'sources')) { continue }'',
     ''        # Older Tools ISOs ship setup64.exe; newer, 64-bit-only ones only setup.exe.'',
     ''        foreach ($name in 'setup64.exe', 'setup.exe') {'',
     ''            $candidate = Join-Path $root $name'',
     ''            if (-not $installer -and (Test-Path -LiteralPath $candidate)) { $installer = $candidate }'',
     ''        }'',
     ''    }'',
     ''    if (-not $installer) {'',
     (''        Write-Host '' @ [CHR 0x27] @ ''Waiting for the VMware Tools CD (setup64.exe or setup.exe)...'' @ [CHR 0x27]),
     ''        Start-Sleep -Seconds 15'',
     ''    }'',
     ''}'',
     ''if ($installer) {'',
     (''    Write-Host '' @ [CHR 0x22] @ ''Running $installer silently. Windows stays usable meanwhile.'' @ [CHR 0x22]),
     (''    $arguments = '/s /v'' @ [CHR 0x22] @ ''/qn REBOOT=R /l*v '') @ TOOLS_MSI_LOG @ [CHR 0x22, CHR 0x27],
     ''    $exitCode = (Start-Process -FilePath $installer -ArgumentList $arguments -Wait -PassThru).ExitCode'',
     (''    Write-Host '' @ [CHR 0x22] @ ''The VMware Tools installer exited with code $exitCode (0 and 3010 mean success).''
      @ [CHR 0x22]),
     ''} else {'',
     (''    Write-Host '' @ [CHR 0x27] @ ''No VMware Tools CD was found within two hours. InfraOps cannot configure this VM.''
      @ [CHR 0x27]),
     ''}'',
     ''Stop-Transcript | Out-Null'',
     ''exit $exitCode'',
     []]"

definition LOCAL_SCRIPT_DIR :: string where
  "LOCAL_SCRIPT_DIR = win_path [''C:'', ''Windows'', ''Setup'', ''Scripts'']"

definition LOCAL_FIRST_LOGON_SCRIPT :: string where
  "LOCAL_FIRST_LOGON_SCRIPT = LOCAL_SCRIPT_DIR @ [bs] @ FIRST_LOGON_SCRIPT_NAME"

definition COPY_FIRST_LOGON_SCRIPT_COMMAND :: string where
  "COPY_FIRST_LOGON_SCRIPT_COMMAND =
     (''powershell.exe -NoProfile -Command '' @ [CHR 0x22] @ ''$s=(Get-PSDrive -PSProvider FileSystem).Root|%{$_+''
      @ [CHR 0x27]) @ FIRST_LOGON_SCRIPT_NAME
     @ ([CHR 0x27] @ ''}|?{Test-Path $_}|select -f 1;if($s){md '') @ LOCAL_SCRIPT_DIR @ '' -Force;copy $s '' @ LOCAL_SCRIPT_DIR @ ('' -Force}'' @ [CHR 0x22])"

definition MAX_SYNCHRONOUS_PATH :: nat where "MAX_SYNCHRONOUS_PATH = 259"
definition MAX_COMMAND_LINE :: nat where "MAX_COMMAND_LINE = 1024"

definition FIRST_LOGON_LAUNCHER :: string where
  "FIRST_LOGON_LAUNCHER =
     (''$s=@('' @ [CHR 0x27]) @ LOCAL_FIRST_LOGON_SCRIPT @ ([CHR 0x27] @ '')+((Get-PSDrive -PSProvider FileSystem).Root|%{Join-Path $_ '' @ [CHR 0x27]) @ FIRST_LOGON_SCRIPT_NAME
     @ ([CHR 0x27] @ ''})|?{Test-Path -LiteralPath $_}|select -f 1;if($s){& $s;exit $LASTEXITCODE};exit 1'')"

text \<open>\<^verbatim>\<open>s.encode("utf-16-le")\<close> of ASCII text, and \<^verbatim>\<open>base64.b64encode\<close>.\<close>

definition utf16_le :: "string \<Rightarrow> string" where
  "utf16_le s = concat (map (\<lambda>c. [c, CHR 0x00]) s)"

definition b64_digit :: "nat \<Rightarrow> char" where
  "b64_digit n =
     (if n < 26 then char_of (65 + n) else if n < 52 then char_of (71 + n) else if n < 62 then char_of (n - 4)
      else if n = 62 then CHR ''+'' else CHR ''/'')"

fun b64encode :: "string \<Rightarrow> string" where
  "b64encode (a # b # c # rest) =
     (let n = (of_char a * 256 + of_char b) * 256 + of_char c :: nat in
      [b64_digit (n div 262144), b64_digit (n div 4096 mod 64), b64_digit (n div 64 mod 64), b64_digit (n mod 64)] @ b64encode rest)"
| "b64encode [a, b] =
     (let n = (of_char a * 256 + of_char b) * 4 :: nat in
      [b64_digit (n div 4096), b64_digit (n div 64 mod 64), b64_digit (n mod 64), CHR ''=''])"
| "b64encode [a] = (let n = of_char a * 16 :: nat in [b64_digit (n div 64), b64_digit (n mod 64), CHR ''='', CHR ''=''])"
| "b64encode [] = []"

definition tools_install_command :: "string + string" where
  "tools_install_command =
     (let command = ''powershell.exe -NoProfile -ExecutionPolicy Bypass -EncodedCommand '' @ b64encode (utf16_le FIRST_LOGON_LAUNCHER) in
      if length command > MAX_COMMAND_LINE then Inl ''The VMware Tools first-logon command exceeds Windows Setup's limit.''
      else Inr command)"

section \<open>The answer file\<close>

definition windows_pe_pass :: "WindowsUnattendSpec \<Rightarrow> string option \<Rightarrow> element" where
  "windows_pe_pass spec product_key =
     settings_pass ''windowsPE''
       [international_core ''Microsoft-Windows-International-Core-WinPE'' spec,
        component ''Microsoft-Windows-Setup''
          [disk_configuration (us_firmware spec),
           node ''ImageInstall''
             [node ''OSImage''
               [node ''InstallFrom'' [action_child ''MetaData'' [xml_text ''Key'' ''/IMAGE/INDEX'', xml_text ''Value'' (int_text (us_image_index spec))]],
                node ''InstallTo'' [xml_text ''DiskID'' ''0'', xml_text ''PartitionID'' (nat_text (length (disk_layouts (us_firmware spec))))],
                xml_text ''WillShowUI'' ''OnError'']],
           node ''UserData''
             (xml_text ''AcceptEula'' ''true''
              # (case product_key of None \<Rightarrow> [] | Some key \<Rightarrow> [node ''ProductKey'' [xml_text ''Key'' key, xml_text ''WillShowUI'' ''OnError'']]))]]"

definition specialize_pass :: "WindowsUnattendSpec \<Rightarrow> element" where
  "specialize_pass spec =
     settings_pass ''specialize''
       [component ''Microsoft-Windows-Deployment''
          [node ''RunSynchronous''
             [action_child ''RunSynchronousCommand''
                [xml_text ''Description'' ''Copy the InfraOps first-logon script to disk'', xml_text ''Order'' ''1'',
                 xml_text ''Path'' COPY_FIRST_LOGON_SCRIPT_COMMAND]]],
        component ''Microsoft-Windows-Shell-Setup''
          [xml_text ''ComputerName'' (us_computer_name spec), xml_text ''TimeZone'' (us_timezone spec)]]"

definition oobe_pass :: "WindowsUnattendSpec \<Rightarrow> string \<Rightarrow> string \<Rightarrow> element" where
  "oobe_pass spec local command =
     settings_pass ''oobeSystem''
       [international_core ''Microsoft-Windows-International-Core'' spec,
        component ''Microsoft-Windows-Shell-Setup''
          [node ''AutoLogon''
             [plain_password ''Password'' (us_administrator_password spec), xml_text ''Domain'' ''.'', xml_text ''Enabled'' ''true'',
              xml_text ''LogonCount'' ''1'', xml_text ''Username'' local],
           node ''FirstLogonCommands''
             [action_child ''SynchronousCommand''
                [xml_text ''CommandLine'' command, xml_text ''Description'' ''Install VMware Tools'', xml_text ''Order'' ''1'']],
           node ''OOBE''
             (map (\<lambda>(key, v). xml_text key v)
                [(''HideEULAPage'', ''true''), (''HideLocalAccountScreen'', ''true''), (''HideOEMRegistrationScreen'', ''true''),
                 (''HideOnlineAccountScreens'', ''true''), (''HideWirelessSetupInOOBE'', ''true''), (''ProtectYourPC'', ''3'')]),
           xml_text ''TimeZone'' (us_timezone spec),
           user_accounts local (us_administrator_password spec) (us_builtin_password spec)]]"

definition autounattend :: "WindowsUnattendSpec \<Rightarrow> string + element" where
  "autounattend spec =
     (case local_account_name (us_administrator_username spec) of
        Inl e \<Rightarrow> Inl e
      | Inr local \<Rightarrow>
          (let key = upper (strip (text_or (us_product_key spec) [])) in
           if key \<noteq> [] \<and> \<not> fullmatch PRODUCT_KEY key
           then Inl ''The Windows product key must have the form XXXXX-XXXXX-XXXXX-XXXXX-XXXXX.''
           else case tools_install_command of
             Inl e \<Rightarrow> Inl e
           | Inr command \<Rightarrow>
               Inr (node ''unattend'' [windows_pe_pass spec (if key = [] then None else Some key), specialize_pass spec,
                     oobe_pass spec local command])))"

section \<open>Serialisation\<close>

definition escape_with :: "(char \<times> string) list \<Rightarrow> string \<Rightarrow> string" where
  "escape_with table s = concat (map (\<lambda>c. case map_of table c of None \<Rightarrow> [c] | Some e \<Rightarrow> e) s)"

definition CDATA_ESCAPES :: "(char \<times> string) list" where
  "CDATA_ESCAPES = [(CHR ''&'', ''&amp;''), (CHR ''<'', ''&lt;''), (CHR ''>'', ''&gt;'')]"

definition escape_cdata :: "string \<Rightarrow> string" where
  "escape_cdata = escape_with CDATA_ESCAPES"

definition escape_attrib :: "string \<Rightarrow> string" where
  "escape_attrib = escape_with (CDATA_ESCAPES @ [(CHR 0x22, ''&quot;''), (CHR 0x0D, ''&#13;''), (CHR 0x0A, ''&#10;''), (CHR 0x09, ''&#09;'')])"

fun qname_text :: "qname \<Rightarrow> string" where
  "qname_text (Unattend n) = n"
| "qname_text (Wcm n) = ''wcm:'' @ n"
| "qname_text (Plain n) = n"

definition attribute_text :: "qname \<times> string \<Rightarrow> string" where
  "attribute_text a = '' '' @ qname_text (fst a) @ ''='' @ [CHR 0x22] @ escape_attrib (snd a) @ [CHR 0x22]"

fun serialize :: "string \<Rightarrow> element \<Rightarrow> string" where
  "serialize namespaces (Element tag attributes contents children) =
     ''<'' @ qname_text tag @ namespaces @ concat (map attribute_text attributes)
     @ (if truthy_text contents \<or> children \<noteq> []
        then ''>'' @ escape_cdata (text_or contents []) @ concat (map (serialize []) children) @ ''</'' @ qname_text tag @ ''>''
        else '' />'')"

definition build_autounattend_xml :: "WindowsUnattendSpec \<Rightarrow> string + string" where
  "build_autounattend_xml spec =
     (case autounattend spec of
        Inl e \<Rightarrow> Inl e
      | Inr tree \<Rightarrow>
          Inr ((''<?xml version='1.0' encoding='utf-8'?>'' @ nl)
               @ serialize ('' xmlns='' @ [CHR 0x22] @ UNATTEND_NS @ [CHR 0x22] @ '' xmlns:wcm='' @ [CHR 0x22] @ WCM_NS @ [CHR 0x22]) tree))"

section \<open>Limits of Windows Setup\<close>

lemma length_b64encode: "length (b64encode s) = 4 * ((length s + 2) div 3)"
  by (induction s rule: b64encode.induct) (simp_all add: Let_def, presburger)

lemma length_utf16_le: "length (utf16_le s) = 2 * length s"
  by (induction s) (simp_all add: utf16_le_def)

lemma first_logon_command_fits:
  "tools_install_command = Inr (''powershell.exe -NoProfile -ExecutionPolicy Bypass -EncodedCommand '' @ b64encode (utf16_le FIRST_LOGON_LAUNCHER))"
proof -
  have "length FIRST_LOGON_LAUNCHER \<le> 300" by code_simp
  then have "length (b64encode (utf16_le FIRST_LOGON_LAUNCHER)) \<le> 804"
    unfolding length_b64encode length_utf16_le by simp
  then show ?thesis unfolding tools_install_command_def Let_def MAX_COMMAND_LINE_def by simp
qed

lemma copy_command_fits: "length COPY_FIRST_LOGON_SCRIPT_COMMAND \<le> MAX_SYNCHRONOUS_PATH"
  by code_simp

section \<open>Escaped text reads back\<close>

fun unescape :: "string \<Rightarrow> string" where
  "unescape [] = []"
| "unescape (c # cs) =
     (if c = CHR ''&'' then
        (if startswith cs ''amp;'' then CHR ''&'' # unescape (drop 4 cs)
         else if startswith cs ''lt;'' then CHR ''<'' # unescape (drop 3 cs)
         else if startswith cs ''gt;'' then CHR ''>'' # unescape (drop 3 cs)
         else c # unescape cs)
      else c # unescape cs)"

lemma escape_cdata_Cons:
  "escape_cdata [] = []"
  "escape_cdata (c # s) = (if c = CHR ''&'' then ''&amp;'' else if c = CHR ''<'' then ''&lt;'' else if c = CHR ''>'' then ''&gt;'' else [c]) @ escape_cdata s"
  by (simp_all add: escape_cdata_def escape_with_def CDATA_ESCAPES_def)

lemma unescape_escape: "unescape (escape_cdata s) = s"
  by (induction s) (auto simp: escape_cdata_Cons)

lemma escape_no_markup: "CHR ''<'' \<notin> set (escape_cdata s)" "CHR ''>'' \<notin> set (escape_cdata s)"
  by (induction s) (auto simp: escape_cdata_Cons)

section \<open>What is accepted\<close>

lemma rpartition_None: "rpartition sep s = (None, l) \<Longrightarrow> l = s \<and> sep \<notin> set s"
  by (auto simp: rpartition_def Let_def split: if_splits)

lemma rpartition_Some:
  assumes "rpartition sep s = (Some q, l)"
  shows "s = q @ sep # l \<and> sep \<notin> set l"
proof -
  have mem: "sep \<in> set (rev s)" using assms by (auto simp: rpartition_def split: if_splits)
  let ?t = "takeWhile (\<lambda>c. c \<noteq> sep) (rev s)" and ?d = "dropWhile (\<lambda>c. c \<noteq> sep) (rev s)"
  obtain d where d: "?d = sep # d"
    using mem by (metis (mono_tags, lifting) dropWhile_eq_Nil_conv hd_dropWhile list.exhaust_sel)
  have "rev s = ?t @ sep # d" using takeWhile_dropWhile_id [of "\<lambda>c. c \<noteq> sep" "rev s"] d by simp
  then have s: "s = rev d @ sep # rev ?t" by (metis append_assoc append_Cons append_Nil rev.simps(2) rev_append rev_rev_ident)
  have "length s - length ?t - 1 = length d" by (subst s) simp
  then have "take (length s - length ?t - 1) s = rev d" by (metis s append_eq_conv_conj length_rev)
  moreover have "sep \<notin> set ?t" by (auto dest: set_takeWhileD)
  moreover have "q = take (length s - length ?t - 1) s" "l = rev ?t" using assms mem by (simp_all add: rpartition_def Let_def)
  ultimately show ?thesis using s by (metis set_rev)
qed

text \<open>The local account a credential user name stands for: the name itself, or with the prefix of the local machine.\<close>

definition names_account :: "string \<Rightarrow> string \<Rightarrow> bool" where
  "names_account username local \<longleftrightarrow>
     (strip username = local \<or> strip username = ''.'' @ [bs] @ local)
     \<and> local \<noteq> [] \<and> length local \<le> 20 \<and> last local \<noteq> CHR ''.'' \<and> (\<forall>c \<in> set local. \<not> bad_account_char c)"

lemma local_account_name_iff: "local_account_name username = Inr local \<longleftrightarrow> names_account username local"
proof -
  obtain q l where r: "rpartition bs (strip username) = (q, l)" by fastforce
  have last: "endswith l ''.'' \<longleftrightarrow> last l = CHR ''.''" if "l \<noteq> []" for l :: string
    using that by (cases l rule: rev_cases) (auto simp: endswith_iff)
  have bad: "bad_account_char bs" by (simp add: bad_account_char_def)
  show ?thesis
  proof (cases q)
    case None
    with r rpartition_None have "l = strip username" "bs \<notin> set (strip username)" by blast+
    with r None show ?thesis using last [of l]
      by (auto simp: local_account_name_def names_account_def list_ex_iff)
  next
    case (Some p)
    with r rpartition_Some have s: "strip username = p @ bs # l" "bs \<notin> set l" by blast+
    have split: "strip username = ''.'' @ [bs] @ local \<Longrightarrow> bs \<notin> set local \<Longrightarrow> p = ''.'' \<and> l = local"
      using s by (auto simp: append_eq_Cons_conv Cons_eq_append_conv)
    have not: "strip username \<noteq> local" if "bs \<notin> set local" using s that by (metis in_set_conv_decomp)
    show ?thesis
    proof
      assume "local_account_name username = Inr local"
      then show "names_account username local" using r Some s last [of l]
        by (auto simp: local_account_name_def names_account_def list_ex_iff split: if_splits)
    next
      assume n: "names_account username local"
      then have "bs \<notin> set local" using bad by (auto simp: names_account_def)
      with n not split have "p = ''.''" "l = local" by (auto simp: names_account_def)
      with n r Some last [of l] show "local_account_name username = Inr local"
        by (auto simp: local_account_name_def names_account_def list_ex_iff)
    qed
  qed
qed

text \<open>
  C19. An answer file is built exactly when the credential names a local account that Windows accepts and the product key, if
  any, has the form of one; the generated command lines always fit the limits of Windows Setup, so nothing else fails.
\<close>

theorem answer_file_exact:
  "(is_ok (build_autounattend_xml spec) \<longleftrightarrow>
      (\<exists>local. names_account (us_administrator_username spec) local)
      \<and> (let key = upper (strip (text_or (us_product_key spec) [])) in key = [] \<or> fullmatch PRODUCT_KEY key))
   \<and> length COPY_FIRST_LOGON_SCRIPT_COMMAND \<le> MAX_SYNCHRONOUS_PATH
   \<and> (case tools_install_command of Inl _ \<Rightarrow> False | Inr command \<Rightarrow> length command \<le> MAX_COMMAND_LINE)"
proof -
  have "length (''powershell.exe -NoProfile -ExecutionPolicy Bypass -EncodedCommand '' @ b64encode (utf16_le FIRST_LOGON_LAUNCHER)) \<le> MAX_COMMAND_LINE"
    using first_logon_command_fits unfolding tools_install_command_def Let_def by (auto split: if_splits)
  then have "case tools_install_command of Inl _ \<Rightarrow> False | Inr command \<Rightarrow> length command \<le> MAX_COMMAND_LINE"
    unfolding first_logon_command_fits sum.case .
  moreover have "is_ok (build_autounattend_xml spec) \<longleftrightarrow>
      (\<exists>local. local_account_name (us_administrator_username spec) = Inr local)
      \<and> (let key = upper (strip (text_or (us_product_key spec) [])) in key = [] \<or> fullmatch PRODUCT_KEY key)"
    by (auto simp: build_autounattend_xml_def autounattend_def Let_def first_logon_command_fits split: sum.splits)
  ultimately show ?thesis using copy_command_fits by (simp add: local_account_name_iff)
qed

end
