(* ===== verification/Answer_Iso.thy ===== *)
theory Answer_Iso
  imports Windows_Unattend "HOL-Library.List_Lexorder" "HOL-Library.Char_ord" "HOL-Library.Product_Lexorder"
begin

text \<open>
  The answer CD (\<^verbatim>\<open>build_answer_iso\<close> of \<^verbatim>\<open>services/windows_unattend.py\<close>): an ISO 9660 image with a Joliet tree, as a list
  of bytes (characters). Numbers are packed modulo their width; \<^verbatim>\<open>struct.pack\<close> would raise instead, which needs an
  image of more than four gigabytes. The lemmas show that a Joliet reader finds exactly the files put on the CD.
\<close>

section \<open>Fields\<close>

definition SECTOR :: nat where "SECTOR = 2048"
definition VOLUME_ID :: string where "VOLUME_ID = ''INFRAOPS_ANSWER''"

definition le_bytes :: "nat \<Rightarrow> nat \<Rightarrow> string" where
  "le_bytes n v = map (\<lambda>i. char_of (v div 256 ^ i)) [0..<n]"

definition be_bytes :: "nat \<Rightarrow> nat \<Rightarrow> string" where
  "be_bytes n v = rev (le_bytes n v)"

definition both16 :: "nat \<Rightarrow> string" where "both16 v = le_bytes 2 v @ be_bytes 2 v"
definition both32 :: "nat \<Rightarrow> string" where "both32 v = le_bytes 4 v @ be_bytes 4 v"

definition zeros :: "nat \<Rightarrow> string" where "zeros n = replicate n (CHR 0x00)"

text \<open>The fixed time stamp, 1 January 2026 UTC.\<close>

definition directory_date :: string where
  "directory_date = [char_of (126 :: nat), CHR 0x01, CHR 0x01] @ zeros 4"

definition volume_date :: string where
  "volume_date = ''2026010100000000'' @ zeros 1"

definition directory_record :: "string \<Rightarrow> nat \<Rightarrow> nat \<Rightarrow> bool \<Rightarrow> string" where
  "directory_record identifier extent len directory =
     (let body = zeros 1 @ both32 extent @ both32 len @ directory_date @ [if directory then CHR 0x02 else CHR 0x00] @ zeros 2
            @ both16 1 @ [char_of (length identifier)] @ identifier;
          padded = (if even (length body) then body @ zeros 1 else body)
      in char_of (1 + length padded) # padded)"

definition path_table :: "nat \<Rightarrow> bool \<Rightarrow> string" where
  "path_table root_extent big_endian =
     (let pack = (if big_endian then be_bytes else le_bytes) in [CHR 0x01, CHR 0x00] @ pack 4 root_extent @ pack 2 1 @ zeros 2)"

definition utf16_be :: "string \<Rightarrow> string" where
  "utf16_be s = concat (map (\<lambda>c. [CHR 0x00, c]) s)"

definition descriptor_identifier :: "bool \<Rightarrow> string \<Rightarrow> nat \<Rightarrow> string" where
  "descriptor_identifier joliet v n =
     (if joliet then take n (utf16_be v @ concat (replicate n (utf16_be '' ''))) else v @ replicate (n - length v) (CHR '' ''))"

definition volume_descriptor :: "bool \<Rightarrow> nat \<Rightarrow> nat \<Rightarrow> nat \<Rightarrow> nat \<Rightarrow> nat \<Rightarrow> string" where
  "volume_descriptor joliet total_sectors path_table_size l_table m_table root_extent =
     (let fields =
        [if joliet then CHR 0x02 else CHR 0x01] @ ''CD001'' @ [CHR 0x01] @ zeros 1
        @ descriptor_identifier joliet [] 32 @ descriptor_identifier joliet VOLUME_ID 32 @ zeros 8 @ both32 total_sectors
        @ (if joliet then ''%/E'' else zeros 3) @ zeros 29 @ both16 1 @ both16 1 @ both16 SECTOR @ both32 path_table_size
        @ le_bytes 4 l_table @ zeros 4 @ be_bytes 4 m_table @ zeros 4 @ directory_record [CHR 0x00] root_extent SECTOR True
        @ concat (map (descriptor_identifier joliet []) [128, 128, 128, 128, 37, 37, 37])
        @ volume_date @ volume_date @ replicate 16 (CHR ''0'') @ zeros 1 @ volume_date @ [CHR 0x01]
      in fields @ zeros (SECTOR - length fields))"

section \<open>The image\<close>

text \<open>\<^verbatim>\<open>image[i:i + len(p)] = p\<close>.\<close>

definition put_at :: "nat \<Rightarrow> string \<Rightarrow> string \<Rightarrow> string" where
  "put_at i p img = take i img @ p @ drop (i + length p) img"

definition put_sector :: "nat \<times> string \<Rightarrow> string \<Rightarrow> string" where
  "put_sector ap img = put_at (fst ap * SECTOR) (snd ap) img"

definition sectors_of :: "string \<Rightarrow> nat" where
  "sectors_of content = max 1 ((length content + SECTOR - 1) div SECTOR)"

fun assign_extents :: "nat \<Rightarrow> (string \<times> string) list \<Rightarrow> (string \<times> nat) list \<times> nat" where
  "assign_extents sector [] = ([], sector)"
| "assign_extents sector ((name, content) # files) =
     (case assign_extents (sector + sectors_of content) files of (es, total_sectors) \<Rightarrow> ((name, sector) # es, total_sectors))"

definition primary_identifier :: "string \<Rightarrow> string" where
  "primary_identifier name = map (\<lambda>c. if c = CHR ''-'' then CHR ''_'' else c) (upper name) @ '';1''"

definition root_directory :: "nat \<Rightarrow> (string \<Rightarrow> string) \<Rightarrow> (string \<times> string) list \<Rightarrow> (string \<times> nat) list \<Rightarrow> string" where
  "root_directory extent identifier files extents =
     directory_record [CHR 0x00] extent SECTOR True @ directory_record [CHR 0x01] extent SECTOR True
     @ concat (map (\<lambda>(record, name). directory_record record (the (map_of extents name)) (length (the (map_of files name))) False)
         (sort (map (\<lambda>(name, _). (identifier name, name)) files)))"

definition build_answer_iso :: "(string \<times> string) list \<Rightarrow> string" where
  "build_answer_iso given =
     (let files = sort_key fst given;
          (extents, total_sectors) = assign_extents 25 files;
          pts = length (path_table 0 False)
      in fold put_sector
          ([(16, volume_descriptor False total_sectors pts 19 20 23), (17, volume_descriptor True total_sectors pts 21 22 24),
            (18, [CHR 0xFF] @ ''CD001'' @ [CHR 0x01]),
            (19, path_table 23 False), (20, path_table 23 True), (21, path_table 24 False), (22, path_table 24 True),
            (23, root_directory 23 primary_identifier files extents), (24, root_directory 24 utf16_be files extents)]
           @ map (\<lambda>(name, content). (the (map_of extents name), content)) files)
          (zeros (total_sectors * SECTOR)))"

definition build_answer_media :: "string \<Rightarrow> string" where
  "build_answer_media xml = build_answer_iso [(ANSWER_FILE_NAME, xml), (FIRST_LOGON_SCRIPT_NAME, FIRST_LOGON_SCRIPT)]"

section \<open>A Joliet reader\<close>

definition le_value :: "string \<Rightarrow> nat" where
  "le_value s = foldr (\<lambda>c n. of_char c + 256 * n) s 0"

definition field :: "nat \<Rightarrow> nat \<Rightarrow> string \<Rightarrow> string" where
  "field i n s = take n (drop i s)"

text \<open>The records of a directory: identifier, first sector and length of each entry; a zero length byte ends it.\<close>

function read_records :: "string \<Rightarrow> (string \<times> nat \<times> nat) list" where
  "read_records s =
     (if length s < 33 \<or> of_char (hd s) < (33 :: nat) then []
      else (field 33 (of_char (s ! 32)) s, le_value (field 2 4 s), le_value (field 10 4 s)) # read_records (drop (of_char (hd s)) s))"
  by pat_completeness auto
termination by (relation "measure length") auto

declare read_records.simps [simp del]

definition read_joliet :: "string \<Rightarrow> string \<Rightarrow> string option" where
  "read_joliet img name =
     (let descriptor = field (17 * SECTOR) SECTOR img;
          root_record = field 156 34 descriptor;
          directory = field (le_value (field 2 4 root_record) * SECTOR) (le_value (field 10 4 root_record)) img
      in case find (\<lambda>(ident, _). ident = utf16_be name) (read_records directory) of
           None \<Rightarrow> None
         | Some (_, extent, len) \<Rightarrow> Some (field (extent * SECTOR) len img))"

section \<open>Reading fields back\<close>

lemma length_fields [simp]:
  "length (le_bytes n v) = n" "length (be_bytes n v) = n" "length (both16 v) = 4" "length (both32 v) = 8" "length (zeros n) = n"
  "length directory_date = 7" "length volume_date = 17" "length (utf16_be t) = 2 * length t"
proof -
  show "length (utf16_be t) = 2 * length t" by (induction t) (simp_all add: utf16_be_def)
qed (simp_all add: le_bytes_def be_bytes_def both16_def both32_def zeros_def directory_date_def volume_date_def)

lemma le_value_le_bytes: "le_value (le_bytes n v) = v mod 256 ^ n"
proof (induction n arbitrary: v)
  case (Suc n)
  have "le_bytes (Suc n) v = char_of v # le_bytes n (v div 256)"
    by (simp add: le_bytes_def upt_conv_Cons map_Suc_upt [symmetric] div_mult2_eq del: upt_Suc)
  then have "le_value (le_bytes (Suc n) v) = v mod 256 + 256 * (v div 256 mod 256 ^ n)"
    using Suc by (simp add: le_value_def)
  then show ?case by (simp add: mod_mult2_eq)
qed (simp add: le_value_def le_bytes_def)

lemma field_mid: "length a = i \<Longrightarrow> length b = n \<Longrightarrow> field i n (a @ b @ c) = b"
  by (simp add: field_def)

lemma length_directory_record:
  "length (directory_record ident e l d) = 33 + length ident + (if even (length ident) then 1 else 0)"
  by (simp add: directory_record_def Let_def)

lemma directory_record_layout:
  "directory_record ident e l d =
     [char_of (length (directory_record ident e l d)), CHR 0x00] @ le_bytes 4 e @ be_bytes 4 e @ le_bytes 4 l @ be_bytes 4 l
     @ directory_date @ [if d then CHR 0x02 else CHR 0x00] @ zeros 2 @ both16 1 @ [char_of (length ident)] @ ident
     @ (if even (length ident) then zeros 1 else [])"
  unfolding length_directory_record by (simp add: directory_record_def Let_def both32_def zeros_def)

lemma read_record:
  assumes "length ident \<le> 200" and "e < 2 ^ 32" and "l < 2 ^ 32"
  shows "read_records (directory_record ident e l d @ rest) = (ident, e, l) # read_records rest"
proof -
  let ?r = "directory_record ident e l d"
  let ?head = "[char_of (length ?r), CHR 0x00]" and ?e = "le_bytes 4 e" and ?l = "le_bytes 4 l"
  let ?mid = "be_bytes 4 l @ directory_date @ [if d then CHR 0x02 else CHR 0x00] @ zeros 2 @ both16 1"
  let ?n = "[char_of (length ident)]" and ?tail = "(if even (length ident) then zeros 1 else []) @ rest"
  have len: "33 \<le> length ?r" "length ?r < 256" using assms(1) by (simp_all add: length_directory_record)
  have parts: "?r @ rest = ?head @ ?e @ be_bytes 4 e @ ?l @ ?mid @ ?n @ ident @ ?tail"
    by (subst directory_record_layout) simp
  have h: "of_char (hd (?r @ rest)) = length ?r" unfolding parts using len by simp
  have e: "field 2 4 (?r @ rest) = ?e"
    unfolding parts by (rule field_mid) simp_all
  have l: "field 10 4 (?r @ rest) = ?l"
    using field_mid [of "?head @ ?e @ be_bytes 4 e" 10 ?l 4 "?mid @ ?n @ ident @ ?tail"] unfolding parts append_assoc by simp
  have "(A @ ?n @ B) ! 32 = char_of (length ident)" if "length A = 32" for A B
    using that by (simp add: nth_append)
  from this [of "?head @ ?e @ be_bytes 4 e @ ?l @ ?mid" "ident @ ?tail"]
  have n: "(?r @ rest) ! 32 = char_of (length ident)" unfolding parts append_assoc by simp
  have i: "field 33 (length ident) (?r @ rest) = ident"
    using field_mid [of "?head @ ?e @ be_bytes 4 e @ ?l @ ?mid @ ?n" 33 ident "length ident" ?tail] unfolding parts append_assoc by simp
  show ?thesis
    using len h e l n i assms by (subst read_records.simps) (simp add: le_value_le_bytes)
qed

lemma read_zeros: "read_records (zeros n) = []"
  by (subst read_records.simps) (cases n, simp_all add: zeros_def)

section \<open>Writing sectors\<close>

lemma length_put_at: "i + length p \<le> length img \<Longrightarrow> length (put_at i p img) = length img"
  by (simp add: put_at_def)

lemma field_put_same: "i + length p \<le> length img \<Longrightarrow> field i (length p) (put_at i p img) = p"
  by (simp add: put_at_def field_def)

lemma field_put_pad:
  assumes "length p \<le> n" and "i + n \<le> length img"
  shows "field i n (put_at i p img) = p @ drop (length p) (field i n img)"
  using assms by (simp add: put_at_def field_def drop_take add.commute)

lemma field_put_other:
  assumes "i + length p \<le> length img" and "j + n \<le> i \<or> i + length p \<le> j"
  shows "field j n (put_at i p img) = field j n img"
proof (cases "j + n \<le> i")
  case True
  then have "min n (i - j) = n" "n \<le> length img - j" "n \<le> i - j" using assms(1) by auto
  then show ?thesis by (simp add: put_at_def field_def drop_take)
next
  case False
  with assms show ?thesis by (simp add: put_at_def field_def)
qed

text \<open>Writes inside the image that do not touch a range keep it.\<close>

definition apart :: "nat \<Rightarrow> nat \<Rightarrow> nat \<Rightarrow> nat \<times> string \<Rightarrow> bool" where
  "apart bound j n ap \<longleftrightarrow> fst ap * SECTOR + length (snd ap) \<le> bound
     \<and> (j + n \<le> fst ap * SECTOR \<or> fst ap * SECTOR + length (snd ap) \<le> j)"

lemma fold_put_apart:
  "(\<forall>ap \<in> set ps. apart (length img) j n ap) \<Longrightarrow> field j n (fold put_sector ps img) = field j n img"
proof (induction ps arbitrary: img)
  case (Cons ap ps)
  then have "length (put_sector ap img) = length img" "field j n (put_sector ap img) = field j n img"
    by (auto simp: put_sector_def apart_def length_put_at field_put_other)
  with Cons show ?case by simp
qed simp

lemma length_fold_put:
  "(\<forall>ap \<in> set ps. fst ap * SECTOR + length (snd ap) \<le> length img) \<Longrightarrow> length (fold put_sector ps img) = length img"
  by (induction ps arbitrary: img) (auto simp: put_sector_def length_put_at)

lemma field_fold_here:
  assumes "ps = pre @ (a, p) # post"
    and "\<forall>ap \<in> set pre. apart (length img) (a * SECTOR) n ap" and "\<forall>ap \<in> set post. apart (length img) (a * SECTOR) n ap"
    and "length p \<le> n" and "a * SECTOR + n \<le> length img"
  shows "field (a * SECTOR) n (fold put_sector ps img) = p @ drop (length p) (field (a * SECTOR) n img)"
proof -
  let ?i0 = "fold put_sector pre img"
  have len: "length ?i0 = length img" using assms(2) by (intro length_fold_put) (auto simp: apart_def)
  have "length (put_sector (a, p) ?i0) = length img" using assms(4,5) len by (simp add: put_sector_def length_put_at)
  then have "field (a * SECTOR) n (fold put_sector ps img) = field (a * SECTOR) n (put_sector (a, p) ?i0)"
    using assms(1,3) by (simp add: fold_put_apart)
  then show ?thesis
    using assms(4,5) len fold_put_apart [OF assms(2)] by (simp add: put_sector_def field_put_pad)
qed

lemma field_fold_exact:
  assumes "ps = pre @ (a, p) # post" and "length p = n"
    and "\<forall>ap \<in> set pre. apart (length img) (a * SECTOR) n ap" and "\<forall>ap \<in> set post. apart (length img) (a * SECTOR) n ap"
    and "a * SECTOR + n \<le> length img"
  shows "field (a * SECTOR) n (fold put_sector ps img) = p"
  using field_fold_here [OF assms(1,3,4) _ assms(5)] assms(2) by (simp add: field_def)

section \<open>The answer CD reads back\<close>

lemma length_descriptor_identifier [simp]: "length v \<le> n \<Longrightarrow> length (descriptor_identifier joliet v n) = n"
  by (cases "n = 0") (auto simp: descriptor_identifier_def length_concat sum_list_replicate min_def)

lemma descriptor_layout:
  "\<exists>a b. length a = 156 \<and> length b = SECTOR - 190
     \<and> volume_descriptor joliet t pts l m r = a @ directory_record [CHR 0x00] r SECTOR True @ b"
proof -
  let ?a = "[if joliet then CHR 0x02 else CHR 0x01] @ ''CD001'' @ [CHR 0x01] @ zeros 1
        @ descriptor_identifier joliet [] 32 @ descriptor_identifier joliet VOLUME_ID 32 @ zeros 8 @ both32 t
        @ (if joliet then ''%/E'' else zeros 3) @ zeros 29 @ both16 1 @ both16 1 @ both16 SECTOR @ both32 pts
        @ le_bytes 4 l @ zeros 4 @ be_bytes 4 m @ zeros 4"
  let ?b = "concat (map (descriptor_identifier joliet []) [128, 128, 128, 128, 37, 37, 37])
        @ volume_date @ volume_date @ replicate 16 (CHR ''0'') @ zeros 1 @ volume_date @ [CHR 0x01]"
  let ?f = "?a @ directory_record [CHR 0x00] r SECTOR True @ ?b"
  have v: "length VOLUME_ID = 15" by (simp add: VOLUME_ID_def)
  have i: "length (descriptor_identifier joliet VOLUME_ID 32) = 32" by (rule length_descriptor_identifier) (simp add: v)
  have "length (if joliet then ''%/E'' else zeros 3) = 3" by simp
  with i have a: "length ?a = 156" by (simp split del: if_split)
  have b: "length ?b = 692" by simp
  have len3: "length (x @ y @ z) = length x + length y + length z" for x y z :: string by simp
  have f: "length ?f = 882" by (subst len3, subst a, subst b) (simp add: length_directory_record)
  have "volume_descriptor joliet t pts l m r = ?f @ zeros (SECTOR - length ?f)"
    by (simp only: volume_descriptor_def Let_def append_assoc)
  then have "volume_descriptor joliet t pts l m r = ?a @ directory_record [CHR 0x00] r SECTOR True @ (?b @ zeros (SECTOR - 882))"
    unfolding f by (simp only: append_assoc)
  moreover have "length (?b @ zeros (SECTOR - 882)) = SECTOR - 190" by (subst length_append, subst b) (simp add: SECTOR_def)
  ultimately show ?thesis using a by blast
qed

lemma length_volume_descriptor [simp]: "length (volume_descriptor joliet t pts l m r) = SECTOR"
  using descriptor_layout [of joliet t pts l m r] by (auto simp: length_directory_record SECTOR_def)

lemma descriptor_root:
  assumes "r < 2 ^ 32"
  shows "field 156 34 (volume_descriptor joliet t pts l m r) = directory_record [CHR 0x00] r SECTOR True"
  using descriptor_layout [of joliet t pts l m r] by (auto intro!: field_mid simp: length_directory_record)

lemma record_fields:
  assumes "e < 2 ^ 32" and "l < 2 ^ 32"
  shows "le_value (field 2 4 (directory_record ident e l d)) = e" "le_value (field 10 4 (directory_record ident e l d)) = l"
proof -
  have "field 2 4 (directory_record ident e l d) = le_bytes 4 e"
    by (subst directory_record_layout, rule field_mid) simp_all
  then show "le_value (field 2 4 (directory_record ident e l d)) = e" using assms by (simp add: le_value_le_bytes)
  have "field 10 4 (directory_record ident e l d) = le_bytes 4 l"
    by (subst directory_record_layout)
      (use field_mid [of "[char_of (length (directory_record ident e l d)), CHR 0x00] @ le_bytes 4 e @ be_bytes 4 e" 10 "le_bytes 4 l" 4] in simp)
  then show "le_value (field 10 4 (directory_record ident e l d)) = l" using assms by (simp add: le_value_le_bytes)
qed

lemma sectors_of_bound: "length content \<le> sectors_of content * SECTOR"
proof -
  let ?n = "length content + 2047"
  have "?n div 2048 * 2048 + ?n mod 2048 = ?n" "?n mod 2048 < 2048" by simp_all
  then have "length content \<le> ?n div 2048 * 2048" by linarith
  also have "\<dots> \<le> max 1 (?n div 2048) * 2048" by simp
  finally show ?thesis by (simp add: sectors_of_def SECTOR_def)
qed

lemma media_files_sorted:
  "sort_key fst [(ANSWER_FILE_NAME, xml), (FIRST_LOGON_SCRIPT_NAME, script_text)] = [(ANSWER_FILE_NAME, xml), (FIRST_LOGON_SCRIPT_NAME, script_text)]"
  "sort [(utf16_be ANSWER_FILE_NAME, ANSWER_FILE_NAME), (utf16_be FIRST_LOGON_SCRIPT_NAME, FIRST_LOGON_SCRIPT_NAME)]
     = [(utf16_be ANSWER_FILE_NAME, ANSWER_FILE_NAME), (utf16_be FIRST_LOGON_SCRIPT_NAME, FIRST_LOGON_SCRIPT_NAME)]"
  "length ANSWER_FILE_NAME = 16" "length FIRST_LOGON_SCRIPT_NAME = 23" "ANSWER_FILE_NAME \<noteq> FIRST_LOGON_SCRIPT_NAME"
  "utf16_be ANSWER_FILE_NAME \<noteq> utf16_be FIRST_LOGON_SCRIPT_NAME"
proof -
  have lt: "ANSWER_FILE_NAME < FIRST_LOGON_SCRIPT_NAME" by code_simp
  then show "sort_key fst [(ANSWER_FILE_NAME, xml), (FIRST_LOGON_SCRIPT_NAME, script_text)] = [(ANSWER_FILE_NAME, xml), (FIRST_LOGON_SCRIPT_NAME, script_text)]"
    by (simp add: less_imp_le)
  show "sort [(utf16_be ANSWER_FILE_NAME, ANSWER_FILE_NAME), (utf16_be FIRST_LOGON_SCRIPT_NAME, FIRST_LOGON_SCRIPT_NAME)]
     = [(utf16_be ANSWER_FILE_NAME, ANSWER_FILE_NAME), (utf16_be FIRST_LOGON_SCRIPT_NAME, FIRST_LOGON_SCRIPT_NAME)]" by code_simp
qed code_simp+

lemma media_image:
  fixes xml :: string
  defines "e \<equiv> 25 + sectors_of xml" and "files \<equiv> [(ANSWER_FILE_NAME, xml), (FIRST_LOGON_SCRIPT_NAME, FIRST_LOGON_SCRIPT)]"
  defines "total_sectors \<equiv> e + sectors_of FIRST_LOGON_SCRIPT"
  defines "extents \<equiv> [(ANSWER_FILE_NAME, 25 :: nat), (FIRST_LOGON_SCRIPT_NAME, e)]"
  defines "joliet \<equiv> directory_record [CHR 0x00] 24 SECTOR True @ directory_record [CHR 0x01] 24 SECTOR True
     @ directory_record (utf16_be ANSWER_FILE_NAME) 25 (length xml) False
     @ directory_record (utf16_be FIRST_LOGON_SCRIPT_NAME) e (length FIRST_LOGON_SCRIPT) False"
  shows "field (17 * SECTOR) SECTOR (build_answer_media xml) = volume_descriptor True total_sectors 10 21 22 24"
    and "field (24 * SECTOR) SECTOR (build_answer_media xml) = joliet @ zeros (SECTOR - length joliet)"
    and "field (25 * SECTOR) (length xml) (build_answer_media xml) = xml"
    and "field (e * SECTOR) (length FIRST_LOGON_SCRIPT) (build_answer_media xml) = FIRST_LOGON_SCRIPT"
proof -
  let ?d1 = "volume_descriptor False total_sectors 10 19 20 23" and ?d2 = "volume_descriptor True total_sectors 10 21 22 24"
  let ?tables = "[(18, [CHR 0xFF] @ ''CD001'' @ [CHR 0x01]), (19, path_table 23 False), (20, path_table 23 True), (21, path_table 24 False), (22, path_table 24 True)]"
  let ?p = "root_directory 23 primary_identifier files extents" and ?z = "zeros (total_sectors * SECTOR)"
  have tables: "length (path_table r b) = 10" for r b by (simp add: path_table_def Let_def)
  have j: "root_directory 24 utf16_be files extents = joliet"
    using media_files_sorted(2,5) by (simp add: root_directory_def files_def extents_def joliet_def)
  have lj: "length joliet \<le> SECTOR" by (simp add: joliet_def length_directory_record media_files_sorted SECTOR_def)
  have prim: "length (primary_identifier n) = length n + 2" for n by (simp add: primary_identifier_def upper_def)
  have lp: "length ?p \<le> SECTOR"
    using media_files_sorted(3,4)
    by (auto simp: root_directory_def files_def length_directory_record prim SECTOR_def insort_key.simps)
  have img: "build_answer_media xml = fold put_sector
      ([(16, ?d1), (17, ?d2)] @ ?tables @ [(23, ?p), (24, joliet), (25, xml), (e, FIRST_LOGON_SCRIPT)]) ?z"
  proof -
    have sorted: "sort_key fst files = files" unfolding files_def by (rule media_files_sorted(1))
    have ext: "assign_extents 25 files = (extents, total_sectors)" by (simp add: files_def extents_def total_sectors_def e_def)
    have contents: "map (\<lambda>(name, content). (the (map_of extents name), content)) files = [(25, xml), (e, FIRST_LOGON_SCRIPT)]"
      using media_files_sorted(5) by (simp add: files_def extents_def)
    show ?thesis
      unfolding build_answer_media_def build_answer_iso_def files_def [symmetric]
      by (simp only: sorted ext contents j tables Let_def prod.case append.simps)
  qed
  have bounds: "length xml \<le> sectors_of xml * SECTOR" "length FIRST_LOGON_SCRIPT \<le> sectors_of FIRST_LOGON_SCRIPT * SECTOR"
    by (rule sectors_of_bound)+
  note facts = apart_def tables total_sectors_def e_def algebra_simps SECTOR_def
  have zero: "field i n ?z = zeros n" if "i + n \<le> length ?z" for i n
    using that by (simp add: field_def zeros_def)
  show "field (17 * SECTOR) SECTOR (build_answer_media xml) = ?d2"
    unfolding img by (rule field_fold_exact [where pre = "[(16, ?d1)]" and post = "?tables @ [(23, ?p), (24, joliet), (25, xml), (e, FIRST_LOGON_SCRIPT)]"])
      (use lp lj bounds in \<open>simp_all add: facts\<close>)
  have "field (24 * SECTOR) SECTOR (build_answer_media xml) = joliet @ drop (length joliet) (field (24 * SECTOR) SECTOR ?z)"
    unfolding img by (rule field_fold_here [where pre = "[(16, ?d1), (17, ?d2)] @ ?tables @ [(23, ?p)]" and post = "[(25, xml), (e, FIRST_LOGON_SCRIPT)]"])
      (use lp lj bounds in \<open>simp_all add: facts\<close>)
  moreover have "field (24 * SECTOR) SECTOR ?z = zeros SECTOR" by (rule zero) (simp add: facts)
  ultimately show "field (24 * SECTOR) SECTOR (build_answer_media xml) = joliet @ zeros (SECTOR - length joliet)"
    by (simp add: zeros_def)
  show "field (25 * SECTOR) (length xml) (build_answer_media xml) = xml"
    unfolding img by (rule field_fold_exact [where pre = "[(16, ?d1), (17, ?d2)] @ ?tables @ [(23, ?p), (24, joliet)]" and post = "[(e, FIRST_LOGON_SCRIPT)]"])
      (use lp lj bounds in \<open>simp_all add: facts\<close>)
  show "field (e * SECTOR) (length FIRST_LOGON_SCRIPT) (build_answer_media xml) = FIRST_LOGON_SCRIPT"
    unfolding img by (rule field_fold_exact [where pre = "[(16, ?d1), (17, ?d2)] @ ?tables @ [(23, ?p), (24, joliet), (25, xml)]" and post = "[]"])
      (use lp lj bounds in \<open>simp_all add: facts\<close>)
qed

text \<open>
  C18. The answer CD holds what Windows Setup looks for: a reader of its Joliet tree finds the answer file and the first-logon
  script under their exact names, with exactly the bytes put on it, for every answer file of less than two gigabytes.
\<close>

theorem answer_media_reads_back:
  assumes "length xml < 2 ^ 31"
  shows "read_joliet (build_answer_media xml) ANSWER_FILE_NAME = Some xml
    \<and> read_joliet (build_answer_media xml) FIRST_LOGON_SCRIPT_NAME = Some FIRST_LOGON_SCRIPT"
proof -
  let ?e = "25 + sectors_of xml" and ?img = "build_answer_media xml"
  let ?a = "directory_record (utf16_be ANSWER_FILE_NAME) 25 (length xml) False"
    and ?f = "directory_record (utf16_be FIRST_LOGON_SCRIPT_NAME) ?e (length FIRST_LOGON_SCRIPT) False"
    and ?dot = "directory_record [CHR 0x00] 24 SECTOR True" and ?dotdot = "directory_record [CHR 0x01] 24 SECTOR True"
  note image = media_image [of xml]
  have "sectors_of xml \<le> length xml div SECTOR + 1"
    unfolding sectors_of_def SECTOR_def by simp
  then have e: "?e < 2 ^ 32" using assms by (simp add: SECTOR_def)
  have "length FIRST_LOGON_SCRIPT \<le> 4000" by code_simp
  then have s: "length FIRST_LOGON_SCRIPT < 2 ^ 32" by simp
  have S: "SECTOR < 2 ^ 32" by (simp add: SECTOR_def)
  have entries: "read_records (?dot @ ?dotdot @ ?a @ ?f @ zeros n)
      = [([CHR 0x00], 24, SECTOR), ([CHR 0x01], 24, SECTOR), (utf16_be ANSWER_FILE_NAME, 25, length xml),
         (utf16_be FIRST_LOGON_SCRIPT_NAME, ?e, length FIRST_LOGON_SCRIPT)]" for n
    using assms e s S by (simp add: read_record read_zeros media_files_sorted(3,4))
  have wide: "length (utf16_be ANSWER_FILE_NAME) = 32" "length (utf16_be FIRST_LOGON_SCRIPT_NAME) = 46"
    by (simp_all add: media_files_sorted(3,4))
  have short: "utf16_be ANSWER_FILE_NAME \<noteq> [c]" "utf16_be FIRST_LOGON_SCRIPT_NAME \<noteq> [c]" for c
    using wide by (auto simp del: length_fields)
  show ?thesis
    unfolding read_joliet_def Let_def image(1) descriptor_root [of 24, simplified]
    using record_fields [of 24 SECTOR "[CHR 0x00]" True] S image(2-4) entries short short [symmetric] media_files_sorted(6)
    by simp
qed

theorem answer_media_reads_back_witness:
  "read_joliet (build_answer_media ''<unattend />'') ANSWER_FILE_NAME = Some ''<unattend />''"
  using answer_media_reads_back [of "''<unattend />''"] by simp

end
