(* ===== verification/Pipeline.thy ===== *)
theory Pipeline
  imports Run_Context Py_Text
begin

text \<open>
  \<^verbatim>\<open>ProvisioningPipeline\<close> of \<^verbatim>\<open>workers/pipeline.py\<close>: the loop over the ordered stages with resume and
  cancellation, the execution of one stage with its failure paths, and the three terminal
  transitions. The stage handlers are the table \<open>stage_handlers\<close> of the environment; the theorems hold
  for every table, or name what they need of it. The lemmas show in which terminal status a run
  ends, what it leaves in the step rows, and that finished work is never repeated.
\<close>

section \<open>Terminal transitions\<close>

definition quoted :: "string \<Rightarrow> string" where
  "quoted s = [CHR 0x27] @ s @ [CHR 0x27]"

definition set_duration :: "timestamp \<Rightarrow> ProvisioningJob \<Rightarrow> ProvisioningJob" where
  "set_duration finished j =
     (case started_at j of
        None \<Rightarrow> j
      | Some started \<Rightarrow> j\<lparr>duration_seconds := Some (total_seconds (finished - started))\<rparr>)"

definition stop_open_steps :: "timestamp \<Rightarrow> ProvisioningJob \<Rightarrow> ProvisioningJob" where
  "stop_open_steps finished j =
     j\<lparr>steps := map (\<lambda>s. if step_status s \<in> {S_PENDING, S_RUNNING}
                          then s\<lparr>step_status := S_CANCELLED, step_finished_at := Some finished\<rparr> else s) (steps j)\<rparr>"

definition cancelled_row :: "timestamp \<Rightarrow> ProvisioningJob \<Rightarrow> ProvisioningJob" where
  "cancelled_row finished j =
     (let j1 = set_duration finished
                 ((stop_open_steps finished j)\<lparr>job_status := J_CANCELLED, finished_at := Some finished\<rparr>)
      in j1\<lparr>progress := compute_progress j1\<rparr>)"

definition apply_cancellation ::
  "('w, 'z) pipeline_env_scheme \<Rightarrow> 'w JobRunContext \<Rightarrow> 'w JobRunContext" where
  "apply_cancellation env c =
     (let (finished, c0) = utcnow env c;
          c1 = snd (release_unattended_media env ''job cancelled'' c0);
          c2 = count_job J_CANCELLED (map_job (cancelled_row finished) c1);
          c3 = audit ''JOB_CANCELLED'' (job_audit_args c2 ''virtual_machine'' (vm_name c2) ''cancelled'') c2
      in publish_stage (current_stage (job c3)) ''CANCELLED'' (progress (job c3))
           ''Provisioning cancelled by user request.'' c3)"

definition completed_row :: "timestamp \<Rightarrow> ProvisioningJob \<Rightarrow> ProvisioningJob" where
  "completed_row finished j =
     set_duration finished
       (j\<lparr>job_status := J_COMPLETED, error_summary := None, error_detail := None,
          finished_at := Some finished, progress := 100, current_stage := Some ''final_validation''\<rparr>)"

definition summary_artifact :: "ProvisioningJob \<Rightarrow> json_dict" where
  "summary_artifact j =
     (case step_of ''final_validation'' j of
        None \<Rightarrow> []
      | Some s \<Rightarrow> (case map_of (artifacts s) ''summary'' of Some (JObj kvs) \<Rightarrow> kvs | _ \<Rightarrow> []))"

definition checks_passed :: "ProvisioningJob \<Rightarrow> nat" where
  "checks_passed j =
     (case step_of ''final_validation'' j of
        None \<Rightarrow> 0
      | Some s \<Rightarrow>
          (case map_of (artifacts s) ''checklist'' of
             Some (JList items) \<Rightarrow>
               length (filter (\<lambda>item. case item of
                   JObj kvs \<Rightarrow> map_of kvs ''status'' = Some (JStr ''PASS'') | _ \<Rightarrow> False) items)
           | _ \<Rightarrow> 0))"

text \<open>
  The exception that reading the artifacts of the final step raises when they have another shape than
  \<^verbatim>\<open>stage_final_validation\<close> gives them; the completion is then not committed (see \<open>execute_job\<close>). \<open>finalize_success\<close>
  is the completion when they can be read.
\<close>

definition final_artifacts_error :: "ProvisioningJob \<Rightarrow> string option" where
  "final_artifacts_error j =
     (case step_of ''final_validation'' j of
        None \<Rightarrow> None
      | Some s \<Rightarrow>
          if json_items (dict_get (artifacts s) ''checklist'' (JList [])) = None then Some ''TypeError''
          else case dict_get (artifacts s) ''summary'' (JObj []) of
            JObj kvs \<Rightarrow> None
          | _ \<Rightarrow> Some ''AttributeError'')"

definition observe_duration :: "'w JobRunContext \<Rightarrow> 'w JobRunContext" where
  "observe_duration c =
     (case duration_seconds (job c) of
        None \<Rightarrow> c
      | Some d \<Rightarrow> if d = 0 then c else
          c\<lparr>metrics := (metrics c)\<lparr>job_duration_seconds :=
              observe d [(''job_type'', ''vm_provisioning'')] (job_duration_seconds (metrics c))\<rparr>\<rparr>)"

definition json_or_null :: "json_dict \<Rightarrow> string \<Rightarrow> json" where
  "json_or_null d k = dict_get d k JNull"

definition finalize_success ::
  "('w, 'z) pipeline_env_scheme \<Rightarrow> 'w JobRunContext \<Rightarrow> 'w JobRunContext" where
  "finalize_success env c =
     (let (finished, c0) = utcnow env c;
          c1 = map_job (completed_row finished) c0;
          summary = summary_artifact (job c1);
          c2 = notify JOB_COMPLETED (completed_message (job c1) summary (checks_passed (job c1))) c1;
          c3 = observe_duration (count_job J_COMPLETED c2);
          fqdn = summary_text summary ''fqdn'';
          c4 = audit ''JOB_COMPLETED''
                 ((job_audit_args c3 ''virtual_machine'' (vm_name c3) ''success'')
                    \<lparr>au_details :=
                       [(''computer_name'', json_or_null summary ''computer_name''),
                        (''duration_seconds'', case duration_seconds (job c3) of None \<Rightarrow> JNull | Some d \<Rightarrow> JFloat d),
                        (''fqdn'', json_or_null summary ''fqdn'')],
                     au_detail_text := Some (''Provisioned '' @ quoted (if fqdn \<noteq> [] then fqdn else vm_name c3)
                       @ '' successfully.'')\<rparr>) c3;
          ip = summary_text summary ''ip_address''
      in publish_stage (Some ''final_validation'') ''COMPLETED'' 100
           (''Successfully provisioned '' @ vm_name c4 @ (if ip \<noteq> [] then '' ('' @ ip @ '')'' else [])) c4)"

section \<open>The failure path\<close>

definition vm_created :: "ProvisioningJob \<Rightarrow> bool" where
  "vm_created j = (case status_of ''create_vm'' j of None \<Rightarrow> False | Some s \<Rightarrow> s \<in> {S_SUCCEEDED, S_SKIPPED})"

definition attach_console_screenshot ::
  "('w, 'z) pipeline_env_scheme \<Rightarrow> string \<Rightarrow> 'w JobRunContext \<Rightarrow> 'w JobRunContext" where
  "attach_console_screenshot env key c =
     (case require_vm_id c of
        (Inl e, c1) \<Rightarrow> c1
      | (Inr vm, c1) \<Rightarrow>
          (case capture_screenshot env vm (world c1) of
             (None, w) \<Rightarrow> c1\<lparr>world := w\<rparr>
           | (Some path, w) \<Rightarrow>
               map_job (update_step key (\<lambda>s.
                 s\<lparr>artifacts := dict_update (artifacts s) [(''console_screenshot'', JStr path)],
                   error_technical := Some (strip ((case error_technical s of None \<Rightarrow> [] | Some t \<Rightarrow> t)
                     @ nl @ nl @ ''Console screenshot at failure: '' @ path))\<rparr>)) (c1\<lparr>world := w\<rparr>)))"

definition failed_step :: "StageDefinition \<Rightarrow> InfraOperationError \<Rightarrow> timestamp \<Rightarrow> ProvisioningJobStep \<Rightarrow> ProvisioningJobStep" where
  "failed_step stg failure finished s =
     s\<lparr>step_status := S_FAILED, step_finished_at := Some finished,
       step_retryable := retryable failure \<and> sd_retryable stg,
       error_human := Some (human_message failure @ nl @ nl @ ''Reason:'' @ nl @ reason failure @ nl @ nl
         @ ''Recommended action:'' @ nl @ recommended_action failure),
       error_technical := Some (technical_detail failure)\<rparr>"

definition lifecycle_after_failure :: "string \<Rightarrow> ProvisioningJob \<Rightarrow> ProvisioningJob" where
  "lifecycle_after_failure key j =
     (if key \<in> {''create_vm'', ''configure_hardware'', ''attach_network_adapter''}
      then j\<lparr>infrastructure_status := IS_FAILED\<rparr>
      else if key = ''wait_for_guest_os''
      then j\<lparr>guest_os_status := GO_ERROR, guest_provisioning_status := GP_FAILED\<rparr>
      else if key = ''wait_for_tools''
      then j\<lparr>vmware_tools_status := VT_ERROR, guest_provisioning_status := GP_FAILED\<rparr>
      else if key \<in> {''add_data_disks'', ''initialize_data_disks'', ''configure_guest_network'', ''validate_network'',
                     ''configure_hostname'', ''join_domain'', ''reboot_guest'', ''wait_guest_ready''}
      then j\<lparr>guest_provisioning_status := GP_FAILED\<rparr>
      else j)"

definition failed_row ::
  "StageDefinition \<Rightarrow> InfraOperationError \<Rightarrow> timestamp \<Rightarrow> bool \<Rightarrow> ProvisioningJob \<Rightarrow> ProvisioningJob" where
  "failed_row stg failure finished created j =
     (let technical = (case step_of (sd_key stg) j of
                         None \<Rightarrow> [] | Some s \<Rightarrow> (case error_technical s of None \<Rightarrow> [] | Some t \<Rightarrow> t));
          j1 = lifecycle_after_failure (sd_key stg)
                 (j\<lparr>job_status := (if created then J_PARTIALLY_COMPLETED else J_FAILED)\<rparr>);
          j2 = set_duration finished
                 (j1\<lparr>error_summary := Some (human_message failure),
                     error_detail := Some (take 6000 (human_message failure @ nl @ ''Reason: '' @ reason failure @ nl
                       @ ''Recommended action: '' @ recommended_action failure @ nl @ nl
                       @ ''Technical detail:'' @ nl @ technical)),
                     current_stage := Some (sd_key stg), finished_at := Some finished\<rparr>)
      in j2\<lparr>progress := compute_progress j2\<rparr>)"

definition count_stage_failure :: "string \<Rightarrow> 'w JobRunContext \<Rightarrow> 'w JobRunContext" where
  "count_stage_failure key c =
     c\<lparr>metrics := (metrics c)\<lparr>stage_failures_total := inc 1 [(''stage'', key)] (stage_failures_total (metrics c))\<rparr>\<rparr>"

definition attempt_of :: "string \<Rightarrow> ProvisioningJob \<Rightarrow> nat" where
  "attempt_of key j = (case step_of key j of None \<Rightarrow> 0 | Some s \<Rightarrow> attempt s)"

definition handle_failure ::
  "('w, 'z) pipeline_env_scheme \<Rightarrow> StageDefinition \<Rightarrow> InfraOperationError \<Rightarrow> timestamp
     \<Rightarrow> 'w JobRunContext \<Rightarrow> 'w JobRunContext" where
  "handle_failure env stg failure finished c =
     (let key = sd_key stg;
          c1 = map_job (update_step key (failed_step stg failure finished)) c;
          created = vm_created (job c1);
          c2 = (if created \<and> key \<in> CONSOLE_STAGES then attach_console_screenshot env key c1 else c1);
          c3 = map_job (failed_row stg failure finished created) c2;
          c4 = count_job (job_status (job c3)) (count_stage_failure key c3);
          c5 = snd (release_unattended_media env (''stage '' @ quoted key @ '' failed'') c4);
          c6 = notify JOB_FAILED
                 (failed_message (job c5) (sd_name stg) (human_message failure @ '' '' @ reason failure)) c5;
          c7 = audit ''JOB_STAGE_FAILED''
                 ((job_audit_args c6 ''provisioning_stage'' (sd_name stg) ''failure'')
                    \<lparr>au_details := [(''stage'', JStr key), (''attempt'', JInt (int (attempt_of key (job c6))))],
                     au_detail_text := Some (error_report failure)\<rparr>) c6
      in publish_stage (Some key) ''FAILED'' (progress (job c7)) (human_message failure) c7)"

section \<open>One stage\<close>

definition started_step :: "timestamp \<Rightarrow> ProvisioningJobStep \<Rightarrow> ProvisioningJobStep" where
  "started_step now s =
     s\<lparr>step_status := S_RUNNING, attempt := attempt s + 1, step_started_at := Some now,
       error_human := None, error_technical := None\<rparr>"

definition start_stage :: "timestamp \<Rightarrow> string \<Rightarrow> ProvisioningJob \<Rightarrow> ProvisioningJob" where
  "start_stage now key j =
     (let j1 = (update_step key (started_step now) j)\<lparr>current_stage := Some key\<rparr>
      in j1\<lparr>progress := compute_progress j1\<rparr>)"

definition step_status_of_outcome :: "string \<Rightarrow> StepStatus" where
  "step_status_of_outcome s =
     dict_get [(''SUCCEEDED'', S_SUCCEEDED), (''SKIPPED'', S_SKIPPED), (''WARNING'', S_WARNING),
       (''NOT_APPLICABLE'', S_NOT_APPLICABLE)] s S_SUCCEEDED"

definition finished_step :: "StageOutcome \<Rightarrow> timestamp \<Rightarrow> ProvisioningJobStep \<Rightarrow> ProvisioningJobStep" where
  "finished_step out finished s =
     s\<lparr>step_status := step_status_of_outcome (outcome_status out), step_finished_at := Some finished,
       step_output := Some (take 8000 (outcome_output out)),
       artifacts := (if outcome_artifacts out = [] then artifacts s
                     else dict_update (artifacts s) (outcome_artifacts out))\<rparr>"

definition finish_stage :: "StageOutcome \<Rightarrow> timestamp \<Rightarrow> string \<Rightarrow> ProvisioningJob \<Rightarrow> ProvisioningJob" where
  "finish_stage out finished key j =
     (let j1 = update_step key (finished_step out finished) j in j1\<lparr>progress := compute_progress j1\<rparr>)"

text \<open>The failures \<^verbatim>\<open>_run_stage\<close> makes itself.\<close>

definition no_handler_error :: "string \<Rightarrow> InfraOperationError" where
  "no_handler_error key =
     \<lparr>human_message = ''Stage '' @ quoted key @ '' has no registered handler.'',
      reason = ''Internal pipeline misconfiguration.'',
      recommended_action = ''Report this incident to the platform administrators.'',
      technical_detail = [], retryable = False\<rparr>"

definition timeout_error :: "string \<Rightarrow> rat \<Rightarrow> InfraOperationError" where
  "timeout_error name timeout =
     \<lparr>human_message = quoted name @ '' exceeded its '' @ int_text (py_int timeout) @ '' second timeout.'',
      reason = ''The operation did not complete within the configured time limit.'',
      recommended_action = ''Retry the '' @ quoted name @ '' stage; increase the timeout in Settings if needed.'',
      technical_detail = ''timeout_seconds='' @ float_repr timeout, retryable = True\<rparr>"

definition unexpected_error :: "string \<Rightarrow> string \<Rightarrow> InfraOperationError" where
  "unexpected_error name traceback =
     \<lparr>human_message = quoted name @ '' failed unexpectedly.'',
      reason = ''An unexpected internal error interrupted the stage.'',
      recommended_action = ''Review the technical details and retry the stage.'',
      technical_detail = last_chars 4000 traceback, retryable = True\<rparr>"

text \<open>
  \<^verbatim>\<open>_run_handler\<close>: \<open>Inl\<close> is \<^verbatim>\<open>_StageCancelled\<close>, raised when the cancel event wins the race against the
  handler; a missing handler is the error raised before the handler would start.
\<close>

definition run_handler ::
  "('w, 'z) pipeline_env_scheme \<Rightarrow> string \<Rightarrow> rat \<Rightarrow> 'w JobRunContext
     \<Rightarrow> (unit + handler_result) \<times> 'w JobRunContext" where
  "run_handler env key timeout c =
     (case stage_handlers env key of
        None \<Rightarrow> (Inr (Raised (no_handler_error key)), c)
      | Some handler \<Rightarrow>
          (case cancelled_first env key c of
             Some c' \<Rightarrow> (Inl (), c')
           | None \<Rightarrow> (case handler timeout c of (r, c') \<Rightarrow> (Inr r, c'))))"

definition failure_of :: "StageDefinition \<Rightarrow> rat \<Rightarrow> handler_result \<Rightarrow> InfraOperationError + StageOutcome" where
  "failure_of stg timeout r =
     (case r of
        Returned out \<Rightarrow> Inr out
      | TimedOut \<Rightarrow> Inl (timeout_error (sd_name stg) timeout)
      | Raised e \<Rightarrow> Inl e
      | Crashed tb \<Rightarrow> Inl (unexpected_error (sd_name stg) tb))"

definition stage_message :: "StageDefinition \<Rightarrow> StageOutcome \<Rightarrow> string" where
  "stage_message stg out =
     (if outcome_output out \<noteq> [] then take 200 (hd (splitlines (outcome_output out))) else sd_name stg)"

definition publish :: "string \<Rightarrow> string \<Rightarrow> 'w JobRunContext \<Rightarrow> 'w JobRunContext" where
  "publish status message c = publish_stage (current_stage (job c)) status (progress (job c)) message c"

definition cancel_running_step :: "timestamp \<Rightarrow> ProvisioningJobStep \<Rightarrow> ProvisioningJobStep" where
  "cancel_running_step now s =
     s\<lparr>step_status := S_CANCELLED, step_finished_at := Some now,
       step_output := Some ''Cancelled by user request while running.''\<rparr>"

definition run_stage ::
  "('w, 'z) pipeline_env_scheme \<Rightarrow> StageDefinition \<Rightarrow> 'w JobRunContext \<Rightarrow> 'w JobRunContext" where
  "run_stage env stg c =
     (let key = sd_key stg;
          (started, c0) = utcnow env c;
          c1 = publish ''RUNNING'' (''Started: '' @ sd_name stg) (map_job (start_stage started key) c0);
          timeout = effective_timeout_seconds (settings_rows env) key
      in case run_handler env key timeout c1 of
        (Inl _, c2) \<Rightarrow>
          (case utcnow env c2 of
             (now, c3) \<Rightarrow> apply_cancellation env (map_job (update_step key (cancel_running_step now)) c3))
      | (Inr r, c2) \<Rightarrow>
          (case utcnow env c2 of
             (finished, c3) \<Rightarrow>
               (case failure_of stg timeout r of
                  Inl failure \<Rightarrow> handle_failure env stg failure finished c3
                | Inr out \<Rightarrow>
                    publish (step_status_value (step_status_of_outcome (outcome_status out)))
                      (stage_message stg out) (map_job (finish_stage out finished key) c3))))"

section \<open>The pipeline\<close>

definition stage_done :: "StepStatus \<Rightarrow> bool" where
  "stage_done s = (s \<in> {S_SUCCEEDED, S_SKIPPED, S_WARNING, S_NOT_APPLICABLE})"

fun execute_stages ::
  "('w, 'z) pipeline_env_scheme \<Rightarrow> StageDefinition list \<Rightarrow> 'w JobRunContext \<Rightarrow> 'w JobRunContext" where
  "execute_stages env [] c = finalize_success env c"
| "execute_stages env (stg # stgs) c =
     (case status_of (sd_key stg) (job c) of
        None \<Rightarrow> execute_stages env stgs c
      | Some s \<Rightarrow>
          if stage_done s then execute_stages env stgs c
          else let c1 = map_job (\<lambda>j. j\<lparr>cancel_requested := cancel_seen env (sd_key stg)\<rparr>) c in
            if cancel_requested (job c1) then apply_cancellation env c1
            else let c2 = run_stage env stg c1 in
              if status_of (sd_key stg) (job c2) = Some S_FAILED then c2
              else execute_stages env stgs c2)"

definition execute :: "('w, 'z) pipeline_env_scheme \<Rightarrow> 'w JobRunContext \<Rightarrow> 'w JobRunContext" where
  "execute env c = execute_stages env ORDERED_STAGES c"

section \<open>What the transitions write\<close>

lemma set_duration_fields [simp, frame]:
  "job_status (set_duration t j) = job_status j" "job_id (set_duration t j) = job_id j"
  "steps (set_duration t j) = steps j" "progress (set_duration t j) = progress j"
  "finished_at (set_duration t j) = finished_at j"
  by (simp_all add: set_duration_def split: option.splits)

lemma lifecycle_fields [simp, frame]:
  "job_status (lifecycle_after_failure k j) = job_status j" "job_id (lifecycle_after_failure k j) = job_id j"
  "steps (lifecycle_after_failure k j) = steps j"
  by (simp_all add: lifecycle_after_failure_def)

lemma observe_duration_frame [simp]:
  "job (observe_duration c) = job c" "published (observe_duration c) = published c"
  by (simp_all add: observe_duration_def split: option.splits)

lemma count_stage_failure_frame [simp]:
  "job (count_stage_failure k c) = job c" "published (count_stage_failure k c) = published c"
  "vm_ref (count_stage_failure k c) = vm_ref c"
  by (simp_all add: count_stage_failure_def)

lemma publish_job [simp]: "job (publish st msg c) = job c"
  by (simp add: publish_def)

lemma cancelled_row_fields [simp]:
  "job_status (cancelled_row t j) = J_CANCELLED" "job_id (cancelled_row t j) = job_id j"
  "steps (cancelled_row t j) = steps (stop_open_steps t j)"
  by (simp_all add: cancelled_row_def Let_def stop_open_steps_def)

lemma completed_row_fields [simp]:
  "job_status (completed_row t j) = J_COMPLETED" "job_id (completed_row t j) = job_id j"
  "steps (completed_row t j) = steps j" "progress (completed_row t j) = 100"
  by (simp_all add: completed_row_def)

lemma failed_row_fields [simp]:
  "job_status (failed_row stg f t created j) = (if created then J_PARTIALLY_COMPLETED else J_FAILED)"
  "job_id (failed_row stg f t created j) = job_id j" "steps (failed_row stg f t created j) = steps j"
  by (simp_all add: failed_row_def Let_def)

lemma apply_cancellation_job:
  "job (apply_cancellation env c) =
     cancelled_row (clock env (ticks c))
       (job (snd (release_unattended_media env ''job cancelled'' (c\<lparr>ticks := Suc (ticks c)\<rparr>))))"
  by (simp add: apply_cancellation_def Let_def utcnow_def prod.case_eq_if)

lemma finalize_success_job:
  "job (finalize_success env c) = completed_row (clock env (ticks c)) (job c)"
  by (simp add: finalize_success_def Let_def utcnow_def prod.case_eq_if)

lemma job_ticks [simp]: "job (c\<lparr>ticks := n\<rparr>) = job c"
  by simp

lemma apply_cancellation_fields [simp]:
  "job_status (job (apply_cancellation env c)) = J_CANCELLED"
  "job_id (job (apply_cancellation env c)) = job_id (job c)"
  by (simp_all add: apply_cancellation_job)

lemma stop_open_steps_none_open:
  "s \<in> set (steps (stop_open_steps t j)) \<Longrightarrow> step_status s \<noteq> S_PENDING \<and> step_status s \<noteq> S_RUNNING"
  by (auto simp: stop_open_steps_def)

lemma apply_cancellation_none_open:
  "s \<in> set (steps (job (apply_cancellation env c))) \<Longrightarrow> step_status s \<noteq> S_PENDING \<and> step_status s \<noteq> S_RUNNING"
  by (simp add: apply_cancellation_job stop_open_steps_none_open)

lemma status_of_stop_open_steps:
  "status_of k (stop_open_steps t j) =
     map_option (\<lambda>s. if s \<in> {S_PENDING, S_RUNNING} then S_CANCELLED else s) (status_of k j)"
proof -
  let ?f = "\<lambda>s. if step_status s \<in> {S_PENDING, S_RUNNING}
                  then s\<lparr>step_status := S_CANCELLED, step_finished_at := Some t\<rparr> else s"
  have "map_option step_status (find (\<lambda>s. stage_key s = k) (map ?f xs)) =
      map_option (\<lambda>s. if s \<in> {S_PENDING, S_RUNNING} then S_CANCELLED else s)
        (map_option step_status (find (\<lambda>s. stage_key s = k) xs))" for xs
    by (induction xs) auto
  then show ?thesis by (simp add: status_of_def step_of_def stop_open_steps_def)
qed

lemma cancelled_row_status_of: "status_of k (cancelled_row t j) = status_of k (stop_open_steps t j)"
  by (rule status_of_cong) simp

lemma apply_cancellation_keeps_status:
  assumes "status_of k (job c) = Some s" and "s \<notin> {S_PENDING, S_RUNNING, S_SUCCEEDED}"
  shows "status_of k (job (apply_cancellation env c)) = Some s"
  using release_status_prepare [of k env "''job cancelled''" "c\<lparr>ticks := Suc (ticks c)\<rparr>"] assms
  by (simp add: apply_cancellation_job cancelled_row_status_of status_of_stop_open_steps)

lemma attach_screenshot_frame [simp]:
  "job_status (job (attach_console_screenshot env key c)) = job_status (job c)"
  "status_of k (job (attach_console_screenshot env key c)) = status_of k (job c)"
  "job_id (job (attach_console_screenshot env key c)) = job_id (job c)"
  "published (attach_console_screenshot env key c) = published c"
  using require_vm_id_frame [of c]
  by (auto simp: attach_console_screenshot_def status_of_update_status_same prod.case_eq_if
      split: sum.splits option.splits)

lemma failed_step_fields [simp]:
  "stage_key (failed_step stg f t s) = stage_key s" "step_status (failed_step stg f t s) = S_FAILED"
  by (simp_all add: failed_step_def)

text \<open>The context just before the media is released on the failure path.\<close>

definition failure_context ::
  "('w, 'z) pipeline_env_scheme \<Rightarrow> StageDefinition \<Rightarrow> InfraOperationError \<Rightarrow> timestamp
     \<Rightarrow> 'w JobRunContext \<Rightarrow> 'w JobRunContext" where
  "failure_context env stg failure finished c =
     (let key = sd_key stg;
          c1 = map_job (update_step key (failed_step stg failure finished)) c;
          created = vm_created (job c1);
          c2 = (if created \<and> key \<in> CONSOLE_STAGES then attach_console_screenshot env key c1 else c1);
          c3 = map_job (failed_row stg failure finished created) c2
      in count_job (job_status (job c3)) (count_stage_failure key c3))"

lemma handle_failure_job:
  "job (handle_failure env stg failure finished c) =
     job (snd (release_unattended_media env (''stage '' @ quoted (sd_key stg) @ '' failed'')
       (failure_context env stg failure finished c)))"
  by (simp add: handle_failure_def failure_context_def Let_def)

lemma failed_row_status_of [simp]: "status_of k (failed_row stg f t b j) = status_of k j"
  by (rule status_of_cong) simp

lemma vm_created_cong: "status_of ''create_vm'' j = status_of ''create_vm'' j' \<Longrightarrow> vm_created j = vm_created j'"
  by (simp add: vm_created_def)

lemma failure_context_fields:
  "status_of k (job (failure_context env stg f t c)) = status_of k (update_step (sd_key stg) (failed_step stg f t) (job c))"
  "job_status (job (failure_context env stg f t c)) =
     (if vm_created (job (failure_context env stg f t c)) then J_PARTIALLY_COMPLETED else J_FAILED)"
  "job_id (job (failure_context env stg f t c)) = job_id (job c)"
  "published (failure_context env stg f t c) = published c"
proof -
  show st: "status_of k (job (failure_context env stg f t c)) =
      status_of k (update_step (sd_key stg) (failed_step stg f t) (job c))" for k
    by (simp add: failure_context_def Let_def)
  have "vm_created (job (failure_context env stg f t c)) =
      vm_created (update_step (sd_key stg) (failed_step stg f t) (job c))"
    by (rule vm_created_cong) (rule st)
  then show "job_status (job (failure_context env stg f t c)) =
     (if vm_created (job (failure_context env stg f t c)) then J_PARTIALLY_COMPLETED else J_FAILED)"
    by (simp add: failure_context_def Let_def)
qed (simp_all add: failure_context_def Let_def)

lemma handle_failure_status:
  "job_status (job (handle_failure env stg f t c)) =
     (if vm_created (job (handle_failure env stg f t c)) then J_PARTIALLY_COMPLETED else J_FAILED)"
proof -
  have "vm_created (job (handle_failure env stg f t c)) = vm_created (job (failure_context env stg f t c))"
    unfolding handle_failure_job by (intro vm_created_cong release_status_of) simp
  then show ?thesis by (simp add: handle_failure_job failure_context_fields(2))
qed

lemma handle_failure_step_failed:
  "status_of (sd_key stg) (job c) \<noteq> None \<Longrightarrow>
     status_of (sd_key stg) (job (handle_failure env stg f t c)) = Some S_FAILED"
  using release_status_prepare [of "sd_key stg" env "''stage '' @ quoted (sd_key stg) @ '' failed''"
      "failure_context env stg f t c"]
  by (auto simp: handle_failure_job failure_context_fields(1) status_of_update_const)

lemma handle_failure_other_step:
  "k \<noteq> sd_key stg \<Longrightarrow> k \<noteq> ''prepare_unattended_install'' \<Longrightarrow>
     status_of k (job (handle_failure env stg f t c)) = status_of k (job c)"
  by (simp add: handle_failure_job release_status_of failure_context_fields(1))

section \<open>One stage, by the way it ends\<close>

definition started_context ::
  "('w, 'z) pipeline_env_scheme \<Rightarrow> StageDefinition \<Rightarrow> 'w JobRunContext \<Rightarrow> 'w JobRunContext" where
  "started_context env stg c =
     publish ''RUNNING'' (''Started: '' @ sd_name stg)
       (map_job (start_stage (clock env (ticks c)) (sd_key stg)) (c\<lparr>ticks := Suc (ticks c)\<rparr>))"

abbreviation timeout_for :: "('w, 'z) pipeline_env_scheme \<Rightarrow> StageDefinition \<Rightarrow> rat" where
  "timeout_for env stg \<equiv> effective_timeout_seconds (settings_rows env) (sd_key stg)"

lemma run_stage_unfold:
  "run_stage env stg c =
     (let c2 = snd (run_handler env (sd_key stg) (timeout_for env stg) (started_context env stg c));
          now = clock env (ticks c2); c3 = c2\<lparr>ticks := Suc (ticks c2)\<rparr>
      in case fst (run_handler env (sd_key stg) (timeout_for env stg) (started_context env stg c)) of
        Inl _ \<Rightarrow> apply_cancellation env (map_job (update_step (sd_key stg) (cancel_running_step now)) c3)
      | Inr r \<Rightarrow>
          (case failure_of stg (timeout_for env stg) r of
             Inl failure \<Rightarrow> handle_failure env stg failure now c3
           | Inr out \<Rightarrow>
               publish (step_status_value (step_status_of_outcome (outcome_status out)))
                 (stage_message stg out) (map_job (finish_stage out now (sd_key stg)) c3)))"
  by (simp add: run_stage_def started_context_def utcnow_def Let_def prod.case_eq_if split: sum.split)

lemma started_step_fields [simp]:
  "stage_key (started_step t s) = stage_key s" "step_status (started_step t s) = S_RUNNING"
  by (simp_all add: started_step_def)

lemma cancel_running_step_fields [simp]:
  "stage_key (cancel_running_step t s) = stage_key s" "step_status (cancel_running_step t s) = S_CANCELLED"
  by (simp_all add: cancel_running_step_def)

lemma finished_step_fields [simp]:
  "stage_key (finished_step out t s) = stage_key s"
  "step_status (finished_step out t s) = step_status_of_outcome (outcome_status out)"
  by (simp_all add: finished_step_def)

lemma outcome_done: "stage_done (step_status_of_outcome s)"
  by (simp add: step_status_of_outcome_def stage_done_def dict_get_def)

lemma start_stage_status_of: "status_of k (start_stage t key j) = status_of k (update_step key (started_step t) j)"
  by (rule status_of_cong) (simp add: start_stage_def Let_def)

lemma finish_stage_status_of:
  "status_of k (finish_stage out t key j) = status_of k (update_step key (finished_step out t) j)"
  by (rule status_of_cong) (simp add: finish_stage_def Let_def)

text \<open>A stage leaves its step failed exactly on the failure path, which finalises the job.\<close>

lemma run_stage_failed:
  assumes "status_of (sd_key stg) (job (run_stage env stg c)) = Some S_FAILED"
  obtains failure t c' where "run_stage env stg c = handle_failure env stg failure t c'"
proof (cases "fst (run_handler env (sd_key stg) (timeout_for env stg) (started_context env stg c))")
  case (Inl u)
  define c2 where "c2 = snd (run_handler env (sd_key stg) (timeout_for env stg) (started_context env stg c))"
  let ?c = "map_job (update_step (sd_key stg) (cancel_running_step (clock env (ticks c2)))) (c2\<lparr>ticks := Suc (ticks c2)\<rparr>)"
  have r: "run_stage env stg c = apply_cancellation env ?c"
    using Inl by (simp add: run_stage_unfold Let_def c2_def)
  have "status_of (sd_key stg) (job ?c) = map_option (\<lambda>_. S_CANCELLED) (status_of (sd_key stg) (job c2))"
    by (simp add: status_of_update_const)
  then have "status_of (sd_key stg) (job (apply_cancellation env ?c)) \<noteq> Some S_FAILED"
    using release_status_prepare [of "sd_key stg" env "''job cancelled''" "?c\<lparr>ticks := Suc (ticks ?c)\<rparr>"]
    by (cases "status_of (sd_key stg) (job c2)")
      (auto simp: apply_cancellation_job cancelled_row_status_of status_of_stop_open_steps)
  with assms r show ?thesis by simp
next
  case (Inr r)
  show ?thesis
  proof (cases "failure_of stg (timeout_for env stg) r")
    case (Inl failure)
    with Inr show ?thesis by (intro that) (simp add: run_stage_unfold Let_def)
  next
    case (Inr out)
    have "step_status_of_outcome (outcome_status out) \<noteq> S_FAILED"
      using outcome_done [of "outcome_status out"] by (auto simp: stage_done_def)
    with assms Inr \<open>fst _ = Inr r\<close> show ?thesis
      by (simp add: run_stage_unfold Let_def finish_stage_status_of status_of_update_const)
  qed
qed

section \<open>How a run ends\<close>

text \<open>The last transition of a run is one of the three terminal ones.\<close>

inductive ended_by ::
  "('w, 'z) pipeline_env_scheme \<Rightarrow> StageDefinition list \<Rightarrow> 'w JobRunContext \<Rightarrow> bool"
  for env :: "('w, 'z) pipeline_env_scheme" and stgs :: "StageDefinition list" where
  ended_completed: "ended_by env stgs (finalize_success env c)"
| ended_cancelled: "ended_by env stgs (apply_cancellation env c)"
| ended_failed: "stg \<in> set stgs \<Longrightarrow> ended_by env stgs (handle_failure env stg failure t c)"

lemma ended_by_Cons: "ended_by env stgs r \<Longrightarrow> ended_by env (stg # stgs) r"
  by (erule ended_by.cases) (auto intro: ended_by.intros)

lemma ended_by_head: "ended_by env (stg # stgs) (handle_failure env stg failure t c)"
  by (simp add: ended_failed)

lemma execute_stages_ends: "ended_by env stgs (execute_stages env stgs c)"
proof (induction env stgs c rule: execute_stages.induct)
  case (1 env c)
  then show ?case by (simp add: ended_by.intros)
next
  case (2 env stg stgs c)
  show ?case
  proof (cases "status_of (sd_key stg) (job c)")
    case None
    with ended_by_Cons [OF "2.IH"(1) [OF None]] show ?thesis by simp
  next
    case (Some s)
    let ?c1 = "map_job (\<lambda>j. j\<lparr>cancel_requested := cancel_seen env (sd_key stg)\<rparr>) c"
    let ?c2 = "run_stage env stg ?c1"
    consider (fin) "stage_done s" | (cancel) "\<not> stage_done s" "cancel_seen env (sd_key stg)"
      | (failed) "\<not> stage_done s" "\<not> cancel_seen env (sd_key stg)" "status_of (sd_key stg) (job ?c2) = Some S_FAILED"
      | (cont) "\<not> stage_done s" "\<not> cancel_seen env (sd_key stg)" "status_of (sd_key stg) (job ?c2) \<noteq> Some S_FAILED"
      by blast
    then show ?thesis
    proof cases
      case fin
      with Some ended_by_Cons [OF "2.IH"(2) [OF Some fin]] show ?thesis by simp
    next
      case cancel
      with Some show ?thesis by (simp add: ended_by.intros)
    next
      case failed
      then obtain failure t c' where "?c2 = handle_failure env stg failure t c'" by (elim run_stage_failed)
      with failed Some show ?thesis by (simp add: ended_by_head)
    next
      case cont
      have "execute_stages env (stg # stgs) c = execute_stages env stgs ?c2" using cont Some by simp
      moreover have "ended_by env stgs (execute_stages env stgs ?c2)"
        using "2.IH"(3) [OF Some cont(1) refl _ refl] cont by simp
      ultimately show ?thesis by (simp only: ended_by_Cons)
    qed
  qed
qed

lemma execute_cases:
  obtains (completed) c' where "execute env c = finalize_success env c'"
  | (cancelled) c' where "execute env c = apply_cancellation env c'"
  | (failed) stg failure t c' where "stg \<in> set ORDERED_STAGES" "execute env c = handle_failure env stg failure t c'"
  using execute_stages_ends [of env ORDERED_STAGES c] unfolding execute_def
  by (cases rule: ended_by.cases) blast+

section \<open>Runs whose handlers keep the step statuses\<close>

text \<open>
  No handler of \<^verbatim>\<open>workers/stages.py\<close> assigns a step status: the pipeline alone moves steps.
\<close>

definition keeps_statuses :: "('w, 'z) pipeline_env_scheme \<Rightarrow> bool" where
  "keeps_statuses env \<longleftrightarrow>
     (\<forall>key h t c. stage_handlers env key = Some h \<longrightarrow> statuses (job (snd (h t c))) = statuses (job c))
     \<and> (\<forall>key c c'. cancelled_first env key c = Some c' \<longrightarrow> statuses (job c') = statuses (job c))"

lemma run_handler_statuses:
  "keeps_statuses env \<Longrightarrow> statuses (job (snd (run_handler env key t c))) = statuses (job c)"
  by (simp add: run_handler_def keeps_statuses_def prod.case_eq_if split: option.split)

lemma run_handler_status_of:
  "keeps_statuses env \<Longrightarrow> status_of k (job (snd (run_handler env key t c))) = status_of k (job c)"
  by (simp add: status_of_statuses run_handler_statuses)

lemma started_context_status_of:
  "status_of k (job (started_context env stg c)) = status_of k (update_step (sd_key stg) (started_step (clock env (ticks c))) (job c))"
  by (simp add: started_context_def start_stage_status_of)

text \<open>A stage that neither fails nor is cancelled finishes its own step and leaves the others.\<close>

lemma run_stage_continues:
  assumes k: "keeps_statuses env"
    and nc: "\<And>c'. cancelled_first env (sd_key stg) (started_context env stg c) \<noteq> Some c'"
    and nf: "status_of (sd_key stg) (job (run_stage env stg c)) \<noteq> Some S_FAILED"
    and present: "status_of (sd_key stg) (job c) \<noteq> None"
  shows "key \<noteq> sd_key stg \<Longrightarrow> status_of key (job (run_stage env stg c)) = status_of key (job c)"
    and "\<exists>s. status_of (sd_key stg) (job (run_stage env stg c)) = Some s \<and> stage_done s"
proof -
  define c2 where "c2 = snd (run_handler env (sd_key stg) (timeout_for env stg) (started_context env stg c))"
  have s2: "status_of k (job c2) = status_of k (job (started_context env stg c))" for k
    unfolding c2_def by (rule run_handler_status_of [OF k])
  then have here: "status_of (sd_key stg) (job c2) = Some S_RUNNING"
    using present by (auto simp: started_context_status_of status_of_update_const)
  have other: "status_of k (job c2) = status_of k (job c)" if "k \<noteq> sd_key stg" for k
    using that by (simp add: s2 started_context_status_of)
  obtain r where r: "fst (run_handler env (sd_key stg) (timeout_for env stg) (started_context env stg c)) = Inr r"
  proof -
    have "cancelled_first env (sd_key stg) (started_context env stg c) = None" using nc by (meson not_None_eq)
    then show ?thesis using that
      by (cases "stage_handlers env (sd_key stg)") (simp_all add: run_handler_def prod.case_eq_if)
  qed
  obtain out where out: "failure_of stg (timeout_for env stg) r = Inr out"
  proof (cases "failure_of stg (timeout_for env stg) r")
    case (Inl failure)
    with r nf here show ?thesis
      by (simp add: run_stage_unfold Let_def handle_failure_step_failed flip: c2_def)
  qed (rule that)
  have st: "status_of k (job (run_stage env stg c))
      = status_of k (update_step (sd_key stg) (finished_step out (clock env (ticks c2))) (job c2))" for k
    using r out by (simp add: run_stage_unfold Let_def finish_stage_status_of flip: c2_def)
  show "\<exists>s. status_of (sd_key stg) (job (run_stage env stg c)) = Some s \<and> stage_done s"
    using here outcome_done by (simp add: st status_of_update_const)
  show "status_of key (job (run_stage env stg c)) = status_of key (job c)" if "key \<noteq> sd_key stg"
    using other that by (simp add: st)
qed

text \<open>The step of a stage is absent or finished.\<close>

definition settled :: "string \<Rightarrow> ProvisioningJob \<Rightarrow> bool" where
  "settled key j =
     (case status_of key j of None \<Rightarrow> True | Some s \<Rightarrow> s \<in> {S_SUCCEEDED, S_SKIPPED, S_WARNING, S_NOT_APPLICABLE})"

lemma settled_iff: "settled key j = (case status_of key j of None \<Rightarrow> True | Some s \<Rightarrow> stage_done s)"
  by (simp add: settled_def stage_done_def split: option.split)

lemma finalize_status_of [simp]: "status_of k (job (finalize_success env c)) = status_of k (job c)"
  unfolding finalize_success_job by (rule status_of_cong) simp

text \<open>In a completed run, a stage that still had to run was neither cancelled nor failed.\<close>

lemma completed_goes_on:
  assumes completed: "job_status (job (execute_stages env (stg # stgs) c)) = J_COMPLETED"
    and present: "status_of (sd_key stg) (job c) = Some s" "\<not> stage_done s"
  defines "c2 \<equiv> run_stage env stg (map_job (\<lambda>j. j\<lparr>cancel_requested := cancel_seen env (sd_key stg)\<rparr>) c)"
  shows "\<not> cancel_seen env (sd_key stg)" "status_of (sd_key stg) (job c2) \<noteq> Some S_FAILED"
    "execute_stages env (stg # stgs) c = execute_stages env stgs c2"
proof -
  show nc: "\<not> cancel_seen env (sd_key stg)" using completed present by auto
  show nf: "status_of (sd_key stg) (job c2) \<noteq> Some S_FAILED"
  proof
    assume f: "status_of (sd_key stg) (job c2) = Some S_FAILED"
    with run_stage_failed obtain failure t c' where "c2 = handle_failure env stg failure t c'" unfolding c2_def by blast
    moreover have "execute_stages env (stg # stgs) c = c2" using present nc f by (simp add: c2_def)
    ultimately show False using completed by (simp add: handle_failure_status split: if_splits)
  qed
  show "execute_stages env (stg # stgs) c = execute_stages env stgs c2" using present nc nf by (simp add: c2_def)
qed

lemma execute_stages_completed:
  assumes k: "keeps_statuses env" and nc: "\<forall>key c. cancelled_first env key c = None"
  shows "distinct (map sd_key stgs) \<Longrightarrow> job_status (job (execute_stages env stgs c)) = J_COMPLETED \<Longrightarrow>
     (\<forall>key. key \<notin> sd_key ` set stgs \<longrightarrow> status_of key (job (execute_stages env stgs c)) = status_of key (job c))
     \<and> (\<forall>key \<in> sd_key ` set stgs. settled key (job (execute_stages env stgs c)))"
proof (induction stgs arbitrary: c)
  case Nil
  then show ?case by simp
next
  case (Cons stg stgs)
  let ?k = "sd_key stg"
  let ?c1 = "map_job (\<lambda>j. j\<lparr>cancel_requested := cancel_seen env ?k\<rparr>) c"
  let ?c2 = "run_stage env stg ?c1"
  let ?r = "execute_stages env (stg # stgs) c"
  have s1: "status_of key (job ?c1) = status_of key (job c)" for key
    by (simp, rule status_of_cong) simp
  have dist: "distinct (map sd_key stgs)" "?k \<notin> sd_key ` set stgs" using Cons.prems(1) by auto
  have step: ?case
    if "?r = execute_stages env stgs c'" "settled ?k (job c')"
      "\<And>key. key \<noteq> ?k \<Longrightarrow> status_of key (job c') = status_of key (job c)" for c'
    using Cons.IH [OF dist(1), of c'] Cons.prems(2) that dist(2) unfolding settled_iff by auto
  show ?case
  proof (cases "status_of ?k (job c)")
    case None
    then show ?thesis by (intro step [of c]) (simp_all add: settled_iff)
  next
    case (Some s)
    show ?thesis
    proof (cases "stage_done s")
      case True
      with Some show ?thesis by (intro step [of c]) (simp_all add: settled_iff)
    next
      case False
      note on = completed_goes_on [OF Cons.prems(2) Some False]
      show ?thesis
        using run_stage_continues [OF k _ on(2)] s1 Some nc by (intro step [OF on(3)]) (auto simp: settled_iff)
    qed
  qed
qed

text \<open>
  The context in which a run enters the stage of a key, if it does; the run goes on from there with \<open>run_stage\<close>.
\<close>

fun entered ::
  "('w, 'z) pipeline_env_scheme \<Rightarrow> StageDefinition list \<Rightarrow> string \<Rightarrow> 'w JobRunContext \<Rightarrow> 'w JobRunContext option" where
  "entered env [] key c = None"
| "entered env (stg # stgs) key c =
     (case status_of (sd_key stg) (job c) of
        None \<Rightarrow> entered env stgs key c
      | Some s \<Rightarrow>
          if stage_done s then entered env stgs key c
          else let c1 = map_job (\<lambda>j. j\<lparr>cancel_requested := cancel_seen env (sd_key stg)\<rparr>) c in
            if cancel_requested (job c1) then None
            else if sd_key stg = key then Some c1
            else let c2 = run_stage env stg c1 in
              if status_of (sd_key stg) (job c2) = Some S_FAILED then None
              else entered env stgs key c2)"

lemma entered_run:
  "entered env stgs key c = Some c1 \<Longrightarrow> \<exists>pre stg post. stgs = pre @ stg # post \<and> sd_key stg = key
     \<and> execute_stages env stgs c = (let c2 = run_stage env stg c1 in
         if status_of key (job c2) = Some S_FAILED then c2 else execute_stages env post c2)"
proof (induction stgs arbitrary: c)
  case (Cons stg stgs)
  have later: ?case
    if "entered env stgs key c' = Some c1" "execute_stages env (stg # stgs) c = execute_stages env stgs c'" for c'
    using Cons.IH [OF that(1)] that(2) by (metis append_Cons)
  show ?case
  proof (cases "\<exists>s. status_of (sd_key stg) (job c) = Some s \<and> \<not> stage_done s")
    case False
    with Cons.prems show ?thesis by (intro later [of c]) (auto split: option.splits)
  next
    case True
    then obtain s where s: "status_of (sd_key stg) (job c) = Some s" "\<not> stage_done s" by blast
    with Cons.prems have nc: "\<not> cancel_seen env (sd_key stg)" by (auto split: if_splits)
    show ?thesis
    proof (cases "sd_key stg = key")
      case True
      with s nc Cons.prems show ?thesis by - (rule exI [of _ "[]"], rule exI [of _ stg], rule exI [of _ stgs], auto simp: Let_def)
    next
      case False
      with s nc Cons.prems show ?thesis
        by (intro later [of "run_stage env stg (map_job (\<lambda>j. j\<lparr>cancel_requested := False\<rparr>) c)"])
          (simp_all add: Let_def split: if_splits)
    qed
  qed
qed simp

text \<open>A stage that had to run in a completed run returned an outcome, which its step records.\<close>

definition stage_returned ::
  "('w, 'z) pipeline_env_scheme \<Rightarrow> StageDefinition \<Rightarrow> 'w JobRunContext \<Rightarrow> StageOutcome \<Rightarrow> bool" where
  "stage_returned env stg c out \<longleftrightarrow>
     (\<exists>h c2. stage_handlers env (sd_key stg) = Some h \<and> h (timeout_for env stg) (started_context env stg c) = (Returned out, c2))"

lemma run_stage_returned:
  assumes nc: "\<forall>key c. cancelled_first env key c = None"
    and nf: "status_of (sd_key stg) (job (run_stage env stg c)) \<noteq> Some S_FAILED"
    and k: "keeps_statuses env" and present: "status_of (sd_key stg) (job c) \<noteq> None"
  shows "\<exists>out. stage_returned env stg c out
     \<and> status_of (sd_key stg) (job (run_stage env stg c)) = Some (step_status_of_outcome (outcome_status out))"
proof -
  let ?t = "timeout_for env stg" and ?c1 = "started_context env stg c"
  obtain r c2 where run: "run_handler env (sd_key stg) ?t ?c1 = (Inr r, c2)"
    using nc by (cases "stage_handlers env (sd_key stg)") (simp_all add: run_handler_def prod.case_eq_if)
  have st: "status_of (sd_key stg) (job c2) = Some S_RUNNING"
    using run_handler_status_of [OF k, of "sd_key stg" "sd_key stg" ?t ?c1] present run
    by (auto simp: started_context_status_of status_of_update_const)
  then obtain out where out: "failure_of stg ?t r = Inr out"
    using nf run by (cases "failure_of stg ?t r") (simp_all add: run_stage_unfold Let_def handle_failure_step_failed)
  then have "r = Returned out" by (auto simp: failure_of_def split: handler_result.splits)
  with run nc have "stage_returned env stg c out"
    by (auto simp: stage_returned_def run_handler_def split: option.splits prod.splits)
  moreover have "status_of (sd_key stg) (job (run_stage env stg c)) = Some (step_status_of_outcome (outcome_status out))"
    using run out st by (simp add: run_stage_unfold Let_def finish_stage_status_of status_of_update_const)
  ultimately show ?thesis by blast
qed

lemma completed_stage_ran:
  assumes k: "keeps_statuses env" and nc: "\<forall>key c. cancelled_first env key c = None"
  shows "distinct (map sd_key stgs) \<Longrightarrow> job_status (job (execute_stages env stgs c)) = J_COMPLETED \<Longrightarrow> stg \<in> set stgs \<Longrightarrow>
     status_of (sd_key stg) (job c) = Some s \<Longrightarrow> \<not> stage_done s \<Longrightarrow>
     \<exists>c1 out. entered env stgs (sd_key stg) c = Some c1 \<and> stage_returned env stg c1 out
       \<and> status_of (sd_key stg) (job (execute_stages env stgs c)) = Some (step_status_of_outcome (outcome_status out))"
proof (induction stgs arbitrary: c)
  case (Cons first rest)
  let ?k = "sd_key first"
  let ?c1 = "map_job (\<lambda>j. j\<lparr>cancel_requested := cancel_seen env ?k\<rparr>) c"
  let ?c2 = "run_stage env first ?c1"
  have s1: "status_of key (job ?c1) = status_of key (job c)" for key
    by (simp, rule status_of_cong) simp
  have later: ?case
    if "execute_stages env (first # rest) c = execute_stages env rest c'" "?k \<noteq> sd_key stg"
      "entered env (first # rest) (sd_key stg) c = entered env rest (sd_key stg) c'"
      "status_of (sd_key stg) (job c') = status_of (sd_key stg) (job c)" for c'
    using Cons.IH [of c'] Cons.prems that by auto
  show ?case
  proof (cases "status_of ?k (job c) = None \<or> settled ?k (job c)")
    case True
    with Cons.prems(4,5) show ?thesis by (intro later [of c]) (auto simp: settled_iff split: option.splits)
  next
    case False
    then obtain u where u: "status_of ?k (job c) = Some u" "\<not> stage_done u" by (auto simp: settled_iff)
    note on = completed_goes_on [OF Cons.prems(2) u]
    show ?thesis
    proof (cases "?k = sd_key stg")
      case True
      with Cons.prems(1,3) have stg: "first = stg" "?k \<notin> sd_key ` set rest" by auto
      have "status_of ?k (job ?c1) \<noteq> None" using u s1 by simp
      from run_stage_returned [OF nc on(2) k this] obtain out where out: "stage_returned env first ?c1 out"
        "status_of ?k (job ?c2) = Some (step_status_of_outcome (outcome_status out))" by blast
      have "status_of ?k (job (execute_stages env rest ?c2)) = status_of ?k (job ?c2)"
        using execute_stages_completed [OF k nc, of rest ?c2] Cons.prems(1,2) stg(2) on(3) by auto
      moreover have "entered env (first # rest) (sd_key stg) c = Some ?c1" using u on(1) stg(1) by simp
      ultimately show ?thesis using out on(3) stg(1) by auto
    next
      case False
      have "status_of (sd_key stg) (job ?c2) = status_of (sd_key stg) (job c)"
        using run_stage_continues(1) [OF k _ on(2), of "sd_key stg"] False nc u s1 by simp
      moreover have "entered env (first # rest) (sd_key stg) c = entered env rest (sd_key stg) ?c2"
        using u on(1,2) False by (simp add: Let_def)
      ultimately show ?thesis using False on(3) by (intro later [of ?c2])
    qed
  qed
qed simp

section \<open>Resuming never repeats finished stages\<close>

lemma primitive_handlers_cong [simp]:
  "utcnow (env\<lparr>stage_handlers := h\<rparr>) = utcnow env"
  "release_unattended_media (env\<lparr>stage_handlers := h\<rparr>) = release_unattended_media env"
  "attach_console_screenshot (env\<lparr>stage_handlers := h\<rparr>) = attach_console_screenshot env"
  by (intro ext, simp add: utcnow_def)
    (intro ext, simp add: release_unfold Let_def split: sum.split,
     intro ext, simp add: attach_console_screenshot_def prod.case_eq_if split: sum.split)

lemma env_handlers_cong [simp]:
  "apply_cancellation (env\<lparr>stage_handlers := h\<rparr>) = apply_cancellation env"
  "finalize_success (env\<lparr>stage_handlers := h\<rparr>) = finalize_success env"
  "handle_failure (env\<lparr>stage_handlers := h\<rparr>) = handle_failure env"
  "started_context (env\<lparr>stage_handlers := h\<rparr>) = started_context env"
  by (simp_all only: fun_eq_iff apply_cancellation_def finalize_success_def handle_failure_def
      primitive_handlers_cong simp_thms) (simp add: started_context_def)

lemma run_handler_handlers_cong:
  "h key = stage_handlers env key \<Longrightarrow> run_handler (env\<lparr>stage_handlers := h\<rparr>) key t c = run_handler env key t c"
  by (simp add: run_handler_def split: option.split)

lemma run_stage_handlers_cong:
  "h (sd_key stg) = stage_handlers env (sd_key stg) \<Longrightarrow>
     run_stage (env\<lparr>stage_handlers := h\<rparr>) stg c = run_stage env stg c"
  by (simp add: run_stage_unfold run_handler_handlers_cong Let_def split: sum.split)

lemma execute_cancelled_cong:
  "\<forall>stg \<in> set stgs. cancel_seen env (sd_key stg) \<Longrightarrow>
     execute_stages (env\<lparr>stage_handlers := h\<rparr>) stgs c = execute_stages env stgs c"
  by (induction stgs arbitrary: c) (auto split: option.splits)

text \<open>A cancel request that overtook a stage is visible to every later refresh of the row.\<close>

fun cancel_persists :: "('w, 'z) pipeline_env_scheme \<Rightarrow> StageDefinition list \<Rightarrow> bool" where
  "cancel_persists env [] \<longleftrightarrow> True"
| "cancel_persists env (stg # stgs) \<longleftrightarrow>
     ((\<exists>c c'. cancelled_first env (sd_key stg) c = Some c') \<longrightarrow> (\<forall>later \<in> set stgs. cancel_seen env (sd_key later)))
     \<and> cancel_persists env stgs"

lemma execute_stages_resume:
  assumes k: "keeps_statuses env"
  shows "distinct (map sd_key stgs) \<Longrightarrow> cancel_persists env stgs \<Longrightarrow>
     (\<And>stg. stg \<in> set stgs \<Longrightarrow> \<not> settled (sd_key stg) (job c) \<Longrightarrow> h (sd_key stg) = stage_handlers env (sd_key stg)) \<Longrightarrow>
     execute_stages (env\<lparr>stage_handlers := h\<rparr>) stgs c = execute_stages env stgs c"
proof (induction stgs arbitrary: c)
  case (Cons stg stgs)
  let ?k = "sd_key stg"
  let ?c1 = "map_job (\<lambda>j. j\<lparr>cancel_requested := cancel_seen env ?k\<rparr>) c"
  let ?c2 = "run_stage env stg ?c1"
  have s1: "status_of key (job ?c1) = status_of key (job c)" for key
    by (simp, rule status_of_cong) simp
  show ?case
  proof (cases "settled ?k (job c)")
    case True
    have "execute_stages (env\<lparr>stage_handlers := h\<rparr>) stgs c = execute_stages env stgs c"
      using Cons.prems by (intro Cons.IH) auto
    with True show ?thesis by (auto simp: settled_iff split: option.splits)
  next
    case False
    then obtain s where s: "status_of ?k (job c) = Some s" "\<not> stage_done s"
      by (auto simp: settled_iff split: option.splits)
    have same: "run_stage (env\<lparr>stage_handlers := h\<rparr>) stg c' = run_stage env stg c'" for c'
      using False Cons.prems(3) by (intro run_stage_handlers_cong) auto
    have rest: "execute_stages (env\<lparr>stage_handlers := h\<rparr>) stgs ?c2 = execute_stages env stgs ?c2"
      if nf: "status_of ?k (job ?c2) \<noteq> Some S_FAILED"
    proof (cases "\<exists>c c'. cancelled_first env ?k c = Some c'")
      case True
      then show ?thesis using Cons.prems(2) by (intro execute_cancelled_cong) auto
    next
      case False
      have st: "status_of key (job ?c2) = status_of key (job c)" if "key \<noteq> ?k" for key
        using run_stage_continues(1) [OF k _ nf _ that] False s s1 by auto
      show ?thesis
      proof (rule Cons.IH)
        fix later assume l: "later \<in> set stgs" "\<not> settled (sd_key later) (job ?c2)"
        then have "sd_key later \<noteq> ?k" using Cons.prems(1) by (metis distinct.simps(2) image_eqI list.simps(9) set_map)
        then show "h (sd_key later) = stage_handlers env (sd_key later)"
          using l st Cons.prems(3) by (simp add: settled_iff)
      qed (use Cons.prems in auto)
    qed
    show ?thesis
      using s same rest by (cases "cancel_seen env ?k"; cases "status_of ?k (job ?c2) = Some S_FAILED") simp_all
  qed
qed simp

section \<open>The answer media of a stopped run\<close>

lemma step_of_stop_open_steps:
  "step_of k (stop_open_steps t j) =
     map_option (\<lambda>s. if step_status s \<in> {S_PENDING, S_RUNNING}
       then s\<lparr>step_status := S_CANCELLED, step_finished_at := Some t\<rparr> else s) (step_of k j)"
proof -
  let ?f = "\<lambda>s. if step_status s \<in> {S_PENDING, S_RUNNING}
                  then s\<lparr>step_status := S_CANCELLED, step_finished_at := Some t\<rparr> else s"
  have "find (\<lambda>s. stage_key s = k) (map ?f xs) = map_option ?f (find (\<lambda>s. stage_key s = k) xs)" for xs
    by (induction xs) auto
  then show ?thesis by (simp add: step_of_def stop_open_steps_def)
qed

lemma cancelled_row_step_of: "step_of k (cancelled_row t j) = step_of k (stop_open_steps t j)"
  by (rule step_of_cong) simp

lemma cancelled_row_may_hold: "may_hold_unattended_media (cancelled_row t j) = may_hold_unattended_media j"
  by (auto simp: may_hold_unattended_media_def cancelled_row_step_of step_of_stop_open_steps Let_def split: option.splits)

text \<open>The context in which a run that stops without completing releases the media, and the context it ends in.\<close>

inductive stopped_in :: "('w, 'z) pipeline_env_scheme \<Rightarrow> 'w JobRunContext \<Rightarrow> 'w JobRunContext \<Rightarrow> bool"
  for env :: "('w, 'z) pipeline_env_scheme" where
  stopped_cancelled: "stopped_in env (c\<lparr>ticks := Suc (ticks c)\<rparr>) (apply_cancellation env c)"
| stopped_failed: "stopped_in env (failure_context env stg failure t c) (handle_failure env stg failure t c)"

lemma observe_duration_world: "world (observe_duration c) = world c"
  by (simp add: observe_duration_def split: option.splits)

lemma stopped_in_media: "stopped_in env c c' \<Longrightarrow> media_released env c (job c') (world c')"
proof (induction rule: stopped_in.induct)
  case (stopped_cancelled c)
  let ?c = "c\<lparr>ticks := Suc (ticks c)\<rparr>"
  have "world (apply_cancellation env c) = world (snd (release_unattended_media env ''job cancelled'' ?c))"
    by (simp add: apply_cancellation_def Let_def utcnow_def prod.case_eq_if notify_def audit_def publish_stage_def count_job_def map_job_def
        observe_duration_world)
  with release_media [of env ?c "''job cancelled''"] show ?case
    by (simp only: apply_cancellation_job media_released_def cancelled_row_may_hold)
next
  case (stopped_failed stg failure t c)
  let ?why = "''stage '' @ quoted (sd_key stg) @ '' failed''" and ?c = "failure_context env stg failure t c"
  have "world (handle_failure env stg failure t c) = world (snd (release_unattended_media env ?why ?c))"
    by (simp add: handle_failure_def failure_context_def Let_def notify_def audit_def publish_stage_def)
  with release_media [of env ?c ?why] show ?case by (simp only: handle_failure_job)
qed

section \<open>The event that ends a run\<close>

lemma finalize_published:
  "\<exists>msg. published (finalize_success env c) = published c
     @ [(job_channel (job_id (job c)), make_event (job_id (job c)) (Some ''final_validation'') ''COMPLETED'' 100 msg)]"
  by (simp add: finalize_success_def Let_def utcnow_def prod.case_eq_if make_event_def)

lemma apply_cancellation_published:
  "published (apply_cancellation env c) = published c
     @ [(job_channel (job_id (job c)), make_event (job_id (job c)) (current_stage (job (apply_cancellation env c)))
          ''CANCELLED'' (progress (job (apply_cancellation env c))) ''Provisioning cancelled by user request.'')]"
  by (simp add: apply_cancellation_def Let_def utcnow_def prod.case_eq_if)

lemma handle_failure_published:
  "published (handle_failure env stg f t c) = published c
     @ [(job_channel (job_id (job c)), make_event (job_id (job c)) (Some (sd_key stg)) ''FAILED''
          (progress (job (handle_failure env stg f t c))) (human_message f))]"
  by (simp add: handle_failure_def Let_def)

lemma handle_failure_job_id: "job_id (job (handle_failure env stg f t c)) = job_id (job c)"
  by (simp add: handle_failure_job failure_context_fields)

fun terminal_event_status :: "JobStatus \<Rightarrow> string" where
  "terminal_event_status J_COMPLETED = ''COMPLETED''"
| "terminal_event_status J_CANCELLED = ''CANCELLED''"
| "terminal_event_status _ = ''FAILED''"

section \<open>Sample runs\<close>

text \<open>
  Concrete jobs and environments the witnesses run: every handler answers \<open>result key\<close>, the adapters
  succeed, and a cancel request is seen or overtakes a stage where the two predicates say.
\<close>

definition sample_job :: "(string \<times> StepStatus) list \<Rightarrow> ProvisioningJob" where
  "sample_job ss = (new_job_row ''j-1'' ''srv01'' 0)
     \<lparr>job_status := J_RUNNING, started_at := Some 0, requested_by_user_id := Some ''u-1'',
      steps := map (\<lambda>(k, st). (new_step_row k k 0 True)\<lparr>step_status := st\<rparr>) ss\<rparr>"

definition sample_context :: "ProvisioningJob \<Rightarrow> 'w \<Rightarrow> 'w JobRunContext" where
  "sample_context j w = \<lparr>job = j, vm_name = ''srv01'', datacenter_id = ''dc-1'', actor_username = Some ''ops'',
     vm_ref = Some \<lparr>vm_ref_id = ''vm-7'', vm_ref_name = ''srv01''\<rparr>, reboot_required = False,
     hostname_changed = False, audit_rows = [], notification_rows = [], metrics = fresh_registry,
     published = [], ticks = 0, world = w\<rparr>"

definition sample_env ::
  "(string \<Rightarrow> handler_result) \<Rightarrow> (string \<Rightarrow> bool) \<Rightarrow> (string \<Rightarrow> bool) \<Rightarrow> 'w pipeline_env" where
  "sample_env result seen overtaken =
     \<lparr>stage_handlers = (\<lambda>key. Some (\<lambda>t c. (result key, c))), cancel_seen = seen,
      cancelled_first = (\<lambda>key c. if overtaken key then Some c else None), settings_rows = Some [],
      clock = (\<lambda>n. int n * 1000000), remove_answer_media = (\<lambda>vm dc p w. (None, w)),
      capture_screenshot = (\<lambda>vm w. (None, w))\<rparr>"

definition sample_success :: handler_result where
  "sample_success = Returned \<lparr>outcome_status = ''SUCCEEDED'', outcome_output = ''done'', outcome_artifacts = []\<rparr>"

lemma keeps_sample: "keeps_statuses (sample_env result seen overtaken)"
  by (simp add: keeps_statuses_def sample_env_def)

lemma sample_env_fields [simp]:
  "cancel_seen (sample_env result seen overtaken) = seen"
  "cancelled_first (sample_env result seen overtaken) = (\<lambda>key c. if overtaken key then Some c else None)"
  "stage_handlers (sample_env result seen overtaken) = (\<lambda>key. Some (\<lambda>t c. (result key, c)))"
  "remove_answer_media (sample_env result seen overtaken) = (\<lambda>vm dc p w. (None, w))"
  by (simp_all add: sample_env_def)

lemma sample_context_fields [simp]:
  "job (sample_context j w) = j" "vm_ref (sample_context j w) = Some \<lparr>vm_ref_id = ''vm-7'', vm_ref_name = ''srv01''\<rparr>"
  by (simp_all add: sample_context_def)

lemma status_of_sample_job: "status_of k (sample_job ss) = map_of ss k"
proof -
  have "statuses (sample_job ss) = ss"
    by (simp add: statuses_def sample_job_def new_step_row_def comp_def prod.case_eq_if)
  then show ?thesis by (simp add: status_of_statuses)
qed

lemma execute_stages_skip:
  "\<forall>stg \<in> set pre. settled (sd_key stg) (job c) \<Longrightarrow> execute_stages env (pre @ rest) c = execute_stages env rest c"
  by (induction pre) (auto simp: settled_iff split: option.splits)

text \<open>A run in which only the last stage is open.\<close>

lemma ordered_stages_last: "ORDERED_STAGES = butlast ORDERED_STAGES @ [stage ''final_validation'' ''Final validation'']"
proof -
  have "ORDERED_STAGES \<noteq> []" using length_ORDERED_STAGES by auto
  then show ?thesis using append_butlast_last_id [of ORDERED_STAGES] final_stage by simp
qed

lemma execute_last:
  assumes "\<forall>stg \<in> set (butlast ORDERED_STAGES). settled (sd_key stg) (job c)"
  shows "execute env c = execute_stages env [stage ''final_validation'' ''Final validation''] c"
  unfolding execute_def by (subst ordered_stages_last) (rule execute_stages_skip [OF assms])

lemma settled_before_last:
  assumes "\<And>k st. status_of k (job c) = Some st \<Longrightarrow> k \<noteq> ''final_validation'' \<Longrightarrow> stage_done st"
  shows "\<forall>stg \<in> set (butlast ORDERED_STAGES). settled (sd_key stg) (job c)"
proof
  fix stg assume "stg \<in> set (butlast ORDERED_STAGES)"
  moreover have "\<forall>k \<in> set (map sd_key (butlast ORDERED_STAGES)). k \<noteq> ''final_validation''"
    by (simp add: ORDERED_STAGES_def stage_def)
  ultimately have "sd_key stg \<noteq> ''final_validation''" by simp
  then show "settled (sd_key stg) (job c)" using assms by (auto simp: settled_iff split: option.split)
qed

lemma settled_sample_absent:
  "\<forall>stg \<in> set (butlast ORDERED_STAGES).
     settled (sd_key stg) (job (sample_context (sample_job [(''final_validation'', st)]) w))"
  by (rule settled_before_last) (simp add: status_of_sample_job split: if_splits)

lemma sample_run_completes:
  "job_status (job (execute (sample_env (\<lambda>_. sample_success) (\<lambda>_. False) (\<lambda>_. False))
     (sample_context (sample_job [(''final_validation'', S_PENDING)]) w))) = J_COMPLETED"
proof -
  let ?env = "sample_env (\<lambda>_. sample_success) (\<lambda>_. False) (\<lambda>_. False)"
  let ?c = "sample_context (sample_job [(''final_validation'', S_PENDING)]) w"
  let ?stg = "stage ''final_validation'' ''Final validation''"
  let ?c2 = "run_stage ?env ?stg (map_job (\<lambda>j. j\<lparr>cancel_requested := False\<rparr>) ?c)"
  have k: "sd_key ?stg = ''final_validation''" by (simp add: stage_def)
  have "status_of (sd_key ?stg) (job ?c2) \<noteq> Some S_FAILED"
    by (simp add: run_stage_unfold run_handler_def failure_of_def sample_success_def Let_def
        finish_stage_status_of status_of_update_const step_status_of_outcome_def dict_get_def)
  then have "execute ?env ?c = finalize_success ?env ?c2"
    using execute_last [OF settled_sample_absent, of ?env S_PENDING w]
    by (simp add: k status_of_sample_job stage_done_def)
  then show ?thesis by (simp add: finalize_success_job)
qed

lemma release_finished_at [simp]: "finished_at (job (snd (release_unattended_media env why c))) = finished_at (job c)"
  using release_job [of env why c] by (auto simp: update_step_def)

lemma execute_final_row:
  "job_status (job (execute env c)) \<in>
     {J_COMPLETED, J_CANCELLED, if vm_created (job (execute env c)) then J_PARTIALLY_COMPLETED else J_FAILED}
   \<and> finished_at (job (execute env c)) \<noteq> None
   \<and> 0 \<le> progress (job (execute env c)) \<and> progress (job (execute env c)) \<le> 100"
proof (cases rule: execute_cases [of env c])
  case (completed c')
  then show ?thesis by (simp add: finalize_success_job) (simp add: completed_row_def)
next
  case (cancelled c')
  then show ?thesis
    using compute_progress_bounds by (simp add: apply_cancellation_job cancelled_row_def Let_def)
next
  case (failed stg failure t c')
  have "0 \<le> progress (job (failure_context env stg failure t c')) \<and> progress (job (failure_context env stg failure t c')) \<le> 100
      \<and> finished_at (job (failure_context env stg failure t c')) \<noteq> None"
    using compute_progress_bounds by (simp add: failure_context_def failed_row_def Let_def)
  with failed handle_failure_status [of env stg failure t c'] show ?thesis
    by simp (simp add: handle_failure_job)
qed

section \<open>Properties\<close>

text \<open>
  C2. Whatever the handlers, the adapters and the cancel requests do, a run of the pipeline ends in a
  terminal status: completed, cancelled, or failed, and the failure is reported as partially completed
  exactly when the virtual machine had been created. The progress stays a percentage.
\<close>

theorem execute_terminal:
  "job_status (job (execute env c)) \<in>
     {J_COMPLETED, J_CANCELLED, if vm_created (job (execute env c)) then J_PARTIALLY_COMPLETED else J_FAILED}
   \<and> job_status (job (execute env c)) \<in> TERMINAL_JOB_STATUSES
   \<and> 0 \<le> progress (job (execute env c)) \<and> progress (job (execute env c)) \<le> 100"
  using execute_final_row [of env c] by (auto simp: status_sets split: if_splits)

text \<open>
  A run that nobody cancels while a stage is executing is completed only when the step of every
  registered stage has finished (succeeded, skipped, warned or not applicable).
\<close>

theorem completed_means_all_stages_settled:
  assumes "keeps_statuses env" and "\<forall>key c. cancelled_first env key c = None"
    and "job_status (job (execute env c)) = J_COMPLETED" and "stg \<in> set ORDERED_STAGES"
  shows "settled (sd_key stg) (job (execute env c))"
  using execute_stages_completed [OF assms(1,2) distinct_stage_keys, of c] assms(3,4)
  by (auto simp: execute_def)

theorem completed_means_all_stages_settled_witness:
  "settled ''final_validation'' (job (execute (sample_env (\<lambda>_. sample_success) (\<lambda>_. False) (\<lambda>_. False))
     (sample_context (sample_job [(''final_validation'', S_PENDING)]) ())))"
proof -
  have "stage ''final_validation'' ''Final validation'' \<in> set ORDERED_STAGES" by (simp add: ORDERED_STAGES_def)
  then have "settled (sd_key (stage ''final_validation'' ''Final validation''))
      (job (execute (sample_env (\<lambda>_. sample_success) (\<lambda>_. False) (\<lambda>_. False))
        (sample_context (sample_job [(''final_validation'', S_PENDING)]) ())))"
    by (intro completed_means_all_stages_settled [OF keeps_sample _ sample_run_completes]) simp_all
  then show ?thesis by (simp add: stage_def)
qed

text \<open>
  C17. Resuming a job never runs the handler of a stage whose step is already finished: replacing those
  handlers by anything else, a second creation of the virtual machine for instance, changes nothing.
\<close>

theorem resume_never_reruns_finished_stages:
  assumes "keeps_statuses env" and "cancel_persists env ORDERED_STAGES"
    and "\<And>stg. stg \<in> set ORDERED_STAGES \<Longrightarrow> \<not> settled (sd_key stg) (job c)
           \<Longrightarrow> handlers' (sd_key stg) = stage_handlers env (sd_key stg)"
  shows "execute (env\<lparr>stage_handlers := handlers'\<rparr>) c = execute env c"
  unfolding execute_def by (rule execute_stages_resume [OF assms(1) distinct_stage_keys assms(2)]) (rule assms(3))

theorem resume_never_reruns_finished_stages_witness:
  "let env = sample_env (\<lambda>_. sample_success) (\<lambda>_. False) (\<lambda>_. False);
       c = sample_context (sample_job [(''create_vm'', S_SUCCEEDED), (''final_validation'', S_PENDING)]) ()
   in execute (env\<lparr>stage_handlers := (stage_handlers env)(''create_vm'' := None)\<rparr>) c = execute env c"
proof -
  have p: "cancel_persists (sample_env r s (\<lambda>_. False)) stgs" for r s stgs by (induction stgs) auto
  show ?thesis
    unfolding Let_def
    by (rule resume_never_reruns_finished_stages [OF keeps_sample p])
      (auto simp: settled_iff status_of_sample_job stage_done_def)
qed

text \<open>
  After a cancelled run no step is pending or running any more.
\<close>

theorem cancelled_run_has_no_open_step:
  assumes "job_status (job (execute env c)) = J_CANCELLED" and "s \<in> set (steps (job (execute env c)))"
  shows "step_status s \<noteq> S_PENDING \<and> step_status s \<noteq> S_RUNNING"
proof (cases rule: execute_cases [of env c])
  case (completed c')
  with assms show ?thesis by (simp add: finalize_success_job)
next
  case (cancelled c')
  with assms(2) show ?thesis using apply_cancellation_none_open by metis
next
  case (failed stg failure t c')
  with assms show ?thesis using handle_failure_status [of env stg failure t c'] by (simp split: if_splits)
qed

lemma sample_run_cancelled:
  "execute (sample_env r (\<lambda>_. True) ov) (sample_context (sample_job [(''final_validation'', S_PENDING)]) w)
     = apply_cancellation (sample_env r (\<lambda>_. True) ov)
         (map_job (\<lambda>j. j\<lparr>cancel_requested := True\<rparr>) (sample_context (sample_job [(''final_validation'', S_PENDING)]) w))"
  using execute_last [OF settled_sample_absent, of "sample_env r (\<lambda>_. True) ov" S_PENDING w]
  by (simp add: stage_def status_of_sample_job stage_done_def)

theorem cancelled_run_has_no_open_step_witness:
  "let r = execute (sample_env (\<lambda>_. TimedOut) (\<lambda>_. True) (\<lambda>_. False))
             (sample_context (sample_job [(''final_validation'', S_PENDING)]) ())
   in job_status (job r) = J_CANCELLED \<and> list_all (\<lambda>s. step_status s \<noteq> S_PENDING \<and> step_status s \<noteq> S_RUNNING) (steps (job r))"
proof -
  let ?r = "execute (sample_env (\<lambda>_. TimedOut) (\<lambda>_. True) (\<lambda>_. False))
             (sample_context (sample_job [(''final_validation'', S_PENDING)]) ())"
  have c: "job_status (job ?r) = J_CANCELLED" by (simp add: sample_run_cancelled)
  show ?thesis unfolding Let_def list_all_iff using c cancelled_run_has_no_open_step [OF c] by blast
qed

text \<open>
  C36. A run that stops without completing (cancelled or failed) releases the answer media its rows still hold: its last
  call asks the adapter to remove the recorded file, on the machine of the job, and the media counts as released
  exactly when that call succeeded; otherwise the rows say that it is still held. Rows that hold no media, or name no
  machine, cause no call. (Rows that carry the marker of an earlier removal hold no media, even when the file
  was uploaded anew since; see the known defect at the end of this theory.)
\<close>

theorem stopped_run_releases_held_media:
  assumes "job_status (job (execute env c)) \<noteq> J_COMPLETED"
  shows "\<exists>c1. stopped_in env c1 (execute env c) \<and>
     (if \<not> may_hold_unattended_media (job c1)
      then world (execute env c) = world c1 \<and> \<not> may_hold_unattended_media (job (execute env c))
      else case fst (require_vm_id c1) of
        Inl e \<Rightarrow> world (execute env c) = world c1 \<and> may_hold_unattended_media (job (execute env c))
      | Inr v \<Rightarrow>
          (case remove_answer_media env v (datacenter_id c1) (media_path (job c1)) (world c1) of
             (failure, w) \<Rightarrow> world (execute env c) = w
               \<and> may_hold_unattended_media (job (execute env c)) = (failure \<noteq> None)))"
proof -
  obtain c1 where c1: "stopped_in env c1 (execute env c)"
  proof (cases rule: execute_cases [of env c])
    case (completed c')
    with assms show ?thesis by (simp add: finalize_success_job)
  next
    case (cancelled c')
    then show ?thesis using stopped_cancelled [of env c'] that by simp
  next
    case (failed stg failure t c')
    then show ?thesis using stopped_failed [of env stg failure t c'] that by simp
  qed
  with stopped_in_media [OF c1] show ?thesis
    by (intro exI [of _ c1]) (simp add: media_released_def prod.case_eq_if split: sum.splits)
qed

definition sample_media_context :: "unit JobRunContext" where
  "sample_media_context = sample_context
     (update_step ''prepare_unattended_install''
        (\<lambda>s. s\<lparr>artifacts := [(''datastore_path'', JStr ''[ds1] infraops-j-1.iso'')]\<rparr>)
        (sample_job [(''prepare_unattended_install'', S_SUCCEEDED), (''final_validation'', S_PENDING)])) ()"

lemma sample_media_run:
  "execute (sample_env r (\<lambda>_. True) ov) sample_media_context
     = apply_cancellation (sample_env r (\<lambda>_. True) ov)
         (map_job (\<lambda>j. j\<lparr>cancel_requested := True\<rparr>) sample_media_context)"
proof -
  have st: "status_of k (job sample_media_context) =
      map_of [(''prepare_unattended_install'', S_SUCCEEDED), (''final_validation'', S_PENDING)] k" for k
    by (simp add: sample_media_context_def status_of_update_status_same status_of_sample_job)
  have "\<forall>stg \<in> set (butlast ORDERED_STAGES). settled (sd_key stg) (job sample_media_context)"
    by (rule settled_before_last) (auto simp: st stage_done_def split: if_splits)
  from execute_last [OF this, of "sample_env r (\<lambda>_. True) ov"] show ?thesis
    by (simp add: stage_def st stage_done_def)
qed

theorem stopped_run_releases_held_media_witness:
  "let env = sample_env (\<lambda>_. TimedOut) (\<lambda>_. True) (\<lambda>_. False); c = sample_media_context
   in may_hold_unattended_media (job c) \<and> job_status (job (execute env c)) = J_CANCELLED
      \<and> (\<exists>c1. stopped_in env c1 (execute env c))"
proof -
  let ?env = "sample_env (\<lambda>_. TimedOut) (\<lambda>_. True) (\<lambda>_. False)"
  have s: "job_status (job (execute ?env sample_media_context)) = J_CANCELLED" by (simp add: sample_media_run)
  moreover have "may_hold_unattended_media (job sample_media_context)"
    by (simp add: sample_media_context_def sample_job_def may_hold_unattended_media_def Let_def step_of_def
        update_step_def new_step_row_def dict_truthy_def)
  ultimately show ?thesis using stopped_run_releases_held_media [of ?env sample_media_context] by (auto simp: Let_def)
qed

text \<open>
  The last event a run publishes is on the job's channel and tells its terminal status and its
  progress.
\<close>

theorem last_event_reports_terminal_status:
  "published (execute env c) \<noteq> []
   \<and> (let j = job (execute env c); (channel, event) = last (published (execute env c))
      in channel = job_channel (job_id j) \<and> je_job_id event = job_id j
         \<and> je_status event = terminal_event_status (job_status j) \<and> je_progress event = progress j)"
proof (cases rule: execute_cases [of env c])
  case (completed c')
  obtain msg where "published (finalize_success env c') = published c' @ [(job_channel (job_id (job c')),
      make_event (job_id (job c')) (Some ''final_validation'') ''COMPLETED'' 100 msg)]"
    using finalize_published by blast
  with completed show ?thesis by (simp add: finalize_success_job make_event_def)
next
  case (cancelled c')
  then show ?thesis by (simp add: apply_cancellation_published make_event_def)
next
  case (failed stg failure t c')
  then show ?thesis
    by (simp add: handle_failure_published handle_failure_job_id handle_failure_status make_event_def)
qed

lemma context_audit [simp]:
  "audit_rows (observe_duration c) = audit_rows c" "audit_rows (publish_stage stg st p msg c) = audit_rows c"
  "audit_rows (count_job s c) = audit_rows c" "audit_rows (notify kind tm c) = audit_rows c"
  "audit_rows (map_job f c) = audit_rows c" "audit_rows (audit action a c) = audit_rows c @ [audit_event action a]"
  by (simp_all add: observe_duration_def publish_stage_def count_job_def notify_def map_job_def audit_def
      record_audit_def split: option.split)

lemma finalize_audit:
  "map ev_action (audit_rows (finalize_success env c)) = map ev_action (audit_rows c) @ [''JOB_COMPLETED'']"
  by (simp add: finalize_success_def Let_def utcnow_def prod.case_eq_if)

lemma apply_cancellation_audit:
  "\<exists>pre. map ev_action (audit_rows (apply_cancellation env c)) = pre @ [''JOB_CANCELLED'']"
  by (simp add: apply_cancellation_def Let_def utcnow_def prod.case_eq_if)

text \<open>
  Known defect: a cancel request that arrives while the last stage is executing is carried out (the
  step is cancelled and the cancellation audited) and then overwritten: the loop only stops on a
  failed step, so the job is finalised as completed although its final validation never finished.
\<close>

theorem cancel_during_last_stage_is_completed:
  assumes k: "keeps_statuses env"
    and before: "\<forall>stg \<in> set (butlast ORDERED_STAGES). settled (sd_key stg) (job c)"
    and open_step: "status_of ''final_validation'' (job c) = Some s" "\<not> stage_done s"
    and unseen: "\<not> cancel_seen env ''final_validation''"
    and handler: "stage_handlers env ''final_validation'' \<noteq> None"
    and overtaken: "\<And>c. cancelled_first env ''final_validation'' c \<noteq> None"
  shows "job_status (job (execute env c)) = J_COMPLETED
    \<and> status_of ''final_validation'' (job (execute env c)) = Some S_CANCELLED
    \<and> (\<exists>pre. map ev_action (audit_rows (execute env c)) = pre @ [''JOB_CANCELLED'', ''JOB_COMPLETED''])"
proof -
  let ?stg = "stage ''final_validation'' ''Final validation''"
  let ?c1 = "map_job (\<lambda>j. j\<lparr>cancel_requested := False\<rparr>) c"
  define c2 where "c2 = snd (run_handler env ''final_validation'' (timeout_for env ?stg) (started_context env ?stg ?c1))"
  define c3 where "c3 = map_job (update_step ''final_validation'' (cancel_running_step (clock env (ticks c2))))
    (c2\<lparr>ticks := Suc (ticks c2)\<rparr>)"
  have key: "sd_key ?stg = ''final_validation''" by (simp add: stage_def)
  have inl: "fst (run_handler env ''final_validation'' t c') = Inl ()" for t c'
    using handler overtaken [of c'] by (auto simp: run_handler_def)
  have run: "run_stage env ?stg ?c1 = apply_cancellation env c3"
    using inl by (simp add: run_stage_unfold Let_def key c3_def c2_def)
  have "status_of ''final_validation'' (job ?c1) = Some s"
    using open_step(1) by (simp, subst status_of_cong [of _ "job c"]) simp_all
  then have "status_of ''final_validation'' (job c2) = Some S_RUNNING"
    unfolding c2_def by (simp add: run_handler_status_of [OF k] started_context_status_of key status_of_update_const)
  then have "status_of ''final_validation'' (job c3) = Some S_CANCELLED"
    by (simp add: c3_def status_of_update_const)
  then have st: "status_of ''final_validation'' (job (apply_cancellation env c3)) = Some S_CANCELLED"
    by (rule apply_cancellation_keeps_status) simp
  have ex: "execute env c = finalize_success env (apply_cancellation env c3)"
    using execute_last [OF before, of env] open_step unseen st run by (simp add: key)
  obtain pre where "map ev_action (audit_rows (apply_cancellation env c3)) = pre @ [''JOB_CANCELLED'']"
    using apply_cancellation_audit by blast
  then show ?thesis unfolding ex using st by (simp add: finalize_success_job [symmetric] finalize_audit) (simp add: finalize_success_job)
qed

theorem cancel_during_last_stage_is_completed_witness:
  "let r = execute (sample_env (\<lambda>_. sample_success) (\<lambda>_. False) (\<lambda>key. key = ''final_validation''))
             (sample_context (sample_job [(''final_validation'', S_PENDING)]) ())
   in job_status (job r) = J_COMPLETED \<and> status_of ''final_validation'' (job r) = Some S_CANCELLED"
  unfolding Let_def
  using cancel_during_last_stage_is_completed
    [where env = "sample_env (\<lambda>_. sample_success) (\<lambda>_. False) (\<lambda>key. key = ''final_validation'')"
       and c = "sample_context (sample_job [(''final_validation'', S_PENDING)]) ()" and s = S_PENDING]
    settled_sample_absent [of S_PENDING "()"]
  by (simp add: keeps_sample status_of_sample_job stage_done_def)

text \<open>
  Known defect: once a release has marked the answer media of a job as removed, the preparation
  stage of a retry uploads new media but keeps the marker in its merged artifacts, so no later release
  removes that media and the repository does not report it.
\<close>

theorem regenerated_answer_media_is_not_released:
  assumes "step_of ''prepare_unattended_install'' (job c) = Some p" and "dict_truthy (artifacts p) ''media_removed''"
    and "outcome_artifacts out = [(''datastore_path'', JStr path)]"
  shows "let c' = map_job (finish_stage out t ''prepare_unattended_install'') c
    in release_unattended_media env why c' = (False, c') \<and> \<not> may_hold_unattended_media (job c')
       \<and> media_path (job c') = path"
proof -
  let ?j = "finish_stage out t ''prepare_unattended_install'' (job c)"
  have st: "step_of ''prepare_unattended_install'' ?j = Some (finished_step out t p)"
    using assms(1) step_of_update_same [of "finished_step out t" "''prepare_unattended_install''" "job c"]
    by (simp add: finish_stage_def Let_def step_of_def)
  have "dict_truthy (artifacts (finished_step out t p)) ''media_removed''"
    using assms(2,3) by (simp add: finished_step_def dict_truthy_update_other)
  then have "\<not> may_hold_unattended_media ?j" by (simp add: may_hold_unattended_media_def st)
  moreover have "media_path ?j = path"
    using assms(3) by (simp add: media_path_def st finished_step_def summary_text_def json_text_def)
  ultimately show ?thesis by (simp add: release_unattended_media_def Let_def)
qed

theorem regenerated_answer_media_is_not_released_witness:
  "let c = sample_context (update_step ''prepare_unattended_install''
             (mark_media_removed ''job cancelled'' False) (job sample_media_context)) ();
       c' = map_job (finish_stage \<lparr>outcome_status = ''SUCCEEDED'', outcome_output = [],
              outcome_artifacts = [(''datastore_path'', JStr ''[ds1] infraops-j-1.iso'')]\<rparr> 9 ''prepare_unattended_install'') c
   in release_unattended_media (sample_env (\<lambda>_. TimedOut) (\<lambda>_. False) (\<lambda>_. False)) ''job cancelled'' c' = (False, c')"
  unfolding Let_def
  by (rule conjunct1 [OF regenerated_answer_media_is_not_released [unfolded Let_def]])
    (simp add: sample_media_context_def sample_job_def step_of_def update_step_def new_step_row_def
      mark_media_removed_def, simp add: dict_truthy_def dict_update_def, simp)

end
