(* ===== verification/Provisioning_Service.thy ===== *)
theory Provisioning_Service
  imports Job_Repository Audit_Trail Request_Schema Json_Text Run_Context
begin

text \<open>
  Submission, retry and cancellation of \<^verbatim>\<open>services/provisioning/service.py\<close>. The state is what the API's
  transaction writes: the job table, the audit trail and the published events. Errors are values. What
  other transactions commit between the duplicate checks of a submission and its insert is the function
  \<open>others\<close>; the digest of the fingerprint, the preflight report and the schema library are parameters.
\<close>

section \<open>Errors and state\<close>

datatype app_error =
    ConflictError string json_dict
  | DomainValidationError string json_dict
  | NotFoundError string
  | IntegrityError db_constraint

record ApiState =
  api_jobs :: job_table
  api_audit :: "AuditEvent list"
  api_events :: "(string \<times> JobEvent) list"

type_synonym user = "uuid \<times> string"

datatype CheckStatus = PASS | WARN | FAIL

record PreflightCheck =
  check_code :: string
  check_label :: string
  check_status :: CheckStatus
  check_detail :: string
  check_blocking :: bool

record PreflightReport =
  report_ready :: bool
  report_checks :: "PreflightCheck list"
  report_summary :: string

definition api_publish :: "string \<Rightarrow> string option \<Rightarrow> string \<Rightarrow> int \<Rightarrow> string \<Rightarrow> ApiState \<Rightarrow> ApiState" where
  "api_publish jid stg status prog msg s =
     s\<lparr>api_events := api_events s @ [(job_channel jid, make_event jid stg status prog msg)]\<rparr>"

definition api_record :: "string \<Rightarrow> audit_args \<Rightarrow> ApiState \<Rightarrow> ApiState" where
  "api_record action a s = s\<lparr>api_audit := record_audit (api_audit s) action a\<rparr>"

section \<open>The stored form of a request\<close>

definition opt_text :: "string option \<Rightarrow> json" where
  "opt_text x = (case x of None \<Rightarrow> JNull | Some s \<Rightarrow> JStr s)"

definition compute_json :: "ComputeSpec \<Rightarrow> json" where
  "compute_json c = JObj [(''vcenter_id'', JStr (vcenter_id c)), (''datacenter_id'', JStr (comp_datacenter_id c)),
     (''cluster_id'', JStr (cluster_id c)), (''host_id'', opt_text (host_id c)),
     (''resource_pool_id'', opt_text (resource_pool_id c))]"

definition disk_json :: "DiskSpec \<Rightarrow> json" where
  "disk_json d = JObj [(''size_gb'', JInt (size_gb d)),
     (''provisioning'', JStr (case disk_provisioning d of THIN \<Rightarrow> ''thin'' | THICK \<Rightarrow> ''thick'')),
     (''datastore_id'', opt_text (disk_datastore_id d))]"

definition hardware_json :: "HardwareSpec \<Rightarrow> json" where
  "hardware_json h = JObj [(''cpu'', JInt (cpu h)), (''memory_mb'', JInt (memory_mb h)),
     (''firmware'', JStr (case firmware h of BIOS \<Rightarrow> ''BIOS'' | EFI \<Rightarrow> ''EFI'')),
     (''secure_boot'', JBool (secure_boot h)), (''disks'', JList (map disk_json (disks h)))]"

definition domain_join_json :: "DomainJoinSpec option \<Rightarrow> json" where
  "domain_join_json x = (case x of None \<Rightarrow> JNull | Some d \<Rightarrow>
     JObj [(''domain'', JStr (domain d)), (''ou'', opt_text (ou d)), (''credential_secret_ref'', JStr (domain_credential_ref d))])"

definition guest_json :: "GuestSpec \<Rightarrow> json" where
  "guest_json g = JObj [(''iso_id'', JStr (iso_id g)), (''hostname'', opt_text (hostname g)),
     (''timezone'', opt_text (timezone g)), (''installation_locale'', JStr (installation_locale g)),
     (''input_locale'', JStr (input_locale g)), (''windows_image_index'', JInt (windows_image_index g)),
     (''credential_secret_ref'', JStr (guest_credential_ref g)),
     (''product_key_secret_ref'', opt_text (product_key_ref g)), (''domain_join'', domain_join_json (domain_join g))]"

definition ipv4_json :: "Ipv4Config option \<Rightarrow> json" where
  "ipv4_json x = (case x of None \<Rightarrow> JNull | Some c \<Rightarrow>
     JObj [(''address'', JStr (cfg_address c)), (''prefix'', JInt (int (cfg_prefix c))), (''gateway'', JStr (cfg_gateway c)),
       (''dns_servers'', JList (map JStr (cfg_dns_servers c)))])"

definition ip_mode_value :: "IpMode \<Rightarrow> string" where
  "ip_mode_value m = (case m of DHCP \<Rightarrow> ''DHCP'' | STATIC \<Rightarrow> ''STATIC'')"

definition network_json :: "NetworkSpec \<Rightarrow> json" where
  "network_json n = JObj [(''network_id'', JStr (network_id n)),
     (''adapter_type'', JStr (case adapter_type n of VMXNET3 \<Rightarrow> ''VMXNET3'' | E1000E \<Rightarrow> ''E1000E'')),
     (''mode'', JStr (ip_mode_value (ip_mode n))), (''ipv4'', ipv4_json (ipv4 n))]"

definition model_dump :: "ProvisioningRequest \<Rightarrow> json" where
  "model_dump r = JObj [(''source_type'', JStr ''blank''),
     (''identity_policy_version'', JStr (case identity_policy_version r of V1 \<Rightarrow> ''v1'' | V2 \<Rightarrow> ''v2'')),
     (''vm'', JObj [(''name'', JStr (vms_name (vm r))), (''description'', JStr (vms_description (vm r)))]),
     (''compute'', compute_json (compute r)), (''hardware'', hardware_json (hardware r)), (''guest'', guest_json (guest r)),
     (''network'', network_json (network r)),
     (''certificate_package_ids'', JList (map JStr (certificate_package_ids r))),
     (''application_ids'', JList (map JStr (application_ids r)))]"

definition request_fingerprint :: "(string \<Rightarrow> string) \<Rightarrow> ProvisioningRequest \<Rightarrow> string" where
  "request_fingerprint sha256_hex r = sha256_hex (canonical_json (model_dump r))"

section \<open>Rules\<close>

definition reserved_ipv4_for :: "ProvisioningRequest \<Rightarrow> string option" where
  "reserved_ipv4_for r = (if ip_mode (network r) = STATIC then map_option cfg_address (ipv4 (network r)) else None)"

definition active_vm_conflict :: "string \<Rightarrow> app_error" where
  "active_vm_conflict name =
     ConflictError (''An active provisioning job for '' @ squoted name @ '' already exists.'') [(''vm_name'', JStr name)]"

definition ipv4_conflict :: "string \<Rightarrow> app_error" where
  "ipv4_conflict name =
     ConflictError ''Another active provisioning job has already reserved this IPv4 address.'' [(''vm_name'', JStr name)]"

definition reservation_conflict :: "db_constraint \<Rightarrow> string \<Rightarrow> app_error option" where
  "reservation_conflict violated name =
     (case violated of
        VM_NAME_INDEX \<Rightarrow> Some (active_vm_conflict name)
      | IPV4_INDEX \<Rightarrow> Some (ipv4_conflict name)
      | _ \<Rightarrow> None)"

definition integrity_failure :: "db_constraint \<Rightarrow> string \<Rightarrow> app_error" where
  "integrity_failure violated name =
     (case reservation_conflict violated name of Some e \<Rightarrow> e | None \<Rightarrow> IntegrityError violated)"

definition check_idempotent_replay :: "ProvisioningJob \<Rightarrow> string \<Rightarrow> user option \<Rightarrow> app_error + ProvisioningJob" where
  "check_idempotent_replay existing fingerprint u =
     (let same_user = (requested_by_user_id existing = map_option fst u) in
      if \<not> same_user \<or> (job_fingerprint existing \<noteq> None \<and> job_fingerprint existing \<noteq> Some fingerprint)
      then Inl (DomainValidationError ''This Idempotency-Key was already used for a different request.''
             [(''reason'', JStr ''idempotency_key_reused'')])
      else Inr existing)"

section \<open>Submission\<close>

record submit_env =
  submit_now :: timestamp
  submit_new_id :: uuid
  sha256_hex :: "string \<Rightarrow> string"
  preflight :: "(ProvisioningRequest \<Rightarrow> PreflightReport) option"
  others :: "job_table \<Rightarrow> job_table"

definition blocking_checks :: "PreflightReport \<Rightarrow> PreflightCheck list" where
  "blocking_checks rep = filter (\<lambda>c. check_status c = FAIL \<and> check_blocking c) (report_checks rep)"

definition reject_blocked ::
  "user option \<Rightarrow> ProvisioningRequest \<Rightarrow> string option \<Rightarrow> PreflightReport \<Rightarrow> ApiState \<Rightarrow> app_error \<times> ApiState" where
  "reject_blocked u r source_ip rep s =
     (let blocking = blocking_checks rep in
      (DomainValidationError ''The request did not pass server-side preflight validation.''
         [(''summary'', JStr (report_summary rep)),
          (''blocking_checks'', JList (map (\<lambda>c. JObj [(''code'', JStr (check_code c)), (''label'', JStr (check_label c)),
             (''detail'', JStr (check_detail c))]) blocking))],
       api_record ''PROVISIONING_REQUEST_REJECTED''
         (audit_defaults\<lparr>au_user := u, au_resource_type := Some ''provisioning_request'',
            au_resource_name := Some (vms_name (vm r)), au_datacenter_id := Some (comp_datacenter_id (compute r)),
            au_result := Some ''blocked'', au_source_ip := source_ip,
            au_details := [(''blocking_checks'', JList (map (\<lambda>c. JStr (check_code c)) blocking))]\<rparr>) s))"

definition created_audit :: "user option \<Rightarrow> ProvisioningRequest \<Rightarrow> string option \<Rightarrow> uuid \<Rightarrow> audit_args" where
  "created_audit u r source_ip jid =
     audit_defaults\<lparr>au_user := u, au_resource_type := Some ''provisioning_job'',
       au_resource_name := Some (vms_name (vm r)), au_job_id := Some jid,
       au_datacenter_id := Some (comp_datacenter_id (compute r)), au_result := Some ''queued'', au_source_ip := source_ip,
       au_details := [(''vcenter_id'', JStr (vcenter_id (compute r))), (''cluster_id'', JStr (cluster_id (compute r))),
         (''iso_id'', JStr (iso_id (guest r))), (''data_disks'', JInt (int (length (disks (hardware r))) - 1)),
         (''network_mode'', JStr (ip_mode_value (ip_mode (network r)))),
         (''computer_name'', (if effective_computer_name r = [] then JNull else JStr (effective_computer_name r))),
         (''requested_fqdn'', opt_text (effective_fqdn r))],
       au_detail_text := Some (''Provisioning request queued for ''
         @ squoted (case effective_fqdn r of Some f \<Rightarrow> if f \<noteq> [] then f else vms_name (vm r) | None \<Rightarrow> vms_name (vm r)) @ ''.'')\<rparr>"

definition insert_request ::
  "submit_env \<Rightarrow> user option \<Rightarrow> ProvisioningRequest \<Rightarrow> string option \<Rightarrow> string option \<Rightarrow> ApiState
     \<Rightarrow> (app_error + (ProvisioningJob \<times> bool)) \<times> ApiState" where
  "insert_request env u r idem_key source_ip s =
     (let fingerprint = request_fingerprint (sha256_hex env) r;
          s1 = s\<lparr>api_jobs := others env (api_jobs s)\<rparr>;
          name = vms_name (vm r)
      in case create_job (submit_now env) (submit_new_id env) name (comp_datacenter_id (compute r))
                (map_option fst u) idem_key (model_dump r) (Some fingerprint) (reserved_ipv4_for r) (api_jobs s1) of
           Inr (jb, tbl) \<Rightarrow>
             (Inr (jb, True),
              api_publish (job_id jb) None ''QUEUED'' 0 (''Provisioning request for '' @ name @ '' queued.'')
                (api_record ''PROVISIONING_REQUEST_CREATED'' (created_audit u r source_ip (job_id jb)) (s1\<lparr>api_jobs := tbl\<rparr>)))
         | Inl violated \<Rightarrow>
             (case (if truthy_text idem_key \<and> violated = IDEMPOTENCY_CONSTRAINT
                    then find_by_idempotency_key (the idem_key) (api_jobs s1) else None) of
                Some existing \<Rightarrow>
                  (case check_idempotent_replay existing fingerprint u of
                     Inl e \<Rightarrow> (Inl e, s1) | Inr jb \<Rightarrow> (Inr (jb, False), s1))
              | None \<Rightarrow> (Inl (integrity_failure violated name), s1)))"

definition submit_provisioning ::
  "submit_env \<Rightarrow> user option \<Rightarrow> ProvisioningRequest \<Rightarrow> string option \<Rightarrow> string option \<Rightarrow> ApiState
     \<Rightarrow> (app_error + (ProvisioningJob \<times> bool)) \<times> ApiState" where
  "submit_provisioning env u r idem_key source_ip s =
     (if identity_policy_version r \<noteq> V2
      then (Inl (DomainValidationError
              ''Identity policy v1 is reserved for stored legacy jobs; new provisioning submissions must use v2.''
              [(''identity_policy_version'', JStr ''v1'')]), s)
      else let fingerprint = request_fingerprint (sha256_hex env) r; name = vms_name (vm r) in
        case (if truthy_text idem_key then find_by_idempotency_key (the idem_key) (api_jobs s) else None) of
          Some existing \<Rightarrow>
            (case check_idempotent_replay existing fingerprint u of
               Inl e \<Rightarrow> (Inl e, s) | Inr jb \<Rightarrow> (Inr (jb, False), s))
        | None \<Rightarrow>
            if has_active_job_for_vm name None (api_jobs s) then (Inl (active_vm_conflict name), s)
            else if truthy_text (reserved_ipv4_for r) \<and> has_ipv4_reservation (the (reserved_ipv4_for r)) None (api_jobs s)
            then (Inl (ipv4_conflict name), s)
            else (case preflight env of
                    None \<Rightarrow> insert_request env u r idem_key source_ip s
                  | Some validate \<Rightarrow>
                      if \<not> report_ready (validate r)
                      then (case reject_blocked u r source_ip (validate r) s of (e, s') \<Rightarrow> (Inl e, s'))
                      else insert_request env u r idem_key source_ip s))"

section \<open>Retry\<close>

definition RETRYABLE_STATUSES :: "JobStatus set" where
  "RETRYABLE_STATUSES = {J_FAILED, J_PARTIALLY_COMPLETED, J_CANCELLED, J_INTERRUPTED}"

definition check_stage :: "ProvisioningJob \<Rightarrow> string option \<Rightarrow> app_error + string list option" where
  "check_stage jb stg =
     (case stg of
        None \<Rightarrow> Inr None
      | Some key \<Rightarrow>
          (case (STAGES_BY_KEY key, step_of key jb) of
             (Some definition, Some step) \<Rightarrow>
               if \<not> (sd_retryable definition \<and> step_retryable step)
               then Inl (DomainValidationError (''Stage '' @ squoted key @ '' is not retryable.'') [])
               else if step_status step \<notin> {S_FAILED, S_CANCELLED}
               then Inl (DomainValidationError (''Stage '' @ squoted key @ '' is '' @ squoted (step_status_value (step_status step))
                      @ '' - only failed stages can be retried.'') [])
               else Inr (Some [key])
           | _ \<Rightarrow> Inl (NotFoundError (''Unknown stage '' @ squoted key @ '' for this job.''))))"

definition retry_stages ::
  "(json_dict \<Rightarrow> ProvisioningRequest option) \<Rightarrow> timestamp \<Rightarrow> user option \<Rightarrow> ProvisioningJob \<Rightarrow> string option
     \<Rightarrow> string option \<Rightarrow> ApiState \<Rightarrow> (app_error + string list) \<times> ApiState" where
  "retry_stages model_validate now u jb stg source_ip s =
     (if job_status jb \<notin> RETRYABLE_STATUSES
      then (Inl (DomainValidationError (''Jobs in status '' @ squoted (job_status_value (job_status jb)) @ '' cannot be retried.'')
              [(''status'', JStr (job_status_value (job_status jb)))]), s)
      else if parse_stored_request model_validate (request_payload jb) = None
      then (Inl (DomainValidationError (''This job was created by a provisioning workflow that no longer exists, so it can ''
              @ ''only be viewed. Submit a new request to create the VM.'') [(''reason'', JStr ''legacy_request'')]), s)
      else case check_stage jb stg of
        Inl e \<Rightarrow> (Inl e, s)
      | Inr keys \<Rightarrow>
          if has_active_job_for_vm (job_vm_name jb) (Some (job_id jb)) (api_jobs s)
          then (Inl (ConflictError (''Another active provisioning job for '' @ squoted (job_vm_name jb)
                  @ '' exists; it must finish first.'') [(''vm_name'', JStr (job_vm_name jb))]), s)
          else (case reset_for_retry now keys jb (api_jobs s) of
                  Inl violated \<Rightarrow> (Inl (integrity_failure violated (job_vm_name jb)), s)
                | Inr (reset, jb', tbl) \<Rightarrow>
                    if reset = [] then (Inl (DomainValidationError ''No failed stages were found to retry.'' []), s)
                    else (Inr reset,
                      api_publish (job_id jb) None ''QUEUED'' (progress jb') (''Retrying stage(s): '' @ join_on '', '' reset)
                        (api_record ''JOB_STAGE_RETRIED''
                          (audit_defaults\<lparr>au_user := u, au_resource_type := Some ''provisioning_job'',
                             au_resource_name := Some (job_vm_name jb), au_job_id := Some (job_id jb),
                             au_result := Some ''requeued'', au_source_ip := source_ip,
                             au_details := [(''stages'', JList (map JStr reset))]\<rparr>)
                          (s\<lparr>api_jobs := tbl\<rparr>)))))"

section \<open>Cancellation\<close>

definition hand_to_worker :: "timestamp \<Rightarrow> ProvisioningJob \<Rightarrow> ProvisioningJob" where
  "hand_to_worker now jb = jb\<lparr>cancel_requested := True, job_status := J_QUEUED, queued_at := now\<rparr>"

definition cancel_row :: "timestamp \<Rightarrow> ProvisioningJob \<Rightarrow> app_error + ProvisioningJob" where
  "cancel_row now jb =
     (if job_status jb = J_INTERRUPTED \<and> may_hold_unattended_media jb then Inr (hand_to_worker now jb)
      else if job_status jb \<in> TERMINAL_JOB_STATUSES
      then Inl (ConflictError (''Job is already '' @ squoted (job_status_value (job_status jb)) @ '' and cannot be cancelled.'')
             [(''status'', JStr (job_status_value (job_status jb)))])
      else Inr (request_cancel now jb))"

definition cancel_job ::
  "timestamp \<Rightarrow> user option \<Rightarrow> ProvisioningJob \<Rightarrow> string option \<Rightarrow> ApiState \<Rightarrow> (app_error + ProvisioningJob) \<times> ApiState" where
  "cancel_job now u jb source_ip s =
     (case cancel_row now jb of
        Inl e \<Rightarrow> (Inl e, s)
      | Inr jb' \<Rightarrow>
          (case flush_row now jb' (api_jobs s) of
             Inl violated \<Rightarrow> (Inl (integrity_failure violated (job_vm_name jb)), s)
           | Inr tbl \<Rightarrow>
               (Inr jb',
                api_publish (job_id jb) (current_stage jb') ''CANCELLING'' (progress jb') ''Cancellation requested.''
                  (api_record ''JOB_CANCELLED''
                    (audit_defaults\<lparr>au_user := u, au_resource_type := Some ''provisioning_job'',
                       au_resource_name := Some (job_vm_name jb), au_job_id := Some (job_id jb),
                       au_result := Some ''cancel_requested'', au_source_ip := source_ip\<rparr>)
                    (s\<lparr>api_jobs := tbl\<rparr>)))))"

section \<open>Lemmas\<close>

lemma api_frame [simp]:
  "api_jobs (api_publish jid stg st pr msg s) = api_jobs s" "api_jobs (api_record action a s) = api_jobs s"
  "api_audit (api_publish jid stg st pr msg s) = api_audit s"
  "api_audit (api_record action a s) = api_audit s @ [audit_event action a]"
  by (simp_all add: api_publish_def api_record_def record_audit_def)

lemma reject_blocked_jobs [simp]: "api_jobs (snd (reject_blocked u r ip rep s)) = api_jobs s"
  by (simp add: reject_blocked_def Let_def)

lemma create_job_InrD:
  assumes "create_job now jid name dc uid key payload fp ip tbl = Inr (j, tbl')"
  shows "tbl' = tbl @ [j]" "job_id j = jid" "job_status j = J_QUEUED" "job_vm_name j = name" "idempotency_key j = key"
    "reserved_ipv4 j = ip" "requested_by_user_id j = uid" "job_fingerprint j = fp" "\<not> cancel_requested j"
    "\<forall>x \<in> set tbl. \<not> job_clash j x" "insert_row j tbl = Inr tbl'" "steps j = []" "request_payload j = Some payload"
  using assms
  by (auto simp: create_job_def insert_row_def new_job_row_def Let_def first_conflict_None split: if_splits option.splits)

lemma first_conflict_key:
  "first_conflict j tbl = Some IDEMPOTENCY_CONSTRAINT \<Longrightarrow> \<exists>x \<in> set tbl. idempotency_key j \<noteq> None \<and> idempotency_key x = idempotency_key j"
  by (auto simp: first_conflict_def INDEX_ORDER_def violates_def list_ex_iff split: if_splits)

lemma create_job_InlD:
  assumes "create_job now jid name dc uid key payload fp ip tbl = Inl IDEMPOTENCY_CONSTRAINT"
  shows "\<exists>k x. key = Some k \<and> x \<in> set tbl \<and> idempotency_key x = Some k"
  using assms by (auto simp: create_job_def insert_row_def new_job_row_def Let_def dest!: first_conflict_key split: if_splits option.splits)

text \<open>The three ways an insert ends.\<close>

lemma insert_request_cases:
  assumes "insert_request env u r key ip s = (res, s')"
  obtains (created) j where "res = Inr (j, True)" "api_jobs s' = others env (api_jobs s) @ [j]"
      "create_job (submit_now env) (submit_new_id env) (vms_name (vm r)) (comp_datacenter_id (compute r)) (map_option fst u) key
         (model_dump r) (Some (request_fingerprint (sha256_hex env) r)) (reserved_ipv4_for r) (others env (api_jobs s))
         = Inr (j, others env (api_jobs s) @ [j])"
  | (replay) j k where "key = Some k" "find_by_idempotency_key k (others env (api_jobs s)) = Some j"
      "api_jobs s' = others env (api_jobs s)" "api_audit s' = api_audit s"
      "res = (case check_idempotent_replay j (request_fingerprint (sha256_hex env) r) u of Inl e \<Rightarrow> Inl e | Inr jb \<Rightarrow> Inr (jb, False))"
  | (refused) violated where "res = Inl (integrity_failure violated (vms_name (vm r)))" "api_jobs s' = others env (api_jobs s)"
      "violated = IDEMPOTENCY_CONSTRAINT \<Longrightarrow> key = Some []"
proof (cases "create_job (submit_now env) (submit_new_id env) (vms_name (vm r)) (comp_datacenter_id (compute r)) (map_option fst u) key
         (model_dump r) (Some (request_fingerprint (sha256_hex env) r)) (reserved_ipv4_for r) (others env (api_jobs s))")
  case (Inr jt)
  obtain j tbl where jt: "jt = (j, tbl)" by (cases jt)
  with Inr have tbl: "tbl = others env (api_jobs s) @ [j]" by (auto dest: create_job_InrD)
  show ?thesis using assms Inr jt tbl by (intro created) (auto simp: insert_request_def Let_def)
next
  case (Inl violated)
  let ?look = "if truthy_text key \<and> violated = IDEMPOTENCY_CONSTRAINT
      then find_by_idempotency_key (the key) (others env (api_jobs s)) else None"
  have eq: "insert_request env u r key ip s =
      (case ?look of
         Some existing \<Rightarrow>
           (case check_idempotent_replay existing (request_fingerprint (sha256_hex env) r) u of
              Inl e \<Rightarrow> (Inl e, s\<lparr>api_jobs := others env (api_jobs s)\<rparr>)
            | Inr jb \<Rightarrow> (Inr (jb, False), s\<lparr>api_jobs := others env (api_jobs s)\<rparr>))
       | None \<Rightarrow> (Inl (integrity_failure violated (vms_name (vm r))), s\<lparr>api_jobs := others env (api_jobs s)\<rparr>))"
    by (simp add: insert_request_def Let_def Inl)
  show ?thesis
  proof (cases ?look)
    case (Some j)
    have res: "(res, s') = (case check_idempotent_replay j (request_fingerprint (sha256_hex env) r) u of
              Inl e \<Rightarrow> (Inl e, s\<lparr>api_jobs := others env (api_jobs s)\<rparr>)
            | Inr jb \<Rightarrow> (Inr (jb, False), s\<lparr>api_jobs := others env (api_jobs s)\<rparr>))"
      using assms unfolding eq Some by simp
    from Some obtain k where "key = Some k" "find_by_idempotency_key k (others env (api_jobs s)) = Some j"
      by (cases key) (auto split: if_splits)
    then show ?thesis
      using res by (cases "check_idempotent_replay j (request_fingerprint (sha256_hex env) r) u") (auto intro: replay)
  next
    case None
    have "key = Some []" if "violated = IDEMPOTENCY_CONSTRAINT"
    proof -
      from Inl that create_job_InlD obtain k x where k: "key = Some k" "x \<in> set (others env (api_jobs s))" "idempotency_key x = Some k"
        by blast
      with None that show ?thesis
        by (cases k) (auto simp: truthy_text_def find_by_idempotency_key_def find_None_iff_all split: if_splits)
    qed
    moreover have "(res, s') = (Inl (integrity_failure violated (vms_name (vm r))), s\<lparr>api_jobs := others env (api_jobs s)\<rparr>)"
      using assms unfolding eq None by simp
    ultimately show ?thesis by (auto intro: refused)
  qed
qed

lemma integrity_failure_raw: "integrity_failure violated name = IntegrityError c \<Longrightarrow> c = violated \<and> c \<in> {PK_JOB, IDEMPOTENCY_CONSTRAINT}"
  by (cases violated) (auto simp: integrity_failure_def reservation_conflict_def active_vm_conflict_def ipv4_conflict_def)

lemma replay_InrD:
  "check_idempotent_replay j fp u = Inr jb \<Longrightarrow> jb = j \<and> requested_by_user_id j = map_option fst u
     \<and> (job_fingerprint j = None \<or> job_fingerprint j = Some fp)"
  by (auto simp: check_idempotent_replay_def Let_def split: if_splits)

lemma replay_InlD: "check_idempotent_replay j fp u = Inl e \<Longrightarrow> \<exists>m d. e = DomainValidationError m d"
  by (auto simp: check_idempotent_replay_def Let_def split: if_splits)

lemma find_by_keyD: "find_by_idempotency_key k tbl = Some j \<Longrightarrow> j \<in> set tbl \<and> idempotency_key j = Some k"
  by (auto simp: find_by_idempotency_key_def dest: find_SomeD)

lemma submit_cases:
  assumes "submit_provisioning env u r key ip s = (res, s')"
  obtains (refused_early) e where "res = Inl e" "api_jobs s' = api_jobs s" "\<And>c. e \<noteq> IntegrityError c"
  | (replay_early) j where "res = Inr (j, False)" "s' = s" "truthy_text key" "find_by_idempotency_key (the key) (api_jobs s) = Some j"
      "check_idempotent_replay j (request_fingerprint (sha256_hex env) r) u = Inr j"
  | (insert) "insert_request env u r key ip s = (res, s')" "identity_policy_version r = V2"
      "\<And>validate. preflight env = Some validate \<Longrightarrow> report_ready (validate r)"
proof (cases "identity_policy_version r = V2")
  case False
  with assms show ?thesis by (intro refused_early) (auto simp: submit_provisioning_def)
next
  case True
  let ?look = "if truthy_text key then find_by_idempotency_key (the key) (api_jobs s) else None"
  let ?fp = "request_fingerprint (sha256_hex env) r"
  show ?thesis
  proof (cases ?look)
    case (Some j)
    then have k: "truthy_text key" "find_by_idempotency_key (the key) (api_jobs s) = Some j" by (auto split: if_splits)
    show ?thesis
    proof (cases "check_idempotent_replay j ?fp u")
      case (Inl e)
      with k True assms show ?thesis using replay_InlD [OF Inl] by (intro refused_early [of e]) (auto simp: submit_provisioning_def Let_def)
    next
      case (Inr jb)
      with k True assms replay_InrD [OF Inr] show ?thesis by (intro replay_early) (auto simp: submit_provisioning_def Let_def)
    qed
  next
    case None
    have eq: "submit_provisioning env u r key ip s =
        (if has_active_job_for_vm (vms_name (vm r)) None (api_jobs s) then (Inl (active_vm_conflict (vms_name (vm r))), s)
         else if truthy_text (reserved_ipv4_for r) \<and> has_ipv4_reservation (the (reserved_ipv4_for r)) None (api_jobs s)
         then (Inl (ipv4_conflict (vms_name (vm r))), s)
         else (case preflight env of
                 None \<Rightarrow> insert_request env u r key ip s
               | Some validate \<Rightarrow>
                   if \<not> report_ready (validate r)
                   then (Inl (fst (reject_blocked u r ip (validate r) s)), snd (reject_blocked u r ip (validate r) s))
                   else insert_request env u r key ip s))"
      unfolding submit_provisioning_def Let_def None using True by (simp add: prod.case_eq_if split: option.split)
    have conf: "active_vm_conflict n \<noteq> IntegrityError c" "ipv4_conflict n \<noteq> IntegrityError c"
      "fst (reject_blocked u r ip rep s) \<noteq> IntegrityError c" for n c rep
      by (simp_all add: active_vm_conflict_def ipv4_conflict_def reject_blocked_def Let_def)
    show ?thesis
    proof (cases "insert_request env u r key ip s = (res, s') \<and> (\<forall>validate. preflight env = Some validate \<longrightarrow> report_ready (validate r))")
      case True
      with \<open>identity_policy_version r = V2\<close> show ?thesis by (intro insert) auto
    next
      case False
      then show ?thesis using assms conf unfolding eq
        by (intro refused_early [of "case res of Inl e \<Rightarrow> e"]) (auto split: if_splits option.splits)
    qed
  qed
qed

section \<open>Properties\<close>

text \<open>
  C7. Submission keeps the table's guarantees against any concurrent transactions that keep them: a
  created job is one new queued row, no active row then shares its VM name (ignoring case) or its
  reserved address; a replay returns, unchanged, a row with the same idempotency key of the same user
  and the same request body; otherwise nothing is added, and a violated unique index always surfaces
  as an application error.
\<close>

theorem submit_provisioning_contract:
  assumes u0: "unique_jobs (api_jobs s)" and u1: "unique_jobs (others env (api_jobs s))"
    and key: "key \<noteq> Some []" and sub: "submit_provisioning env u r key ip s = (res, s')"
  shows "unique_jobs (api_jobs s') \<and>
    (case res of
       Inr (j, created) \<Rightarrow>
         if created
         then api_jobs s' = others env (api_jobs s) @ [j] \<and> job_status j = J_QUEUED
              \<and> job_vm_name j = vms_name (vm r) \<and> reserved_ipv4 j = reserved_ipv4_for r \<and> idempotency_key j = key
              \<and> (\<forall>x \<in> set (others env (api_jobs s)). \<not> job_clash j x)
         else j \<in> set (api_jobs s') \<and> api_jobs s' \<in> {api_jobs s, others env (api_jobs s)}
              \<and> key \<noteq> None \<and> idempotency_key j = key \<and> requested_by_user_id j = map_option fst u
              \<and> job_fingerprint j \<in> {None, Some (request_fingerprint (sha256_hex env) r)}
     | Inl e \<Rightarrow> api_jobs s' \<in> {api_jobs s, others env (api_jobs s)} \<and> e \<noteq> IntegrityError VM_NAME_INDEX
         \<and> e \<noteq> IntegrityError IPV4_INDEX \<and> e \<noteq> IntegrityError IDEMPOTENCY_CONSTRAINT)"
  using sub
proof (cases rule: submit_cases)
  case (refused_early e)
  then show ?thesis using u0 by simp
next
  case (replay_early j)
  then show ?thesis using u0 replay_InrD [of j] find_by_keyD [of "the key"]
    by (cases key) auto
next
  case insert
  from insert(1) show ?thesis
  proof (cases rule: insert_request_cases)
    case (created j)
    note new = create_job_InrD [OF created(3)]
    from insert_row_unique [OF u1 new(11)] created new(3,4,5,6,10) show ?thesis by simp
  next
    case (replay j k)
    show ?thesis
    proof (cases "check_idempotent_replay j (request_fingerprint (sha256_hex env) r) u")
      case (Inl e)
      with replay u1 replay_InlD [OF Inl] show ?thesis by auto
    next
      case (Inr jb)
      with replay u1 replay_InrD [OF Inr] find_by_keyD [OF replay(2)] show ?thesis by simp
    qed
  next
    case (refused violated)
    with u1 key integrity_failure_raw [of violated "vms_name (vm r)"] show ?thesis by auto
  qed
qed

definition sample_submit :: "(ProvisioningRequest \<Rightarrow> PreflightReport) option \<Rightarrow> submit_env" where
  "sample_submit pre = \<lparr>submit_now = 5, submit_new_id = ''j-1'', sha256_hex = (\<lambda>t. t), preflight = pre, others = (\<lambda>t. t)\<rparr>"

definition empty_api :: ApiState where
  "empty_api = \<lparr>api_jobs = [], api_audit = [], api_events = []\<rparr>"

theorem submit_provisioning_contract_witness:
  "let (res, s') = submit_provisioning (sample_submit None) (Some (''u-1'', ''ops'')) sample_request (Some ''key-1'') None empty_api
   in unique_jobs (api_jobs s') \<and> length (api_jobs s') = 1 \<and> is_ok res"
proof -
  let ?sub = "submit_provisioning (sample_submit None) (Some (''u-1'', ''ops'')) sample_request (Some ''key-1'') None empty_api"
  have v2: "identity_policy_version sample_request = V2" "reserved_ipv4_for sample_request = None"
    by (simp_all add: sample_request_def reserved_ipv4_for_def)
  have one: "length (api_jobs (snd ?sub)) = 1" "is_ok (fst ?sub)"
    by (simp_all add: submit_provisioning_def insert_request_def create_job_def insert_row_def sample_submit_def empty_api_def
        Let_def v2 find_by_idempotency_key_def has_active_job_for_vm_def has_ipv4_reservation_def)
  have "unique_jobs (api_jobs (snd ?sub))"
    using submit_provisioning_contract [of empty_api "sample_submit None" "Some ''key-1''" "Some (''u-1'', ''ops'')" sample_request None "fst ?sub" "snd ?sub"]
      job_rows.consistent_Nil by (simp add: empty_api_def sample_submit_def)
  with one show ?thesis by (simp add: prod.case_eq_if)
qed

text \<open>
  A request the server-side preflight blocks is never queued: unless the idempotency key replays an
  earlier job, the submission fails and no row is added.
\<close>

theorem blocked_request_never_queued:
  assumes "preflight env = Some validate" and "\<not> report_ready (validate r)"
    and "submit_provisioning env u r key ip s = (res, s')"
  shows "api_jobs s' = api_jobs s \<and> (case res of Inl _ \<Rightarrow> True | Inr (j, created) \<Rightarrow> \<not> created \<and> j \<in> set (api_jobs s))"
  using assms(3)
proof (cases rule: submit_cases)
  case (replay_early j)
  then show ?thesis using find_by_keyD by fastforce
next
  case insert
  with assms(1,2) show ?thesis by blast
qed simp

theorem blocked_request_never_queued_witness:
  "let pre = Some (\<lambda>r. \<lparr>report_ready = False, report_checks = [], report_summary = ''blocked''\<rparr>)
   in api_jobs (snd (submit_provisioning (sample_submit pre) None sample_request None None empty_api)) = []"
proof -
  let ?v = "\<lambda>r :: ProvisioningRequest. \<lparr>report_ready = False, report_checks = [], report_summary = ''blocked''\<rparr>"
  let ?sub = "submit_provisioning (sample_submit (Some ?v)) None sample_request None None empty_api"
  from blocked_request_never_queued [of "sample_submit (Some ?v)" ?v sample_request None None None empty_api "fst ?sub" "snd ?sub"]
  show ?thesis by (simp add: sample_submit_def empty_api_def)
qed

text \<open>
  Known defect: cancelling an interrupted job that still holds answer media hands it to a worker,
  but cancelling it a second time before a worker claims it finalises it as cancelled while the media,
  with the plaintext password, is still recorded as present; no worker picks the job up any more.
\<close>

theorem second_cancel_strands_answer_media:
  assumes "job_status j = J_INTERRUPTED" and "may_hold_unattended_media j"
  shows "\<exists>j1 j2. cancel_row t1 j = Inr j1 \<and> job_status j1 = J_QUEUED \<and> cancel_row t2 j1 = Inr j2
    \<and> job_status j2 = J_CANCELLED \<and> may_hold_unattended_media j2"
proof -
  let ?j1 = "hand_to_worker t1 j" and ?j2 = "request_cancel t2 (hand_to_worker t1 j)"
  have steps1: "steps ?j1 = steps j" by (simp add: hand_to_worker_def)
  have "step_of k ?j2 = map_option (\<lambda>s. if step_status s \<in> {S_PENDING, S_RUNNING} then s\<lparr>step_status := S_CANCELLED\<rparr> else s) (step_of k j)" for k
  proof -
    let ?f = "\<lambda>s. if step_status s \<in> {S_PENDING, S_RUNNING} then s\<lparr>step_status := S_CANCELLED\<rparr> else s"
    have "find (\<lambda>s. stage_key s = k) (map ?f xs) = map_option ?f (find (\<lambda>s. stage_key s = k) xs)" for xs
      by (induction xs) auto
    then show ?thesis by (simp add: step_of_def request_cancel_def hand_to_worker_def cancel_open_steps_def Let_def)
  qed
  then have "may_hold_unattended_media ?j2"
    using assms(2) by (auto simp: may_hold_unattended_media_def Let_def split: option.splits)
  moreover have "cancel_row t1 j = Inr ?j1" using assms by (simp add: cancel_row_def)
  moreover have "cancel_row t2 ?j1 = Inr ?j2" by (simp add: cancel_row_def hand_to_worker_def status_sets)
  ultimately show ?thesis
    by (intro exI [of _ ?j1] exI [of _ ?j2]) (simp add: hand_to_worker_def request_cancel_def cancel_open_steps_def Let_def)
qed

theorem second_cancel_strands_answer_media_witness:
  "let j = (new_job_row ''j-1'' ''srv01'' 0)\<lparr>job_status := J_INTERRUPTED,
             steps := [(new_step_row ''prepare_unattended_install'' ''Prepare'' 6 True)
               \<lparr>step_status := S_SUCCEEDED, artifacts := [(''datastore_path'', JStr ''[ds1] a.iso'')]\<rparr>]\<rparr>
   in \<exists>j1 j2. cancel_row 1 j = Inr j1 \<and> cancel_row 2 j1 = Inr j2 \<and> job_status j2 = J_CANCELLED \<and> may_hold_unattended_media j2"
proof -
  let ?j = "(new_job_row ''j-1'' ''srv01'' 0)\<lparr>job_status := J_INTERRUPTED,
             steps := [(new_step_row ''prepare_unattended_install'' ''Prepare'' 6 True)
               \<lparr>step_status := S_SUCCEEDED, artifacts := [(''datastore_path'', JStr ''[ds1] a.iso'')]\<rparr>]\<rparr>"
  have "may_hold_unattended_media ?j"
    by (simp add: may_hold_unattended_media_def step_of_def new_step_row_def dict_truthy_def)
  with second_cancel_strands_answer_media [of ?j 1 2] show ?thesis unfolding Let_def by auto
qed

end
