(* ===== verification/Stage_Base.thy ===== *)
theory Stage_Base
  imports Stage_Scripts Storage_Placement Ip_Conflict App_Installer Certificates Answer_Iso Pipeline Provisioning_Service
begin

text \<open>
  What the stage handlers of \<^verbatim>\<open>workers/stages.py\<close> share. A handler is a computation on the run context that returns a
  value or raises, or does not return at all (\<^term>\<open>None\<close>, for polling loops whose clock stands still). The calls of
  \<^verbatim>\<open>VMwareService\<close> and of the guest adapter, the secret store, the database rows and the clocks are fields of the
  environment; calls act on the world \<open>'w\<close> behind the adapters, which may also change by itself.
\<close>

section \<open>Value objects\<close>

record ConnectionTestResult =
  test_ok :: bool
  test_latency_ms :: "rat option"
  test_detail :: string

record PowerStateInfo =
  power_state :: string
  tools_status :: "string option"
  tools_running_status :: "string option"
  tools_version_status :: "string option"
  guest_operations_ready :: bool
  guest_family :: "string option"
  ip_addresses :: "string list"
  guest_host_name :: "string option"
  cpu_usage_mhz :: "int option"
  cpu_capacity_mhz :: "int option"

record VmCreateSpec =
  spec_vm_name :: string
  spec_datacenter_id :: string
  spec_iso_id :: string
  spec_os_disk :: DiskSpec
  spec_description :: string
  spec_cluster_id :: string
  spec_host_id :: "string option"
  spec_resource_pool_id :: "string option"
  spec_datastore_id :: "string option"
  spec_cpu :: int
  spec_memory_mb :: int
  spec_firmware :: FirmwareType
  spec_secure_boot :: bool
  spec_job_id :: "string option"

type_synonym ('w, 'a) call = "'w \<Rightarrow> (guest_error + 'a) \<times> 'w"

text \<open>
  \<open>detach_installation_media\<close> additionally tells whether a raised error is the subclass \<^verbatim>\<open>VmQuestionPending\<close>.
\<close>

record 'w stage_env = "'w pipeline_env" +
  se_request :: ProvisioningRequest
  se_host :: string
  se_guest :: "string \<times> string \<Rightarrow> 'w guest_ops"
  se_token :: "nat \<Rightarrow> string"
  se_secret :: "string \<Rightarrow> guest_error + string"
  se_jobs :: job_table
  se_applications :: "Application list"
  se_packages :: "CertificatePackage list"
  se_certificates :: "Certificate list"
  se_today :: date
  se_fullmatch :: "string \<Rightarrow> string \<Rightarrow> bool option"
  se_time :: "'w \<Rightarrow> rat"
  se_sleep :: "rat \<Rightarrow> 'w \<Rightarrow> 'w"
  se_ping :: "string option"
  se_windows :: bool
  se_exec :: "string list \<Rightarrow> string + int \<times> string"
  se_urlsafe :: "nat \<Rightarrow> string"
  se_iso :: "timestamp \<Rightarrow> string"
  test_connection :: "('w, ConnectionTestResult) call"
  get_datacenters :: "('w, DatacenterOut list) call"
  get_clusters :: "string \<Rightarrow> ('w, ClusterOut list) call"
  get_hosts :: "string \<Rightarrow> ('w, HostOut list) call"
  get_resource_pools :: "string \<Rightarrow> ('w, string list) call"
  get_datastores :: "string \<Rightarrow> ('w, DatastoreOut list) call"
  get_networks :: "string \<Rightarrow> ('w, NetworkOut list) call"
  get_isos :: "string \<Rightarrow> ('w, IsoImageOut list) call"
  get_vm_info :: "string \<Rightarrow> ('w, PowerStateInfo option) call"
  get_vm_info_by_id :: "string \<Rightarrow> ('w, PowerStateInfo option) call"
  get_used_ips :: "('w, (string, string) dict) call"
  find_vm_ownership :: "string \<Rightarrow> ('w, VmOwnership option) call"
  create_vm :: "VmCreateSpec \<Rightarrow> ('w, VmRef) call"
  configure_hardware :: "string \<Rightarrow> int \<Rightarrow> int \<Rightarrow> ('w, unit) call"
  attach_network :: "string \<Rightarrow> string \<Rightarrow> AdapterType \<Rightarrow> string \<Rightarrow> ('w, unit) call"
  attach_answer_media :: "string \<Rightarrow> string \<Rightarrow> string option \<Rightarrow> string \<Rightarrow> string \<Rightarrow> ('w, string) call"
  power_on :: "string \<Rightarrow> ('w, unit) call"
  reset_vm :: "string \<Rightarrow> ('w, unit) call"
  send_keystrokes :: "string \<Rightarrow> nat list \<Rightarrow> ('w, nat) call"
  detach_installation_media :: "string \<Rightarrow> 'w \<Rightarrow> (guest_error \<times> bool + string list) \<times> 'w"
  add_data_disks :: "string \<Rightarrow> DiskSpec list \<Rightarrow> ('w, nat) call"

definition firmware_value :: "FirmwareType \<Rightarrow> string" where
  "firmware_value f = (case f of BIOS \<Rightarrow> ''BIOS'' | EFI \<Rightarrow> ''EFI'')"

definition adapter_value :: "AdapterType \<Rightarrow> string" where
  "adapter_value a = (case a of VMXNET3 \<Rightarrow> ''VMXNET3'' | E1000E \<Rightarrow> ''E1000E'')"

definition provisioning_value :: "DiskProvisioning \<Rightarrow> string" where
  "provisioning_value p = (case p of THIN \<Rightarrow> ''thin'' | THICK \<Rightarrow> ''thick'')"

section \<open>Computations on the run context\<close>

type_synonym ('w, 'a) stage = "'w JobRunContext \<Rightarrow> ((guest_error + 'a) \<times> 'w JobRunContext) option"

definition ret :: "'a \<Rightarrow> ('w, 'a) stage" where
  "ret x c = Some (Inr x, c)"

definition raise_error :: "InfraOperationError \<Rightarrow> ('w, 'a) stage" where
  "raise_error e c = Some (Inl (Infra e), c)"

definition lift :: "guest_error + 'a \<Rightarrow> ('w, 'a) stage" where
  "lift r c = Some (r, c)"

definition seq :: "('w, 'a) stage \<Rightarrow> ('a \<Rightarrow> ('w, 'b) stage) \<Rightarrow> ('w, 'b) stage" where
  "seq m k c = Option.bind (m c) (\<lambda>(r, c'). case r of Inl e \<Rightarrow> Some (Inl e, c') | Inr x \<Rightarrow> k x c')"

definition andthen :: "('w, 'a) stage \<Rightarrow> ('w, 'b) stage \<Rightarrow> ('w, 'b) stage" where
  "andthen m k = seq m (\<lambda>_. k)"

text \<open>\<^verbatim>\<open>try: m except InfraOperationError as e: h(e)\<close>.\<close>

definition attempt :: "('w, 'a) stage \<Rightarrow> (InfraOperationError \<Rightarrow> ('w, 'a) stage) \<Rightarrow> ('w, 'a) stage" where
  "attempt m h c = Option.bind (m c) (\<lambda>(r, c'). case r of Inl (Infra e) \<Rightarrow> h e c' | _ \<Rightarrow> Some (r, c'))"

definition call :: "('w, 'a) call \<Rightarrow> ('w, 'a) stage" where
  "call f c = (case f (world c) of (r, w) \<Rightarrow> Some (r, c\<lparr>world := w\<rparr>))"

definition with_context :: "('w JobRunContext \<Rightarrow> ('w, 'a) stage) \<Rightarrow> ('w, 'a) stage" where
  "with_context k c = k c c"

definition update_job :: "(ProvisioningJob \<Rightarrow> ProvisioningJob) \<Rightarrow> ('w, unit) stage" where
  "update_job f c = Some (Inr (), map_job f c)"

definition modify :: "('w JobRunContext \<Rightarrow> 'w JobRunContext) \<Rightarrow> ('w, unit) stage" where
  "modify f c = Some (Inr (), f c)"

definition sleep :: "('w, 'z) stage_env_scheme \<Rightarrow> rat \<Rightarrow> ('w, unit) stage" where
  "sleep env d c = Some (Inr (), c\<lparr>world := se_sleep env d (world c)\<rparr>)"

definition effective_rows :: "('w, 'z) stage_env_scheme \<Rightarrow> ('w, json_dict) stage" where
  "effective_rows env = lift (case settings_rows env of None \<Rightarrow> Inl (Other ''OperationalError'') | Some rows \<Rightarrow> Inr rows)"

definition vm_id :: "('w, string) stage" where
  "vm_id c = (case require_vm_id c of (Inl e, c') \<Rightarrow> Some (Inl (Infra e), c') | (Inr v, c') \<Rightarrow> Some (Inr v, c'))"

definition resolve_guest_credentials :: "('w, 'z) stage_env_scheme \<Rightarrow> ('w, string \<times> string) stage" where
  "resolve_guest_credentials env =
     (let base = guest_credential_ref (guest (se_request env)) in
      seq (lift (se_secret env (base @ ''/username''))) (\<lambda>u.
      seq (lift (se_secret env (base @ ''/password''))) (\<lambda>p. ret (u, p))))"

text \<open>A guest script gets the next random token for its file names.\<close>

definition run_script ::
  "('w, 'z) stage_env_scheme \<Rightarrow> string \<times> string \<Rightarrow> string \<Rightarrow> rat \<Rightarrow> (string, string) dict \<Rightarrow> ('w, CommandResult) stage" where
  "run_script env credentials scr timeout secrets c =
     (case run_powershell (se_guest env credentials) (se_token env (ticks c)) scr timeout secrets (world c) of
        (r, w) \<Rightarrow> Some (r, c\<lparr>world := w, ticks := Suc (ticks c)\<rparr>))"

definition outcome :: "string \<Rightarrow> string \<Rightarrow> json_dict \<Rightarrow> StageOutcome" where
  "outcome st out arts = \<lparr>outcome_status = st, outcome_output = out, outcome_artifacts = arts\<rparr>"

abbreviation "done_with out arts \<equiv> ret (outcome ''SUCCEEDED'' out arts)"

abbreviation "skip_stage out \<equiv> ret (outcome ''SKIPPED'' out [])"

text \<open>The artifacts of another stage's step, empty when there is none.\<close>

definition step_artifacts :: "string \<Rightarrow> 'w JobRunContext \<Rightarrow> json_dict" where
  "step_artifacts key c = (case step_of key (job c) of None \<Rightarrow> [] | Some s \<Rightarrow> artifacts s)"

definition job_audit :: "string \<Rightarrow> string \<Rightarrow> string \<Rightarrow> json_dict \<Rightarrow> ('w, unit) stage" where
  "job_audit action rtype rname details =
     modify (\<lambda>c. audit action ((job_audit_args c rtype rname ''success'')\<lparr>au_details := details\<rparr>) c)"

definition joined_output :: "CommandResult \<Rightarrow> string" where
  "joined_output r = stdout r @ nl @ stderr r"

text \<open>A program run directly in the guest, and a loop whose body ends it with a result or goes on with a new state.\<close>

definition run_guest_program ::
  "('w, 'z) stage_env_scheme \<Rightarrow> string \<times> string \<Rightarrow> string \<Rightarrow> string \<Rightarrow> rat \<Rightarrow> ('w, CommandResult) stage" where
  "run_guest_program env credentials path args timeout = call (run_program (se_guest env credentials) path args timeout)"

partial_function (option) loop :: "('s \<Rightarrow> 'r + 's) \<Rightarrow> 's \<Rightarrow> 'r option" where
  "loop body s = (case body s of Inl r \<Rightarrow> Some r | Inr s' \<Rightarrow> loop body s')"

text \<open>A result of a loop is the result of its body in a state that satisfies the invariant.\<close>

lemma loop_result:
  assumes "loop body s = Some r" and "I s" and "\<And>s s'. I s \<Longrightarrow> body s = Inr s' \<Longrightarrow> I s'"
  shows "\<exists>s'. I s' \<and> body s' = Inl r"
proof -
  have "body = body \<longrightarrow> I s \<longrightarrow> (\<exists>s'. I s' \<and> body s' = Inl r)"
  proof (rule loop.raw_induct [where P = "\<lambda>b s r. b = body \<longrightarrow> I s \<longrightarrow> (\<exists>s'. I s' \<and> body s' = Inl r)", OF _ assms(1)])
    fix lp b s y
    assume IH: "\<And>b s y. lp b s = Some y \<Longrightarrow> b = body \<longrightarrow> I s \<longrightarrow> (\<exists>s'. I s' \<and> body s' = Inl y)"
      and y: "(case b s of Inl r \<Rightarrow> Some r | Inr s' \<Rightarrow> lp b s') = Some y"
    show "b = body \<longrightarrow> I s \<longrightarrow> (\<exists>s'. I s' \<and> body s' = Inl y)"
      using y IH assms(3) by (cases "b s") auto
  qed
  with assms(2) show ?thesis by simp
qed

text \<open>A loop whose body cannot go on at or after the deadline ends, when each round moves the clock by at least \<open>d\<close> or to the deadline.\<close>

lemma loop_ends:
  fixes time :: "'s \<Rightarrow> rat"
  assumes "0 < d" and "I s" and "\<And>s s'. I s \<Longrightarrow> body s = Inr s' \<Longrightarrow> I s'"
    and stop: "\<And>s s'. I s \<Longrightarrow> body s = Inr s' \<Longrightarrow> time s < deadline \<and> (time s + d \<le> time s' \<or> deadline \<le> time s')"
  shows "\<exists>r. loop body s = Some r"
proof -
  have "\<exists>r. loop body s = Some r" if "I s" "deadline - time s \<le> of_nat n * d" for n s
    using that
  proof (induction n arbitrary: s)
    case 0
    then show ?case using stop [of s] by (subst loop.simps) (fastforce split: sum.split)
  next
    case (Suc n)
    show ?case
    proof (cases "body s")
      case (Inr s')
      have "0 \<le> of_nat n * d" using assms(1) by simp
      then have "deadline - time s' \<le> of_nat n * d"
        using stop [OF Suc.prems(1) Inr] Suc.prems(2) by (auto simp: algebra_simps)
      with Suc.IH [of s'] assms(3) [OF Suc.prems(1) Inr] Inr show ?thesis by (simp add: loop.simps [of body s])
    qed (simp add: loop.simps [of body s])
  qed
  moreover obtain n where "(deadline - time s) / d < of_nat n" using reals_Archimedean2 by blast
  ultimately show ?thesis using assms(1,2) by (metis divide_less_eq less_imp_le)
qed

text \<open>A polling loop whose body runs computations.\<close>

definition poll_loop :: "('s \<Rightarrow> ((guest_error + 'a) \<times> 'w JobRunContext) option + 's) \<Rightarrow> 's \<Rightarrow> ((guest_error + 'a) \<times> 'w JobRunContext) option" where
  "poll_loop body s = Option.bind (loop body s) (\<lambda>r. r)"

text \<open>A relation that every call of the guest adapter respects is respected by a whole script run.\<close>

definition guest_moves :: "'g guest_ops \<Rightarrow> ('g \<Rightarrow> 'g \<Rightarrow> bool) \<Rightarrow> bool" where
  "guest_moves ops R \<longleftrightarrow> reflp R \<and> transp R
     \<and> (\<forall>p s g. R g (snd (upload_file ops p s g))) \<and> (\<forall>p a t g. R g (snd (run_program ops p a t g)))
     \<and> (\<forall>p g. R g (snd (delete_file ops p g)))"

lemma guest_movesD:
  assumes "guest_moves ops R"
  shows "R g g" and "R g1 g2 \<Longrightarrow> R g2 g3 \<Longrightarrow> R g1 g3"
    and "upload_file ops p s g = (e, g') \<Longrightarrow> R g g'" and "run_program ops p a t g = (r, g') \<Longrightarrow> R g g'"
    and "delete_file ops p g = (e, g') \<Longrightarrow> R g g'"
  using assms unfolding guest_moves_def by (metis reflpD, metis transpD, metis snd_conv, metis snd_conv, metis snd_conv)

lemma upload_all_moves:
  assumes m: "guest_moves ops R"
  shows "upload_all ops fs up g = (e, up', g') \<Longrightarrow> R g g'"
proof (induction fs arbitrary: up g)
  case (Cons f fs)
  obtain p s where f: "f = (p, s)" by (cases f)
  obtain x g1 where u: "upload_file ops p s g = (x, g1)" by fastforce
  show ?case
  proof (cases x)
    case None
    with Cons u f have "R g1 g'" by simp
    with guest_movesD(2,3) [OF m] u show ?thesis by blast
  qed (use Cons.prems u f guest_movesD(3) [OF m u] in simp)
qed (simp add: guest_movesD(1) [OF m])

lemma delete_all_moves:
  assumes m: "guest_moves ops R"
  shows "delete_all ops ps g = (e, g') \<Longrightarrow> R g g'"
proof (induction ps arbitrary: g)
  case (Cons p ps)
  obtain x g1 where u: "delete_file ops p g = (x, g1)" by fastforce
  have g1: "R g g1" using guest_movesD(5) [OF m u] .
  with guest_movesD(2) [OF m this] Cons u show ?case by (auto split: option.splits guest_error.splits)
qed (simp add: guest_movesD(1) [OF m])

lemma run_body_moves:
  assumes m: "guest_moves ops R" and run: "run_body ops token scr timeout secrets g = (r, up, g')"
  shows "R g g'"
proof -
  note steps = guest_movesD [OF m] upload_all_moves [OF m]
  obtain e1 up1 g1 where u1: "upload_all ops (map (\<lambda>((_, path), (_, content)). (path, content)) (zip (secret_paths_for token secrets) secrets)) [] g
      = (e1, up1, g1)" by (metis prod_cases3)
  show ?thesis
  proof (cases "e1 \<noteq> None \<or> \<not> is_ok (build_script_file scr (secret_paths_for token secrets))")
    case True
    then have "g' = g1" using run u1 by (auto simp: run_body_def Let_def is_ok_def split: sum.splits option.splits)
    with steps(6) [OF u1] show ?thesis by simp
  next
    case False
    then obtain t where t: "build_script_file scr (secret_paths_for token secrets) = Inr t" by (auto simp: is_ok_def split: sum.splits)
    obtain e2 up2 g2 where u2: "upload_all ops [(new_temp_path token ''ps1'', encode_script t)] up1 g1 = (e2, up2, g2)" by (metis prod_cases3)
    obtain r3 g3 where u3: "run_program ops POWERSHELL_PATH (powershell_file_arguments (new_temp_path token ''ps1'')) timeout g2 = (r3, g3)" by fastforce
    have "g' = g2 \<or> g' = g3" using run False u1 t u2 u3 by (cases e2) (auto simp: run_body_def Let_def simp del: upload_all.simps)
    moreover have "R g g2" using steps(2) steps(6) [OF u1] steps(6) [OF u2] by blast
    ultimately show ?thesis using steps(2) steps(4) [OF u3] by blast
  qed
qed

lemma run_powershell_moves:
  assumes m: "guest_moves ops R" and "run_powershell ops token scr timeout secrets g = (r, g')"
  shows "R g g'"
proof -
  obtain r1 up g1 where b: "run_body ops token scr timeout secrets g = (r1, up, g1)" by (metis prod_cases3)
  obtain e g2 where d: "delete_all ops up g1 = (e, g2)" by fastforce
  have "g' = g2" using assms(2) b d by (simp add: run_powershell_def split: option.splits)
  then show ?thesis using guest_movesD(2) [OF m run_body_moves [OF m b] delete_all_moves [OF m d]] by simp
qed

section \<open>Frames\<close>

text \<open>
  Computations that leave the statuses of the steps alone, and the columns of the job that the worker, the pipeline and
  the API keep: what identifies the row and its reservations, its owner, its status and its progress.
\<close>

definition controls :: "ProvisioningJob \<Rightarrow> (uuid \<times> string \<times> string option \<times> string option)
    \<times> (string option \<times> timestamp option \<times> timestamp option) \<times> JobStatus \<times> timestamp option \<times> int" where
  "controls j = ((job_id j, job_vm_name j, reserved_ipv4 j, idempotency_key j), (worker_id j, heartbeat_at j, started_at j),
     job_status j, finished_at j, progress j)"

definition keeps :: "('w, 'a) stage \<Rightarrow> bool" where
  "keeps m \<longleftrightarrow> (\<forall>c r c'. m c = Some (r, c') \<longrightarrow> statuses (job c') = statuses (job c) \<and> controls (job c') = controls (job c))"

named_theorems keeps_intros \<open>computations that keep the step statuses\<close>

lemma keepsD: "keeps m \<Longrightarrow> m c = Some (r, c') \<Longrightarrow> statuses (job c') = statuses (job c) \<and> controls (job c') = controls (job c)"
  by (simp add: keeps_def)

lemma keeps_ret [keeps_intros]: "keeps (ret x)"
  by (simp add: keeps_def ret_def)

lemma keeps_raise [keeps_intros]: "keeps (raise_error e)"
  by (simp add: keeps_def raise_error_def)

lemma keeps_lift [keeps_intros]: "keeps (lift r)"
  by (simp add: keeps_def lift_def)

lemma keeps_seq [keeps_intros]: "keeps m \<Longrightarrow> (\<And>x. keeps (k x)) \<Longrightarrow> keeps (seq m k)"
  unfolding keeps_def seq_def by (fastforce split: sum.splits bind_splits)

lemma keeps_andthen [keeps_intros]: "keeps m \<Longrightarrow> keeps k \<Longrightarrow> keeps (andthen m k)"
  unfolding andthen_def by (intro keeps_seq)

lemma keeps_attempt [keeps_intros]: "keeps m \<Longrightarrow> (\<And>e. keeps (h e)) \<Longrightarrow> keeps (attempt m h)"
  unfolding keeps_def attempt_def by (fastforce split: sum.splits bind_splits guest_error.splits)

lemma keeps_call [keeps_intros]: "keeps (call f)"
  by (auto simp: keeps_def call_def split: prod.splits)

lemma keeps_with_context [keeps_intros]: "(\<And>c. keeps (k c)) \<Longrightarrow> keeps (with_context k)"
  by (simp add: keeps_def with_context_def)

lemma keeps_update_job [keeps_intros]:
  "(\<And>j. statuses (f j) = statuses j \<and> controls (f j) = controls j) \<Longrightarrow> keeps (update_job f)"
  by (simp add: keeps_def update_job_def map_job_def)

lemma keeps_modify [keeps_intros]: "(\<And>c. job (f c) = job c) \<Longrightarrow> keeps (modify f)"
  by (auto simp: keeps_def modify_def)

lemma keeps_sleep [keeps_intros]: "keeps (sleep env d)"
  by (simp add: keeps_def sleep_def)

lemma keeps_vm_id [keeps_intros]: "keeps vm_id"
  by (auto simp: keeps_def vm_id_def require_vm_id_def Let_def split: option.splits if_splits)

lemma keeps_run_script [keeps_intros]: "keeps (run_script env cr scr t ss)"
  by (auto simp: keeps_def run_script_def split: prod.splits)

lemma keeps_if [keeps_intros]: "(b \<Longrightarrow> keeps m) \<Longrightarrow> (\<not> b \<Longrightarrow> keeps n) \<Longrightarrow> keeps (if b then m else n)"
  by simp

lemma keeps_option [keeps_intros]: "keeps m \<Longrightarrow> (\<And>x. keeps (f x)) \<Longrightarrow> keeps (case v of None \<Rightarrow> m | Some x \<Rightarrow> f x)"
  by (cases v) simp_all

lemma keeps_sum [keeps_intros]: "(\<And>e. keeps (f e)) \<Longrightarrow> (\<And>x. keeps (g x)) \<Longrightarrow> keeps (case v of Inl e \<Rightarrow> f e | Inr x \<Rightarrow> g x)"
  by (cases v) simp_all

lemma keeps_prod [keeps_intros]: "(\<And>x y. keeps (f x y)) \<Longrightarrow> keeps (case v of (x, y) \<Rightarrow> f x y)"
  by (cases v) simp

lemma keeps_Let [keeps_intros]: "(\<And>x. keeps (f x)) \<Longrightarrow> keeps (let x = v in f x)"
  by simp

lemma keeps_rows [keeps_intros]: "keeps (effective_rows env)"
  unfolding effective_rows_def by (intro keeps_intros)

lemma keeps_credentials [keeps_intros]: "keeps (resolve_guest_credentials env)"
  unfolding resolve_guest_credentials_def by (intro keeps_intros)

lemma keeps_job_audit [keeps_intros]: "keeps (job_audit action rtype rname details)"
  unfolding job_audit_def by (intro keeps_intros) (simp add: audit_def)

lemma keeps_stamp [keeps_intros]: "(\<And>now. keeps (k now)) \<Longrightarrow> keeps (\<lambda>c. case utcnow env c of (now, c1) \<Rightarrow> k now c1)"
  by (auto simp: keeps_def utcnow_def)

lemma statuses_update_step:
  "(\<And>s. stage_key (f s) = stage_key s \<and> step_status (f s) = step_status s) \<Longrightarrow> statuses (update_step key f j) = statuses j"
  by (simp add: statuses_def update_step_def comp_def if_distrib cong: if_cong)

lemma controls_update_step [simp]: "controls (update_step key f j) = controls j"
  by (simp add: controls_def update_step_def)

lemma keeps_guest_program [keeps_intros]: "keeps (run_guest_program env cr p a t)"
  unfolding run_guest_program_def by (intro keeps_intros)

text \<open>Loops keep what each round keeps.\<close>

definition same_statuses :: "'w JobRunContext \<Rightarrow> 'w JobRunContext \<Rightarrow> bool" where
  "same_statuses c c' \<longleftrightarrow> statuses (job c') = statuses (job c) \<and> controls (job c') = controls (job c)"

lemma loop_same_statuses:
  assumes "\<And>s s'. body s = Inr s' \<Longrightarrow> same_statuses (ctx s) (ctx s')" and "loop body s0 = Some r"
  shows "\<exists>s. same_statuses (ctx s0) (ctx s) \<and> body s = Inl r"
proof (rule loop_result [OF assms(2), where I = "\<lambda>s. same_statuses (ctx s0) (ctx s)"])
  fix s s'
  assume "same_statuses (ctx s0) (ctx s)" and "body s = Inr s'"
  with assms(1) [of s s'] show "same_statuses (ctx s0) (ctx s')" by (simp add: same_statuses_def)
qed (simp add: same_statuses_def)

lemma keeps_loop:
  assumes "\<And>c s s'. body c s = Inr s' \<Longrightarrow> same_statuses (ctx s) (ctx s')"
    and "\<And>c s r c'. body c s = Inl (r, c') \<Longrightarrow> same_statuses (ctx s) c'"
    and "\<And>c. ctx (start c) = c"
  shows "keeps (\<lambda>c. loop (body c) (start c))"
  unfolding keeps_def
proof (intro allI impI)
  fix c r c'
  assume "loop (body c) (start c) = Some (r, c')"
  from loop_same_statuses [where body = "body c" and ctx = ctx, OF assms(1) [of c] this]
  obtain s where "same_statuses (ctx (start c)) (ctx s)" and s: "body c s = Inl (r, c')" by blast
  with assms(2) [OF s] assms(3) [of c] show "statuses (job c') = statuses (job c) \<and> controls (job c') = controls (job c)"
    by (simp add: same_statuses_def)
qed

lemma keeps_poll_loop:
  assumes "\<And>c s s'. body c s = Inr s' \<Longrightarrow> same_statuses (ctx s) (ctx s')"
    and "\<And>c s r c'. body c s = Inl (Some (r, c')) \<Longrightarrow> same_statuses (ctx s) c'"
    and "\<And>c. ctx (start c) = c"
  shows "keeps (\<lambda>c. poll_loop (body c) (start c))"
  unfolding keeps_def
proof (intro allI impI)
  fix c r c'
  assume "poll_loop (body c) (start c) = Some (r, c')"
  then have "loop (body c) (start c) = Some (Some (r, c'))" by (auto simp: poll_loop_def split: bind_splits)
  from loop_same_statuses [where body = "body c" and ctx = ctx, OF assms(1) [of c] this]
  obtain s where "same_statuses (ctx (start c)) (ctx s)" and s: "body c s = Inl (Some (r, c'))" by blast
  with assms(2) [OF s] assms(3) [of c] show "statuses (job c') = statuses (job c) \<and> controls (job c') = controls (job c)"
    by (simp add: same_statuses_def)
qed

lemma keepsD': "keeps m \<Longrightarrow> m c = Some (r, c') \<Longrightarrow> same_statuses c c'"
  by (simp add: keeps_def same_statuses_def)

lemma same_statuses_world [simp]: "same_statuses c (c'\<lparr>world := w\<rparr>) = same_statuses c c'" "same_statuses (c\<lparr>world := w\<rparr>) c' = same_statuses c c'"
  "same_statuses c c"
  by (simp_all add: same_statuses_def)

section \<open>A result and where it comes from\<close>

lemma run_simps:
  "seq m k c = (case m c of None \<Rightarrow> None | Some (Inl e, c') \<Rightarrow> Some (Inl e, c') | Some (Inr x, c') \<Rightarrow> k x c')"
  "andthen m k2 c = (case m c of None \<Rightarrow> None | Some (Inl e, c') \<Rightarrow> Some (Inl e, c') | Some (Inr x, c') \<Rightarrow> k2 c')"
  "with_context f c = f c c"
  "call g c = (case g (world c) of (r, w) \<Rightarrow> Some (r, c\<lparr>world := w\<rparr>))"
  "ret y c = Some (Inr y, c)" "raise_error e' c = Some (Inl (Infra e'), c)" "lift v c = Some (v, c)"
  "modify h c = Some (Inr (), h c)" "update_job j c = Some (Inr (), map_job j c)"
  by (simp_all add: seq_def andthen_def with_context_def call_def ret_def raise_error_def lift_def modify_def update_job_def
      split: option.split sum.split prod.split)

lemma seq_InrE:
  assumes "seq m k c = Some (Inr y, c')"
  obtains x c1 where "m c = Some (Inr x, c1)" "k x c1 = Some (Inr y, c')"
  using assms by (auto simp: seq_def split: bind_splits sum.splits)

lemma andthen_InrE:
  assumes "andthen m k c = Some (Inr y, c')"
  obtains x c1 where "m c = Some (Inr x, c1)" "k c1 = Some (Inr y, c')"
  using assms unfolding andthen_def by (rule seq_InrE)

lemma stage_simps [simp]:
  "ret x c = Some (r, c') \<longleftrightarrow> r = Inr x \<and> c' = c"
  "raise_error e c = Some (r, c') \<longleftrightarrow> r = Inl (Infra e) \<and> c' = c"
  "lift v c = Some (r, c') \<longleftrightarrow> r = v \<and> c' = c"
  by (auto simp: ret_def raise_error_def lift_def)

lemma stage_update_simps [simp]:
  "modify f c = Some (r, c') \<longleftrightarrow> r = Inr () \<and> c' = f c"
  "update_job g c = Some (r, c') \<longleftrightarrow> r = Inr () \<and> c' = map_job g c"
  by (auto simp: modify_def update_job_def)

section \<open>A sample environment\<close>

text \<open>
  The world is a clock in seconds that only \<open>se_sleep\<close> moves; every guest program prints \<open>out\<close>, the VM \<open>own\<close> is found
  under every name, and vCenter reports \<open>info\<close> for every VM.
\<close>

definition sample_guest :: "string \<Rightarrow> rat guest_ops" where
  "sample_guest out = \<lparr>upload_file = (\<lambda>p s w. (None, w)), run_program = (\<lambda>p a t w. (Inr \<lparr>exit_code = 0, stdout = out, stderr = []\<rparr>, w)),
     delete_file = (\<lambda>p w. (None, w))\<rparr>"

definition ready_info :: PowerStateInfo where
  "ready_info = \<lparr>power_state = ''poweredOn'', tools_status = Some ''toolsOk'', tools_running_status = Some ''guestToolsRunning'',
     tools_version_status = Some ''guestToolsCurrent'', guest_operations_ready = True, guest_family = Some ''windowsGuest'',
     ip_addresses = [''10.0.0.5''], guest_host_name = Some ''WEB01'', cpu_usage_mhz = Some 200, cpu_capacity_mhz = Some 4000\<rparr>"

definition sample_stage_env :: "ProvisioningRequest \<Rightarrow> string \<Rightarrow> VmOwnership option \<Rightarrow> PowerStateInfo option \<Rightarrow> rat stage_env" where
  "sample_stage_env r out own info =
     \<lparr>stage_handlers = (\<lambda>key. None), cancel_seen = (\<lambda>key. False), cancelled_first = (\<lambda>key c. None), settings_rows = Some [],
      clock = (\<lambda>n. int n), remove_answer_media = (\<lambda>v dc p w. (None, w)), capture_screenshot = (\<lambda>v w. (None, w)),
      se_request = r, se_host = ''vcenter.example.com'', se_guest = (\<lambda>cr. sample_guest out), se_token = nat_text, se_secret = (\<lambda>p. Inr ''secret''),
      se_jobs = [], se_applications = [], se_packages = [], se_certificates = [], se_today = (2026, 1, 1), se_fullmatch = (\<lambda>p s. Some True),
      se_time = (\<lambda>w. w), se_sleep = (\<lambda>d w. w + d), se_ping = None, se_windows = False, se_exec = (\<lambda>argv. Inl ''not found''),
      se_urlsafe = nat_text, se_iso = (\<lambda>t. int_text t),
      test_connection = (\<lambda>w. (Inr \<lparr>test_ok = True, test_latency_ms = None, test_detail = []\<rparr>, w)),
      get_datacenters = (\<lambda>w. (Inr [], w)), get_clusters = (\<lambda>d w. (Inr [], w)), get_hosts = (\<lambda>d w. (Inr [], w)),
      get_resource_pools = (\<lambda>d w. (Inr [], w)), get_datastores = (\<lambda>d w. (Inr [], w)), get_networks = (\<lambda>d w. (Inr [], w)),
      get_isos = (\<lambda>d w. (Inr [], w)), get_vm_info = (\<lambda>n w. (Inr info, w)), get_vm_info_by_id = (\<lambda>n w. (Inr info, w)),
      get_used_ips = (\<lambda>w. (Inr [], w)), find_vm_ownership = (\<lambda>n w. (Inr own, w)),
      create_vm = (\<lambda>spec w. (Inr \<lparr>vm_ref_id = ''vm-9'', vm_ref_name = spec_vm_name spec\<rparr>, w)), configure_hardware = (\<lambda>v n m w. (Inr (), w)),
      attach_network = (\<lambda>v n a d w. (Inr (), w)), attach_answer_media = (\<lambda>v d s f p w. (Inr f, w)), power_on = (\<lambda>v w. (Inr (), w)),
      reset_vm = (\<lambda>v w. (Inr (), w)), send_keystrokes = (\<lambda>v keys w. (Inr 1, w)), detach_installation_media = (\<lambda>v w. (Inr [], w)),
      add_data_disks = (\<lambda>v ds w. (Inr (length ds), w))\<rparr>"

lemma sample_stage_env_simps [simp]:
  "se_request (sample_stage_env r out own info) = r" "find_vm_ownership (sample_stage_env r out own info) name w = (Inr own, w)"
  "se_secret (sample_stage_env r out own info) p = Inr ''secret''" "settings_rows (sample_stage_env r out own info) = Some []"
  "get_vm_info (sample_stage_env r out own info) name w = (Inr info, w)"
  "get_vm_info_by_id (sample_stage_env r out own info) v w = (Inr info, w)"
  "se_time (sample_stage_env r out own info) w = w" "se_sleep (sample_stage_env r out own info) d w = w + d"
  "se_guest (sample_stage_env r out own info) cr = sample_guest out" "send_keystrokes (sample_stage_env r out own info) v keys w = (Inr 1, w)"
  "cancelled_first (sample_stage_env r out own info) key c = None"
  by (simp_all add: sample_stage_env_def)

lemma sample_script_runs:
  "run_script (sample_stage_env r out own info) cr scr timeout [] c =
     Some (Inr \<lparr>exit_code = 0, stdout = out, stderr = []\<rparr>, c\<lparr>ticks := Suc (ticks c)\<rparr>)"
  by (simp add: run_script_def run_powershell_def run_body_def sample_guest_def secret_paths_for_def build_script_file_def)

lemma sample_credentials: "resolve_guest_credentials (sample_stage_env r out own info) c = Some (Inr (''secret'', ''secret''), c)"
  by (simp add: resolve_guest_credentials_def run_simps Let_def)

end
