(* ===== verification/Stages_Create.thy ===== *)
theory Stages_Create
  imports Stage_Base
begin

text \<open>
  The stages that validate a request, create its virtual machine and start Windows Setup (\<^verbatim>\<open>workers/stages.py\<close>, up to
  \<^verbatim>\<open>stage_power_on\<close>). Dashes, arrows and ticks of the messages are written in ASCII; a Python set is iterated in
  the order of first occurrence.
\<close>

section \<open>Placement\<close>

definition os_disk_datastore :: "('w, 'z) stage_env_scheme \<Rightarrow> 'w JobRunContext \<Rightarrow> string option" where
  "os_disk_datastore env c =
     (case find truthy_text (map disk_datastore_id (disks (hardware (se_request env)))) of
        Some requested \<Rightarrow> requested
      | None \<Rightarrow>
          (let stored = summary_text (step_artifacts ''create_vm'' c) ''datastore_id'' in if stored \<noteq> [] then Some stored else None))"

definition placement_datastore :: "('w, 'z) stage_env_scheme \<Rightarrow> ('w, string \<times> string) stage" where
  "placement_datastore env =
     seq (call (get_datastores env (cluster_id (compute (se_request env))))) (\<lambda>datastores.
     with_context (\<lambda>c.
       case os_disk_datastore env c of
         Some requested \<Rightarrow>
           ret (requested, (case find (\<lambda>d. ds_id d = requested) datastores of Some d \<Rightarrow> ds_name d | None \<Rightarrow> requested)
                  @ '' (selected in the request)'')
       | None \<Rightarrow>
           seq (effective_rows env) (\<lambda>rows.
             case json_iter (map_of rows ''preferred_datastores'') of
               None \<Rightarrow> lift (Inl (Other ''TypeError''))
             | Some preferred \<Rightarrow>
                 (let choice = choose_automatic_datastore datastores preferred (total_disk_gb (se_request env)) in
                  case chosen_datastore choice of
                    None \<Rightarrow> raise_error (infra_error ''No datastore can take this VM.'' (choice_detail choice)
                      ''Free space on a preferred datastore, add one under Settings -> Preferred datastores, or submit a new request with a datastore chosen in the wizard.''
                      [] True)
                  | Some d \<Rightarrow> ret (ds_id d, choice_detail choice)))))"

section \<open>Validation\<close>

definition name_conflict :: "('w, 'z) stage_env_scheme \<Rightarrow> 'w JobRunContext \<Rightarrow> bool" where
  "name_conflict env c = list_ex (\<lambda>j. job_vm_name j = vm_name c \<and> job_status j \<in> {J_QUEUED, J_RUNNING} \<and> job_id j \<noteq> job_id (job c)) (se_jobs env)"

definition check_installer_roots :: "('w, 'z) stage_env_scheme \<Rightarrow> json_dict \<Rightarrow> ('w, unit) stage" where
  "check_installer_roots env rows =
     (if application_ids (se_request env) = [] then ret ()
      else case json_items (dict_get rows ''allowed_installer_roots'' (JList [])) of
        None \<Rightarrow> lift (Inl (Other ''TypeError''))
      | Some roots \<Rightarrow>
          (let allowed_roots = map py_str roots;
               selected = filter (\<lambda>a. appl_id a \<in> set (application_ids (se_request env))) (se_applications env);
               outside = filter (\<lambda>p. \<not> path_within_roots p allowed_roots) (map appl_installer_path selected)
           in if allowed_roots = [] \<or> outside \<noteq> []
              then raise_error (infra_error ''Application installer repository policy is not satisfied.''
                (if allowed_roots = [] then ''No approved installer roots are configured.''
                 else ''Installer paths outside approved roots: '' @ join_on '', '' outside)
                ''Configure approved installer roots and correct the application catalog before resubmitting.'' [] False)
              else ret ()))"

definition stage_validate_request :: "('w, 'z) stage_env_scheme \<Rightarrow> ('w, StageOutcome) stage" where
  "stage_validate_request env =
     andthen (update_job (\<lambda>j. j\<lparr>infrastructure_status := IS_PENDING, guest_os_status := GO_UNKNOWN, vmware_tools_status := VT_NOT_APPLICABLE_YET\<rparr>))
     (seq (effective_rows env) (\<lambda>rows. with_context (\<lambda>c.
       let policy = get_text rows ''vm_name_policy_regex''; r = se_request env in
       seq (if policy = [] then ret True
            else lift (case se_fullmatch env policy (vm_name c) of None \<Rightarrow> Inl (Other ''re.error'') | Some b \<Rightarrow> Inr b)) (\<lambda>allowed.
       if \<not> allowed
       then raise_error (infra_error (''The VM name '' @ squoted (vm_name c) @ '' violates the configured naming policy.'')
              (''Naming policy regex: '' @ policy) ''Choose a compliant VM name and resubmit.'' [] False)
       else if name_conflict env c
       then raise_error (infra_error (''Another provisioning job for '' @ squoted (vm_name c) @ '' is already active.'')
              ''Duplicate active job for the same VM name.'' ''Wait for the existing job to finish or choose another name.'' [] False)
       else
         andthen (check_installer_roots env rows)
         (\<lambda>c1. case utcnow env c1 of (now, c2) \<Rightarrow>
           done_with ((''Request validated.'' @ nl @ ''VM: '') @ vms_name (vm r) @ (nl @ ''Infrastructure placement supplied.'' @ nl @ ''CPU/Memory: '')
               @ int_text (cpu (hardware r)) @ '' vCPU / '' @ int_text (memory_mb (hardware r)) @ ('' MB'' @ nl @ ''Disks: '')
               @ nat_text (length (disks (hardware r))) @ '' (OS disk + '' @ int_text (int (length (disks (hardware r))) - 1)
               @ ('' data)'' @ nl @ ''Network: '') @ ip_mode_value (ip_mode (network r)))
             [(''validated_at'', JStr (se_iso env now))] c2)))))"

definition stage_connect_vcenter :: "('w, 'z) stage_env_scheme \<Rightarrow> ('w, StageOutcome) stage" where
  "stage_connect_vcenter env =
     seq (call (test_connection env)) (\<lambda>res.
       if \<not> test_ok res
       then raise_error (infra_error (''Could not connect to vCenter '' @ squoted (se_host env) @ ''.'')
              (text_or (Some (test_detail res)) ''Connection test failed.'')
              ''Check the vCenter connection under Administration -> VMware Connections.'' [] True)
       else done_with (''Connected to '' @ se_host env @ '' ('' @ (case test_latency_ms res of
              None \<Rightarrow> ''?'' | Some q \<Rightarrow> if q = 0 then ''?'' else float_repr q) @ '' ms).'') [])"

definition storage_problems :: "ProvisioningRequest \<Rightarrow> (string, DatastoreOut) dict \<Rightarrow> string list" where
  "storage_problems r datastores =
     (let needed_gb = total_disk_gb r;
          explicit = remdups (map the (filter truthy_text (map disk_datastore_id (disks (hardware r)))))
      in if explicit \<noteq> []
         then concat (map (\<lambda>sid. case map_of datastores sid of
                 None \<Rightarrow> [''datastore '' @ squoted sid @ '' inaccessible'']
               | Some d \<Rightarrow>
                   if \<not> accessible d then [''datastore '' @ squoted sid @ '' inaccessible'']
                   else if free_gb d < of_int needed_gb
                   then [''datastore '' @ squoted (ds_name d) @ '' has '' @ fixed_0 (free_gb d) @ '' GB free, needs ~'' @ int_text needed_gb @ '' GB'']
                   else []) explicit)
         else let best = (case first_max id (map free_gb (filter accessible (map snd datastores))) of None \<Rightarrow> 0 | Some q \<Rightarrow> q) in
           if best < of_int needed_gb
           then [''no datastore with >= '' @ int_text needed_gb @ '' GB free (best '' @ fixed_0 best @ '' GB)''] else [])"

text \<open>The checks inside the compute target: the problems found and the datastores it sees.\<close>

definition compute_problems ::
  "('w, 'z) stage_env_scheme \<Rightarrow> ClusterOut \<Rightarrow> ('w, string list \<times> (string, DatastoreOut) dict) stage" where
  "compute_problems env cl =
     (let r = se_request env; hid = host_id (compute r); pid = resource_pool_id (compute r) in
      seq (call (get_hosts env (cl_id cl))) (\<lambda>hs.
      seq (if truthy_text pid then call (get_resource_pools env (cl_id cl)) else ret []) (\<lambda>pools.
      seq (call (get_datastores env (cl_id cl))) (\<lambda>stores.
        let host_problem = (if truthy_text hid
              then (case map_of (dict_by host_out_id hs) (the hid) of
                      None \<Rightarrow> [''host '' @ squoted (the hid) @ '' unavailable'']
                    | Some h \<Rightarrow> if available_for_provisioning h then [] else [''host '' @ squoted (the hid) @ '' unavailable''])
              else []);
            pool_problem = (if truthy_text pid \<and> the pid \<notin> set pools then [''resource pool does not belong to the cluster''] else []);
            datastores = dict_by ds_id stores
        in ret (host_problem @ pool_problem @ storage_problems r datastores, datastores)))))"

definition stage_validate_infrastructure :: "('w, 'z) stage_env_scheme \<Rightarrow> ('w, StageOutcome) stage" where
  "stage_validate_infrastructure env =
     (let r = se_request env; dcid = comp_datacenter_id (compute r) in
      seq (call (get_datacenters env)) (\<lambda>dcs.
      let found = map_of (dict_by dc_id dcs) dcid;
          dc_problem = (if found = None then [''datacenter '' @ squoted dcid @ '' missing''] else []) in
      andthen (case found of None \<Rightarrow> ret ()
               | Some d \<Rightarrow> update_job (\<lambda>j. j\<lparr>job_datacenter_id := Some (dc_id d), job_datacenter_name := Some (dc_name d)\<rparr>))
      (seq (if found \<noteq> None then call (get_clusters env dcid) else ret []) (\<lambda>cls.
       let cl = map_of (dict_by cl_id cls) (cluster_id (compute r));
           cl_problem = (if cl = None then [''compute target '' @ squoted (cluster_id (compute r)) @ '' missing''] else []) in
       seq (case cl of None \<Rightarrow> ret ([], []) | Some x \<Rightarrow> compute_problems env x) (\<lambda>(in_cluster, datastores).
       seq (if found \<noteq> None then call (get_networks env dcid) else ret []) (\<lambda>nets.
       let net = map_of (dict_by net_id nets) (network_id (network r));
           net_problem = (if net = None then [''network '' @ squoted (network_id (network r)) @ '' missing''] else []) in
       seq (if found \<noteq> None then call (get_isos env dcid) else ret []) (\<lambda>images.
       let img = map_of (dict_by iso_out_id images) (iso_id (guest r));
           iso_problem = (case img of
               None \<Rightarrow> [''selected ISO missing from the datacenter'']
             | Some i \<Rightarrow> if map_of datastores (iso_datastore_id i) = None then [''selected ISO datastore unavailable to the cluster''] else []);
           problems = dc_problem @ cl_problem @ in_cluster @ net_problem @ iso_problem
       in if problems \<noteq> []
          then raise_error (infra_error ''The infrastructure configuration could not be re-validated on vCenter.'' (join_on ''; '' problems)
                 ''Re-open the wizard, refresh the affected selections and resubmit.'' (json_dumps (JList (map JStr problems))) True)
          else done_with ''Datacenter, cluster, placement, storage, network and installation ISO verified.''
                 [(''datacenter_name'', opt_text (map_option dc_name found)), (''network_name'', opt_text (map_option net_name net)),
                  (''iso_name'', opt_text (map_option iso_name img))])))))))"

section \<open>Creation\<close>

definition foreign_vm_error :: "string \<Rightarrow> string \<Rightarrow> VmOwnership \<Rightarrow> InfraOperationError" where
  "foreign_vm_error name marker v =
     infra_error (''A virtual machine named '' @ squoted name @ '' already exists and was not created by this job.'')
       (''The VM name is taken by an existing VM'' @ (if truthy_text (owner_job_id v)
          then '' created by another InfraOps job ('' @ the (owner_job_id v) @ '').'' else '' that carries no InfraOps ownership marker.''))
       ''Choose a different VM name and submit a new request. InfraOps did not modify the existing VM.''
       (''vm_id='' @ owned_vm_id v @ '' owner='' @ (case owner_job_id v of None \<Rightarrow> ''None'' | Some o' \<Rightarrow> py_repr o') @ '' job='' @ marker) False"

definition create_spec :: "ProvisioningRequest \<Rightarrow> string \<Rightarrow> string \<Rightarrow> VmCreateSpec" where
  "create_spec r datastore marker =
     \<lparr>spec_vm_name = vms_name (vm r), spec_datacenter_id = comp_datacenter_id (compute r), spec_iso_id = iso_id (guest r),
      spec_os_disk = hd (disks (hardware r)), spec_description = vms_description (vm r), spec_cluster_id = cluster_id (compute r),
      spec_host_id = host_id (compute r), spec_resource_pool_id = resource_pool_id (compute r), spec_datastore_id = Some datastore,
      spec_cpu = cpu (hardware r), spec_memory_mb = memory_mb (hardware r), spec_firmware = firmware (hardware r),
      spec_secure_boot = secure_boot (hardware r), spec_job_id = Some marker\<rparr>"

definition create_new_vm :: "('w, 'z) stage_env_scheme \<Rightarrow> string \<Rightarrow> ('w, StageOutcome) stage" where
  "create_new_vm env marker =
     (let r = se_request env; data_disks = length (disks (hardware r)) - 1 in
      seq (placement_datastore env) (\<lambda>(datastore, placement).
      seq (call (create_vm env (create_spec r datastore marker))) (\<lambda>ref.
      andthen (modify (\<lambda>c. c\<lparr>vm_ref := Some ref\<rparr>))
      (andthen (update_job (\<lambda>j. j\<lparr>infrastructure_status := IS_READY\<rparr>))
      (andthen (job_audit ''VM_CREATED'' ''virtual_machine'' (vm_ref_name ref)
         [(''computer_name'', if effective_computer_name r = [] then JNull else JStr (effective_computer_name r)),
          (''requested_fqdn'', opt_text (effective_fqdn r)), (''iso_id'', JStr (iso_id (guest r))), (''vm_id'', JStr (vm_ref_id ref)),
          (''datastore_id'', JStr datastore)])
      (done_with (''Created '' @ squoted (vm_ref_name ref) @ '' powered off with its '' @ int_text (size_gb (hd (disks (hardware r))))
          @ ('' GB OS disk, the Windows installation ISO and the host's VMware Tools ISO.'' @ nl @ ''Datastore: '') @ placement @ ''.''
          @ (if data_disks \<noteq> 0 then nl @ nat_text data_disks @ '' data disk(s) are added on the same datastore after Windows is installed.'' else []))
        [(''vm_id'', JStr (vm_ref_id ref)), (''vm_name'', JStr (vm_ref_name ref)), (''owner_job_id'', JStr marker),
         (''datastore_id'', JStr datastore), (''datastore'', JStr placement)]))))))"

definition stage_create_vm :: "('w, 'z) stage_env_scheme \<Rightarrow> ('w, StageOutcome) stage" where
  "stage_create_vm env =
     with_context (\<lambda>c. let marker = job_id (job c) in
     andthen (update_job (\<lambda>j. j\<lparr>infrastructure_status := IS_CREATING\<rparr>))
     (seq (call (find_vm_ownership env (vm_name c))) (\<lambda>existing.
       case existing of
         None \<Rightarrow> create_new_vm env marker
       | Some v \<Rightarrow>
           if owner_job_id v \<noteq> Some marker
           then andthen (update_job (\<lambda>j. j\<lparr>infrastructure_status := IS_FAILED\<rparr>)) (raise_error (foreign_vm_error (vm_name c) marker v))
           else
             andthen (modify (\<lambda>c. c\<lparr>vm_ref := Some \<lparr>vm_ref_id = owned_vm_id v, vm_ref_name = owned_name v\<rparr>\<rparr>))
             (andthen (update_job (\<lambda>j. j\<lparr>infrastructure_status := IS_READY\<rparr>))
             (ret (outcome ''SKIPPED'' (''VM '' @ squoted (vm_name c)
                @ '' was already created by this job (ownership marker verified) - resuming with it instead of creating it again.'')
               [(''vm_id'', JStr (owned_vm_id v)), (''vm_name'', JStr (owned_name v)), (''owner_job_id'', JStr marker)]))))))"

definition stage_configure_hardware :: "('w, 'z) stage_env_scheme \<Rightarrow> ('w, StageOutcome) stage" where
  "stage_configure_hardware env =
     (let hw = hardware (se_request env) in
      seq vm_id (\<lambda>v. andthen (call (configure_hardware env v (cpu hw) (memory_mb hw)))
        (done_with (''CPU: '' @ int_text (cpu hw) @ ('' vCPU'' @ nl @ ''Memory: '') @ int_text (memory_mb hw) @ ('' MB'' @ nl @ ''Firmware: '')
           @ firmware_value (firmware hw) @ (if secure_boot hw then '' + Secure Boot'' else [])) [])))"

definition stage_attach_network_adapter :: "('w, 'z) stage_env_scheme \<Rightarrow> ('w, StageOutcome) stage" where
  "stage_attach_network_adapter env =
     (let net = network (se_request env) in
      seq vm_id (\<lambda>v. andthen (call (attach_network env v (network_id net) (adapter_type net) (comp_datacenter_id (compute (se_request env)))))
        (done_with (adapter_value (adapter_type net) @ '' network adapter connected.'') [])))"

definition unattend_spec :: "ProvisioningRequest \<Rightarrow> string \<times> string \<Rightarrow> string option \<Rightarrow> string \<Rightarrow> WindowsUnattendSpec" where
  "unattend_spec r credentials product_key random =
     \<lparr>us_computer_name = effective_computer_name r, us_administrator_username = fst credentials,
      us_administrator_password = snd credentials, us_image_index = windows_image_index (guest r),
      us_locale = installation_locale (guest r), us_input_locale = input_locale (guest r),
      us_timezone = text_or (timezone (guest r)) ''UTC'', us_firmware = firmware_value (firmware (hardware r)),
      us_product_key = product_key, us_builtin_password = Some (random @ ''aA1!'')\<rparr>"

definition stage_prepare_unattended_install :: "('w, 'z) stage_env_scheme \<Rightarrow> ('w, StageOutcome) stage" where
  "stage_prepare_unattended_install env =
     (let r = se_request env; reference = product_key_ref (guest r) in
      seq vm_id (\<lambda>v.
      seq (resolve_guest_credentials env) (\<lambda>credentials.
      seq (if truthy_text reference then seq (lift (se_secret env (the reference @ ''/password''))) (\<lambda>k. ret (Some (strip k))) else ret None) (\<lambda>product_key.
      with_context (\<lambda>c.
        case build_autounattend_xml (unattend_spec r credentials product_key (se_urlsafe env (ticks c))) of
          Inl msg \<Rightarrow> raise_error (infra_error ''The answer file could not be generated from the selected credentials.'' msg
            ''Select a provisioning credential whose username is a local account such as 'Administrator' and, for a product key, a valid 25-character key; then submit a new request.''
            [] False)
        | Inr xml \<Rightarrow>
            andthen (modify (\<lambda>c. c\<lparr>ticks := Suc (ticks c)\<rparr>))
            (seq (call (attach_answer_media env v (comp_datacenter_id (compute r)) (os_disk_datastore env c)
                   (''infraops-'' @ job_id (job c) @ ''.iso'') (build_answer_media xml))) (\<lambda>path.
             done_with (''Temporary answer media attached as a CD drive. Windows Setup installs the selected image to disk 0 and configures the administrator account, locale, keyboard, time zone and computer name without showing any page''
                 @ (if truthy_text product_key then '', using the selected product key.'' else ''.''))
               [(''datastore_path'', JStr path)])))))))"

section \<open>Power on\<close>

definition HID_SPACEBAR :: nat where "HID_SPACEBAR = 44"
definition BOOT_KEY_SECONDS :: rat where "BOOT_KEY_SECONDS = 45"
definition BOOT_KEY_INTERVAL_SECONDS :: rat where "BOOT_KEY_INTERVAL_SECONDS = 3"

definition boot_key_error :: "InfraOperationError \<Rightarrow> InfraOperationError" where
  "boot_key_error e =
     infra_error ''Windows Setup could not be started from the ISO.''
       (''The installation media waits for a key press, and vCenter refused the keystroke: '' @ human_message e)
       ''Grant the vCenter service account 'Virtual machine > Interaction > Inject USB HID scan codes', then retry this stage (the VM is reset and the key is sent again).''
       (technical_detail e) True"

text \<open>One round of the loop of key presses.\<close>

definition press_key ::
  "('w, 'z) stage_env_scheme \<Rightarrow> string \<Rightarrow> rat \<Rightarrow> nat \<times> 'w JobRunContext \<Rightarrow> (guest_error + nat) \<times> 'w JobRunContext + nat \<times> 'w JobRunContext" where
  "press_key env v stop_at s =
     (case s of (sent, c) \<Rightarrow>
       (case send_keystrokes env v [HID_SPACEBAR] (world c) of
          (Inl (Infra e), w) \<Rightarrow> Inl (Inl (Infra (boot_key_error e)), c\<lparr>world := w\<rparr>)
        | (Inl (Other e), w) \<Rightarrow> Inl (Inl (Other e), c\<lparr>world := w\<rparr>)
        | (Inr n, w) \<Rightarrow>
            if se_time env w \<ge> stop_at then Inl (Inr (sent + n), c\<lparr>world := w\<rparr>)
            else Inr (sent + n, c\<lparr>world := se_sleep env BOOT_KEY_INTERVAL_SECONDS w\<rparr>)))"

definition press_key_to_boot_from_iso :: "('w, 'z) stage_env_scheme \<Rightarrow> string \<Rightarrow> ('w, nat) stage" where
  "press_key_to_boot_from_iso env v = (\<lambda>c. loop (press_key env v (se_time env (world c) + BOOT_KEY_SECONDS)) (0, c))"

definition stage_power_on :: "('w, 'z) stage_env_scheme \<Rightarrow> ('w, StageOutcome) stage" where
  "stage_power_on env =
     seq vm_id (\<lambda>v. with_context (\<lambda>c.
     seq (call (get_vm_info env (vm_name c))) (\<lambda>info.
     let already_on = (case info of None \<Rightarrow> False | Some i \<Rightarrow> power_state i = ''poweredOn'') in
     andthen (call (if already_on then reset_vm env v else power_on env v))
     (seq (press_key_to_boot_from_iso env v) (\<lambda>sent.
      andthen (update_job (\<lambda>j. j\<lparr>guest_os_status := GO_INSTALLATION_IN_PROGRESS\<rparr>))
      (done_with ((if already_on then ''Reset'' else ''Power-on'') @ '' task completed. The space bar was pressed '' @ nat_text sent
          @ '' time(s) during the first 45 seconds to answer the installation media's 'Press any key to boot from CD or DVD' prompt.'')
        [(''boot_keys_sent'', JInt (int sent))]))))))"

section \<open>Frames\<close>

lemma keeps_placement [keeps_intros]: "keeps (placement_datastore env)"
  unfolding placement_datastore_def Let_def by (intro keeps_intros)

lemma keeps_roots [keeps_intros]: "keeps (check_installer_roots env rows)"
  unfolding check_installer_roots_def Let_def by (intro keeps_intros)

lemma keeps_compute [keeps_intros]: "keeps (compute_problems env cl)"
  unfolding compute_problems_def Let_def by (intro keeps_intros)

lemma keeps_validate_request: "keeps (stage_validate_request env)"
  unfolding stage_validate_request_def Let_def by (intro keeps_intros) (simp_all add: statuses_def controls_def)

lemma keeps_connect: "keeps (stage_connect_vcenter env)"
  unfolding stage_connect_vcenter_def by (intro keeps_intros)

lemma keeps_infrastructure: "keeps (stage_validate_infrastructure env)"
  unfolding stage_validate_infrastructure_def Let_def by (intro keeps_intros) (simp_all add: statuses_def controls_def)

lemma keeps_create: "keeps (stage_create_vm env)"
  unfolding stage_create_vm_def create_new_vm_def Let_def by (intro keeps_intros) (simp_all add: statuses_def controls_def)

lemma keeps_configure_hardware: "keeps (stage_configure_hardware env)"
  unfolding stage_configure_hardware_def Let_def by (intro keeps_intros)

lemma keeps_attach: "keeps (stage_attach_network_adapter env)"
  unfolding stage_attach_network_adapter_def Let_def by (intro keeps_intros)

lemma keeps_prepare: "keeps (stage_prepare_unattended_install env)"
  unfolding stage_prepare_unattended_install_def Let_def by (intro keeps_intros) (simp_all add: statuses_def controls_def)

lemma keeps_press_keys [keeps_intros]: "keeps (\<lambda>c. loop (press_key env v (se_time env (world c) + d)) (0, c))"
  by (rule keeps_loop [where ctx = snd])
    (auto simp: press_key_def split: prod.splits sum.splits guest_error.splits if_splits)

lemma keeps_power_on: "keeps (stage_power_on env)"
  unfolding stage_power_on_def press_key_to_boot_from_iso_def Let_def by (intro keeps_intros) (simp_all add: statuses_def controls_def)

section \<open>Ownership\<close>

lemma create_spec_simps [simp]:
  "spec_job_id (create_spec r ds marker) = Some marker" "spec_vm_name (create_spec r ds marker) = vms_name (vm r)"
  by (simp_all add: create_spec_def)

lemma create_vm_existing:
  assumes "find_vm_ownership env (vm_name c) (world c) = (Inr (Some v), w)"
  shows "\<exists>r c'. stage_create_vm env c = Some (r, c') \<and> world c' = w
     \<and> (if owner_job_id v = Some (job_id (job c))
         then (\<exists>out. r = Inr out \<and> outcome_status out = ''SKIPPED'') \<and> vm_ref c' = Some \<lparr>vm_ref_id = owned_vm_id v, vm_ref_name = owned_name v\<rparr>
         else (\<exists>e. r = Inl (Infra e) \<and> \<not> retryable e) \<and> vm_ref c' = vm_ref c \<and> infrastructure_status (job c') = IS_FAILED)"
  using assms
  by (auto simp: stage_create_vm_def run_simps Let_def map_job_def foreign_vm_error_def infra_error_def outcome_def)

lemma create_vm_new:
  assumes found: "find_vm_ownership env (vm_name c) (world c) = (Inr None, w)" and run: "stage_create_vm env c = Some (Inr out, c')"
  shows "\<exists>spec w1 ref. spec_job_id spec = Some (job_id (job c)) \<and> spec_vm_name spec = vms_name (vm (se_request env))
     \<and> create_vm env spec w1 = (Inr ref, world c') \<and> vm_ref c' = Some ref \<and> infrastructure_status (job c') = IS_READY"
proof -
  have "create_new_vm env (job_id (job c)) ((map_job (\<lambda>j. j\<lparr>infrastructure_status := IS_CREATING\<rparr>) c)\<lparr>world := w\<rparr>) = Some (Inr out, c')"
    using found run by (simp add: stage_create_vm_def run_simps Let_def map_job_def)
  then show ?thesis
    by (auto simp: create_new_vm_def run_simps Let_def job_audit_def audit_def map_job_def
        split: prod.splits option.splits sum.splits intro!: exI [of _ "create_spec (se_request env) _ (job_id (job c))"])
qed

text \<open>
  C9. A virtual machine with the requested name that this job did not create is left alone: the stage fails for good and makes
  no further call. One that carries the job's marker is resumed without a second creation, and a new one is created with the
  job's marker and the requested name.
\<close>

theorem create_vm_respects_ownership:
  assumes found: "find_vm_ownership env (vm_name c) (world c) = (Inr existing, w)"
    and run: "stage_create_vm env c = Some (r, c')"
  shows "case existing of
      Some v \<Rightarrow>
        world c' = w \<and>
        (if owner_job_id v = Some (job_id (job c))
         then (\<exists>out. r = Inr out \<and> outcome_status out = ''SKIPPED'') \<and> vm_ref c' = Some \<lparr>vm_ref_id = owned_vm_id v, vm_ref_name = owned_name v\<rparr>
         else (\<exists>e. r = Inl (Infra e) \<and> \<not> retryable e) \<and> vm_ref c' = vm_ref c \<and> infrastructure_status (job c') = IS_FAILED)
    | None \<Rightarrow>
        \<forall>out. r = Inr out \<longrightarrow> (\<exists>spec w1 ref. spec_job_id spec = Some (job_id (job c)) \<and> spec_vm_name spec = vms_name (vm (se_request env))
          \<and> create_vm env spec w1 = (Inr ref, world c') \<and> vm_ref c' = Some ref \<and> infrastructure_status (job c') = IS_READY)"
proof (cases existing)
  case (Some v)
  with create_vm_existing [of env c v w] assms show ?thesis by auto
next
  case None
  with create_vm_new [of env c w] assms show ?thesis by auto
qed

theorem create_vm_respects_ownership_witness:
  "let env = sample_stage_env sample_request [] (Some \<lparr>owned_vm_id = ''vm-1'', owned_name = ''srv01'', owner_job_id = Some ''other''\<rparr>) None;
       c = sample_context (sample_job []) 0
   in \<exists>r c'. stage_create_vm env c = Some (r, c') \<and> world c' = world c \<and> (\<exists>e. r = Inl (Infra e) \<and> \<not> retryable e)"
proof -
  let ?env = "sample_stage_env sample_request [] (Some \<lparr>owned_vm_id = ''vm-1'', owned_name = ''srv01'', owner_job_id = Some ''other''\<rparr>) None"
  let ?c = "sample_context (sample_job []) (0 :: rat)"
  have j: "job_id (job ?c) = ''j-1''" by (simp add: sample_context_def sample_job_def new_job_row_def)
  have "stage_create_vm ?env ?c \<noteq> None"
    by (simp add: stage_create_vm_def run_simps Let_def if_distribR j)
  then obtain r c' where run: "stage_create_vm ?env ?c = Some (r, c')" by auto
  show ?thesis using j create_vm_respects_ownership [OF sample_stage_env_simps(2) run] run
    by (auto simp: Let_def sample_context_def)
qed

end
