(* ===== verification/Stages_Setup.thy ===== *)
theory Stages_Setup
  imports Stages_Create "HOL-Library.Multiset"
begin

text \<open>
  The stages that wait for Windows Setup, clean up after it and prepare the data disks, and the guest restart they share
  with later stages (\<^verbatim>\<open>workers/stages.py\<close>, \<^verbatim>\<open>stage_wait_for_guest_os\<close> to \<^verbatim>\<open>stage_initialize_data_disks\<close>). Event loop
  time and wall clock are read as \<open>se_time\<close>, in seconds; differences of times are exact.
\<close>

section \<open>VMware Tools\<close>

definition tools_lifecycle :: "PowerStateInfo option \<Rightarrow> VMwareToolsStatus" where
  "tools_lifecycle info =
     (case info of
        None \<Rightarrow> VT_UNKNOWN
      | Some i \<Rightarrow>
          (let version = tools_version_status i; running = tools_running_status i in
           if version = Some ''guestToolsNotInstalled'' then VT_NOT_INSTALLED
           else if running = Some ''guestToolsExecutingScripts'' then VT_INSTALLING
           else if running = Some ''guestToolsNotRunning'' then VT_NOT_RUNNING
           else if running = Some ''guestToolsRunning'' then
             (if version \<in> {Some ''guestToolsNeedUpgrade'', Some ''guestToolsTooOld'', Some ''guestToolsSupportedOld'', Some ''guestToolsBlacklisted''}
              then VT_OUTDATED else VT_RUNNING)
           else case tools_status i of
             None \<Rightarrow> VT_UNKNOWN
           | Some st \<Rightarrow> dict_get [(''toolsOk'', VT_RUNNING), (''toolsOld'', VT_OUTDATED), (''toolsNotRunning'', VT_NOT_RUNNING),
                          (''toolsNotInstalled'', VT_NOT_INSTALLED)] st VT_UNKNOWN))"

definition tools_ready :: "PowerStateInfo \<Rightarrow> bool" where
  "tools_ready i = (guest_operations_ready i
     \<and> (tools_running_status i = Some ''guestToolsRunning'' \<or> tools_status i \<in> {Some ''toolsOk'', Some ''toolsOld''}))"

definition tools_status_value :: "VMwareToolsStatus \<Rightarrow> string" where
  "tools_status_value t =
     (case t of VT_UNKNOWN \<Rightarrow> ''UNKNOWN'' | VT_NOT_APPLICABLE_YET \<Rightarrow> ''NOT_APPLICABLE_YET'' | VT_NOT_INSTALLED \<Rightarrow> ''NOT_INSTALLED''
      | VT_INSTALLING \<Rightarrow> ''INSTALLING'' | VT_RUNNING \<Rightarrow> ''RUNNING'' | VT_NOT_RUNNING \<Rightarrow> ''NOT_RUNNING'' | VT_OUTDATED \<Rightarrow> ''OUTDATED'' | VT_ERROR \<Rightarrow> ''ERROR'')"

definition stage_wait_for_tools :: "('w, 'z) stage_env_scheme \<Rightarrow> ('w, StageOutcome) stage" where
  "stage_wait_for_tools env =
     with_context (\<lambda>c.
     seq (call (get_vm_info env (vm_name c))) (\<lambda>info.
     let state = tools_lifecycle info in
     andthen (update_job (\<lambda>j. j\<lparr>vmware_tools_status := state\<rparr>))
     (if state = VT_RUNNING then done_with ''VMware Tools is installed, current, and running.'' []
      else if state = VT_OUTDATED
      then ret (outcome ''WARNING'' ''VMware Tools is running but outdated (the host's Tools ISO is older than the latest release). Provisioning continued; upgrade Tools during regular patching.'' [])
      else raise_error (infra_error ''VMware Tools stopped reporting after Windows was installed.''
        (''VMware Tools state: '' @ tools_status_value state @ ''.'')
        ''Check the console screenshot in the administrator diagnostics, then retry this stage; InfraOps does not reinstall Tools over a running installation.''
        [] True))))"

section \<open>Waiting for Windows Setup\<close>

definition SETUP_POLL_SECONDS :: rat where "SETUP_POLL_SECONDS = 20"
definition SETUP_STATUS_SECONDS :: rat where "SETUP_STATUS_SECONDS = 60"
definition SETUP_STALL_SECONDS :: rat where "SETUP_STALL_SECONDS = 30 * 60"
definition SETUP_BUSY_MIN_MHZ :: int where "SETUP_BUSY_MIN_MHZ = 100"
definition SETUP_BUSY_SHARE :: rat where "SETUP_BUSY_SHARE = double (3 / 100)"

definition int_or_zero :: "int option \<Rightarrow> int" where
  "int_or_zero v = (case v of None \<Rightarrow> 0 | Some i \<Rightarrow> i)"

definition vm_busy :: "PowerStateInfo \<Rightarrow> bool" where
  "vm_busy i =
     (of_int (int_or_zero (cpu_usage_mhz i))
        \<ge> max (of_int SETUP_BUSY_MIN_MHZ) (double (of_int (int_or_zero (cpu_capacity_mhz i)) * SETUP_BUSY_SHARE)))"

definition minutes_text :: "rat \<Rightarrow> string" where
  "minutes_text seconds =
     (let m = \<lfloor>seconds / 60\<rfloor> in
      if m < 60 then int_text m @ '' min'' else int_text (m div 60) @ '' h '' @ padded 2 (nat (m mod 60)) @ '' min'')"

definition cpu_text :: "PowerStateInfo \<Rightarrow> string" where
  "cpu_text i =
     (let usage = int_or_zero (cpu_usage_mhz i) in
      if usage \<ge> 1000 then fixed_1 (double (of_int usage / 1000)) @ '' GHz'' else int_text usage @ '' MHz'')"

definition report_live_status ::
  "('w, 'z) stage_env_scheme \<Rightarrow> string \<Rightarrow> string \<Rightarrow> 'w JobRunContext \<Rightarrow> 'w JobRunContext" where
  "report_live_status env key message c =
     (if step_of key (job c) = None then c
      else case utcnow env c of (now, c1) \<Rightarrow>
        (let c2 = map_job (update_step key (\<lambda>s. s\<lparr>step_output := Some message,
               artifacts := dict_update (artifacts s)
                 [(''live_status'', JObj [(''text'', JStr message), (''updated_at'', JStr (se_iso env now))])]\<rparr>)) c1
         in publish_stage (Some key) ''RUNNING'' (progress (job c2)) message c2))"

definition vm_gone_error :: InfraOperationError where
  "vm_gone_error = infra_error ''The VM disappeared from vCenter while Windows was installing.''
     ''It was deleted or unregistered outside InfraOps.'' ''Submit a new request.'' [] False"

definition powered_off_error :: "PowerStateInfo \<Rightarrow> InfraOperationError" where
  "powered_off_error i = infra_error ''The VM was powered off while Windows was installing.''
     (''vCenter reports the VM as '' @ power_state i @ ''.'')
     ''Check the VM's events in vCenter. Power it on to let Setup continue, then retry this stage, or submit a new request.'' [] True"

definition cpu_detail :: "PowerStateInfo \<Rightarrow> string" where
  "cpu_detail i = ''cpu='' @ (case cpu_usage_mhz i of None \<Rightarrow> ''None'' | Some u \<Rightarrow> int_text u) @ ''MHz''"

definition stalled_error :: "rat \<Rightarrow> rat \<Rightarrow> PowerStateInfo \<Rightarrow> InfraOperationError" where
  "stalled_error elapsed idle i =
     infra_error ''Windows Setup stopped making progress.''
       (''After '' @ minutes_text elapsed @ '' the VM has been idle for '' @ minutes_text idle
        @ '' and VMware Tools has not reported, so Setup is most likely waiting on a page or an error. Without VMware Tools InfraOps cannot configure the network, domain or software.'')
       (''Check the console screenshot in the administrator diagnostics: an EFI boot list or 'Press any key to boot from CD or DVD' means Setup never started; a Windows Setup page or error usually points at the edition, product key or ISO. A Windows desktop means Windows installed but VMware Tools did not: the InfraOps window on the desktop and ''
        @ FIRST_LOGON_LOG @ '' show whether the host's Tools ISO ([] /vmimages/tools-isoimages/windows.iso) was missing or its installer failed (installer log: ''
        @ TOOLS_MSI_LOG @ ''). Fix the cause and submit a new request.'')
       (''elapsed='' @ int_text (py_int elapsed) @ ''s idle='' @ int_text (py_int idle) @ ''s '' @ cpu_detail i) True"

definition setup_limit_error :: "rat \<Rightarrow> rat \<Rightarrow> string \<Rightarrow> PowerStateInfo \<Rightarrow> InfraOperationError" where
  "setup_limit_error timeout elapsed activity i =
     infra_error (''Windows Setup did not finish within the '' @ minutes_text timeout @ '' limit.'')
       (''The VM was still active ('' @ activity
        @ '') but VMware Tools never reported. Installation on this host is unusually slow; it normally takes 15-40 minutes.'')
       ''Check the console screenshot. If Setup is still progressing, raise 'Install Windows' under Settings -> Default operation time limits and retry this stage - Setup keeps running meanwhile. Also check the host's load and the datastore performance of the VM and its ISO.''
       (''elapsed='' @ int_text (py_int elapsed) @ ''s '' @ cpu_detail i) True"

definition activity_text :: "rat \<Rightarrow> PowerStateInfo \<Rightarrow> string" where
  "activity_text idle i =
     (if idle < SETUP_POLL_SECONDS then ''VM busy (CPU '' @ cpu_text i @ '')''
      else ''VM idle for '' @ minutes_text idle @ '' (CPU '' @ cpu_text i @ '')'')"

definition setup_status :: "rat \<Rightarrow> string \<Rightarrow> string" where
  "setup_status elapsed activity =
     ''Windows Setup running for '' @ minutes_text elapsed @ '': '' @ activity
     @ ''; VMware Tools not installed yet (it is installed at the first logon after Setup).''"

text \<open>One round of the polling loop, ended by the sleep.\<close>

record 'w setup_watch =
  watched :: "'w JobRunContext"
  last_busy :: rat
  last_report :: "rat option"

definition watch_setup ::
  "('w, 'z) stage_env_scheme \<Rightarrow> string \<Rightarrow> rat \<Rightarrow> rat \<Rightarrow> rat \<Rightarrow> 'w setup_watch
     \<Rightarrow> ((guest_error + PowerStateInfo) \<times> 'w JobRunContext) + 'w setup_watch" where
  "watch_setup env v timeout started deadline s =
     (let c = watched s; now = se_time env (world c) in
      case get_vm_info_by_id env v (world c) of
        (Inl e, w) \<Rightarrow> Inl (Inl e, c\<lparr>world := w\<rparr>)
      | (Inr None, w) \<Rightarrow> Inl (Inl (Infra vm_gone_error), c\<lparr>world := w\<rparr>)
      | (Inr (Some info), w) \<Rightarrow>
          (let c1 = c\<lparr>world := w\<rparr> in
           if tools_ready info then Inl (Inr info, c1)
           else if power_state info \<noteq> ''poweredOn'' then Inl (Inl (Infra (powered_off_error info)), c1)
           else
             (let busy = (if vm_busy info then now else last_busy s);
                  idle = now - busy; elapsed = now - started;
                  activity = activity_text idle info;
                  report = (case last_report s of None \<Rightarrow> True | Some t \<Rightarrow> now - t \<ge> SETUP_STATUS_SECONDS);
                  c2 = (if report then report_live_status env ''wait_for_guest_os'' (setup_status elapsed activity) c1 else c1)
              in if idle \<ge> SETUP_STALL_SECONDS then Inl (Inl (Infra (stalled_error elapsed idle info)), c2)
                 else if now \<ge> deadline then Inl (Inl (Infra (setup_limit_error timeout elapsed activity info)), c2)
                 else Inr \<lparr>watched = c2\<lparr>world := se_sleep env (min SETUP_POLL_SECONDS (max 0 (deadline - now))) (world c2)\<rparr>,
                           last_busy = busy, last_report = (if report then Some now else last_report s)\<rparr>)))"

definition drop_live_status :: "ProvisioningJobStep \<Rightarrow> ProvisioningJobStep" where
  "drop_live_status s = s\<lparr>artifacts := filter (\<lambda>(k, _). k \<noteq> ''live_status'') (artifacts s)\<rparr>"

definition stage_wait_for_guest_os :: "('w, 'z) stage_env_scheme \<Rightarrow> ('w, StageOutcome) stage" where
  "stage_wait_for_guest_os env =
     seq vm_id (\<lambda>v.
     andthen (update_job (\<lambda>j. j\<lparr>guest_os_status := GO_INSTALLATION_IN_PROGRESS, vmware_tools_status := VT_NOT_APPLICABLE_YET,
                              guest_provisioning_status := GP_WAITING_FOR_OS\<rparr>))
     (with_context (\<lambda>c0.
       let timeout = effective_timeout_seconds (settings_rows env) ''wait_for_guest_os'';
           started = se_time env (world c0);
           deadline = started + max SETUP_POLL_SECONDS (timeout - 60) in
       seq (\<lambda>c. loop (watch_setup env v timeout started deadline) \<lparr>watched = c, last_busy = started, last_report = None\<rparr>) (\<lambda>info.
         if truthy_text (guest_family info) \<and> \<not> contains (casefold (the (guest_family info))) ''windows''
         then raise_error (infra_error (''The installed guest reports '' @ squoted (the (guest_family info)) @ '', not Windows.'')
                ''Only Windows Server installation media is supported.'' ''Select a Windows Server ISO and submit a new request.'' [] False)
         else
           andthen (update_job (\<lambda>j. (update_step ''wait_for_guest_os'' drop_live_status j)
                      \<lparr>guest_os_status := GO_READY, guest_provisioning_status := GP_IN_PROGRESS\<rparr>))
           (with_context (\<lambda>c.
             done_with (''Windows was installed unattended from the ISO in '' @ minutes_text (se_time env (world c) - started)
                 @ ''. VMware Tools, which Windows installs at the first logon after Setup and OOBE, is running''
                 @ (if truthy_text (guest_host_name info)
                    then '' and reports the computer name '' @ squoted (the (guest_host_name info)) @ ''.'' else ''.''))
               [(''windows_setup'', JObj [(''computer_name'', opt_text (guest_host_name info))])]))))))"

section \<open>Restarting Windows\<close>

definition GUEST_BOOT_TIME_SCRIPT :: string where
  "GUEST_BOOT_TIME_SCRIPT = ''(Get-CimInstance -ClassName Win32_OperatingSystem -ErrorAction Stop).LastBootUpTime.ToUniversalTime().ToString('o')''"

definition RESTART_POLL_SECONDS :: rat where "RESTART_POLL_SECONDS = 10"
definition GUEST_RESTART_SECONDS :: rat where "GUEST_RESTART_SECONDS = 540"
definition TOOLS_RESTART_SECONDS :: rat where "TOOLS_RESTART_SECONDS = 900"

definition guest_boot_time :: "('w, 'z) stage_env_scheme \<Rightarrow> string \<times> string \<Rightarrow> ('w, string) stage" where
  "guest_boot_time env credentials =
     seq (run_script env credentials GUEST_BOOT_TIME_SCRIPT 60 []) (\<lambda>r.
       let lines = nonblank_lines (stdout r) in
       if \<not> succeeded r \<or> lines = []
       then raise_error (infra_error ''Windows did not report when it last started.''
              (''The boot-time probe exited with code '' @ int_text (exit_code r) @ ''.'')
              ''Review the technical output, then retry this stage.'' (last_chars 1000 (joined_output r)) True)
       else ret (last lines))"

definition schedule_guest_restart :: "('w, 'z) stage_env_scheme \<Rightarrow> string \<times> string \<Rightarrow> string \<Rightarrow> ('w, unit) stage" where
  "schedule_guest_restart env credentials comment =
     seq (run_guest_program env credentials SHUTDOWN_PATH ((''/r /t 10 /d p:4:1 /c '' @ [CHR 0x22]) @ comment @ [CHR 0x22]) 60) (\<lambda>r.
       if \<not> succeeded r
       then raise_error (infra_error ''The guest restart could not be scheduled.''
              (''shutdown.exe exited with code '' @ int_text (exit_code r) @ ''.'')
              ''Restart the VM from the console, then retry this stage.'' (last_chars 1000 (stdout r)) True)
       else ret ())"

definition no_restart_error :: "rat \<Rightarrow> string \<Rightarrow> InfraOperationError" where
  "no_restart_error timeout last_error =
     infra_error ''Windows did not come back after the restart.''
       (''No new start was reported within '' @ int_text \<lfloor>timeout / 60\<rfloor> @ '' minutes (last: '' @ last_error @ '').'')
       ''Check the VM console in vCenter, then retry this stage.'' [] True"

definition restart_round ::
  "('w, 'z) stage_env_scheme \<Rightarrow> string \<times> string \<Rightarrow> string \<Rightarrow> rat \<Rightarrow> rat \<Rightarrow> nat \<times> 'w JobRunContext
     \<Rightarrow> ((guest_error + nat) \<times> 'w JobRunContext) option + nat \<times> 'w JobRunContext" where
  "restart_round env credentials boot_before timeout deadline s =
     (case s of (probes, c) \<Rightarrow>
       (let c1 = c\<lparr>world := se_sleep env RESTART_POLL_SECONDS (world c)\<rparr>;
            go_on = (\<lambda>last_error c2. if se_time env (world c2) \<ge> deadline
              then Inl (Some (Inl (Infra (no_restart_error timeout last_error)), c2)) else Inr (Suc probes, c2))
        in case guest_boot_time env credentials c1 of
             None \<Rightarrow> Inl None
           | Some (Inr t, c2) \<Rightarrow> if t \<noteq> boot_before then Inl (Some (Inr (Suc probes), c2)) else go_on ''Windows had not restarted yet'' c2
           | Some (Inl (Infra e), c2) \<Rightarrow> go_on (human_message e) c2
           | Some (Inl (Other e), c2) \<Rightarrow> Inl (Some (Inl (Other e), c2))))"

definition wait_for_guest_restart ::
  "('w, 'z) stage_env_scheme \<Rightarrow> string \<times> string \<Rightarrow> string \<Rightarrow> rat \<Rightarrow> ('w, nat) stage" where
  "wait_for_guest_restart env credentials boot_before timeout =
     (\<lambda>c. poll_loop (restart_round env credentials boot_before timeout (se_time env (world c) + timeout)) (0, c))"

section \<open>Cleaning up after Setup\<close>

definition ANSWER_FILE_SCRUB_SCRIPT :: string where
  "ANSWER_FILE_SCRUB_SCRIPT =
     (''$paths = @('' @ nl)
     @ (''    'C:'' @ [bs] @ ''Windows'' @ [bs] @ ''Panther'' @ [bs] @ ''unattend.xml','' @ nl)
     @ (''    'C:'' @ [bs] @ ''Windows'' @ [bs] @ ''Panther'' @ [bs] @ ''Unattend'' @ [bs] @ ''unattend.xml','' @ nl)
     @ (''    'C:'' @ [bs] @ ''Windows'' @ [bs] @ ''Panther'' @ [bs] @ ''Unattend'' @ [bs] @ ''autounattend.xml','' @ nl)
     @ (''    'C:'' @ [bs] @ ''Windows'' @ [bs] @ ''Panther'' @ [bs] @ ''autounattend.xml','' @ nl)
     @ (''    'C:'' @ [bs] @ ''Windows'' @ [bs] @ ''System32'' @ [bs] @ ''Sysprep'' @ [bs] @ ''unattend.xml','' @ nl)
     @ (''    'C:'' @ [bs] @ ''Windows'' @ [bs] @ ''System32'' @ [bs] @ ''Sysprep'' @ [bs] @ ''Panther'' @ [bs]
      @ ''unattend.xml'' @ [CHR 0x27] @ nl)
     @ ('')'' @ nl @ ''foreach ($path in $paths) {'' @ nl)
     @ (''    if (Test-Path -LiteralPath $path) {'' @ nl)
     @ (''        Remove-Item -LiteralPath $path -Force -ErrorAction Stop'' @ nl)
     @ (''        '' @ [CHR 0x22] @ ''REMOVED $path'' @ [CHR 0x22] @ nl @ ''    }'' @ nl @ ''}'' @ nl)
     @ (''$winlogon = 'HKLM:'' @ [bs] @ ''SOFTWARE'' @ [bs] @ ''Microsoft'' @ [bs] @ ''Windows NT'' @ [bs] @ ''CurrentVersion''
      @ [bs] @ ''Winlogon'' @ [CHR 0x27] @ nl)
     @ (''foreach ($name in 'DefaultPassword', 'AutoLogonCount') {'' @ nl)
     @ (''    Remove-ItemProperty -Path $winlogon -Name $name -ErrorAction SilentlyContinue'' @ nl @ ''}'' @ nl)
     @ (''Set-ItemProperty -Path $winlogon -Name AutoAdminLogon -Value '0' -ErrorAction SilentlyContinue'' @ nl)
     @ squoted ''ANSWER-FILE-SCRUBBED''"

definition remove_recorded_media :: "('w, 'z) stage_env_scheme \<Rightarrow> string \<Rightarrow> ('w, string) stage" where
  "remove_recorded_media env v =
     with_context (\<lambda>c.
       let path = media_path (job c) in
       if path \<noteq> []
       then andthen (call (\<lambda>w. case remove_answer_media env v (comp_datacenter_id (compute (se_request env))) path w of
                       (None, w') \<Rightarrow> (Inr (), w') | (Some e, w') \<Rightarrow> (Inl e, w')))
            (andthen (update_job (update_step ''prepare_unattended_install''
                        (\<lambda>s. s\<lparr>artifacts := dict_update (artifacts s) [(''media_removed'', JBool True)]\<rparr>)))
             (ret ''Temporary answer media was detached and deleted.''))
       else ret ''No temporary answer media was recorded.'')"

definition release_installation_media :: "('w, 'z) stage_env_scheme \<Rightarrow> string \<Rightarrow> ('w, string \<times> string) stage" where
  "release_installation_media env v =
     seq (call (\<lambda>w. case detach_installation_media env v w of
            (Inr released, w') \<Rightarrow> (Inr (Inr released), w')
          | (Inl (Infra e, False), w') \<Rightarrow> (Inr (Inl e), w')
          | (Inl (e, _), w') \<Rightarrow> (Inl e, w'))) (\<lambda>res.
       case res of
         Inr released \<Rightarrow> ret (''SUCCEEDED'', ''Installation media disconnected and boot order set to disk only''
           @ (if released \<noteq> [] then '': '' @ join_on '', '' released @ ''.'' else ''.''))
       | Inl e \<Rightarrow> ret (''WARNING'', ''The installation ISOs could not be disconnected: '' @ human_message e @ '' '' @ reason e))"

definition scrub_answer_file :: "('w, 'z) stage_env_scheme \<Rightarrow> string \<times> string \<Rightarrow> ('w, unit) stage" where
  "scrub_answer_file env credentials =
     seq (attempt (run_script env credentials ANSWER_FILE_SCRUB_SCRIPT 120 [])
       (\<lambda>e. raise_error (infra_error ''The cached answer file could not be removed from Windows.'' (human_message e @ '' '' @ reason e)
              (recommended_action e) (technical_detail e) True))) (\<lambda>r.
       if \<not> succeeded r
       then raise_error (infra_error ''The cached answer file could not be removed from Windows.''
              (''The in-guest cleanup exited with code '' @ int_text (exit_code r) @ ''.'')
              ''Review the technical output, then retry this stage.'' (last_chars 1500 (joined_output r)) True)
       else ret ())"

definition stage_cleanup_unattended_media :: "('w, 'z) stage_env_scheme \<Rightarrow> ('w, StageOutcome) stage" where
  "stage_cleanup_unattended_media env =
     seq vm_id (\<lambda>v.
     seq (remove_recorded_media env v) (\<lambda>line1.
     seq (release_installation_media env v) (\<lambda>(status, line2).
     seq (resolve_guest_credentials env) (\<lambda>credentials.
     andthen (scrub_answer_file env credentials)
     (seq (guest_boot_time env credentials) (\<lambda>boot_before.
      andthen (schedule_guest_restart env credentials ''InfraOps: finish installing VMware Tools'')
      (andthen (wait_for_guest_restart env credentials boot_before TOOLS_RESTART_SECONDS)
       (ret (outcome status (join_on nl [line1, line2, ''Cached answer-file copies and AutoLogon values were removed from the guest.'',
          ''Windows restarted from its disk to load the VMware Tools drivers (mouse, display and network).'']) [])))))))))"

section \<open>Data disks\<close>

definition data_disks :: "('w, 'z) stage_env_scheme \<Rightarrow> DiskSpec list" where
  "data_disks env = tl (disks (hardware (se_request env)))"

definition stage_add_data_disks :: "('w, 'z) stage_env_scheme \<Rightarrow> ('w, StageOutcome) stage" where
  "stage_add_data_disks env =
     (let wanted = data_disks env in
      if wanted = [] then skip_stage ''No data disks were requested.''
      else seq vm_id (\<lambda>v. seq (call (add_data_disks env v wanted)) (\<lambda>added.
        done_with (nat_text (length wanted) @ '' data disk(s) attached to the running VM (''
            @ join_on '', '' (map (\<lambda>d. int_text (size_gb d) @ '' GB '' @ provisioning_value (disk_provisioning d)) wanted) @ ''); ''
            @ nat_text added @ '' added now, '' @ int_text (int (length wanted) - int added) @ '' already present.'')
          [(''data_disks'', JList (map (\<lambda>d. JInt (size_gb d)) wanted))])))"

definition DATA_DISK_DETECTION_DELAYS :: "rat list" where
  "DATA_DISK_DETECTION_DELAYS = [5, 10, 20, 30, 30]"

primrec detect_disks :: "('w, 'z) stage_env_scheme \<Rightarrow> string \<times> string \<Rightarrow> string \<Rightarrow> rat \<Rightarrow> rat list \<Rightarrow> ('w, CommandResult) stage" where
  "detect_disks env credentials scr timeout [] = lift (Inl (Other ''AssertionError''))"
| "detect_disks env credentials scr timeout (d # ds) =
     andthen (if d \<noteq> 0 then sleep env d else ret ())
     (seq (run_script env credentials scr timeout []) (\<lambda>r.
       if exit_code r \<noteq> DATA_DISKS_NOT_VISIBLE_EXIT \<or> ds = [] then ret r else detect_disks env credentials scr timeout ds))"

definition volume_line :: "DataVolume \<Rightarrow> string" where
  "volume_line v =
     ''Disk '' @ int_text (vol_number v) @ '': '' @ int_text (vol_size_gb v) @ '' GB '' @ file_system v @ '' ''
     @ (if drive_letter v \<noteq> [] then drive_letter v @ '':'' else ''(no drive letter)'') @ '' '' @ squoted (vol_label v)"

definition volume_json :: "DataVolume \<Rightarrow> json" where
  "volume_json v = JObj [(''number'', JInt (vol_number v)), (''size_gb'', JInt (vol_size_gb v)), (''drive_letter'', JStr (drive_letter v)),
     (''label'', JStr (vol_label v)), (''file_system'', JStr (file_system v))]"

definition int_list_text :: "int list \<Rightarrow> string" where
  "int_list_text xs = py_repr_json (JList (map JInt xs))"

definition data_disk_result :: "int list \<Rightarrow> CommandResult \<Rightarrow> guest_error + StageOutcome" where
  "data_disk_result expected r =
     (if exit_code r = DATA_DISKS_NOT_VISIBLE_EXIT
      then Inl (Infra (infra_error ''Windows did not detect every hot-added data disk.''
             (''Expected '' @ nat_text (length expected) @ '' data disk(s); Windows reported '' @ strip (stdout r) @ ''.'')
             ''Check the VM's disks in vCenter, then retry this stage.'' (last_chars 1000 (stdout r)) True))
      else if \<not> succeeded r
      then Inl (Infra (infra_error ''The data disks could not be brought online and formatted.''
             (''The disk script exited with code '' @ int_text (exit_code r) @ ''.'')
             ''Review the technical output, then retry this stage.'' (last_chars 1500 (joined_output r)) True))
      else case parse_data_volumes (stdout r) of
        Inl TypeError \<Rightarrow> Inl (Other ''TypeError'')
      | Inl (ValueError msg) \<Rightarrow>
          Inl (Infra (infra_error ''The data-disk result could not be interpreted.'' msg ''Retry this stage.'' (last_chars 1500 (stdout r)) True))
      | Inr volumes \<Rightarrow>
          (let found = sort (map vol_size_gb volumes) in
           if found \<noteq> expected \<or> list_ex (\<lambda>v. file_system v = []) volumes
           then Inl (Infra (infra_error ''The data disks Windows reports do not match the request.''
                  (''Requested sizes '' @ int_list_text expected @ '' GB; Windows reports '' @ int_list_text found @ '' GB.'')
                  ''Check the VM's disks in vCenter, then retry this stage.'' (last_chars 1500 (stdout r)) True))
           else Inr (outcome ''SUCCEEDED'' (''Data disks online and formatted:'' @ nl @ join_on nl (map volume_line volumes))
                  [(''volumes'', JList (map volume_json volumes))])))"

definition stage_initialize_data_disks :: "('w, 'z) stage_env_scheme \<Rightarrow> ('w, StageOutcome) stage" where
  "stage_initialize_data_disks env =
     (let expected = sort (map size_gb (data_disks env)) in
      if expected = [] then skip_stage ''No data disks were requested.''
      else
        seq (resolve_guest_credentials env) (\<lambda>credentials.
        seq (detect_disks env credentials (build_initialize_data_disks_script (length expected))
               (effective_timeout_seconds (settings_rows env) ''initialize_data_disks'') (0 # DATA_DISK_DETECTION_DELAYS)) (\<lambda>r.
        lift (data_disk_result expected r))))"

section \<open>Frames\<close>

lemma report_live_status_job [simp]: "same_statuses c (report_live_status env key msg c') = same_statuses c c'"
  by (simp add: report_live_status_def utcnow_def Let_def statuses_update_step same_statuses_def)

lemma keeps_watch [keeps_intros]:
  "keeps (\<lambda>c. loop (watch_setup env v t started deadline) \<lparr>watched = c, last_busy = b, last_report = p\<rparr>)"
  by (rule keeps_loop [where ctx = watched])
    (auto simp: watch_setup_def Let_def split: prod.splits sum.splits option.splits if_splits)

lemma keeps_boot_time [keeps_intros]: "keeps (guest_boot_time env cr)"
  unfolding guest_boot_time_def Let_def by (intro keeps_intros)

lemma keeps_schedule [keeps_intros]: "keeps (schedule_guest_restart env cr m)"
  unfolding schedule_guest_restart_def by (intro keeps_intros)

lemma keeps_restart [keeps_intros]: "keeps (wait_for_guest_restart env cr b t)"
  unfolding wait_for_guest_restart_def
  by (rule keeps_poll_loop [where ctx = snd])
    (auto simp: restart_round_def Let_def dest!: keepsD' [OF keeps_boot_time]
      split: prod.splits sum.splits option.splits guest_error.splits if_splits)

lemma keeps_wait_os: "keeps (stage_wait_for_guest_os env)"
  unfolding stage_wait_for_guest_os_def Let_def
  by (intro keeps_intros) (simp_all add: statuses_def controls_def update_step_def drop_live_status_def comp_def if_distrib cong: if_cong)

lemma keeps_wait_tools: "keeps (stage_wait_for_tools env)"
  unfolding stage_wait_for_tools_def Let_def by (intro keeps_intros) (simp_all add: statuses_def controls_def)

lemma keeps_cleanup: "keeps (stage_cleanup_unattended_media env)"
  unfolding stage_cleanup_unattended_media_def remove_recorded_media_def release_installation_media_def scrub_answer_file_def Let_def
  by (intro keeps_intros) (simp_all add: statuses_update_step)

lemma keeps_add_disks: "keeps (stage_add_data_disks env)"
  unfolding stage_add_data_disks_def Let_def by (intro keeps_intros)

lemma keeps_detect_disks [keeps_intros]: "keeps (detect_disks env cr scr t ds)"
  by (induction ds) (auto intro!: keeps_intros)

lemma keeps_initialize: "keeps (stage_initialize_data_disks env)"
  unfolding stage_initialize_data_disks_def Let_def by (intro keeps_intros)

section \<open>The waiting loops end\<close>

definition clock_advances :: "('w, 'z) stage_env_scheme \<Rightarrow> bool" where
  "clock_advances env \<longleftrightarrow>
     (\<forall>d w. 0 \<le> d \<longrightarrow> se_time env w + d \<le> se_time env (se_sleep env d w))
     \<and> (\<forall>v w. se_time env w \<le> se_time env (snd (get_vm_info_by_id env v w)))
     \<and> (\<forall>v keys w. se_time env w \<le> se_time env (snd (send_keystrokes env v keys w)))
     \<and> (\<forall>cr. guest_moves (se_guest env cr) (\<lambda>w w'. se_time env w \<le> se_time env w'))"

lemma report_live_status_world [simp]: "world (report_live_status env key msg c) = world c"
  by (simp add: report_live_status_def utcnow_def publish_stage_def map_job_def Let_def)

lemma watch_goes_on:
  assumes ca: "clock_advances env" and "watch_setup env v timeout started deadline s = Inr s'"
  shows "se_time env (world (watched s)) < deadline
     \<and> (se_time env (world (watched s)) + SETUP_POLL_SECONDS \<le> se_time env (world (watched s'))
        \<or> deadline \<le> se_time env (world (watched s')))"
proof -
  obtain r w where q: "get_vm_info_by_id env v (world (watched s)) = (r, w)" by fastforce
  let ?now = "se_time env (world (watched s))"
  have w: "?now \<le> se_time env w" using ca q unfolding clock_advances_def by (metis snd_conv)
  have now: "?now < deadline"
    and s': "world (watched s') = se_sleep env (min SETUP_POLL_SECONDS (max 0 (deadline - ?now))) w"
    using assms(2) q by (auto simp: watch_setup_def Let_def split: sum.splits option.splits if_splits)
  let ?d = "min SETUP_POLL_SECONDS (max 0 (deadline - ?now))"
  have "0 \<le> ?d" by (simp add: SETUP_POLL_SECONDS_def)
  then have "se_time env w + ?d \<le> se_time env (se_sleep env ?d w)" using ca unfolding clock_advances_def by blast
  with w now show ?thesis unfolding s' by (auto simp: min_def max_def split: if_splits)
qed

lemma watch_ready:
  "watch_setup env v timeout started deadline s = Inl (Inr info, c') \<Longrightarrow>
     get_vm_info_by_id env v (world (watched s)) = (Inr (Some info), world c') \<and> tools_ready info"
  by (auto simp: watch_setup_def Let_def split: prod.splits sum.splits option.splits if_splits)

lemma vm_id_returns: "\<exists>r c'. vm_id c = Some (r, c')"
  by (auto simp: vm_id_def split: prod.splits sum.splits)

lemma watch_loop_returns:
  assumes "clock_advances env"
  shows "\<exists>r c'. loop (watch_setup env v timeout started deadline) s = Some (r, c')"
  using loop_ends [of SETUP_POLL_SECONDS "\<lambda>_. True" s "watch_setup env v timeout started deadline"
      "\<lambda>s. se_time env (world (watched s))" deadline] watch_goes_on [OF assms]
  by (auto simp: SETUP_POLL_SECONDS_def)

text \<open>
  C14. Waiting for Windows Setup ends, whatever vCenter reports, as long as time passes. It succeeds only when the last
  call of the run asked vCenter about the machine of this job and the answer reported VMware Tools ready and named no
  guest family other than Windows (no family at all, which VMware Tools may not report yet, is accepted as well).
\<close>

theorem guest_os_wait_ends:
  assumes "clock_advances env"
  shows "\<exists>r c'. stage_wait_for_guest_os env c = Some (r, c') \<and>
     (is_ok r \<longrightarrow> guest_os_status (job c') = GO_READY \<and>
       (\<exists>v c1 w info. vm_id c = Some (Inr v, c1) \<and> get_vm_info_by_id env v w = (Inr (Some info), world c') \<and> tools_ready info
          \<and> (guest_family info = None \<or> guest_family info = Some []
             \<or> contains (casefold (the (guest_family info))) ''windows'')))"
proof -
  obtain r1 c1 where v: "vm_id c = Some (r1, c1)" using vm_id_returns by blast
  show ?thesis
  proof (cases r1)
    case (Inl e)
    then show ?thesis by (simp add: stage_wait_for_guest_os_def run_simps v is_ok_def)
  next
    case (Inr vm)
    let ?t = "effective_timeout_seconds (settings_rows env) ''wait_for_guest_os''"
    let ?c = "map_job (\<lambda>j. j\<lparr>guest_os_status := GO_INSTALLATION_IN_PROGRESS, vmware_tools_status := VT_NOT_APPLICABLE_YET,
                              guest_provisioning_status := GP_WAITING_FOR_OS\<rparr>) c1"
    let ?start = "se_time env (world ?c)"
    let ?dl = "?start + max SETUP_POLL_SECONDS (?t - 60)"
    let ?s = "\<lparr>watched = ?c, last_busy = ?start, last_report = None\<rparr>"
    obtain r2 c2 where l: "loop (watch_setup env vm ?t ?start ?dl) ?s = Some (r2, c2)"
      using watch_loop_returns [OF assms] by blast
    obtain s where s: "watch_setup env vm ?t ?start ?dl s = Inl (r2, c2)"
      using loop_result [OF l, of "\<lambda>_. True"] by blast
    have "\<exists>w. get_vm_info_by_id env vm w = (Inr (Some info), world c2) \<and> tools_ready info" if "r2 = Inr info" for info
      using watch_ready [OF s [unfolded that]] by blast
    moreover have "guest_family info = None \<or> guest_family info = Some [] \<or> contains (casefold (the (guest_family info))) ''windows''"
      if "\<not> (truthy_text (guest_family info) \<and> \<not> contains (casefold (the (guest_family info))) ''windows'')" for info
      using that by (auto simp: truthy_text_def split: option.splits)
    ultimately have ready: "\<exists>w i. get_vm_info_by_id env vm w = (Inr (Some i), world c2) \<and> tools_ready i
        \<and> (guest_family i = None \<or> guest_family i = Some [] \<or> contains (casefold (the (guest_family i))) ''windows'')"
      if "r2 = Inr info" "\<not> (truthy_text (guest_family info) \<and> \<not> contains (casefold (the (guest_family info))) ''windows'')" for info
      using that by blast
    show ?thesis
    proof (cases r2)
      case (Inr info)
      with ready [OF this] \<open>r1 = Inr vm\<close> v l show ?thesis
        by (cases "truthy_text (guest_family info) \<and> \<not> contains (casefold (the (guest_family info))) ''windows''")
          (simp_all add: stage_wait_for_guest_os_def run_simps Let_def is_ok_def map_job_def)
    qed (use \<open>r1 = Inr vm\<close> v l in \<open>simp add: stage_wait_for_guest_os_def run_simps Let_def is_ok_def map_job_def\<close>)
  qed
qed

lemma run_script_time:
  assumes "clock_advances env" and "run_script env cr scr t ss c = Some (r, c')"
  shows "se_time env (world c) \<le> se_time env (world c')"
proof -
  have "guest_moves (se_guest env cr) (\<lambda>w w'. se_time env w \<le> se_time env w')" using assms(1) unfolding clock_advances_def by blast
  from run_powershell_moves [OF this] assms(2) show ?thesis by (auto simp: run_script_def split: prod.splits)
qed

lemma guest_boot_time_run:
  assumes "clock_advances env"
  shows "\<exists>r c'. guest_boot_time env cr c = Some (r, c') \<and> se_time env (world c) \<le> se_time env (world c')"
proof -
  obtain r w where "run_powershell (se_guest env cr) (se_token env (ticks c)) GUEST_BOOT_TIME_SCRIPT 60 [] (world c) = (r, w)" by fastforce
  then obtain c1 where s: "run_script env cr GUEST_BOOT_TIME_SCRIPT 60 [] c = Some (r, c1)" by (simp add: run_script_def)
  show ?thesis using run_script_time [OF assms s] s
    by (cases r) (auto simp: guest_boot_time_def run_simps Let_def)
qed

lemma restart_goes_on:
  assumes ca: "clock_advances env" and "restart_round env cr b timeout deadline (n, c) = Inr (n', c')"
  shows "n' = Suc n \<and> se_time env (world c) + RESTART_POLL_SECONDS \<le> se_time env (world c') \<and> se_time env (world c') < deadline"
proof -
  let ?c1 = "c\<lparr>world := se_sleep env RESTART_POLL_SECONDS (world c)\<rparr>"
  obtain r c2 where g: "guest_boot_time env cr ?c1 = Some (r, c2)" "se_time env (world ?c1) \<le> se_time env (world c2)"
    using guest_boot_time_run [OF ca] by blast
  have "se_time env (world c) + RESTART_POLL_SECONDS \<le> se_time env (world ?c1)"
    using ca by (simp add: clock_advances_def RESTART_POLL_SECONDS_def)
  with g assms(2) show ?thesis
    by (auto simp: restart_round_def Let_def split: sum.splits guest_error.splits if_splits)
qed

lemma restart_result:
  "restart_round env cr b timeout deadline (n, c) = Inl (Some (Inr m, c')) \<Longrightarrow>
     m = Suc n \<and> (\<exists>c1 t. guest_boot_time env cr c1 = Some (Inr t, c') \<and> t \<noteq> b)"
  by (auto simp: restart_round_def Let_def split: option.splits prod.splits sum.splits guest_error.splits if_splits)

text \<open>
  C15. Waiting for a restart ends after a bounded number of probes, and succeeds only when Windows itself reports a start time other
  than the one before the restart.
\<close>

theorem guest_restart_confirmed:
  fixes env :: "('w, 'z) stage_env_scheme"
  assumes "clock_advances env" and "0 < timeout"
  shows "\<exists>r c'. wait_for_guest_restart env credentials boot_before timeout c = Some (r, c') \<and>
     (\<forall>probes. r = Inr probes \<longrightarrow> RESTART_POLL_SECONDS * of_nat probes < timeout + RESTART_POLL_SECONDS \<and>
        (\<exists>c1 t. guest_boot_time env credentials c1 = Some (Inr t, c') \<and> t \<noteq> boot_before))"
proof -
  let ?dl = "se_time env (world c) + timeout"
  let ?body = "restart_round env credentials boot_before timeout ?dl"
  let ?time = "\<lambda>s :: nat \<times> 'w JobRunContext. se_time env (world (snd s))"
  define I where "I s \<longleftrightarrow> ?time (0, c) + RESTART_POLL_SECONDS * of_nat (fst s) \<le> ?time s \<and> ?time s < ?dl" for s
  have step: "I s'" if "I s" "?body s = Inr s'" for s s'
    using restart_goes_on [OF assms(1), of credentials boot_before timeout ?dl "fst s" "snd s" "fst s'" "snd s'"] that
    by (auto simp: I_def algebra_simps)
  have clock: "?time s < ?dl \<and> (?time s + RESTART_POLL_SECONDS \<le> ?time s' \<or> ?dl \<le> ?time s')" if "I s" "?body s = Inr s'" for s s'
    using restart_goes_on [OF assms(1), of credentials boot_before timeout ?dl "fst s" "snd s" "fst s'" "snd s'"] that
    by (simp add: I_def)
  have start: "I (0, c)" using assms(2) by (simp add: I_def)
  have "\<exists>x. loop ?body (0, c) = Some x"
    by (rule loop_ends [where d = RESTART_POLL_SECONDS and time = ?time and I = I and body = ?body and deadline = ?dl, OF _ start step clock])
      (simp add: RESTART_POLL_SECONDS_def)
  then obtain x where x: "loop ?body (0, c) = Some x" by blast
  have "\<exists>s. I s \<and> ?body s = Inl x"
    by (rule loop_result [where I = I and body = ?body, OF x start]) (rule step)
  then obtain s0 where "I s0" "?body s0 = Inl x" by auto
  then obtain n c0 where s: "I (n, c0)" "?body (n, c0) = Inl x" by (cases s0) auto
  have "x \<noteq> None"
    using s(2) guest_boot_time_run [OF assms(1), of credentials "c0\<lparr>world := se_sleep env RESTART_POLL_SECONDS (world c0)\<rparr>"]
    by (auto simp: restart_round_def Let_def split: sum.splits guest_error.splits if_splits)
  then obtain r c' where rc: "x = Some (r, c')" by auto
  have "RESTART_POLL_SECONDS * of_nat n < timeout" using s(1) by (simp add: I_def)
  with s(2) rc restart_result [of env credentials boot_before timeout ?dl n c0]
  have "\<forall>probes. r = Inr probes \<longrightarrow> RESTART_POLL_SECONDS * of_nat probes < timeout + RESTART_POLL_SECONDS \<and>
        (\<exists>c1 t. guest_boot_time env credentials c1 = Some (Inr t, c') \<and> t \<noteq> boot_before)"
    by (auto simp: algebra_simps)
  with x rc show ?thesis by (auto simp: wait_for_guest_restart_def poll_loop_def)
qed

lemma sample_clock_advances: "clock_advances (sample_stage_env r out own info)"
  by (auto simp: clock_advances_def guest_moves_def sample_guest_def reflp_def transp_def)

theorem guest_os_wait_ends_witness:
  "\<exists>r c'. stage_wait_for_guest_os (sample_stage_env sample_request [] None (Some ready_info)) (sample_context (sample_job []) 0) = Some (r, c')
     \<and> (is_ok r \<longrightarrow> guest_os_status (job c') = GO_READY)"
  using guest_os_wait_ends [OF sample_clock_advances, of sample_request "[]" None "Some ready_info" "sample_context (sample_job []) 0"] by blast

theorem guest_restart_confirmed_witness:
  "\<exists>r c'. wait_for_guest_restart (sample_stage_env sample_request ''2026-01-02'' None None) (''admin'', ''secret'') ''2026-01-01'' GUEST_RESTART_SECONDS
       (sample_context (sample_job []) 0) = Some (r, c') \<and> (\<forall>probes. r = Inr probes \<longrightarrow> RESTART_POLL_SECONDS * of_nat probes < GUEST_RESTART_SECONDS + RESTART_POLL_SECONDS)"
  using guest_restart_confirmed [OF sample_clock_advances, of GUEST_RESTART_SECONDS sample_request "''2026-01-02''" None None "(''admin'', ''secret'')"
      "''2026-01-01''" "sample_context (sample_job []) 0"] by (auto simp: GUEST_RESTART_SECONDS_def)

section \<open>Verified data disks\<close>

lemma data_disk_result_Inr:
  assumes "data_disk_result (sort xs) r = Inr out"
  shows "succeeded r \<and> (\<exists>volumes. parse_data_volumes (stdout r) = Inr volumes \<and> mset (map vol_size_gb volumes) = mset xs
     \<and> (\<forall>v \<in> set volumes. file_system v \<noteq> []) \<and> outcome_artifacts out = [(''volumes'', JList (map volume_json volumes))])"
proof (cases "parse_data_volumes (stdout r)")
  case (Inl e)
  with assms show ?thesis by (cases e) (auto simp: data_disk_result_def split: if_splits)
next
  case (Inr vs)
  with assms have "succeeded r" "sort (map vol_size_gb vs) = sort xs" "\<not> list_ex (\<lambda>v. file_system v = []) vs"
    "outcome_artifacts out = [(''volumes'', JList (map volume_json vs))]"
    by (auto simp: data_disk_result_def Let_def outcome_def split: if_splits)
  moreover from this(2) have "mset (map vol_size_gb vs) = mset xs" by (metis mset_sort)
  ultimately show ?thesis using Inr by (simp add: list_ex_iff)
qed

lemma detect_disks_run:
  "detect_disks env cr scr t ds c = Some (Inr r, c') \<Longrightarrow> \<exists>c1. run_script env cr scr t [] c1 = Some (Inr r, c')"
proof (induction ds arbitrary: c)
  case (Cons d ds)
  then obtain c1 where "seq (run_script env cr scr t []) (\<lambda>r. if exit_code r \<noteq> DATA_DISKS_NOT_VISIBLE_EXIT \<or> ds = [] then ret r
      else detect_disks env cr scr t ds) c1 = Some (Inr r, c')"
    by (auto elim!: andthen_InrE)
  then obtain x c2 where "run_script env cr scr t [] c1 = Some (Inr x, c2)"
    and "(if exit_code x \<noteq> DATA_DISKS_NOT_VISIBLE_EXIT \<or> ds = [] then ret x else detect_disks env cr scr t ds) c2 = Some (Inr r, c')"
    by (rule seq_InrE)
  with Cons.IH show ?case by (auto split: if_splits)
qed simp

text \<open>
  C16. The data disks are accepted only when the last script that the stage ran in the guest, with the credentials of the
  request, succeeded and its output reports volumes of exactly the requested sizes, all formatted; the artifacts record
  these volumes.
\<close>

theorem data_disks_verified:
  assumes "data_disks env \<noteq> []" and "stage_initialize_data_disks env c = Some (Inr out, c')"
  shows "\<exists>credentials c0 c1 r volumes. resolve_guest_credentials env c = Some (Inr credentials, c0)
     \<and> run_script env credentials (build_initialize_data_disks_script (length (data_disks env)))
          (effective_timeout_seconds (settings_rows env) ''initialize_data_disks'') [] c1 = Some (Inr r, c')
     \<and> succeeded r \<and> parse_data_volumes (stdout r) = Inr volumes
     \<and> mset (map vol_size_gb volumes) = mset (map size_gb (data_disks env))
     \<and> (\<forall>v \<in> set volumes. file_system v \<noteq> [])
     \<and> outcome_artifacts out = [(''volumes'', JList (map volume_json volumes))]"
proof -
  let ?n = "length (data_disks env)"
  let ?t = "effective_timeout_seconds (settings_rows env) ''initialize_data_disks''"
  have ne: "sort (map size_gb (data_disks env)) \<noteq> []" using assms(1) by (metis Nil_is_map_conv mset_sort mset_zero_iff)
  have run: "seq (resolve_guest_credentials env) (\<lambda>credentials. seq (detect_disks env credentials (build_initialize_data_disks_script ?n) ?t
      (0 # DATA_DISK_DETECTION_DELAYS)) (\<lambda>r. lift (data_disk_result (sort (map size_gb (data_disks env))) r))) c = Some (Inr out, c')"
    using assms ne by (simp add: stage_initialize_data_disks_def Let_def del: detect_disks.simps)
  from run obtain cr c0 where cr: "resolve_guest_credentials env c = Some (Inr cr, c0)"
    and rest: "seq (detect_disks env cr (build_initialize_data_disks_script ?n) ?t (0 # DATA_DISK_DETECTION_DELAYS))
        (\<lambda>r. lift (data_disk_result (sort (map size_gb (data_disks env))) r)) c0 = Some (Inr out, c')"
    by (rule seq_InrE)
  from rest obtain r c2 where d: "detect_disks env cr (build_initialize_data_disks_script ?n) ?t (0 # DATA_DISK_DETECTION_DELAYS) c0 = Some (Inr r, c2)"
    and res: "lift (data_disk_result (sort (map size_gb (data_disks env))) r) c2 = Some (Inr out, c')" by (rule seq_InrE)
  from res have r: "data_disk_result (sort (map size_gb (data_disks env))) r = Inr out" "c2 = c'" by simp_all
  from data_disk_result_Inr [OF r(1)] cr detect_disks_run [OF d] r(2) show ?thesis by blast
qed

definition disk_request :: ProvisioningRequest where
  "disk_request = sample_request\<lparr>hardware := (hardware sample_request)\<lparr>disks := disks (hardware sample_request)
     @ [\<lparr>size_gb = 100, disk_provisioning = THIN, disk_datastore_id = None\<rparr>]\<rparr>\<rparr>"

definition disk_output :: string where
  "disk_output = json_dumps (JList [JObj [(''Number'', JInt 1), (''SizeGB'', JInt 100), (''DriveLetter'', JStr ''D''), (''Label'', JStr ''Data1''), (''FileSystem'', JStr ''NTFS'')]])"

lemma disk_output_reads: "parse_data_volumes disk_output = Inr [\<lparr>vol_number = 1, vol_size_gb = 100, drive_letter = ''D'', vol_label = ''Data1'', file_system = ''NTFS''\<rparr>]"
  by code_simp

theorem data_disks_verified_witness:
  "\<exists>out c'. stage_initialize_data_disks (sample_stage_env disk_request disk_output None None) (sample_context (sample_job []) 0) = Some (Inr out, c')
     \<and> (\<exists>volumes. outcome_artifacts out = [(''volumes'', JList (map volume_json volumes))] \<and> mset (map vol_size_gb volumes) = {#100#})"
proof -
  let ?env = "sample_stage_env disk_request disk_output None None"
  have d: "data_disks ?env = [\<lparr>size_gb = 100, disk_provisioning = THIN, disk_datastore_id = None\<rparr>]"
    by (simp add: data_disks_def disk_request_def sample_request_def)
  have "is_ok (fst (the (stage_initialize_data_disks ?env (sample_context (sample_job []) 0))))"
    and "stage_initialize_data_disks ?env (sample_context (sample_job []) 0) \<noteq> None"
    by (simp_all add: stage_initialize_data_disks_def d run_simps sample_credentials sample_script_runs data_disk_result_def disk_output_reads
        succeeded_def DATA_DISKS_NOT_VISIBLE_EXIT_def Let_def if_distribR is_ok_def)
  then obtain out c' where run: "stage_initialize_data_disks ?env (sample_context (sample_job []) 0) = Some (Inr out, c')"
    by (auto simp: is_ok_def split: sum.splits)
  show ?thesis using data_disks_verified [OF _ run] run d by (auto simp: d)
qed

end
