(* ===== verification/Stages_Guest.thy ===== *)
theory Stages_Guest
  imports Stages_Setup
begin

text \<open>
  The stages that configure the installed Windows: network, computer name, domain and restart (\<^verbatim>\<open>workers/stages.py\<close>,
  \<^verbatim>\<open>assert_static_address_unclaimed\<close> to \<^verbatim>\<open>stage_wait_guest_ready\<close>).
\<close>

section \<open>Network\<close>

definition conflict_status_value :: "ConflictProviderStatus \<Rightarrow> string" where
  "conflict_status_value s = (case s of NO_CONFLICT \<Rightarrow> ''NO_CONFLICT'' | CONFLICT_DETECTED \<Rightarrow> ''CONFLICT_DETECTED''
     | NOT_CONFIGURED \<Rightarrow> ''NOT_CONFIGURED'' | ERROR \<Rightarrow> ''ERROR'')"

definition provider_json :: "ProviderResult \<Rightarrow> json" where
  "provider_json p = JObj [(''provider'', JStr (provider_name p)), (''status'', JStr (conflict_status_value (provider_status p))),
     (''detail'', JStr (provider_detail p))]"

definition stage_providers :: "('w, 'z) stage_env_scheme \<Rightarrow> string \<Rightarrow> guest_error + (string, string) dict \<Rightarrow> provider list" where
  "stage_providers env name used =
     [(''ICMP'', \<lambda>a p. Inr (icmp_check (se_ping env) (se_windows env) (se_exec env) a)),
      (''VMware inventory'', \<lambda>a p. Inr (inventory_check used (Some name) a))]"

definition address_in_use_error :: "string \<Rightarrow> IpConflictReport \<Rightarrow> InfraOperationError" where
  "address_in_use_error address report =
     infra_error (''The address '' @ address @ '' is already in use on the network.'')
       (text_or (Some (join_on '' '' (map provider_detail (filter (\<lambda>p. provider_status p = CONFLICT_DETECTED) (conf_providers report)))))
         ''A conflict provider reported the address as in use.'')
       ''Free the address (or choose another one and resubmit), then retry the network stage.''
       (json_dumps (JList (map provider_json (conf_providers report)))) True"

definition assert_static_address_unclaimed :: "('w, 'z) stage_env_scheme \<Rightarrow> string \<Rightarrow> nat \<Rightarrow> ('w, unit) stage" where
  "assert_static_address_unclaimed env address prefix =
     with_context (\<lambda>c.
     seq (call (get_vm_info env (vm_name c))) (\<lambda>info.
       if (case info of None \<Rightarrow> False | Some i \<Rightarrow> address \<in> set (ip_addresses i)) then ret ()
       else seq (call (\<lambda>w. case get_used_ips env w of (used, w') \<Rightarrow> (Inr used, w'))) (\<lambda>used.
         let report = run_conflict_check address (int prefix) (stage_providers env (vm_name c) used) in
         if conflict_detected report then raise_error (address_in_use_error address report) else ret ())))"

definition network_script :: "ProvisioningRequest \<Rightarrow> string \<times> json_dict \<times> string" where
  "network_script r =
     (case (ip_mode (network r), ipv4 (network r)) of
        (STATIC, Some cfg) \<Rightarrow>
          (build_static_ip_script (cfg_address cfg) (int (cfg_prefix cfg)) (cfg_gateway cfg) (cfg_dns_servers cfg),
           [(''mode'', JStr ''STATIC''), (''address'', JStr (cfg_address cfg)), (''prefix'', JInt (int (cfg_prefix cfg))),
            (''subnet_mask'', opt_text (subnet_mask cfg)), (''gateway'', JStr (cfg_gateway cfg)),
            (''dns_servers'', JList (map JStr (cfg_dns_servers cfg)))],
           ''IP configured:'' @ nl @ cfg_address cfg @ ''/'' @ nat_text (cfg_prefix cfg) @ nl @ nl @ ''Gateway:'' @ nl @ cfg_gateway cfg
           @ nl @ nl @ ''DNS:'' @ nl @ join_on nl (cfg_dns_servers cfg))
      | _ \<Rightarrow> (build_dhcp_script, [(''mode'', JStr ''DHCP'')], ''DHCP enabled on the guest adapter.''))"

definition stage_configure_guest_network :: "('w, 'z) stage_env_scheme \<Rightarrow> ('w, StageOutcome) stage" where
  "stage_configure_guest_network env =
     (let r = se_request env in
      andthen (update_job (\<lambda>j. j\<lparr>guest_provisioning_status := GP_IN_PROGRESS\<rparr>))
      (seq (resolve_guest_credentials env) (\<lambda>credentials.
       andthen (case (ip_mode (network r), ipv4 (network r)) of
                  (STATIC, Some cfg) \<Rightarrow> assert_static_address_unclaimed env (cfg_address cfg) (cfg_prefix cfg)
                | _ \<Rightarrow> ret ())
       (case network_script r of (scr, configured, human) \<Rightarrow>
         seq (run_script env credentials scr (effective_timeout_seconds (settings_rows env) ''configure_guest_network'') []) (\<lambda>res.
           if \<not> succeeded res
           then raise_error (infra_error ''The VM was created successfully, but Windows networking could not be configured.''
                  (''The configuration command exited with code '' @ int_text (exit_code res) @ ''.'')
                  ''Verify VMware Tools status and retry the Network Configuration stage.''
                  (text_or (Some (last_chars 1500 (stdout res) @ last_chars 500 (stderr res))) ''no output captured'') True)
           else done_with human configured)))))"

definition gateway_script :: "string \<Rightarrow> string" where
  "gateway_script gateway =
     ''if (Test-Connection -ComputerName '' @ ps_quote gateway @ '' -Count 2 -Quiet) { '' @ squoted ''GW-REACHABLE'' @ '' } else { exit 1 }''"

definition dns_script :: "string \<Rightarrow> string \<Rightarrow> string" where
  "dns_script name dns =
     ''$r = Resolve-DnsName -Name '' @ ps_quote name @ '' -Server '' @ ps_quote dns @ '' -ErrorAction SilentlyContinue'' @ nl
     @ ''if ($r) { '' @ squoted ''DNS-OK'' @ '' } else { exit 1 }''"

definition check_gateway :: "('w, 'z) stage_env_scheme \<Rightarrow> string \<times> string \<Rightarrow> string \<Rightarrow> ('w, string) stage" where
  "check_gateway env credentials gateway =
     seq (run_script env credentials (gateway_script gateway) 120 []) (\<lambda>res.
       if \<not> succeeded res
       then raise_error (infra_error ''The configured default gateway is not reachable from the guest.''
              (''Ping to '' @ gateway @ '' failed after network configuration.'')
              ''Verify the IP/gateway values, VLAN assignment and firewall rules, then retry Network Validation.''
              (last_chars 1000 (stdout res)) True)
       else ret (''Gateway '' @ gateway @ '' reachable''))"

definition check_dns :: "('w, 'z) stage_env_scheme \<Rightarrow> string \<times> string \<Rightarrow> string list \<Rightarrow> ('w, string list) stage" where
  "check_dns env credentials servers =
     (case servers of
        [] \<Rightarrow> ret []
      | dns # _ \<Rightarrow>
          (case domain_join (guest (se_request env)) of
             None \<Rightarrow> ret [''DNS servers configured; name-resolution probe skipped (no domain supplied)'']
           | Some join \<Rightarrow>
               seq (run_script env credentials (dns_script (domain join) dns) 120 []) (\<lambda>res.
                 if \<not> succeeded res
                 then raise_error (infra_error ''DNS resolution through the configured resolver failed.''
                        (squoted (domain join) @ '' could not be resolved via '' @ dns @ ''.'')
                        ''Check the DNS server addresses and network routing, then retry.'' (last_chars 1000 (stdout res)) True)
                 else ret [''DNS lookup via '' @ dns @ '' working''])))"

text \<open>\<^verbatim>\<open>s.splitlines()[-1]\<close>, with the error for text without a line.\<close>

definition last_line :: "string \<Rightarrow> ('w, string) stage" where
  "last_line s = (if splitlines s = [] then lift (Inl (Other ''IndexError'')) else ret (last (splitlines s)))"

definition check_dhcp :: "('w, 'z) stage_env_scheme \<Rightarrow> string \<times> string \<Rightarrow> ('w, string) stage" where
  "check_dhcp env credentials =
     seq (run_script env credentials build_dhcp_probe_script 180 []) (\<lambda>res.
       if \<not> succeeded res
       then raise_error (infra_error ''The guest did not receive a DHCP address.'' ''No usable IPv4 address was found on the adapter.''
              ''Verify the port group provides DHCP connectivity, then retry.'' (last_chars 800 (stdout res)) True)
       else if stdout res \<noteq> [] then last_line (strip (stdout res)) else ret ''DHCP lease acquired'')"

definition stage_validate_network :: "('w, 'z) stage_env_scheme \<Rightarrow> ('w, StageOutcome) stage" where
  "stage_validate_network env =
     seq (resolve_guest_credentials env) (\<lambda>credentials.
     seq (case (ip_mode (network (se_request env)), ipv4 (network (se_request env))) of
            (STATIC, Some cfg) \<Rightarrow>
              seq (check_gateway env credentials (cfg_gateway cfg)) (\<lambda>gw.
              seq (check_dns env credentials (cfg_dns_servers cfg)) (\<lambda>dns. ret (gw # dns)))
          | _ \<Rightarrow> seq (check_dhcp env credentials) (\<lambda>line. ret [line])) (\<lambda>checks.
     done_with (''Network validation:'' @ nl @ join_on nl (map (\<lambda>l. ''[ok] '' @ l) checks)) []))"

section \<open>Computer name and domain\<close>

definition stage_configure_hostname :: "('w, 'z) stage_env_scheme \<Rightarrow> ('w, StageOutcome) stage" where
  "stage_configure_hostname env =
     (let r = se_request env; desired = upper (effective_computer_name r);
          identity_artifacts = [(''hostname'', JStr desired), (''computer_name'', JStr desired)]
            @ (if truthy_text (effective_fqdn r) then [(''requested_fqdn'', JStr (the (effective_fqdn r)))] else [])
      in if domain_join (guest r) \<noteq> None
         then ret (outcome ''SKIPPED'' (''Windows computer name '' @ squoted desired @ '' will be applied atomically with the Active Directory join.'')
                identity_artifacts)
         else
           seq (resolve_guest_credentials env) (\<lambda>credentials.
           seq (run_script env credentials ''$env:COMPUTERNAME'' 60 []) (\<lambda>probe.
           seq (if stdout probe \<noteq> [] then last_line (upper (strip (stdout probe))) else ret []) (\<lambda>current.
           if succeeded probe \<and> current = desired
           then ret (outcome ''SKIPPED'' (''Windows computer name already set to '' @ squoted desired @ ''.'') identity_artifacts)
           else
             seq (run_script env credentials (build_rename_script desired) 180 []) (\<lambda>res.
             if \<not> succeeded res
             then raise_error (infra_error (''The Windows computer name could not be changed to '' @ squoted desired @ ''.'')
                    (''Rename-Computer exited with code '' @ int_text (exit_code res) @ ''.'')
                    ''Retry the hostname stage; verify local administrator permissions.'' (last_chars 1000 (stdout res)) True)
             else
               andthen (modify (\<lambda>c. c\<lparr>hostname_changed := True\<rparr>))
               (done_with (''Windows computer name changed '' @ squoted (if current \<noteq> [] then current else ''?'') @ '' -> '' @ squoted desired
                   @ '' (applies at reboot).'') identity_artifacts))))))"

definition probe_windows_identity ::
  "('w, 'z) stage_env_scheme \<Rightarrow> string \<times> string \<Rightarrow> string \<Rightarrow> ('w, WindowsIdentityState) stage" where
  "probe_windows_identity env credentials operation =
     seq (run_script env credentials build_windows_identity_probe_script 60 []) (\<lambda>res.
       if \<not> succeeded res
       then raise_error (infra_error ''The Windows computer identity could not be read safely.''
              (''The identity probe failed before '' @ operation @ ''.'')
              ''Verify VMware Tools and local administrator access, then retry.'' (last_chars 1500 (joined_output res)) True)
       else case parse_windows_identity_state (stdout res) of
         Inl msg \<Rightarrow> raise_error (infra_error ''The Windows computer identity could not be interpreted safely.'' msg
           ''Retry after confirming the guest reports its Windows name and domain state.'' (last_chars 1500 (stdout res)) True)
       | Inr state \<Rightarrow> ret state)"

text \<open>\<^verbatim>\<open>s.replace(old, new)\<close>\<close>

function replace_nonempty :: "string \<Rightarrow> string \<Rightarrow> string \<Rightarrow> string" where
  "replace_nonempty old new [] = []"
| "replace_nonempty old new (c # cs) =
     (if old \<noteq> [] \<and> startswith (c # cs) old then new @ replace_nonempty old new (drop (length old) (c # cs))
      else c # replace_nonempty old new cs)"
  by pat_completeness auto
termination by (relation "measure (\<lambda>(old, new, s). length s)") auto

definition py_replace :: "string \<Rightarrow> string \<Rightarrow> string \<Rightarrow> string" where
  "py_replace old new s = (if old = [] then new @ concat (map (\<lambda>c. c # new) s) else replace_nonempty old new s)"

definition inconsistent_active_name :: "WindowsIdentityState \<Rightarrow> bool" where
  "inconsistent_active_name s = (active_name s \<noteq> [] \<and> casefold (wi_name s) \<noteq> casefold (active_name s))"

definition pending_identity_error :: "WindowsIdentityState \<Rightarrow> InfraOperationError" where
  "pending_identity_error s =
     infra_error ''A pending Windows identity change must be resolved before domain join.'' (windows_identity_detail s)
       ''Restart the guest, confirm its active computer name and domain, then retry the domain-join stage. InfraOps did not make another Active Directory change.''
       [] True"

definition other_domain_error :: "WindowsIdentityState \<Rightarrow> InfraOperationError" where
  "other_domain_error s =
     infra_error ''The guest is already joined with a different Windows domain identity.'' (windows_identity_detail s)
       ''Resolve the existing domain membership manually before retrying. InfraOps will not move or rename an unexpected domain member automatically.''
       [] False"

definition join_failed_error :: "string \<Rightarrow> string \<Rightarrow> CommandResult \<Rightarrow> InfraOperationError" where
  "join_failed_error dns_domain password res =
     infra_error (''The domain join to '' @ squoted dns_domain @ '' failed.'')
       (''Add-Computer exited with code '' @ int_text (exit_code res) @ ''.'')
       ''Verify the domain-join account, OU path and network path to a domain controller, then retry the domain join stage.''
       (py_replace password ''[REDACTED]'' (last_chars 1500 (joined_output res))) True"

definition add_computer :: "('w, 'z) stage_env_scheme \<Rightarrow> string \<times> string \<Rightarrow> DomainJoinSpec \<Rightarrow> WindowsIdentityState \<Rightarrow> ('w, StageOutcome) stage" where
  "add_computer env credentials join observed =
     (let desired = upper (effective_computer_name (se_request env)); base = domain_credential_ref join;
          rename_to = (if casefold (wi_name observed) = casefold desired then None else Some desired) in
      seq (lift (se_secret env (base @ ''/username''))) (\<lambda>username.
      seq (lift (se_secret env (base @ ''/password''))) (\<lambda>password.
      seq (run_script env credentials (build_domain_join_script (domain join) username (ou join) rename_to)
             (effective_timeout_seconds (settings_rows env) ''join_domain'') [(DOMAIN_JOIN_PASSWORD_SECRET, password)]) (\<lambda>res.
        if \<not> succeeded res then raise_error (join_failed_error (domain join) password res)
        else
          andthen (modify (\<lambda>c. c\<lparr>reboot_required := True\<rparr>))
          (done_with (''Active Directory accepted Windows computer name '' @ squoted desired @ '' for domain '' @ squoted (domain join)
              @ (if truthy_text (ou join) then '' (OU: '' @ the (ou join) @ '')'' else [])
              @ ''; reboot is required before the resulting DNS identity can be verified.'')
            [(''computer_name'', JStr desired), (''domain'', JStr (domain join)), (''identity_verified'', JBool False), (''joined'', JBool True),
             (''reboot_required'', JBool True), (''requested_fqdn'', opt_text (effective_fqdn (se_request env)))])))))"

definition stage_join_domain :: "('w, 'z) stage_env_scheme \<Rightarrow> ('w, StageOutcome) stage" where
  "stage_join_domain env =
     (case domain_join (guest (se_request env)) of
        None \<Rightarrow> skip_stage ''Domain join not requested.''
      | Some join \<Rightarrow>
          seq (resolve_guest_credentials env) (\<lambda>credentials.
          seq (probe_windows_identity env credentials ''attempting an Active Directory join'') (\<lambda>observed.
          if has_pending_rename observed \<or> pending_domain_join observed \<or> inconsistent_active_name observed
          then raise_error (pending_identity_error observed)
          else if windows_identity_matches observed (upper (effective_computer_name (se_request env))) (domain join)
          then andthen (modify (\<lambda>c. c\<lparr>reboot_required := False\<rparr>))
               (ret (outcome ''SKIPPED'' (''Windows already reports the verified domain identity ''
                    @ squoted (text_or (identity_fqdn observed) ''None'') @ ''; no Active Directory change was made.'')
                 [(''computer_name'', JStr (upper (wi_name observed))), (''domain'', JStr (lower (wi_domain observed))),
                  (''fqdn'', opt_text (identity_fqdn observed)), (''identity_verified'', JBool True), (''joined'', JBool True),
                  (''reboot_required'', JBool False)]))
          else if part_of_domain observed then raise_error (other_domain_error observed)
          else add_computer env credentials join observed)))"

section \<open>Restart\<close>

definition joined_requires_reboot :: "json_dict \<Rightarrow> bool" where
  "joined_requires_reboot arts = (dict_truthy arts ''joined'' \<and> truthy (dict_get arts ''reboot_required'' (JBool True)))"

definition stage_reboot_guest :: "('w, 'z) stage_env_scheme \<Rightarrow> ('w, StageOutcome) stage" where
  "stage_reboot_guest env =
     with_context (\<lambda>c.
       if \<not> (hostname_changed c \<or> joined_requires_reboot (step_artifacts ''join_domain'' c))
       then skip_stage ''No pending changes require a reboot.''
       else
         seq (resolve_guest_credentials env) (\<lambda>credentials.
         seq (guest_boot_time env credentials) (\<lambda>boot_before.
         andthen (schedule_guest_restart env credentials ''InfraOps provisioning restart'')
         (done_with ''Guest restart initiated.'' [(''boot_time'', JStr boot_before)]))))"

definition responsive :: "nat \<Rightarrow> StageOutcome" where
  "responsive probes = outcome ''SUCCEEDED'' (''Guest responsive after restart ('' @ nat_text probes @ '' probe(s)).'') []"

definition unresponsive_error :: "string \<Rightarrow> InfraOperationError" where
  "unresponsive_error last_error =
     infra_error ''The guest did not become responsive after the scheduled restart.''
       (''Guest operations probes timed out after 10 minutes (last: '' @ text_or (Some last_error) ''n/a'' @ '').'')
       ''Check the VM console in vCenter, then retry the availability stage.'' [] True"

definition ready_round ::
  "('w, 'z) stage_env_scheme \<Rightarrow> string \<times> string \<Rightarrow> rat \<Rightarrow> nat \<times> string \<times> 'w JobRunContext
     \<Rightarrow> ((guest_error + StageOutcome) \<times> 'w JobRunContext) option + nat \<times> string \<times> 'w JobRunContext" where
  "ready_round env credentials deadline s =
     (case s of (attempts, last_error, c) \<Rightarrow>
       if \<not> se_time env (world c) < deadline then Inl (Some (Inl (Infra (unresponsive_error last_error)), c))
       else
         (let go_on = (\<lambda>e c1. Inr (Suc attempts, e, c1\<lparr>world := se_sleep env 10 (world c1)\<rparr>))
          in case run_guest_program env credentials HOSTNAME_PATH [] 60 c of
               None \<Rightarrow> Inl None
             | Some (Inr probe, c1) \<Rightarrow>
                 if succeeded probe then Inl (Some (Inr (responsive (Suc attempts)), c1))
                 else go_on (''exit code '' @ int_text (exit_code probe)) c1
             | Some (Inl (Infra e), c1) \<Rightarrow> go_on (human_message e) c1
             | Some (Inl (Other e), c1) \<Rightarrow> Inl (Some (Inl (Other e), c1))))"

definition stage_wait_guest_ready :: "('w, 'z) stage_env_scheme \<Rightarrow> ('w, StageOutcome) stage" where
  "stage_wait_guest_ready env =
     with_context (\<lambda>c.
       let joined = dict_truthy (step_artifacts ''join_domain'' c) ''joined'';
           rebooted = (status_of ''reboot_guest'' (job c) = Some S_SUCCEEDED);
           boot_before = (if rebooted then get_text (step_artifacts ''reboot_guest'' c) ''boot_time'' else []) in
       if \<not> (joined \<or> rebooted) then skip_stage ''Guest was not restarted - availability confirmed earlier.''
       else
         seq (resolve_guest_credentials env) (\<lambda>credentials.
         if boot_before \<noteq> []
         then seq (wait_for_guest_restart env credentials boot_before GUEST_RESTART_SECONDS) (\<lambda>probes. ret (responsive probes))
         else (\<lambda>c1. poll_loop (ready_round env credentials (se_time env (world c1) + 600)) (0, [], c1))))"

section \<open>Frames\<close>

lemma keeps_ready [keeps_intros]: "keeps (\<lambda>c. poll_loop (ready_round env cr (se_time env (world c) + d)) (0, [], c))"
  by (rule keeps_poll_loop [where ctx = "\<lambda>(_, _, c). c"])
    (auto simp: ready_round_def Let_def dest!: keepsD' [OF keeps_guest_program]
      split: prod.splits sum.splits option.splits guest_error.splits if_splits)

lemma keeps_mode [keeps_intros]: "keeps a \<Longrightarrow> keeps b \<Longrightarrow> keeps (case m of DHCP \<Rightarrow> a | STATIC \<Rightarrow> b)"
  by (cases m) simp_all

lemma keeps_unclaimed [keeps_intros]: "keeps (assert_static_address_unclaimed env a p)"
  unfolding assert_static_address_unclaimed_def Let_def by (intro keeps_intros)

lemma keeps_network: "keeps (stage_configure_guest_network env)"
  unfolding stage_configure_guest_network_def Let_def by (intro keeps_intros) (simp_all add: statuses_def controls_def)

lemma keeps_last_line [keeps_intros]: "keeps (last_line s)"
  unfolding last_line_def by (intro keeps_intros)

lemma keeps_list [keeps_intros]: "keeps a \<Longrightarrow> (\<And>x xs. keeps (f x xs)) \<Longrightarrow> keeps (case v of [] \<Rightarrow> a | x # xs \<Rightarrow> f x xs)"
  by (cases v) simp_all

lemma keeps_validate_network: "keeps (stage_validate_network env)"
  unfolding stage_validate_network_def check_gateway_def check_dns_def check_dhcp_def by (intro keeps_intros)

lemma keeps_hostname: "keeps (stage_configure_hostname env)"
  unfolding stage_configure_hostname_def Let_def by (intro keeps_intros) simp_all

lemma keeps_probe [keeps_intros]: "keeps (probe_windows_identity env cr op)"
  unfolding probe_windows_identity_def by (intro keeps_intros)

lemma keeps_join: "keeps (stage_join_domain env)"
  unfolding stage_join_domain_def add_computer_def Let_def by (intro keeps_intros) simp_all

lemma keeps_reboot: "keeps (stage_reboot_guest env)"
  unfolding stage_reboot_guest_def by (intro keeps_intros)

lemma keeps_wait_ready: "keeps (stage_wait_guest_ready env)"
  unfolding stage_wait_guest_ready_def Let_def by (intro keeps_intros)

section \<open>A guarded domain join\<close>

lemma add_computer_reboot:
  "add_computer env credentials join s c = Some (Inr out, c') \<Longrightarrow> reboot_required c'"
  unfolding add_computer_def Let_def
  by (elim seq_InrE) (auto split: if_splits elim!: andthen_InrE)

lemma join_after_probe:
  assumes "domain_join (guest (se_request env)) = Some join"
    and "resolve_guest_credentials env c = Some (Inr credentials, c)"
    and "probe_windows_identity env credentials ''attempting an Active Directory join'' c = Some (Inr s, c1)"
  shows "stage_join_domain env c =
    (if has_pending_rename s \<or> pending_domain_join s \<or> inconsistent_active_name s then Some (Inl (Infra (pending_identity_error s)), c1)
     else if windows_identity_matches s (upper (effective_computer_name (se_request env))) (domain join)
     then Some (Inr (outcome ''SKIPPED'' (''Windows already reports the verified domain identity ''
                    @ squoted (text_or (identity_fqdn s) ''None'') @ ''; no Active Directory change was made.'')
                 [(''computer_name'', JStr (upper (wi_name s))), (''domain'', JStr (lower (wi_domain s))),
                  (''fqdn'', opt_text (identity_fqdn s)), (''identity_verified'', JBool True), (''joined'', JBool True),
                  (''reboot_required'', JBool False)]), c1\<lparr>reboot_required := False\<rparr>)
     else if part_of_domain s then Some (Inl (Infra (other_domain_error s)), c1)
     else add_computer env credentials join s c1)"
  using assms by (simp add: stage_join_domain_def run_simps)

text \<open>
  C12. The domain join is attempted only on a machine that is in no domain and has no pending change of its identity: after the
  identity probe nothing else runs in the guest otherwise. A machine that already has the requested identity is accepted, any
  other domain member is refused for good.
\<close>

theorem domain_join_guarded:
  assumes "domain_join (guest (se_request env)) = Some join"
    and "resolve_guest_credentials env c = Some (Inr credentials, c)"
    and "probe_windows_identity env credentials ''attempting an Active Directory join'' c = Some (Inr s, c1)"
    and "stage_join_domain env c = Some (r, c')"
  shows "if has_pending_rename s \<or> pending_domain_join s \<or> inconsistent_active_name s
     then world c' = world c1 \<and> (\<exists>e. r = Inl (Infra e) \<and> retryable e)
     else if part_of_domain s
     then world c' = world c1 \<and>
       (if casefold (wi_name s) = casefold (effective_computer_name (se_request env))
           \<and> casefold (wi_domain s) = casefold (rstrip_chars (\<lambda>x. x = CHR ''.'') (domain join))
        then \<exists>out. r = Inr out \<and> outcome_status out = ''SKIPPED'' \<and> \<not> reboot_required c'
        else \<exists>e. r = Inl (Infra e) \<and> \<not> retryable e)
     else \<forall>out. r = Inr out \<longrightarrow> reboot_required c'"
proof (cases "has_pending_rename s \<or> pending_domain_join s \<or> inconsistent_active_name s")
  case True
  then have "r = Inl (Infra (pending_identity_error s))" "c' = c1" using assms(4) by (simp_all add: join_after_probe [OF assms(1-3)])
  moreover have "retryable (pending_identity_error s)" by (simp add: pending_identity_error_def infra_error_def)
  ultimately show ?thesis using True by simp
next
  case settled: False
  show ?thesis
  proof (cases "part_of_domain s")
    case True
    then show ?thesis using settled assms(4)
      by (auto simp: join_after_probe [OF assms(1-3)] windows_identity_matches_def outcome_def other_domain_error_def infra_error_def)
  next
    case False
    then have "add_computer env credentials join s c1 = Some (r, c')"
      using settled assms(4) by (simp add: join_after_probe [OF assms(1-3)] windows_identity_matches_def)
    then show ?thesis using settled False add_computer_reboot [of env credentials join s c1] by auto
  qed
qed

definition identity_output :: string where
  "identity_output = identity_line \<lparr>wi_name = ''WEB01'', wi_domain = ''corp.example.com'', part_of_domain = True,
     active_name = ''WEB01'', pending_name = ''WEB01'', pending_domain_join = False\<rparr>"

definition sample_identity :: WindowsIdentityState where
  "sample_identity = \<lparr>wi_name = ''WEB01'', wi_domain = ''corp.example.com'', part_of_domain = True,
     active_name = ''WEB01'', pending_name = ''WEB01'', pending_domain_join = False\<rparr>"

lemma identity_output_reads: "parse_windows_identity_state identity_output = Inr sample_identity"
  by code_simp

theorem domain_join_guarded_witness:
  "let env = sample_stage_env sample_request identity_output None None; c = sample_context (sample_job []) 0
   in \<exists>out c'. stage_join_domain env c = Some (Inr out, c') \<and> outcome_status out = ''SKIPPED'' \<and> \<not> reboot_required c'"
proof -
  let ?env = "sample_stage_env sample_request identity_output None None" and ?c = "sample_context (sample_job []) (0 :: rat)"
  have d: "domain_join (guest (se_request ?env)) = Some \<lparr>domain = ''corp.example.com'', ou = None, domain_credential_ref = ''ad/join''\<rparr>"
    by (simp add: sample_request_def)
  have p: "probe_windows_identity ?env (''secret'', ''secret'') ''attempting an Active Directory join'' ?c =
      Some (Inr sample_identity, ?c\<lparr>ticks := Suc (ticks ?c)\<rparr>)"
    by (simp add: probe_windows_identity_def run_simps sample_script_runs succeeded_def identity_output_reads)
  have s: "\<not> has_pending_rename sample_identity" "\<not> pending_domain_join sample_identity" "\<not> inconsistent_active_name sample_identity"
    "part_of_domain sample_identity" "casefold (wi_name sample_identity) = casefold (effective_computer_name sample_request)"
    "casefold (wi_domain sample_identity) = casefold (rstrip_chars (\<lambda>x. x = CHR ''.'') ''corp.example.com'')"
    by code_simp+
  have "stage_join_domain ?env ?c \<noteq> None" using s by (simp add: join_after_probe [OF d sample_credentials p])
  then obtain r c' where run: "stage_join_domain ?env ?c = Some (r, c')" by auto
  show ?thesis using domain_join_guarded [OF d sample_credentials p run] s run by (auto simp: Let_def)
qed
section \<open>Known defects\<close>

lemma replace_nonempty_absent: "(\<And>k. \<not> startswith (drop k s) old) \<Longrightarrow> replace_nonempty old new s = s"
proof (induction s)
  case (Cons x xs)
  have "\<not> startswith (x # xs) old" using Cons.prems [of 0] by simp
  moreover have "\<not> startswith (drop k xs) old" for k using Cons.prems [of "Suc k"] by simp
  ultimately show ?case using Cons.IH by simp
qed simp

lemma startswith_take: "startswith s p \<Longrightarrow> take (length p) s = p"
  by (induction s p rule: startswith.induct) auto

lemma no_match_over_newlines:
  assumes "CHR 0x0A \<notin> set p" and "length u < length p"
  shows "\<not> startswith (drop k (u @ replicate m (CHR 0x0A))) p"
proof
  assume "startswith (drop k (u @ replicate m (CHR 0x0A))) p"
  then have t: "take (length p) (drop k (u @ replicate m (CHR 0x0A))) = p" by (rule startswith_take)
  show False
  proof (cases "length (drop k (u @ replicate m (CHR 0x0A))) < length p")
    case True
    then show False using arg_cong [OF t, of length] by simp
  next
    case False
    let ?n = "length u - k"
    have n: "?n < length p" "?n < length (drop k (u @ replicate m (CHR 0x0A)))" using False assms(2) by auto
    have "p ! ?n = drop k (u @ replicate m (CHR 0x0A)) ! ?n" using n(1) nth_take t by metis
    also have "\<dots> = (u @ replicate m (CHR 0x0A)) ! (k + ?n)" by (rule nth_drop) (use n(2) in auto)
    finally have "p ! ?n = (u @ replicate m (CHR 0x0A)) ! (k + ?n)" .
    moreover have "k + (length u - k) < length u + m" "\<not> k + (length u - k) < length u"
      using n(2) by auto
    ultimately have "p ! (length u - k) = CHR 0x0A" by (simp add: nth_append)
    then show False using assms(1) n(1) by (metis nth_mem)
  qed
qed

text \<open>
  Known defect. The technical detail of a failed join is cut to its last 1500 characters before the password is masked, so
  output whose cut falls inside the password leaves the rest of it in clear text.
\<close>

theorem join_failure_can_hold_password_tail:
  assumes "1 < length password" and "length password \<le> 1500" and "CHR 0x0A \<notin> set password"
  shows "\<exists>res. \<not> succeeded res \<and> stdout res = password
     \<and> startswith (technical_detail (join_failed_error dns_domain password res)) (tl password)"
proof -
  let ?m = "1500 - length password"
  let ?res = "\<lparr>exit_code = 1, stdout = password, stderr = replicate ?m (CHR 0x0A)\<rparr>"
  have j: "joined_output ?res = password @ replicate (Suc ?m) (CHR 0x0A)" by (simp add: joined_output_def nl_def)
  have "last_chars 1500 (joined_output ?res) = tl password @ replicate (Suc ?m) (CHR 0x0A)"
    using assms(1,2) unfolding j last_chars_def by (cases password) auto
  moreover have "replace_nonempty password r (tl password @ replicate (Suc ?m) (CHR 0x0A)) = tl password @ replicate (Suc ?m) (CHR 0x0A)" for r
    by (rule replace_nonempty_absent, rule no_match_over_newlines) (use assms in auto)
  ultimately have "technical_detail (join_failed_error dns_domain password ?res) = tl password @ replicate (Suc ?m) (CHR 0x0A)"
    using assms(1) by (auto simp: join_failed_error_def py_replace_def infra_error_def simp del: replicate_Suc)
  then show ?thesis by (intro exI [of _ ?res]) (simp add: succeeded_def startswith_iff del: replicate_Suc)
qed

theorem join_failure_can_hold_password_tail_witness:
  "\<exists>res. \<not> succeeded res \<and> startswith (technical_detail (join_failed_error ''corp.example.com'' ''P4ssw0rd'' res)) ''4ssw0rd''"
  using join_failure_can_hold_password_tail [of "''P4ssw0rd''" "''corp.example.com''"] by auto

text \<open>
  Known defect. That the computer was renamed is only known to the run that renamed it: a run resumed after an interruption
  skips both the restart and the wait for it, and the machine keeps its old name.
\<close>

theorem resumed_rename_is_not_restarted:
  assumes "\<not> hostname_changed c" and "step_artifacts ''join_domain'' c = []" and "status_of ''reboot_guest'' (job c) \<noteq> Some S_SUCCEEDED"
  shows "\<exists>o1 o2. stage_reboot_guest env c = Some (Inr o1, c) \<and> stage_wait_guest_ready env c = Some (Inr o2, c)
     \<and> outcome_status o1 = ''SKIPPED'' \<and> outcome_status o2 = ''SKIPPED''"
  using assms by (simp add: stage_reboot_guest_def stage_wait_guest_ready_def run_simps joined_requires_reboot_def dict_truthy_def outcome_def Let_def)

theorem resumed_rename_is_not_restarted_witness:
  "let c = sample_context (sample_job [(''configure_hostname'', S_SUCCEEDED)]) 0; env = sample_stage_env sample_request [] None None
   in status_of ''configure_hostname'' (job c) = Some S_SUCCEEDED
      \<and> (\<exists>o1. stage_reboot_guest env c = Some (Inr o1, c) \<and> outcome_status o1 = ''SKIPPED'')"
proof -
  let ?c = "sample_context (sample_job [(''configure_hostname'', S_SUCCEEDED)]) (0 :: rat)"
  have "\<not> hostname_changed ?c" "step_artifacts ''join_domain'' ?c = []" "status_of ''reboot_guest'' (job ?c) \<noteq> Some S_SUCCEEDED"
    "status_of ''configure_hostname'' (job ?c) = Some S_SUCCEEDED"
    by (simp_all add: sample_context_def sample_job_def step_artifacts_def step_of_def status_of_def new_step_row_def)
  with resumed_rename_is_not_restarted [of ?c "sample_stage_env sample_request [] None None"] show ?thesis by (auto simp: Let_def)
qed

end
