(* ===== verification/Stages_Apps.thy ===== *)
theory Stages_Apps
  imports Stages_Guest
begin

text \<open>
  The stages that install certificates and applications, the final validation, and the table of all stage handlers
  (\<^verbatim>\<open>workers/stages.py\<close>, \<^verbatim>\<open>_load_certificates\<close> to \<^verbatim>\<open>_definition_from_orm\<close> and from \<^verbatim>\<open>_deploy_certificate_group\<close> on).
  Rows sort by the character codes of their names. Names that stages read back from artifacts are strings, as the
  stages that write them produce.
\<close>

section \<open>Rows\<close>

definition load_certificates :: "('w, 'z) stage_env_scheme \<Rightarrow> uuid list \<Rightarrow> CertificateType \<Rightarrow> CertificateToDeploy list" where
  "load_certificates env package_ids ctype =
     (if package_ids = [] then []
      else map (\<lambda>r. \<lparr>cert_friendly_name = crt_friendly_name r, cert_type = crt_type r, cert_thumbprint = crt_fingerprint_sha256 r,
                     cert_pem_body = crt_pem_body r, cert_not_after = crt_not_after r\<rparr>)
        (sort_key crt_friendly_name
          (filter (\<lambda>r. crt_package_id r \<in> set package_ids \<and> crt_enabled r
                       \<and> list_ex (\<lambda>p. pkg_id p = crt_package_id r \<and> pkg_enabled p) (se_packages env) \<and> crt_type r = ctype)
            (se_certificates env))))"

definition load_application_catalog :: "('w, 'z) stage_env_scheme \<Rightarrow> catalog" where
  "load_application_catalog env =
     dict_by node_id (map (\<lambda>a. \<lparr>node_id = appl_id a, node_name = appl_name a, node_enabled = appl_enabled a,
                               dependency_ids = fset_of_list (appl_depends_on a)\<rparr>) (se_applications env))"

definition definition_from_orm :: "Application \<Rightarrow> ApplicationDefinition" where
  "definition_from_orm a =
     \<lparr>app_id = appl_id a, app_name = appl_name a, installer_type = appl_installer_type a, installer_path = appl_installer_path a,
      install_arguments = appl_install_arguments a, detection_method = appl_detection_method a,
      detection_config = appl_detection_config a, timeout_seconds = appl_timeout_seconds a, app_reboot_required = appl_reboot_required a\<rparr>"

section \<open>Certificates\<close>

definition record_json :: "CertificateInstallRecord \<Rightarrow> json" where
  "record_json r = JObj [(''friendly_name'', JStr (rec_friendly_name r)), (''store'', JStr (rec_store r)), (''thumbprint'', JStr (rec_thumbprint r)),
     (''action'', JStr (rec_action r)), (''verified'', JBool (rec_verified r)), (''detail'', JStr (rec_detail r))]"

definition record_problems :: "CertificateInstallRecord list \<Rightarrow> string" where
  "record_problems rs = take 800 (join_on ''; '' (map (\<lambda>r. rec_friendly_name r @ '': '' @ rec_detail r) rs))"

definition local_machine :: "string \<Rightarrow> string" where
  "local_machine store = ''LocalMachine'' @ [bs] @ store"

text \<open>Every certificate uses up to two random tokens for its files.\<close>

definition deploy_records :: "('w, 'z) stage_env_scheme \<Rightarrow> string \<times> string \<Rightarrow> CertificateToDeploy list \<Rightarrow> ('w, CertificateInstallRecord list) stage" where
  "deploy_records env credentials certs =
     (\<lambda>c. case deploy (se_guest env credentials) (se_token env) (ticks c) (se_today env) certs (world c) of
        (r, w) \<Rightarrow> Some (case r of Inl e \<Rightarrow> Inl (Other e) | Inr records \<Rightarrow> Inr records,
                        c\<lparr>world := w, ticks := ticks c + 2 * length certs\<rparr>))"

definition verify_records :: "('w, 'z) stage_env_scheme \<Rightarrow> string \<times> string \<Rightarrow> CertificateToDeploy list \<Rightarrow> ('w, CertificateInstallRecord list) stage" where
  "verify_records env credentials certs =
     (\<lambda>c. case verify_all (se_guest env credentials) (se_token env) (ticks c) certs (world c) of
        (r, w) \<Rightarrow> Some (r, c\<lparr>world := w, ticks := ticks c + length certs\<rparr>))"

primrec audit_installed :: "CertificateInstallRecord list \<Rightarrow> ('w, unit) stage" where
  "audit_installed [] = ret ()"
| "audit_installed (r # rs) =
     andthen (job_audit ''CERTIFICATE_INSTALLED'' ''certificate'' (rec_friendly_name r)
                [(''store'', JStr (local_machine (rec_store r))), (''thumbprint'', JStr (rec_thumbprint r))])
     (audit_installed rs)"

definition deploy_certificate_group :: "('w, 'z) stage_env_scheme \<Rightarrow> CertificateType \<Rightarrow> string \<Rightarrow> ('w, StageOutcome) stage" where
  "deploy_certificate_group env ctype label =
     (let certs = load_certificates env (certificate_package_ids (se_request env)) ctype in
      if certs = [] then skip_stage (''No '' @ label @ '' certificates selected.'')
      else
        seq (resolve_guest_credentials env) (\<lambda>credentials.
        seq (deploy_records env credentials certs) (\<lambda>records.
        let failures = filter (\<lambda>r. rec_action r = ''FAILED'') records in
        andthen (audit_installed (filter (\<lambda>r. rec_action r = ''INSTALLED'') records))
        (if failures \<noteq> []
         then raise_error (infra_error (nat_text (length failures) @ '' '' @ label @ '' certificate(s) failed to install.'')
                (record_problems failures) ''Retry the certificate installation stage after reviewing the errors.''
                (json_dumps (JList (map record_json records))) True)
         else done_with (join_on nl (map (\<lambda>r. (if rec_verified r then ''[ok]'' else ''[x]'') @ '' '' @ rec_friendly_name r @ '' -> ''
                  @ local_machine (rec_store r) @ '' ('' @ rec_action r @ '')'') records))
                [(''records'', JList (map record_json records))]))))"

definition stage_install_root_certificates :: "('w, 'z) stage_env_scheme \<Rightarrow> ('w, StageOutcome) stage" where
  "stage_install_root_certificates env = deploy_certificate_group env CERT_ROOT ''trusted root''"

definition stage_install_intermediate_certificates :: "('w, 'z) stage_env_scheme \<Rightarrow> ('w, StageOutcome) stage" where
  "stage_install_intermediate_certificates env = deploy_certificate_group env CERT_INTERMEDIATE ''intermediate''"

definition stage_validate_certificates :: "('w, 'z) stage_env_scheme \<Rightarrow> ('w, StageOutcome) stage" where
  "stage_validate_certificates env =
     (let ids = certificate_package_ids (se_request env);
          certs = load_certificates env ids CERT_ROOT @ load_certificates env ids CERT_INTERMEDIATE in
      if certs = [] then skip_stage ''No certificates selected.''
      else
        seq (resolve_guest_credentials env) (\<lambda>credentials.
        seq (verify_records env credentials certs) (\<lambda>results.
        let failed = filter (\<lambda>r. \<not> rec_verified r) results in
        if failed \<noteq> []
        then raise_error (infra_error (nat_text (length failed) @ '' certificate(s) failed post-install verification.'')
               (record_problems failed) ''Retry certificate installation and verification.'' (json_dumps (JList (map record_json results))) True)
        else done_with (join_on nl (map (\<lambda>r. ''[ok] '' @ rec_friendly_name r @ '' present in '' @ local_machine (rec_store r)) results))
               [(''verified'', JList (map (\<lambda>r. JStr (rec_friendly_name r)) results))])))"

section \<open>Applications\<close>

definition stage_resolve_dependencies :: "('w, 'z) stage_env_scheme \<Rightarrow> ('w, StageOutcome) stage" where
  "stage_resolve_dependencies env =
     (if application_ids (se_request env) = [] then skip_stage ''No applications selected.''
      else case resolve_install_order (application_ids (se_request env)) (load_application_catalog env) of
        None \<Rightarrow> lift (Inl (Other ''RecursionError''))
      | Some (ordered, errors) \<Rightarrow>
          if errors \<noteq> []
          then raise_error (infra_error ''Application dependencies could not be resolved.'' (take 800 (join_on '' '' errors))
                 ''Ask an administrator to correct the application catalog dependencies.'' (json_dumps (JList (map JStr errors))) False)
          else done_with (''Install order: '' @ join_on '' -> '' (map node_name ordered))
                 [(''order'', JList (map (\<lambda>n. JObj [(''id'', JStr (node_id n)), (''name'', JStr (node_name n))]) ordered))])"

text \<open>\<^verbatim>\<open>entry[key]\<close>\<close>

definition entry_text :: "json \<Rightarrow> string \<Rightarrow> guest_error + string" where
  "entry_text entry key =
     (case entry of
        JObj kvs \<Rightarrow> (case map_of kvs key of None \<Rightarrow> Inl (Other ''KeyError'') | Some v \<Rightarrow> Inr (py_str v))
      | _ \<Rightarrow> Inl (Other ''TypeError''))"

definition artifact_items :: "json_dict \<Rightarrow> string \<Rightarrow> ('w, json list) stage" where
  "artifact_items arts key = lift (case json_iter (map_of arts key) of None \<Rightarrow> Inl (Other ''TypeError'') | Some xs \<Rightarrow> Inr xs)"

definition probe_count :: "ApplicationDefinition \<Rightarrow> nat" where
  "probe_count app = (case detection_programs (detection_method app) (detection_config app) of None \<Rightarrow> 0 | Some ps \<Rightarrow> length ps)"

definition install_application :: "('w, 'z) stage_env_scheme \<Rightarrow> string \<times> string \<Rightarrow> ApplicationDefinition \<Rightarrow> ('w, InstallOutcome) stage" where
  "install_application env credentials app =
     (\<lambda>c. case install (se_guest env credentials) (\<lambda>i. se_token env (ticks c + i)) app (app_install_failures_total (metrics c)) (world c) of
        (r, w) \<Rightarrow>
          (let c1 = c\<lparr>world := w, ticks := ticks c + probe_count app\<rparr> in
           case r of
             Inl e \<Rightarrow> Some (Inl (Other e), c1)
           | Inr (out, failures) \<Rightarrow> Some (Inr out, c1\<lparr>metrics := (metrics c1)\<lparr>app_install_failures_total := failures\<rparr>\<rparr>)))"

definition detect_application :: "('w, 'z) stage_env_scheme \<Rightarrow> string \<times> string \<Rightarrow> ApplicationDefinition \<Rightarrow> ('w, bool) stage" where
  "detect_application env credentials app =
     (\<lambda>c. case detect (se_guest env credentials) (\<lambda>i. se_token env (ticks c + i)) app (world c) of
        (r, w) \<Rightarrow> Some (r, c\<lparr>world := w, ticks := ticks c + probe_count app\<rparr>))"

primrec install_entries ::
  "('w, 'z) stage_env_scheme \<Rightarrow> string \<times> string \<Rightarrow> json list \<Rightarrow> ('w, InstallOutcome list \<times> string list) stage" where
  "install_entries env credentials [] = ret ([], [])"
| "install_entries env credentials (entry # entries) =
     seq (lift (entry_text entry ''id'')) (\<lambda>i.
     seq (lift (case parse_uuid i of None \<Rightarrow> Inl (Other ''ValueError'') | Some u \<Rightarrow> Inr u)) (\<lambda>u.
     case map_of (dict_by appl_id (se_applications env)) u of
       None \<Rightarrow>
         seq (lift (entry_text entry ''name'')) (\<lambda>name.
         seq (install_entries env credentials entries) (\<lambda>(outcomes, failures).
           ret (outcomes, (name @ '': definition disappeared from the catalog'') # failures)))
     | Some app \<Rightarrow>
         seq (install_application env credentials (definition_from_orm app)) (\<lambda>out.
         andthen (if install_status out = ''INSTALLED'' then job_audit ''APPLICATION_INSTALLED'' ''application'' (outcome_name out) [] else ret ())
         (seq (install_entries env credentials entries) (\<lambda>(outcomes, failures).
           ret (out # outcomes,
                (if install_status out = ''FAILED'' then [outcome_name out @ '': '' @ take 200 (install_output out)] else []) @ failures))))))"

definition install_symbol :: "InstallOutcome \<Rightarrow> string" where
  "install_symbol out = dict_get [(''INSTALLED'', ''[ok]''), (''ALREADY_INSTALLED'', ''[ok]''), (''REBOOT_REQUIRED'', ''[r]'')] (install_status out) ''[x]''"

text \<open>The report reads the loop variable \<^verbatim>\<open>symbol\<close> after the loop, so every line carries the last one.\<close>

definition install_report :: "InstallOutcome list \<Rightarrow> string" where
  "install_report outcomes =
     join_on nl (map (\<lambda>o'. install_symbol (last outcomes) @ '' '' @ outcome_name o' @ '' ('' @ install_status o' @ '')'') outcomes)"

definition stage_install_applications :: "('w, 'z) stage_env_scheme \<Rightarrow> ('w, StageOutcome) stage" where
  "stage_install_applications env =
     with_context (\<lambda>c.
     seq (artifact_items (step_artifacts ''resolve_dependencies'' c) ''order'') (\<lambda>order.
     if order = [] then skip_stage ''No applications to install.''
     else
       seq (resolve_guest_credentials env) (\<lambda>credentials.
       seq (install_entries env credentials order) (\<lambda>(outcomes, failures).
       if failures \<noteq> []
       then raise_error (infra_error (nat_text (length failures) @ '' application installation(s) failed.'')
              (take 900 (join_on ''; '' failures)) ''Retry the application installation stage - already-installed items are skipped.''
              (join_on nl (map (\<lambda>o'. ''['' @ install_status o' @ ''] '' @ outcome_name o' @ '': '' @ take 400 (install_output o')) outcomes)) True)
       else
         andthen (modify (\<lambda>c. c\<lparr>reboot_required := reboot_required c \<or> list_ex outcome_reboot_required outcomes\<rparr>))
         (done_with (install_report outcomes)
           [(''outcomes'', JList (map (\<lambda>o'. JObj [(''name'', JStr (outcome_name o')), (''status'', JStr (install_status o')),
               (''reboot_required'', JBool (outcome_reboot_required o'))]) outcomes)),
            (''reboot_required'', JBool (list_ex outcome_reboot_required outcomes))])))))"

primrec validate_entries ::
  "('w, 'z) stage_env_scheme \<Rightarrow> string \<times> string \<Rightarrow> json list \<Rightarrow> ('w, string list \<times> string list \<times> string list) stage" where
  "validate_entries env credentials [] = ret ([], [], [])"
| "validate_entries env credentials (entry # entries) =
     seq (lift (entry_text entry ''name'')) (\<lambda>name.
     seq (case map_of (dict_by appl_name (se_applications env)) name of
            None \<Rightarrow> ret ([], [name @ '': definition missing during validation''])
          | Some app \<Rightarrow>
              seq (detect_application env credentials (definition_from_orm app)) (\<lambda>detected.
              ret (if detected then ([''[ok] '' @ name], []) else ([''[x] '' @ name @ '' not detected after installation''], [name])))) (\<lambda>(line, problem).
     seq (validate_entries env credentials entries) (\<lambda>(names, lines, problems).
       ret (name # names, line @ lines, problem @ problems))))"

definition stage_validate_applications :: "('w, 'z) stage_env_scheme \<Rightarrow> ('w, StageOutcome) stage" where
  "stage_validate_applications env =
     with_context (\<lambda>c.
     seq (artifact_items (step_artifacts ''install_applications'' c) ''outcomes'') (\<lambda>outcomes.
     if outcomes = [] then skip_stage ''No applications were installed.''
     else
       seq (resolve_guest_credentials env) (\<lambda>credentials.
       seq (validate_entries env credentials outcomes) (\<lambda>(names, lines, problems).
       if problems \<noteq> []
       then raise_error (infra_error (''Post-install detection failed for: '' @ join_on '', '' problems @ ''.'')
              ''Detection rules did not match after installation.''
              ''Review the detection rules with an administrator and retry validation.'' (json_dumps (JList (map JStr problems))) True)
       else done_with (join_on nl lines) [(''validated'', JList (map JStr names))]))))"

section \<open>Frames\<close>

lemma keeps_deploy [keeps_intros]: "keeps (deploy_records env cr certs)" "keeps (verify_records env cr certs)"
  by (auto simp: keeps_def deploy_records_def verify_records_def split: prod.splits)

lemma keeps_audit_installed [keeps_intros]: "keeps (audit_installed rs)"
  by (induction rs) (simp_all, (intro keeps_intros; simp)+)

lemma keeps_certificates: "keeps (deploy_certificate_group env t l)" "keeps (stage_validate_certificates env)"
  unfolding deploy_certificate_group_def stage_validate_certificates_def Let_def by (intro keeps_intros)+

lemma keeps_resolve: "keeps (stage_resolve_dependencies env)"
  unfolding stage_resolve_dependencies_def by (intro keeps_intros)

lemma keeps_install_one [keeps_intros]: "keeps (install_application env cr app)" "keeps (detect_application env cr app)"
  by (auto simp: keeps_def install_application_def detect_application_def Let_def split: prod.splits sum.splits)

lemma keeps_items [keeps_intros]: "keeps (artifact_items arts key)"
  unfolding artifact_items_def by (intro keeps_intros)

lemma keeps_entries [keeps_intros]: "keeps (install_entries env cr es)" "keeps (validate_entries env cr es)"
  by (induction es) (simp_all, (intro keeps_intros; simp)+)

lemma keeps_applications: "keeps (stage_install_applications env)" "keeps (stage_validate_applications env)"
  unfolding stage_install_applications_def stage_validate_applications_def by (intro keeps_intros; simp)+

end
