(* ===== verification/Stage_Handlers.thy ===== *)
theory Stage_Handlers
  imports Stages_Apps
begin

text \<open>
  The final validation and the table of stage handlers (\<^verbatim>\<open>workers/stages.py\<close>), with what every handler keeps: the
  statuses of the steps belong to the pipeline alone.
\<close>

section \<open>Final validation\<close>

definition INSTALLATION_TYPE_SCRIPT :: string where
  "INSTALLATION_TYPE_SCRIPT =
     (''(Get-ItemProperty -LiteralPath 'Registry::HKEY_LOCAL_MACHINE'' @ [bs] @ ''SOFTWARE'' @ [bs] @ ''Microsoft'' @ [bs]
      @ ''Windows NT'' @ [bs] @ ''CurrentVersion' -ErrorAction Stop).InstallationType'')"

definition windows_installation_type :: "('w, 'z) stage_env_scheme \<Rightarrow> ('w, string) stage" where
  "windows_installation_type env =
     seq (resolve_guest_credentials env) (\<lambda>credentials.
     seq (run_script env credentials INSTALLATION_TYPE_SCRIPT 60 []) (\<lambda>res.
       let lines = nonblank_lines (stdout res) in
       if \<not> succeeded res \<or> lines = []
       then raise_error (infra_error ''Windows did not report its installation type.''
              (''The read-only registry query exited with code '' @ int_text (exit_code res) @ ''.'') ''Retry this stage.''
              (last_chars 1000 (joined_output res)) True)
       else ret (last lines)))"

record check_item =
  ck_group :: string
  ck_label :: string
  ck_ok :: bool
  ck_detail :: string

definition ck :: "string \<Rightarrow> string \<Rightarrow> bool \<Rightarrow> string \<Rightarrow> check_item" where
  "ck g label ok detail = \<lparr>ck_group = g, ck_label = label, ck_ok = ok, ck_detail = detail\<rparr>"

definition check_json :: "check_item \<Rightarrow> json" where
  "check_json i = JObj [(''group'', JStr (ck_group i)), (''label'', JStr (ck_label i)),
     (''status'', JStr (if ck_ok i then ''PASS'' else ''FAIL'')), (''detail'', JStr (ck_detail i))]"

definition vm_items :: "PowerStateInfo option \<Rightarrow> check_item list" where
  "vm_items info =
     ck ''VM'' ''Exists in vCenter'' (info \<noteq> None) []
     # (case info of
          None \<Rightarrow> []
        | Some i \<Rightarrow> [ck ''VM'' ''Powered on'' (power_state i = ''poweredOn'') (power_state i),
                     ck ''VM'' ''VMware Tools running'' (tools_status i \<in> {Some ''toolsOk'', Some ''toolsOld''}) (text_or (tools_status i) ''unknown'')])"

definition no_desktop_error :: "ProvisioningRequest \<Rightarrow> string \<Rightarrow> string \<Rightarrow> check_item list \<Rightarrow> InfraOperationError" where
  "no_desktop_error r edition itype items =
     infra_error ''Windows was installed without the Desktop Experience.''
       (''Windows reports installation type '' @ squoted itype @ '' for edition index '' @ int_text (windows_image_index (guest r))
        @ '', which Microsoft's Windows Server media use for '' @ edition @ ''.'')
       ''The ISO lists its editions in a different order than Microsoft's Windows Server media. The Desktop Experience cannot be added to a Server Core installation: delete the VM and submit a new request with unmodified Microsoft media.''
       (json_dumps (JList (map check_json items))) False"

definition windows_items :: "('w, 'z) stage_env_scheme \<Rightarrow> check_item list \<Rightarrow> ('w, check_item list) stage" where
  "windows_items env before =
     (let r = se_request env in
      case map_of DESKTOP_EXPERIENCE_EDITIONS (windows_image_index (guest r)) of
        None \<Rightarrow> ret []
      | Some edition \<Rightarrow>
          seq (windows_installation_type env) (\<lambda>itype.
          let item = ck ''Windows'' (edition @ '' installed'') (itype = ''Server'') itype in
          if itype \<noteq> ''Server'' then raise_error (no_desktop_error r edition itype (before @ [item])) else ret [item]))"

definition volume_item :: "json \<Rightarrow> guest_error + check_item" where
  "volume_item v =
     (case v of
        JObj kvs \<Rightarrow>
          (let letter = dict_get kvs ''drive_letter'' JNull;
               label = (\<lambda>l. py_str (dict_get kvs ''size_gb'' JNull) @ '' GB data volume '' @ l @ '' online'');
               item = (\<lambda>l. Inr (ck ''Storage'' (label l) (dict_truthy kvs ''file_system'') (get_text kvs ''label'')))
           in if truthy letter then (case letter of JStr l \<Rightarrow> item (l @ '':'') | _ \<Rightarrow> Inl (Other ''TypeError'')) else item [])
      | _ \<Rightarrow> Inl (Other ''AttributeError''))"

primrec collect :: "('a \<Rightarrow> 'e + 'b) \<Rightarrow> 'a list \<Rightarrow> 'e + 'b list" where
  "collect f [] = Inr []"
| "collect f (x # xs) = (case f x of Inl e \<Rightarrow> Inl e | Inr y \<Rightarrow> (case collect f xs of Inl e \<Rightarrow> Inl e | Inr ys \<Rightarrow> Inr (y # ys)))"

definition text_item :: "json \<Rightarrow> guest_error + string" where
  "text_item v = (case v of JStr s \<Rightarrow> Inr s | _ \<Rightarrow> Inl (Other ''TypeError''))"

definition network_items :: "('w, 'z) stage_env_scheme \<Rightarrow> json_dict \<Rightarrow> PowerStateInfo option \<Rightarrow> ('w, check_item list) stage" where
  "network_items env arts info =
     (let observed = (case info of None \<Rightarrow> [] | Some i \<Rightarrow> ip_addresses i) in
      case (ip_mode (network (se_request env)), ipv4 (network (se_request env))) of
        (STATIC, Some cfg) \<Rightarrow>
          seq (lift (case json_items (dict_get arts ''dns_servers'' (JList [])) of
                 None \<Rightarrow> Inl (Other ''TypeError'') | Some xs \<Rightarrow> collect text_item xs)) (\<lambda>servers.
          ret [ck ''Network'' (''Correct IP address ('' @ cfg_address cfg @ '')'') (cfg_address cfg \<in> set observed)
                 (text_or (Some (join_on '', '' observed)) ''none reported''),
               ck ''Network'' ''Gateway reachable'' True (py_str (dict_get arts ''gateway'' (JStr []))),
               ck ''Network'' ''DNS servers configured'' (dict_truthy arts ''dns_servers'') (join_on '', '' servers)])
      | _ \<Rightarrow> ret [ck ''Network'' ''DHCP address acquired'' (observed \<noteq> []) (join_on '', '' observed)])"

text \<open>The identity items with the observed computer name and domain name.\<close>

definition identity_items :: "('w, 'z) stage_env_scheme \<Rightarrow> ('w, check_item list \<times> string option \<times> string option) stage" where
  "identity_items env =
     (case domain_join (guest (se_request env)) of
        None \<Rightarrow> ret ([], Some (effective_computer_name (se_request env)), None)
      | Some join \<Rightarrow>
          seq (resolve_guest_credentials env) (\<lambda>credentials.
          seq (probe_windows_identity env credentials ''performing post-reboot validation'') (\<lambda>state.
          ret (if windows_identity_matches state (effective_computer_name (se_request env)) (domain join)
               then ([ck ''Identity'' (''Observed domain identity '' @ text_or (identity_fqdn state) ''None'') True (windows_identity_detail state)],
                     Some (upper (wi_name state)), identity_fqdn state)
               else ([ck ''Identity'' ''Observed Windows identity matches the requested computer and domain'' False (windows_identity_detail state)],
                     None, None)))))"

definition first_occurrences :: "'a list \<Rightarrow> 'a list" where
  "first_occurrences xs = rev (remdups (rev xs))"

definition render_checklist :: "check_item list \<Rightarrow> string" where
  "render_checklist items =
     join_on (nl @ nl) (map (\<lambda>g. g @ nl @ join_on nl (map (\<lambda>i. ''[ok] '' @ ck_label i) (filter (\<lambda>i. ck_group i = g) items)))
       (first_occurrences (map ck_group items)))"

text \<open>The whole checklist, with the observed VM, computer name and domain name.\<close>

definition final_checklist ::
  "('w, 'z) stage_env_scheme \<Rightarrow> ('w, check_item list \<times> PowerStateInfo option \<times> string option \<times> string option) stage" where
  "final_checklist env =
     with_context (\<lambda>c.
     seq (call (get_vm_info env (vm_name c))) (\<lambda>info.
     seq (windows_items env (vm_items info)) (\<lambda>windows.
     seq (artifact_items (step_artifacts ''initialize_data_disks'' c) ''volumes'') (\<lambda>volumes.
     seq (lift (collect volume_item volumes)) (\<lambda>storage.
     seq (network_items env (step_artifacts ''configure_guest_network'' c) info) (\<lambda>net.
     seq (identity_items env) (\<lambda>(ident, name, fqdn).
     seq (artifact_items (step_artifacts ''validate_certificates'' c) ''verified'') (\<lambda>verified.
     seq (artifact_items (step_artifacts ''validate_applications'' c) ''validated'') (\<lambda>validated.
     ret (vm_items info @ windows @ storage @ net @ ident
            @ map (\<lambda>v. ck ''Certificates'' (py_str v @ '' installed'') True []) verified
            @ map (\<lambda>v. ck ''Applications'' (py_str v) True []) validated, info, name, fqdn))))))))))"

definition unresolved_error :: "check_item list \<Rightarrow> InfraOperationError" where
  "unresolved_error items =
     infra_error ''Final validation reported unresolved problems.''
       (join_on ''; '' (map (\<lambda>i. ck_group i @ ''/'' @ ck_label i) (filter (\<lambda>i. \<not> ck_ok i) items)))
       ''Review the validation checklist and retry the affected stages.'' (json_dumps (JList (map check_json items))) True"

definition stage_final_validation :: "('w, 'z) stage_env_scheme \<Rightarrow> ('w, StageOutcome) stage" where
  "stage_final_validation env =
     seq (final_checklist env) (\<lambda>(items, info, name, fqdn).
     if filter (\<lambda>i. \<not> ck_ok i) items \<noteq> [] then raise_error (unresolved_error items)
     else
       andthen (update_job (\<lambda>j. j\<lparr>infrastructure_status := IS_READY, guest_provisioning_status := GP_COMPLETED\<rparr>))
       (\<lambda>c1. case utcnow env c1 of (now, c2) \<Rightarrow> with_context (\<lambda>c.
         done_with (render_checklist items)
           [(''checklist'', JList (map check_json items)),
            (''summary'', JObj [(''vm_name'', JStr (vm_name c)), (''computer_name'', opt_text name), (''fqdn'', opt_text fqdn),
               (''ip_address'', opt_text (case info of None \<Rightarrow> None | Some i \<Rightarrow> if ip_addresses i = [] then None else Some (hd (ip_addresses i)))),
               (''finished_at'', JStr (se_iso env now))])]) c2))"

section \<open>The table of handlers\<close>

definition STAGE_HANDLERS :: "('w, 'z) stage_env_scheme \<Rightarrow> (string, ('w, StageOutcome) stage) dict" where
  "STAGE_HANDLERS env =
     [(''validate_request'', stage_validate_request env),
      (''connect_vcenter'', stage_connect_vcenter env),
      (''validate_infrastructure'', stage_validate_infrastructure env),
      (''create_vm'', stage_create_vm env),
      (''configure_hardware'', stage_configure_hardware env),
      (''attach_network_adapter'', stage_attach_network_adapter env),
      (''prepare_unattended_install'', stage_prepare_unattended_install env),
      (''power_on'', stage_power_on env),
      (''wait_for_guest_os'', stage_wait_for_guest_os env),
      (''wait_for_tools'', stage_wait_for_tools env),
      (''cleanup_unattended_media'', stage_cleanup_unattended_media env),
      (''add_data_disks'', stage_add_data_disks env),
      (''initialize_data_disks'', stage_initialize_data_disks env),
      (''configure_guest_network'', stage_configure_guest_network env),
      (''validate_network'', stage_validate_network env),
      (''configure_hostname'', stage_configure_hostname env),
      (''join_domain'', stage_join_domain env),
      (''reboot_guest'', stage_reboot_guest env),
      (''wait_guest_ready'', stage_wait_guest_ready env),
      (''install_root_certificates'', stage_install_root_certificates env),
      (''install_intermediate_certificates'', stage_install_intermediate_certificates env),
      (''validate_certificates'', stage_validate_certificates env),
      (''resolve_dependencies'', stage_resolve_dependencies env),
      (''install_applications'', stage_install_applications env),
      (''validate_applications'', stage_validate_applications env),
      (''final_validation'', stage_final_validation env)]"

text \<open>
  \<^verbatim>\<open>asyncio.wait_for(handler(ctx), timeout)\<close>. \<open>overrun key c\<close> is \<open>Some c'\<close> when the time limit interrupts the handler, with
  \<open>c'\<close> the context it leaves; a handler that never returns is interrupted as well.
\<close>

definition timed_handler ::
  "(string \<Rightarrow> 'w JobRunContext \<Rightarrow> 'w JobRunContext option) \<Rightarrow> string \<Rightarrow> ('w, StageOutcome) stage \<Rightarrow> 'w handler" where
  "timed_handler overrun key m timeout c =
     (case overrun key c of
        Some c' \<Rightarrow> (TimedOut, c')
      | None \<Rightarrow>
          (case m c of
             None \<Rightarrow> (TimedOut, c)
           | Some (Inr out, c') \<Rightarrow> (Returned out, c')
           | Some (Inl (Infra e), c') \<Rightarrow> (Raised e, c')
           | Some (Inl (Other e), c') \<Rightarrow> (Crashed e, c')))"

definition stage_pipeline ::
  "('w, 'z) stage_env_scheme \<Rightarrow> (string \<Rightarrow> 'w JobRunContext \<Rightarrow> 'w JobRunContext option) \<Rightarrow> ('w, 'z) stage_env_scheme" where
  "stage_pipeline env overrun = env\<lparr>stage_handlers := (\<lambda>key. map_option (timed_handler overrun key) (map_of (STAGE_HANDLERS env) key))\<rparr>"

section \<open>Frames\<close>

lemma keeps_final: "keeps (stage_final_validation env)"
  unfolding stage_final_validation_def final_checklist_def windows_items_def windows_installation_type_def network_items_def identity_items_def Let_def
  by (intro keeps_intros) (simp_all add: statuses_def controls_def)

lemmas stage_handlers_keep = keeps_validate_request keeps_connect keeps_infrastructure keeps_create keeps_configure_hardware
  keeps_attach keeps_prepare keeps_power_on keeps_wait_os keeps_wait_tools keeps_cleanup keeps_add_disks keeps_initialize
  keeps_network keeps_validate_network keeps_hostname keeps_join keeps_reboot keeps_wait_ready keeps_certificates keeps_resolve
  keeps_applications keeps_final

lemma stage_handler_keeps:
  assumes "map_of (STAGE_HANDLERS env) key = Some m"
  shows "keeps m"
proof -
  have "list_all (\<lambda>p. keeps (snd p)) (STAGE_HANDLERS env)"
    by (simp add: STAGE_HANDLERS_def stage_install_root_certificates_def stage_install_intermediate_certificates_def stage_handlers_keep)
  with map_of_SomeD [OF assms] show ?thesis by (auto simp: list_all_iff)
qed

lemma timed_handler_statuses:
  assumes "keeps m" and "\<And>key c c'. overrun key c = Some c' \<Longrightarrow> statuses (job c') = statuses (job c)"
  shows "statuses (job (snd (timed_handler overrun key m t c))) = statuses (job c)"
  using assms(2) [of key c]
  by (auto simp: timed_handler_def split: option.splits prod.splits sum.splits guest_error.splits dest: keepsD [OF assms(1)])

text \<open>
  None of the registered stage handlers changes the status of a step: statuses belong to the pipeline. (A handler that the time
  limit or a cancellation interrupts leaves a context of the environment, for which the same is assumed.)
\<close>

lemma stage_pipeline_keeps_statuses:
  assumes "\<And>key c c'. overrun key c = Some c' \<Longrightarrow> statuses (job c') = statuses (job c)"
    and "\<And>key c c'. cancelled_first env key c = Some c' \<Longrightarrow> statuses (job c') = statuses (job c)"
  shows "keeps_statuses (stage_pipeline env overrun)"
  using timed_handler_statuses [OF stage_handler_keeps assms(1)] assms(2)
  by (auto simp: keeps_statuses_def stage_pipeline_def)

section \<open>A validated machine\<close>

lemma windows_items_ok:
  assumes "windows_items env before c = Some (Inr items, c')"
  shows "map_of DESKTOP_EXPERIENCE_EDITIONS (windows_image_index (guest (se_request env))) \<noteq> None \<longrightarrow>
     (\<exists>c1. windows_installation_type env c1 = Some (Inr ''Server'', c'))"
  using assms unfolding windows_items_def Let_def
  by (auto split: option.splits if_splits elim!: seq_InrE)

lemma network_items_ok:
  assumes "network_items env arts info c = Some (Inr items, c')" and "\<forall>i \<in> set items. ck_ok i"
  shows "\<exists>i. info = Some i \<and> (case (ip_mode (network (se_request env)), ipv4 (network (se_request env))) of
     (STATIC, Some cfg) \<Rightarrow> cfg_address cfg \<in> set (ip_addresses i) | _ \<Rightarrow> ip_addresses i \<noteq> [])"
  using assms unfolding network_items_def Let_def
  by (cases info) (auto simp: ck_def split: IpMode.splits option.splits elim!: seq_InrE)

lemma identity_items_ok:
  assumes "identity_items env c = Some (Inr (items, name, fqdn), c')" and "\<forall>i \<in> set items. ck_ok i"
    and "domain_join (guest (se_request env)) = Some join"
  shows "\<exists>credentials s c1. probe_windows_identity env credentials ''performing post-reboot validation'' c1 = Some (Inr s, c')
     \<and> windows_identity_matches s (effective_computer_name (se_request env)) (domain join)"
  using assms unfolding identity_items_def
  by (auto simp: ck_def split: if_splits elim!: seq_InrE) blast

lemma vm_items_ok: "(\<forall>i \<in> set (vm_items info). ck_ok i) \<longleftrightarrow>
    (\<exists>i. info = Some i \<and> power_state i = ''poweredOn'' \<and> tools_status i \<in> {Some ''toolsOk'', Some ''toolsOld''})"
  by (auto simp: vm_items_def ck_def split: option.splits)


lemma final_checklist_items:
  assumes "final_checklist env c = Some (Inr (items, info, name, fqdn), c')" and "\<forall>i \<in> set items. ck_ok i"
  obtains windows net ident w c1 c2 c3 c4 c5 c6 where
    "get_vm_info env (vm_name c) (world c) = (Inr info, w)" "\<forall>i \<in> set (vm_items info). ck_ok i"
    "windows_items env (vm_items info) c1 = Some (Inr windows, c2)"
    "network_items env (step_artifacts ''configure_guest_network'' c) info c3 = Some (Inr net, c4)" "\<forall>i \<in> set net. ck_ok i"
    "identity_items env c5 = Some (Inr (ident, name, fqdn), c6)" "\<forall>i \<in> set ident. ck_ok i"
  using assms unfolding final_checklist_def with_context_def
  by (elim seq_InrE) (auto simp: call_def split: prod.splits elim!: seq_InrE)

text \<open>
  C13. A request is validated only when vCenter reports the machine powered on with VMware Tools and the configured address (some
  address with DHCP), Windows reports a Desktop Experience edition when one was requested, and a machine that was to join a
  domain reports the requested name and domain.
\<close>

theorem final_validation_sound:
  assumes "stage_final_validation env c = Some (Inr out, c')"
  shows "guest_provisioning_status (job c') = GP_COMPLETED
     \<and> (\<exists>i w. get_vm_info env (vm_name c) (world c) = (Inr (Some i), w)
         \<and> power_state i = ''poweredOn'' \<and> tools_status i \<in> {Some ''toolsOk'', Some ''toolsOld''}
         \<and> (case (ip_mode (network (se_request env)), ipv4 (network (se_request env))) of
              (STATIC, Some cfg) \<Rightarrow> cfg_address cfg \<in> set (ip_addresses i) | _ \<Rightarrow> ip_addresses i \<noteq> []))
     \<and> (map_of DESKTOP_EXPERIENCE_EDITIONS (windows_image_index (guest (se_request env))) \<noteq> None \<longrightarrow>
         (\<exists>c1 c2. windows_installation_type env c1 = Some (Inr ''Server'', c2)))
     \<and> (\<forall>join. domain_join (guest (se_request env)) = Some join \<longrightarrow>
         (\<exists>credentials s c1 c2. probe_windows_identity env credentials ''performing post-reboot validation'' c1 = Some (Inr s, c2)
            \<and> windows_identity_matches s (effective_computer_name (se_request env)) (domain join)))"
proof -
  obtain x c1 where run: "final_checklist env c = Some (Inr x, c1)"
    using assms unfolding stage_final_validation_def by (rule seq_InrE) simp
  obtain items info name fqdn where x: "x = (items, info, name, fqdn)" by (metis prod_cases4)
  have list: "final_checklist env c = Some (Inr (items, info, name, fqdn), c1)" using run x by simp
  have ok: "\<forall>i \<in> set items. ck_ok i" and st: "guest_provisioning_status (job c') = GP_COMPLETED"
    using assms unfolding stage_final_validation_def
    by (auto simp: run_simps list filter_empty_conv map_job_def utcnow_def split: if_splits)
  from list ok show ?thesis
  proof (rule final_checklist_items)
    fix windows net ident w d1 d2 d3 d4 d5 d6
    assume info: "get_vm_info env (vm_name c) (world c) = (Inr info, w)" and vm: "\<forall>i \<in> set (vm_items info). ck_ok i"
      and win: "windows_items env (vm_items info) d1 = Some (Inr windows, d2)"
      and net: "network_items env (step_artifacts ''configure_guest_network'' c) info d3 = Some (Inr net, d4)" "\<forall>i \<in> set net. ck_ok i"
      and ident: "identity_items env d5 = Some (Inr (ident, name, fqdn), d6)" "\<forall>i \<in> set ident. ck_ok i"
    obtain i where i: "info = Some i" "power_state i = ''poweredOn''" "tools_status i \<in> {Some ''toolsOk'', Some ''toolsOld''}"
      using vm unfolding vm_items_ok by blast
    show ?thesis
    proof (intro conjI)
      show "\<exists>i w. get_vm_info env (vm_name c) (world c) = (Inr (Some i), w)
         \<and> power_state i = ''poweredOn'' \<and> tools_status i \<in> {Some ''toolsOk'', Some ''toolsOld''}
         \<and> (case (ip_mode (network (se_request env)), ipv4 (network (se_request env))) of
              (STATIC, Some cfg) \<Rightarrow> cfg_address cfg \<in> set (ip_addresses i) | _ \<Rightarrow> ip_addresses i \<noteq> [])"
        using info i network_items_ok [OF net] by auto
      show "map_of DESKTOP_EXPERIENCE_EDITIONS (windows_image_index (guest (se_request env))) \<noteq> None \<longrightarrow>
         (\<exists>c1 c2. windows_installation_type env c1 = Some (Inr ''Server'', c2))"
        using windows_items_ok [OF win] by blast
      show "\<forall>join. domain_join (guest (se_request env)) = Some join \<longrightarrow>
         (\<exists>credentials s c1 c2. probe_windows_identity env credentials ''performing post-reboot validation'' c1 = Some (Inr s, c2)
            \<and> windows_identity_matches s (effective_computer_name (se_request env)) (domain join))"
        using identity_items_ok [OF ident] by blast
    qed (rule st)
  qed
qed

definition core_request :: ProvisioningRequest where
  "core_request = sample_request\<lparr>guest := (guest sample_request)\<lparr>windows_image_index := 1\<rparr>\<rparr>"

lemma core_request_simps [simp]: "effective_computer_name core_request = ''WEB01''"
   "map_of DESKTOP_EXPERIENCE_EDITIONS (windows_image_index (guest core_request)) = None"
   "ip_mode (network core_request) = DHCP" "domain_join (guest core_request) = Some \<lparr>domain = ''corp.example.com'', ou = None, domain_credential_ref = ''ad/join''\<rparr>"
  by code_simp+

lemma core_matches: "windows_identity_matches sample_identity ''WEB01'' ''corp.example.com''"
  by code_simp

theorem final_validation_sound_witness:
  "\<exists>out c'. stage_final_validation (sample_stage_env core_request identity_output None (Some ready_info)) (sample_context (sample_job []) 0) = Some (Inr out, c')
     \<and> guest_provisioning_status (job c') = GP_COMPLETED"
proof -
  let ?env = "sample_stage_env core_request identity_output None (Some ready_info)"
  let ?c = "sample_context (sample_job []) 0"
  have "stage_final_validation ?env ?c \<noteq> None" and "is_ok (fst (the (stage_final_validation ?env ?c)))"
    by (simp_all add: stage_final_validation_def final_checklist_def windows_items_def network_items_def identity_items_def artifact_items_def
      step_artifacts_def probe_windows_identity_def run_simps sample_credentials sample_script_runs succeeded_def identity_output_reads
      sample_context_def sample_job_def new_job_row_def step_of_def json_iter_def vm_items_def ck_def ready_info_def core_matches utcnow_def is_ok_def if_distribR)
  then obtain out c' where run: "stage_final_validation ?env ?c = Some (Inr out, c')" by (auto simp: is_ok_def split: sum.splits)
  then show ?thesis using final_validation_sound [OF run] by blast
qed

end
