(* ===== verification/Worker_Engine.thy ===== *)
theory Worker_Engine
  imports Stage_Handlers Infrastructure
begin

text \<open>
  The worker of \<^verbatim>\<open>workers/engine.py\<close>: slots, claiming, the construction of a run context
  (\<^verbatim>\<open>workers/context.py\<close>), the failure before the pipeline starts, interruption, the reaper, and the
  metrics endpoint. \<open>System\<close> is what one transaction of the worker writes. The last part composes the
  workers and the API into a transition relation on the job table and proves its invariant.
\<close>

section \<open>Configuration and slots\<close>

record EngineSettings =
  worker_concurrency :: int
  worker_poll_interval_seconds :: rat
  worker_heartbeat_interval_seconds :: rat
  worker_heartbeat_timeout_seconds :: rat
  worker_reaper_interval_seconds :: rat
  worker_shutdown_grace_seconds :: rat

record JobEngine =
  concurrency :: int
  poll_interval :: rat
  heartbeat_interval :: rat
  heartbeat_timeout :: rat
  reaper_interval :: rat
  shutdown_grace :: rat
  engine_id :: string
  tasks :: "uuid list"
  stopping :: bool
  last_tick :: rat
  next_reap :: rat

definition init_engine :: "EngineSettings \<Rightarrow> string \<Rightarrow> rat \<Rightarrow> JobEngine" where
  "init_engine st wid now =
     (let hb = max 1 (worker_heartbeat_interval_seconds st) in
      \<lparr>concurrency = max 1 (worker_concurrency st), poll_interval = worker_poll_interval_seconds st,
       heartbeat_interval = hb, heartbeat_timeout = max (double (hb * 3)) (worker_heartbeat_timeout_seconds st),
       reaper_interval = max 5 (worker_reaper_interval_seconds st),
       shutdown_grace = max 0 (worker_shutdown_grace_seconds st),
       engine_id = wid, tasks = [], stopping = False, last_tick = now, next_reap = 0\<rparr>)"

definition free_slots :: "JobEngine \<Rightarrow> int" where
  "free_slots e = max 0 (concurrency e - int (length (tasks e)))"

definition engine_claim :: "JobEngine \<Rightarrow> timestamp \<Rightarrow> uuid set \<Rightarrow> job_table \<Rightarrow> uuid list \<times> job_table" where
  "engine_claim e now locked tbl =
     (let slots = free_slots e in
      if slots \<le> 0 then ([], tbl)
      else case claim_due_jobs slots (engine_id e) now locked tbl of (js, tbl') \<Rightarrow> (map job_id js, tbl'))"

definition set_in_flight :: "JobEngine \<Rightarrow> Registry \<Rightarrow> Registry" where
  "set_in_flight e r = r\<lparr>worker_jobs_in_flight := gauge_set (of_nat (length (tasks e))) [] (worker_jobs_in_flight r)\<rparr>"

definition spawn :: "uuid \<Rightarrow> JobEngine \<Rightarrow> JobEngine" where
  "spawn jid e = e\<lparr>tasks := (if jid \<in> set (tasks e) then tasks e else tasks e @ [jid])\<rparr>"

definition task_done :: "uuid \<Rightarrow> JobEngine \<Rightarrow> JobEngine" where
  "task_done jid e = e\<lparr>tasks := filter (\<lambda>x. x \<noteq> jid) (tasks e)\<rparr>"

definition stop :: "JobEngine \<Rightarrow> JobEngine" where
  "stop e = e\<lparr>stopping := True\<rparr>"

text \<open>
  One round of \<^verbatim>\<open>run_forever\<close>: whether the reaper runs, then a claim and the tasks it starts. A database
  error (\<open>Inl\<close>) claims nothing.
\<close>

definition reap_due :: "rat \<Rightarrow> JobEngine \<Rightarrow> bool \<times> JobEngine" where
  "reap_due now e =
     (let e1 = e\<lparr>last_tick := now\<rparr> in
      if next_reap e1 \<le> now then (True, e1\<lparr>next_reap := double (now + reaper_interval e1)\<rparr>) else (False, e1))"

definition start_claimed :: "unit + uuid list \<Rightarrow> JobEngine \<Rightarrow> JobEngine" where
  "start_claimed claimed e = (case claimed of Inl _ \<Rightarrow> e | Inr ids \<Rightarrow> fold spawn ids e)"

text \<open>
  \<^verbatim>\<open>asyncio.wait(tasks, timeout=self._shutdown_grace or None)\<close>: the time waited for running jobs before
  they are interrupted, \<^term>\<open>None\<close> for no limit.
\<close>

definition drain_timeout :: "JobEngine \<Rightarrow> rat option" where
  "drain_timeout e = (if shutdown_grace e = 0 then None else Some (shutdown_grace e))"

definition healthy :: "rat \<Rightarrow> JobEngine \<Rightarrow> bool" where
  "healthy now e = (now - last_tick e < max 60 (poll_interval e * 10))"

section \<open>Building a run context\<close>

record run_params =
  rp_vm_name :: string
  rp_datacenter_id :: string
  rp_actor :: "string option"

text \<open>An exception is its class name and its message.\<close>

definition load_request_payload ::
  "(json_dict \<Rightarrow> ProvisioningRequest option) \<Rightarrow> ProvisioningJob \<Rightarrow> (string \<times> string) + ProvisioningRequest" where
  "load_request_payload model_validate j =
     (case request_payload j of
        None \<Rightarrow> Inl (''RuntimeError'', ''Job '' @ job_id j @ '' has no stored provisioning request.'')
      | Some p \<Rightarrow>
          (case parse_stored_request model_validate (Some p) of
             None \<Rightarrow> Inl (''RuntimeError'',
                 ''This job was created by a provisioning workflow that no longer exists; submit a new request.'')
           | Some r \<Rightarrow> Inr r))"

definition build_vcenter_target :: "VCenterConnection list \<Rightarrow> uuid \<Rightarrow> (string \<times> string) + VCenterConnection" where
  "build_vcenter_target conns vid =
     (case find (\<lambda>c. vc_id c = vid) conns of
        None \<Rightarrow> Inl (''LookupError'', ''vCenter connection '' @ squoted vid @ '' is no longer registered.'')
      | Some c \<Rightarrow> if \<not> vc_enabled c then Inl (''LookupError'', ''vCenter connection '' @ squoted (vc_name c) @ '' is disabled.'') else Inr c)"

record engine_env =
  model_validate :: "json_dict \<Rightarrow> ProvisioningRequest option"
  vcenters :: "VCenterConnection list"
  usernames :: "uuid \<Rightarrow> string option"

definition build_context :: "engine_env \<Rightarrow> ProvisioningJob \<Rightarrow> (string \<times> string) + run_params" where
  "build_context en j =
     (case load_request_payload (model_validate en) j of
        Inl e \<Rightarrow> Inl e
      | Inr r \<Rightarrow>
          (case build_vcenter_target (vcenters en) (vcenter_id (compute r)) of
             Inl e \<Rightarrow> Inl e
           | Inr _ \<Rightarrow> Inr \<lparr>rp_vm_name = vms_name (vm r), rp_datacenter_id = comp_datacenter_id (compute r),
                rp_actor = (case requested_by_user_id j of None \<Rightarrow> None | Some uid \<Rightarrow> usernames en uid)\<rparr>))"

record 'w System =
  sys_audit :: "AuditEvent list"
  sys_notifications :: "Notification list"
  sys_metrics :: Registry
  sys_events :: "(string \<times> JobEvent) list"
  sys_ticks :: nat
  sys_world :: 'w

definition context_of :: "run_params \<Rightarrow> ProvisioningJob \<Rightarrow> 'w System \<Rightarrow> 'w JobRunContext" where
  "context_of rp j s =
     \<lparr>job = j, vm_name = rp_vm_name rp, datacenter_id = rp_datacenter_id rp, actor_username = rp_actor rp, vm_ref = None,
      reboot_required = False, hostname_changed = False, audit_rows = sys_audit s, notification_rows = sys_notifications s,
      metrics = sys_metrics s, published = sys_events s, ticks = sys_ticks s, world = sys_world s\<rparr>"

definition system_of :: "'w JobRunContext \<Rightarrow> 'w System" where
  "system_of c = \<lparr>sys_audit = audit_rows c, sys_notifications = notification_rows c, sys_metrics = metrics c,
     sys_events = published c, sys_ticks = ticks c, sys_world = world c\<rparr>"

section \<open>Running one job\<close>

definition fail_row :: "timestamp \<Rightarrow> string \<Rightarrow> string \<Rightarrow> ProvisioningJob \<Rightarrow> ProvisioningJob" where
  "fail_row now human etype j =
     cancel_open_steps (set_duration now
       (j\<lparr>job_status := J_FAILED, error_summary := Some (take 500 human),
          error_detail := Some (take 4000 (human @ nl @ nl @ etype @ '': '' @ human)),
          finished_at := Some now, worker_id := None\<rparr>))"

definition payload_datacenter :: "ProvisioningJob \<Rightarrow> string option" where
  "payload_datacenter j =
     (case request_payload j of
        Some (JObj p) \<Rightarrow>
          (case map_of p ''compute'' of
             Some (JObj c) \<Rightarrow> (case map_of c ''datacenter_id'' of Some (JStr d) \<Rightarrow> Some d | _ \<Rightarrow> None)
           | _ \<Rightarrow> None)
      | _ \<Rightarrow> None)"

definition fail_before_pipeline ::
  "engine_env \<Rightarrow> timestamp \<Rightarrow> string \<Rightarrow> string \<Rightarrow> ProvisioningJob \<Rightarrow> 'w System \<Rightarrow> ProvisioningJob \<times> 'w System" where
  "fail_before_pipeline en now human etype j s =
     (let j' = fail_row now human etype j;
          s1 = s\<lparr>sys_metrics := (sys_metrics s)\<lparr>jobs_total := inc 1 [(''status'', ''FAILED'')] (jobs_total (sys_metrics s))\<rparr>,
                 sys_notifications := notify_requester j' JOB_FAILED (failed_message j' ''Start provisioning'' human) (sys_notifications s),
                 sys_audit := record_audit (sys_audit s) ''JOB_FAILED''
                   (audit_defaults\<lparr>au_resource_type := Some ''virtual_machine'', au_resource_name := Some (job_vm_name j'),
                      au_job_id := Some (job_id j'),
                      au_username := (case requested_by_user_id j' of None \<Rightarrow> None | Some uid \<Rightarrow> usernames en uid),
                      au_datacenter_id := payload_datacenter j', au_datacenter_name := job_datacenter_name j',
                      au_result := Some ''failure'', au_detail_text := Some human\<rparr>),
                 sys_events := sys_events s @ [(job_channel (job_id j'), make_event (job_id j') None ''FAILED'' (progress j') human)]\<rparr>
      in (j', s1))"

text \<open>
  How the task of the pipeline ends: it returns, it raises (the last-resort guard then fails the job), it is cancelled
  because the heartbeat found the row in other hands, or it is cancelled by the shutdown of the worker (during a shutdown, the program
  treats both cancellations as the latter).
\<close>

datatype task_end = Returned_task | Crashed_task | Disowned_task | Shut_down_task

text \<open>
  \<^verbatim>\<open>_execute_job\<close>: nothing happens unless the worker still owns the running row. \<open>left\<close> is what the database
  holds when the task does not return: the row as earlier commits of the run and of others left it, which the guard reads
  again after the rollback. A completion that cannot read the artifacts of the final step raises, too.
\<close>

definition execute_job ::
  "engine_env \<Rightarrow> ('w, 'z) pipeline_env_scheme \<Rightarrow> timestamp \<Rightarrow> string \<Rightarrow> task_end \<Rightarrow> timestamp \<Rightarrow> ProvisioningJob \<times> 'w System
     \<Rightarrow> ProvisioningJob \<Rightarrow> 'w System \<Rightarrow> ProvisioningJob \<times> 'w System" where
  "execute_job en env now wid how later left j s =
     (if job_status j \<noteq> J_RUNNING \<or> worker_id j \<noteq> Some wid then (j, s)
      else let j1 = ensure_steps stage_definitions j in
        case build_context en j1 of
          Inl (etype, human) \<Rightarrow> fail_before_pipeline en now human etype j1 s
        | Inr rp \<Rightarrow>
            (let c0 = context_of rp j1 s;
                 c1 = c0\<lparr>metrics := (metrics c0)\<lparr>jobs_total := inc 1 [(''status'', ''STARTED'')] (jobs_total (metrics c0))\<rparr>\<rparr>;
                 c2 = audit ''JOB_STARTED'' (job_audit_args c1 ''virtual_machine'' (vm_name c1) ''running'') c1;
                 c3 = execute env c2;
                 crashed = fail_before_pipeline en later ''Pipeline crashed unexpectedly'' ''RuntimeError'' (fst left) (snd left)
             in case how of
                  Returned_task \<Rightarrow>
                    if job_status (job c3) = J_COMPLETED \<and> final_artifacts_error (job c3) \<noteq> None then crashed
                    else (job c3, system_of c3)
                | Crashed_task \<Rightarrow> crashed
                | _ \<Rightarrow> left))"

section \<open>Interruption and the reaper\<close>

definition interrupt_step :: "timestamp \<Rightarrow> string \<Rightarrow> ProvisioningJobStep \<Rightarrow> ProvisioningJobStep" where
  "interrupt_step now why s =
     (if step_status s = S_RUNNING
      then s\<lparr>step_status := S_FAILED, step_finished_at := Some now, step_retryable := True,
             error_human := Some (why @ nl @ nl @ ''Reason:'' @ nl @ ''The worker executing this stage stopped.'' @ nl @ nl
               @ ''Recommended action:'' @ nl @ ''Retry the job; completed stages are not repeated.'')\<rparr>
      else s)"

definition interrupt_row :: "timestamp \<Rightarrow> string \<Rightarrow> ProvisioningJob \<Rightarrow> ProvisioningJob" where
  "interrupt_row now why j =
     (let j1 = set_duration now
            (j\<lparr>steps := map (interrupt_step now why) (steps j), job_status := J_INTERRUPTED, error_summary := Some why,
               worker_id := None, heartbeat_at := None, finished_at := Some now\<rparr>)
      in j1\<lparr>progress := compute_progress j1\<rparr>)"

definition interrupt ::
  "engine_env \<Rightarrow> ('w, 'z) pipeline_env_scheme \<Rightarrow> timestamp \<Rightarrow> string \<Rightarrow> ProvisioningJob \<Rightarrow> 'w System
     \<Rightarrow> ProvisioningJob \<times> 'w System" where
  "interrupt en env now why j s =
     (let j' = interrupt_row now why j;
          s1 = s\<lparr>sys_metrics := (sys_metrics s)\<lparr>jobs_total := inc 1 [(''status'', ''INTERRUPTED'')] (jobs_total (sys_metrics s))\<rparr>,
                 sys_notifications := notify_requester j' JOB_FAILED (interrupted_message j' why) (sys_notifications s),
                 sys_audit := record_audit (sys_audit s) ''JOB_INTERRUPTED''
                   (audit_defaults\<lparr>au_resource_type := Some ''virtual_machine'', au_resource_name := Some (job_vm_name j'),
                      au_job_id := Some (job_id j'), au_datacenter_name := job_datacenter_name j',
                      au_result := Some ''interrupted'', au_detail_text := Some why\<rparr>),
                 sys_events := sys_events s @ [(job_channel (job_id j'),
                   make_event (job_id j') (current_stage j') ''INTERRUPTED'' (progress j') why)]\<rparr>
      in case build_context en j' of
           Inl _ \<Rightarrow> (j', s1)
         | Inr rp \<Rightarrow>
             (let c = snd (release_unattended_media env ''job interrupted'' (context_of rp j' s1)) in (job c, system_of c)))"

definition SHUTDOWN_REASON :: string where
  "SHUTDOWN_REASON = ''The worker shut down before the job finished.''"

definition LOST_WORKER_REASON :: string where
  "LOST_WORKER_REASON = ''The worker executing this job stopped responding.''"

definition mark_interrupted ::
  "engine_env \<Rightarrow> ('w, 'z) pipeline_env_scheme \<Rightarrow> timestamp \<Rightarrow> string \<Rightarrow> ProvisioningJob \<Rightarrow> 'w System
     \<Rightarrow> ProvisioningJob \<times> 'w System" where
  "mark_interrupted en env now wid j s =
     (if job_status j \<noteq> J_RUNNING \<or> worker_id j \<noteq> Some wid then (j, s) else interrupt en env now SHUTDOWN_REASON j s)"

text \<open>\<^verbatim>\<open>_process_job\<close>: a task that the shutdown cancelled parks its job.\<close>

definition process_job ::
  "engine_env \<Rightarrow> ('w, 'z) pipeline_env_scheme \<Rightarrow> timestamp \<Rightarrow> string \<Rightarrow> task_end \<Rightarrow> timestamp \<Rightarrow> ProvisioningJob \<times> 'w System
     \<Rightarrow> ProvisioningJob \<Rightarrow> 'w System \<Rightarrow> ProvisioningJob \<times> 'w System" where
  "process_job en env now wid how later left j s =
     (case execute_job en env now wid how later left j s of
        (j', s') \<Rightarrow> if how = Shut_down_task then mark_interrupted en env later wid j' s' else (j', s'))"

text \<open>Write a row back; the transaction holds its lock.\<close>

definition put_row :: "ProvisioningJob \<Rightarrow> job_table \<Rightarrow> job_table" where
  "put_row j tbl = map (\<lambda>r. if job_id r = job_id j then j else r) tbl"

text \<open>\<open>budget\<close> is \<^verbatim>\<open>max_jobs - reaped\<close>; the clock is read once per round.\<close>

fun reap_stale_jobs ::
  "engine_env \<Rightarrow> ('w, 'z) pipeline_env_scheme \<Rightarrow> int \<Rightarrow> (nat \<Rightarrow> timestamp) \<Rightarrow> uuid list \<Rightarrow> nat \<Rightarrow> job_table \<Rightarrow> 'w System
     \<Rightarrow> nat \<times> job_table \<times> 'w System" where
  "reap_stale_jobs en env timeout now own 0 tbl s = (0, tbl, s)"
| "reap_stale_jobs en env timeout now own (Suc budget) tbl s =
     (case claim_stale_running_jobs (now budget - timeout) 1 own {} tbl of
        [] \<Rightarrow> (0, tbl, s)
      | j # _ \<Rightarrow>
          (let (j', s') = interrupt en env (now budget) LOST_WORKER_REASON j s;
               (n, tbl', s'') = reap_stale_jobs en env timeout now own budget (put_row j' tbl) s'
           in (Suc n, tbl', s'')))"

section \<open>The metrics endpoint\<close>

definition metrics_response :: "string \<Rightarrow> rat \<Rightarrow> JobEngine \<Rightarrow> Registry \<Rightarrow> string \<times> string \<times> string" where
  "metrics_response request_line now e r =
     (let parts = words request_line; path = (if 1 < length parts then parts ! 1 else ''/'') in
      if startswith path ''/metrics'' then (''200 OK'', render_metrics r, ''text/plain; version=0.0.4'')
      else if startswith path ''/health''
      then (if healthy now e then (''200 OK'', ''ok'' @ nl, ''text/plain'')
            else (''503 Service Unavailable'', ''stalled'' @ nl, ''text/plain''))
      else (''404 Not Found'', ''not found'' @ nl, ''text/plain''))"

definition serve_metrics :: "string \<Rightarrow> rat \<Rightarrow> JobEngine \<Rightarrow> Registry \<Rightarrow> string" where
  "serve_metrics request_line now e r =
     (let (status, body, ctype) = metrics_response request_line now e r; crlf = [CHR 0x0D, CHR 0x0A]
      in ''HTTP/1.1 '' @ status @ crlf @ ''Content-Type: '' @ ctype @ crlf @ ''Content-Length: '' @ nat_text (length body) @ crlf
         @ ''Connection: close'' @ crlf @ crlf @ body)"

section \<open>What a run commits\<close>

text \<open>The columns that identify a job and its reservations, and those that say who works on it.\<close>

definition row_key :: "ProvisioningJob \<Rightarrow> uuid \<times> string \<times> string option \<times> string option" where
  "row_key j = (job_id j, job_vm_name j, reserved_ipv4 j, idempotency_key j)"

definition owner :: "ProvisioningJob \<Rightarrow> string option \<times> timestamp option \<times> timestamp option" where
  "owner j = (worker_id j, heartbeat_at j, started_at j)"

text \<open>
  A run never writes these columns; it leaves the status (and the finish time) alone, or it ends the job.
\<close>

definition run_write :: "ProvisioningJob \<Rightarrow> ProvisioningJob \<Rightarrow> bool" where
  "run_write old new \<longleftrightarrow> row_key new = row_key old \<and> owner new = owner old
     \<and> (progress new = progress old \<or> 0 \<le> progress new \<and> progress new \<le> 100)
     \<and> (job_status new = job_status old \<and> finished_at new = finished_at old
        \<or> job_status new \<in> TERMINAL_JOB_STATUSES \<and> finished_at new \<noteq> None)"

definition keeps_control :: "('w, 'z) pipeline_env_scheme \<Rightarrow> bool" where
  "keeps_control env \<longleftrightarrow>
     (\<forall>key h t c. stage_handlers env key = Some h \<longrightarrow> controls (job (snd (h t c))) = controls (job c))
     \<and> (\<forall>key c c'. cancelled_first env key c = Some c' \<longrightarrow> controls (job c') = controls (job c))"

lemma timed_handler_controls:
  assumes "keeps m" and "\<And>key c c'. overrun key c = Some c' \<Longrightarrow> controls (job c') = controls (job c)"
  shows "controls (job (snd (timed_handler overrun key m t c))) = controls (job c)"
  using assms(2) [of key c]
  by (auto simp: timed_handler_def split: option.splits prod.splits sum.splits guest_error.splits dest: keepsD [OF assms(1)])

text \<open>The handlers of the repository write none of those columns either.\<close>

lemma stage_pipeline_keeps_control:
  assumes "\<And>key c c'. overrun key c = Some c' \<Longrightarrow> controls (job c') = controls (job c)"
    and "\<And>key c c'. cancelled_first env key c = Some c' \<Longrightarrow> controls (job c') = controls (job c)"
  shows "keeps_control (stage_pipeline env overrun)"
  using timed_handler_controls [OF stage_handler_keeps assms(1)] assms(2)
  by (auto simp: keeps_control_def stage_pipeline_def)

lemma controls_run_write: "controls new = controls old \<Longrightarrow> run_write old new"
  by (simp add: controls_def run_write_def row_key_def owner_def)

lemma run_write_refl [simp]: "run_write j j"
  by (simp add: run_write_def)

lemma run_write_trans: "run_write a b \<Longrightarrow> run_write b c \<Longrightarrow> run_write a c"
  unfolding run_write_def by (elim conjE disjE) auto

lemma run_write_update_step [simp]: "run_write j (update_step k f j)"
  by (rule controls_run_write) simp

lemma controls_release [simp]: "controls (job (snd (release_unattended_media env why c))) = controls (job c)"
  using release_job [of env why c] by auto

lemma run_write_release: "run_write (job c) (job (snd (release_unattended_media env why c)))"
  by (rule controls_run_write) simp

text \<open>Writing any other column keeps both.\<close>

lemma frame_columns [simp]:
  "row_key (progress_update f j) = row_key j" "owner (progress_update f j) = owner j"
  "row_key (job_status_update g j) = row_key j" "owner (job_status_update g j) = owner j"
  "row_key (finished_at_update h j) = row_key j" "owner (finished_at_update h j) = owner j"
  "row_key (current_stage_update k j) = row_key j" "owner (current_stage_update k j) = owner j"
  "row_key (error_summary_update k j) = row_key j" "owner (error_summary_update k j) = owner j"
  "row_key (error_detail_update k j) = row_key j" "owner (error_detail_update k j) = owner j"
  "row_key (duration_seconds_update d j) = row_key j" "owner (duration_seconds_update d j) = owner j"
  "row_key (steps_update l j) = row_key j" "owner (steps_update l j) = owner j"
  "row_key (infrastructure_status_update m j) = row_key j" "owner (infrastructure_status_update m j) = owner j"
  "row_key (guest_os_status_update n j) = row_key j" "owner (guest_os_status_update n j) = owner j"
  "row_key (vmware_tools_status_update q j) = row_key j" "owner (vmware_tools_status_update q j) = owner j"
  "row_key (guest_provisioning_status_update r j) = row_key j" "owner (guest_provisioning_status_update r j) = owner j"
  by (simp_all add: row_key_def owner_def)

lemma frame_set_duration [simp]: "row_key (set_duration t j) = row_key j" "owner (set_duration t j) = owner j"
  by (simp_all add: set_duration_def split: option.split)

lemma frame_lifecycle [simp]:
  "row_key (lifecycle_after_failure k j) = row_key j" "owner (lifecycle_after_failure k j) = owner j"
  by (simp_all add: lifecycle_after_failure_def)

lemma run_write_ended:
  "row_key new = row_key old \<Longrightarrow> owner new = owner old \<Longrightarrow> 0 \<le> progress new \<Longrightarrow> progress new \<le> 100
     \<Longrightarrow> job_status new \<in> TERMINAL_JOB_STATUSES \<Longrightarrow> finished_at new \<noteq> None \<Longrightarrow> run_write old new"
  by (simp add: run_write_def)

lemma run_write_cancelled_row: "run_write j (cancelled_row t j)"
  using compute_progress_bounds
  by (intro run_write_ended) (simp_all add: cancelled_row_def Let_def stop_open_steps_def status_sets)

lemma run_write_completed_row: "run_write j (completed_row t j)"
  by (intro run_write_ended) (simp_all add: completed_row_def status_sets)

lemma run_write_failed_row: "run_write j (failed_row stg f t b j)"
  using compute_progress_bounds
  by (intro run_write_ended) (simp_all add: failed_row_def Let_def status_sets)

lemma run_write_screenshot: "run_write (job c) (job (attach_console_screenshot env k c))"
  by (simp add: attach_console_screenshot_def prod.case_eq_if split: sum.split option.split)

lemma run_write_cancel: "run_write (job c) (job (apply_cancellation env c))"
  using run_write_trans [OF run_write_release [where c = "c\<lparr>ticks := Suc (ticks c)\<rparr>" and env = env and why = "''job cancelled''"] run_write_cancelled_row]
  by (simp add: apply_cancellation_job)

lemma run_write_finish: "run_write (job c) (job (finalize_success env c))"
  by (simp add: finalize_success_job run_write_completed_row)

lemma run_write_failure: "run_write (job c) (job (handle_failure env stg f t c))"
proof -
  let ?c1 = "map_job (update_step (sd_key stg) (failed_step stg f t)) c"
  have "run_write (job c) (job ?c1)" by simp
  then have "run_write (job c) (job (attach_console_screenshot env (sd_key stg) ?c1))"
    using run_write_trans run_write_screenshot by blast
  then have "run_write (job c) (job (failure_context env stg f t c))"
    using \<open>run_write (job c) (job ?c1)\<close> run_write_trans [OF _ run_write_failed_row]
    by (simp add: failure_context_def Let_def)
  then show ?thesis unfolding handle_failure_job by (rule run_write_trans [OF _ run_write_release])
qed

lemma run_write_progress: "run_write j (j'\<lparr>progress := compute_progress j''\<rparr>) \<longleftrightarrow>
    row_key j' = row_key j \<and> owner j' = owner j
    \<and> (job_status j' = job_status j \<and> finished_at j' = finished_at j \<or> job_status j' \<in> TERMINAL_JOB_STATUSES \<and> finished_at j' \<noteq> None)"
  using compute_progress_bounds [of j''] by (simp add: run_write_def)

lemma run_write_start: "run_write (job c) (job (started_context env stg c))"
  by (simp add: started_context_def start_stage_def Let_def run_write_progress update_step_def)

lemma run_write_finish_stage: "run_write j (finish_stage out t k j)"
  by (simp add: finish_stage_def Let_def run_write_progress update_step_def)

lemma run_write_stage:
  assumes "keeps_control env"
  shows "run_write (job (started_context env stg c)) (job (run_stage env stg c))"
proof -
  define c1 where "c1 = started_context env stg c"
  define c2 where "c2 = snd (run_handler env (sd_key stg) (timeout_for env stg) c1)"
  define c3 where "c3 = c2\<lparr>ticks := Suc (ticks c2)\<rparr>"
  have h: "run_write (job c1) (job c3)"
    using assms by (auto simp: c3_def c2_def run_handler_def keeps_control_def prod.case_eq_if controls_run_write split: option.split)
  have "run_write (job c3) (job (apply_cancellation env (map_job (update_step k f) c3)))" for k f
  proof (rule run_write_trans)
    show "run_write (job c3) (job (map_job (update_step k f) c3))" by simp
  qed (rule run_write_cancel)
  moreover have "run_write (job c3) (job (handle_failure env stg f t c3))" for f t by (rule run_write_failure)
  moreover have "run_write (job c3) (job (publish st msg (map_job (finish_stage out t k) c3)))" for st msg out t k
    by (simp add: run_write_finish_stage)
  ultimately have "run_write (job c3) (job (run_stage env stg c))"
    unfolding run_stage_unfold Let_def c1_def [symmetric] c2_def [symmetric] c3_def [symmetric] by (simp split: sum.split)
  with h show ?thesis unfolding c1_def by (rule run_write_trans)
qed

text \<open>
  The commits of a run (\<^verbatim>\<open>workers/pipeline.py\<close>, and the live status of \<^verbatim>\<open>workers/stages.py\<close>), each from the context
  the run then holds. Before a stage the run refreshes the job from the database.
\<close>

inductive run_commit :: "('w, 'z) pipeline_env_scheme \<Rightarrow> 'w JobRunContext \<Rightarrow> 'w JobRunContext \<Rightarrow> bool"
  for env :: "('w, 'z) pipeline_env_scheme" where
  stage_begun: "run_commit env c (started_context env stg c)"
| live_status: "controls (job c') = controls (job c) \<Longrightarrow> run_commit env c c'"
| stage_ended: "run_commit env (started_context env stg c) (run_stage env stg c)"
| run_cancelled: "run_commit env c (apply_cancellation env c)"
| run_finished: "run_commit env c (finalize_success env c)"

inductive run_chain :: "('w, 'z) pipeline_env_scheme \<Rightarrow> 'w JobRunContext \<Rightarrow> 'w JobRunContext \<Rightarrow> bool"
  for env :: "('w, 'z) pipeline_env_scheme" where
  run_over: "run_chain env c c"
| run_refreshed: "run_chain env (map_job (\<lambda>j. j\<lparr>cancel_requested := b\<rparr>) c) c' \<Longrightarrow> run_chain env c c'"
| run_committed: "run_commit env c c1 \<Longrightarrow> run_chain env c1 c' \<Longrightarrow> run_chain env c c'"

lemma run_commit_write: "keeps_control env \<Longrightarrow> run_commit env c c' \<Longrightarrow> run_write (job c) (job c')"
  by (erule run_commit.cases)
    (auto intro: run_write_start controls_run_write run_write_stage run_write_cancel run_write_finish)

lemma run_chain_commit: "run_commit env c c' \<Longrightarrow> run_chain env c c'"
  by (rule run_committed [OF _ run_over])

lemma execute_stages_chain: "run_chain env c (execute_stages env stgs c)"
proof (induction stgs arbitrary: c)
  case Nil
  then show ?case by (simp add: run_chain_commit run_finished)
next
  case (Cons stg stgs)
  let ?c1 = "map_job (\<lambda>j. j\<lparr>cancel_requested := cancel_seen env (sd_key stg)\<rparr>) c"
  have "run_chain env (run_stage env stg ?c1) c' \<Longrightarrow> run_chain env ?c1 c'" for c'
    using run_committed [OF stage_begun [of env ?c1 stg] run_committed [OF stage_ended [of env stg ?c1]]] .
  then show ?case
    using Cons.IH run_chain_commit [OF run_cancelled [of env ?c1]] run_over [of env "run_stage env stg ?c1"]
    by (auto simp: Let_def intro: run_refreshed [of env "cancel_seen env (sd_key stg)"] split: option.split)
qed

text \<open>A run is a chain of such commits.\<close>

lemma execute_chain: "run_chain env c (execute env c)"
  unfolding execute_def by (rule execute_stages_chain)

section \<open>Well-formed rows\<close>

definition row_ok :: "ProvisioningJob \<Rightarrow> bool" where
  "row_ok j \<longleftrightarrow> distinct (map stage_key (steps j)) \<and> 0 \<le> progress j \<and> progress j \<le> 100
     \<and> (job_status j = J_RUNNING \<longrightarrow> worker_id j \<noteq> None \<and> heartbeat_at j \<noteq> None \<and> started_at j \<noteq> None)
     \<and> (job_status j \<in> {J_QUEUED, J_INTERRUPTED} \<longrightarrow> worker_id j = None)
     \<and> (job_status j \<in> insert J_INTERRUPTED TERMINAL_JOB_STATUSES \<longrightarrow> finished_at j \<noteq> None)"

definition table_ok :: "job_table \<Rightarrow> bool" where
  "table_ok tbl \<longleftrightarrow> unique_jobs tbl \<and> list_all row_ok tbl"

lemma put_row_unique:
  assumes "unique_jobs tbl" and "j \<in> set tbl" and "row_key j' = row_key j" and "is_active j' \<Longrightarrow> is_active j"
  shows "unique_jobs (put_row j' tbl)"
  unfolding put_row_def
proof (rule job_rows.consistent_map [OF assms(1)])
  let ?f = "\<lambda>r. if job_id r = job_id j' then j' else r"
  have same: "job_id j' = job_id j" "job_vm_name j' = job_vm_name j" "reserved_ipv4 j' = reserved_ipv4 j"
    "idempotency_key j' = idempotency_key j"
    using assms(3) by (simp_all add: row_key_def)
  have row: "r = j" if "r \<in> set tbl" "job_id r = job_id j'" for r
    using that assms(1,2) same(1) job_rows.consistent_key_inj by metis
  fix a b assume ab: "a \<in> set tbl" "b \<in> set tbl" and c: "job_clash (?f a) (?f b)"
  have f: "(is_active (?f r) \<longrightarrow> is_active r) \<and> job_vm_name (?f r) = job_vm_name r \<and> reserved_ipv4 (?f r) = reserved_ipv4 r
      \<and> idempotency_key (?f r) = idempotency_key r" if "r \<in> set tbl" for r
    using row [OF that] same assms(4) by auto
  show "job_clash a b" using c by (rule job_clash_weaken) (use f [OF ab(1)] f [OF ab(2)] in blast)+
qed simp

lemma put_row_ok: "list_all row_ok tbl \<Longrightarrow> row_ok j \<Longrightarrow> list_all row_ok (put_row j tbl)"
  by (auto simp: put_row_def list_all_iff)

lemma put_row_table_ok:
  "table_ok tbl \<Longrightarrow> j \<in> set tbl \<Longrightarrow> row_key j' = row_key j \<Longrightarrow> (is_active j' \<Longrightarrow> is_active j) \<Longrightarrow> row_ok j'
     \<Longrightarrow> table_ok (put_row j' tbl)"
  by (simp add: table_ok_def put_row_unique put_row_ok)

lemma row_okD: "table_ok tbl \<Longrightarrow> j \<in> set tbl \<Longrightarrow> row_ok j"
  by (simp add: table_ok_def list_all_iff)

lemma flush_row_table_ok:
  "table_ok tbl \<Longrightarrow> flush_row now j tbl = Inr tbl' \<Longrightarrow> row_ok j \<Longrightarrow> table_ok tbl'"
  by (auto simp: table_ok_def flush_row_def list_all_iff row_ok_def split: option.splits intro: flush_row_unique [of tbl now j, unfolded flush_row_def])

section \<open>Transitions of one row\<close>

lemma stage_key_if [simp]: "stage_key (if b then x\<lparr>step_status := t\<rparr> else x) = stage_key x"
  by simp

lemma row_ok_new: "row_ok ((new_job_row jid name now)\<lparr>job_datacenter_id := dc, requested_by_user_id := u, idempotency_key := k,
    job_fingerprint := f, reserved_ipv4 := ip, request_payload := p\<rparr>)"
  by (simp add: row_ok_def new_job_row_def status_sets)

lemma row_ok_mark_claimed: "row_ok j \<Longrightarrow> row_ok (mark_claimed now w j)"
  by (simp add: row_ok_def mark_claimed_def status_sets split: option.split)

lemma row_ok_requeue: "row_ok j \<Longrightarrow> row_ok (requeue now (snd (reset_steps keys j)))"
  using compute_progress_bounds reset_steps_keys [of keys j]
  by (simp add: row_ok_def status_sets) (simp add: requeue_def Let_def)

lemma row_ok_request_cancel: "row_ok j \<Longrightarrow> row_ok (request_cancel now j)"
  by (cases "job_status j") (simp_all add: row_ok_def request_cancel_def cancel_open_steps_def status_sets Let_def comp_def)

lemma row_ok_hand: "row_ok j \<Longrightarrow> job_status j = J_INTERRUPTED \<Longrightarrow> row_ok (hand_to_worker now j)"
  by (simp add: row_ok_def hand_to_worker_def status_sets)

lemma interrupt_row_fields:
  "job_status (interrupt_row now why j) = J_INTERRUPTED" "worker_id (interrupt_row now why j) = None"
  "row_key (interrupt_row now why j) = row_key j" "row_ok j \<Longrightarrow> row_ok (interrupt_row now why j)"
proof -
  have k: "stage_key (interrupt_step now why s) = stage_key s" for s by (simp add: interrupt_step_def)
  show "job_status (interrupt_row now why j) = J_INTERRUPTED" "worker_id (interrupt_row now why j) = None"
    by (simp_all add: interrupt_row_def Let_def set_duration_def split: option.split)
  show "row_key (interrupt_row now why j) = row_key j"
    by (simp add: interrupt_row_def Let_def set_duration_def row_key_def split: option.split)
  show "row_ok j \<Longrightarrow> row_ok (interrupt_row now why j)"
    using compute_progress_bounds
    by (simp add: interrupt_row_def Let_def set_duration_def row_ok_def k comp_def status_sets split: option.split)
qed

lemma row_key_release [simp]: "row_key (job (snd (release_unattended_media env why c))) = row_key (job c)"
  using run_write_release [where c = c and env = env and why = why] by (simp add: run_write_def)

lemma row_ok_update_step:
  assumes "\<And>s. stage_key (f s) = stage_key s" and "row_ok j"
  shows "row_ok (update_step k f j)"
proof -
  have "map stage_key (steps (update_step k f j)) = map stage_key (steps j)"
    using assms(1) by (simp add: update_step_def)
  then show ?thesis using assms(2) by (simp add: row_ok_def) (simp add: update_step_def)
qed

lemma row_ok_release: "row_ok (job c) \<Longrightarrow> row_ok (job (snd (release_unattended_media env why c)))"
  using release_job [of env why c] row_ok_update_step [of "mark_media_removed why (booted (job c))" "job c"] by auto

lemma interrupt_row_result:
  assumes "interrupt en env now why j s = (j', s')"
  shows "row_key j' = row_key j" "job_status j' = J_INTERRUPTED" "row_ok j \<Longrightarrow> row_ok j'" "worker_id j' = None"
proof -
  have job: "job (context_of rp x sy) = x" for rp x and sy :: "'a System" by (simp add: context_of_def)
  have w: "worker_id (job (snd (release_unattended_media env why' c))) = worker_id (job c)" for why' c
    using release_job [of env why' c] by auto
  have "(row_key j' = row_key j \<and> job_status j' = J_INTERRUPTED \<and> worker_id j' = None) \<and> (row_ok j \<longrightarrow> row_ok j')"
  proof (cases "build_context en (interrupt_row now why j)")
    case (Inl e)
    with assms have "j' = interrupt_row now why j" by (auto simp: interrupt_def Let_def)
    then show ?thesis by (simp add: interrupt_row_fields)
  next
    case (Inr rp)
    then obtain sy where "j' = job (snd (release_unattended_media env ''job interrupted'' (context_of rp (interrupt_row now why j) sy)))"
      using assms by (simp add: interrupt_def Let_def) blast
    then show ?thesis by (simp add: job w interrupt_row_fields row_ok_release)
  qed
  then show "row_key j' = row_key j" "job_status j' = J_INTERRUPTED" "row_ok j \<Longrightarrow> row_ok j'" "worker_id j' = None" by blast+
qed

lemma row_key_ensure_steps: "row_key (ensure_steps defs j) = row_key j"
  by (simp add: row_key_def ensure_steps_def)

lemma ensure_registered_distinct:
  "distinct (map stage_key (steps j)) \<Longrightarrow> distinct (map stage_key (steps (ensure_steps stage_definitions j)))"
  by (rule ensure_steps_distinct) (simp_all add: stage_definitions_def comp_def distinct_stage_keys)

lemma fail_row_fields:
  "row_key (fail_row now human etype j) = row_key j" "job_status (fail_row now human etype j) = J_FAILED"
  "distinct (map stage_key (steps j)) \<Longrightarrow> 0 \<le> progress j \<Longrightarrow> progress j \<le> 100 \<Longrightarrow> row_ok (fail_row now human etype j)"
  by (simp_all add: fail_row_def row_key_def cancel_open_steps_def set_duration_def row_ok_def comp_def status_sets split: option.split)

section \<open>Committing what was read earlier\<close>

text \<open>
  Sessions read rows without locks and keep what they read (\<^verbatim>\<open>expire_on_commit=False\<close>). At a commit SQLAlchemy writes
  the columns that were changed, of the job row and of its step rows. So a transaction that read the job as \<open>v\<close> and
  leaves it as \<open>new\<close> turns the row \<open>cur\<close>, whatever others have committed to it since, into \<open>commit_row v new cur\<close>.
\<close>

definition written :: "'a \<Rightarrow> 'a \<Rightarrow> 'a \<Rightarrow> 'a" where
  "written old new cur = (if new = old then cur else new)"

definition commit_step :: "ProvisioningJobStep \<Rightarrow> ProvisioningJobStep \<Rightarrow> ProvisioningJobStep \<Rightarrow> ProvisioningJobStep" where
  "commit_step v new cur = cur\<lparr>
     step_status := written (step_status v) (step_status new) (step_status cur),
     attempt := written (ProvisioningJobStep.attempt v) (ProvisioningJobStep.attempt new) (ProvisioningJobStep.attempt cur),
     step_retryable := written (step_retryable v) (step_retryable new) (step_retryable cur),
     step_started_at := written (step_started_at v) (step_started_at new) (step_started_at cur),
     step_finished_at := written (step_finished_at v) (step_finished_at new) (step_finished_at cur),
     step_output := written (step_output v) (step_output new) (step_output cur),
     error_human := written (error_human v) (error_human new) (error_human cur),
     error_technical := written (error_technical v) (error_technical new) (error_technical cur),
     artifacts := written (artifacts v) (artifacts new) (artifacts cur)\<rparr>"

definition commit_steps ::
  "ProvisioningJob \<Rightarrow> ProvisioningJob \<Rightarrow> ProvisioningJobStep list \<Rightarrow> ProvisioningJobStep list" where
  "commit_steps v new = map (\<lambda>s.
     case (step_of (stage_key s) v, step_of (stage_key s) new) of
       (Some a, Some b) \<Rightarrow> commit_step a b s
     | _ \<Rightarrow> s)"

definition commit_row :: "ProvisioningJob \<Rightarrow> ProvisioningJob \<Rightarrow> ProvisioningJob \<Rightarrow> ProvisioningJob" where
  "commit_row v new cur = cur\<lparr>
     job_status := written (job_status v) (job_status new) (job_status cur),
     current_stage := written (current_stage v) (current_stage new) (current_stage cur),
     progress := written (progress v) (progress new) (progress cur),
     infrastructure_status := written (infrastructure_status v) (infrastructure_status new) (infrastructure_status cur),
     guest_os_status := written (guest_os_status v) (guest_os_status new) (guest_os_status cur),
     vmware_tools_status := written (vmware_tools_status v) (vmware_tools_status new) (vmware_tools_status cur),
     guest_provisioning_status :=
       written (guest_provisioning_status v) (guest_provisioning_status new) (guest_provisioning_status cur),
     error_summary := written (error_summary v) (error_summary new) (error_summary cur),
     error_detail := written (error_detail v) (error_detail new) (error_detail cur),
     cancel_requested := written (cancel_requested v) (cancel_requested new) (cancel_requested cur),
     queued_at := written (queued_at v) (queued_at new) (queued_at cur),
     started_at := written (started_at v) (started_at new) (started_at cur),
     finished_at := written (finished_at v) (finished_at new) (finished_at cur),
     duration_seconds := written (duration_seconds v) (duration_seconds new) (duration_seconds cur),
     worker_id := written (worker_id v) (worker_id new) (worker_id cur),
     heartbeat_at := written (heartbeat_at v) (heartbeat_at new) (heartbeat_at cur),
     steps := commit_steps v new (steps cur)\<rparr>"

text \<open>
  The writes that may rest on an outdated row: every commit of a run, a cancellation that queues nothing again, an
  interruption, a failure recorded for a job that was read as running, and the release of the answer media after an
  interruption. \<open>fleet\<close> is the set of the pipelines that the workers run.
\<close>

inductive row_write :: "('w, 'z) pipeline_env_scheme set \<Rightarrow> ProvisioningJob \<Rightarrow> ProvisioningJob \<Rightarrow> bool"
  for fleet :: "('w, 'z) pipeline_env_scheme set" where
  by_run: "env \<in> fleet \<Longrightarrow> run_commit env c c' \<Longrightarrow> row_write fleet (job c) (job c')"
| by_cancel: "job_status v \<noteq> J_INTERRUPTED \<or> \<not> may_hold_unattended_media v \<Longrightarrow> cancel_row now v = Inr new
     \<Longrightarrow> row_write fleet v new"
| by_interruption: "job_status v = J_RUNNING \<Longrightarrow> worker_id v = Some w \<Longrightarrow> row_write fleet v (interrupt_row now why v)"
| by_failure: "job_status v = J_RUNNING \<Longrightarrow> row_write fleet v (fail_row now human etype v)"
| by_cleanup: "env \<in> fleet \<Longrightarrow> row_write fleet (job c) (job (snd (release_unattended_media env why c)))"

text \<open>What makes a write harmless on any row: it takes a job out of work in one go, or leaves status and owner alone.\<close>

definition sound_write :: "ProvisioningJob \<Rightarrow> ProvisioningJob \<Rightarrow> bool" where
  "sound_write v new \<longleftrightarrow> started_at new = started_at v
     \<and> (progress new \<noteq> progress v \<longrightarrow> 0 \<le> progress new \<and> progress new \<le> 100)
     \<and> (finished_at new \<noteq> finished_at v \<longrightarrow> finished_at new \<noteq> None)
     \<and> (job_status new = job_status v \<and> worker_id new = worker_id v \<and> heartbeat_at new = heartbeat_at v
        \<or> job_status new \<noteq> job_status v \<and> job_status new \<in> TERMINAL_JOB_STATUSES \<and> finished_at new \<noteq> None
        \<or> job_status v = J_RUNNING \<and> job_status new = J_INTERRUPTED \<and> worker_id v \<noteq> None \<and> worker_id new = None
            \<and> finished_at new \<noteq> None)"

lemma written_same [simp]: "written v v cur = cur" "written v new new = new"
  by (simp_all add: written_def)

lemma commit_steps_keys: "map stage_key (commit_steps v new xs) = map stage_key xs"
  by (simp add: commit_steps_def commit_step_def comp_def split: option.split)

lemma commit_row_ok:
  assumes "sound_write v new" and "row_ok cur" and "job_status new \<noteq> job_status v \<longrightarrow> finished_at new \<noteq> finished_at v"
  shows "row_ok (commit_row v new cur)"
proof -
  let ?r = "commit_row v new cur"
  have cols: "job_status ?r = written (job_status v) (job_status new) (job_status cur)" "progress ?r = written (progress v) (progress new) (progress cur)"
    "finished_at ?r = written (finished_at v) (finished_at new) (finished_at cur)" "worker_id ?r = written (worker_id v) (worker_id new) (worker_id cur)"
    "heartbeat_at ?r = written (heartbeat_at v) (heartbeat_at new) (heartbeat_at cur)"
    "started_at ?r = written (started_at v) (started_at new) (started_at cur)" "steps ?r = commit_steps v new (steps cur)"
    by (simp_all add: commit_row_def)
  have ok: "distinct (map stage_key (steps cur))" "0 \<le> progress cur" "progress cur \<le> 100"
    "job_status cur = J_RUNNING \<Longrightarrow> worker_id cur \<noteq> None \<and> heartbeat_at cur \<noteq> None \<and> started_at cur \<noteq> None"
    "job_status cur \<in> {J_QUEUED, J_INTERRUPTED} \<Longrightarrow> worker_id cur = None"
    "job_status cur \<in> insert J_INTERRUPTED TERMINAL_JOB_STATUSES \<Longrightarrow> finished_at cur \<noteq> None"
    using assms(2) by (simp_all only: row_ok_def) blast+
  have base: "distinct (map stage_key (steps ?r))" "0 \<le> progress ?r" "progress ?r \<le> 100"
    using ok(1-3) assms(1) by (auto simp: cols commit_steps_keys written_def sound_write_def)
  from assms(1) have "job_status new = job_status v \<and> worker_id new = worker_id v \<and> heartbeat_at new = heartbeat_at v
      \<or> job_status ?r \<in> TERMINAL_JOB_STATUSES \<and> finished_at ?r \<noteq> None
      \<or> job_status ?r = J_INTERRUPTED \<and> worker_id ?r = None \<and> finished_at ?r \<noteq> None"
    using assms(3) unfolding sound_write_def by (elim conjE disjE) (auto simp: cols written_def)
  then show ?thesis
  proof (elim disjE)
    assume same: "job_status new = job_status v \<and> worker_id new = worker_id v \<and> heartbeat_at new = heartbeat_at v"
    have "started_at ?r = started_at cur" using assms(1) by (simp add: cols sound_write_def)
    moreover have "finished_at ?r = finished_at cur \<or> finished_at ?r \<noteq> None" using assms(1) by (auto simp: cols written_def sound_write_def)
    moreover have "job_status ?r = job_status cur" "worker_id ?r = worker_id cur" "heartbeat_at ?r = heartbeat_at cur"
      using same by (simp_all add: cols)
    ultimately show ?thesis using base ok(4-6) unfolding row_ok_def by auto
  next
    assume "job_status ?r \<in> TERMINAL_JOB_STATUSES \<and> finished_at ?r \<noteq> None"
    then show ?thesis using base unfolding row_ok_def by (auto simp: status_sets)
  next
    assume "job_status ?r = J_INTERRUPTED \<and> worker_id ?r = None \<and> finished_at ?r \<noteq> None"
    then show ?thesis using base unfolding row_ok_def by (simp add: status_sets)
  qed
qed

lemma run_write_sound:
  assumes "run_write v new" and "job_status new \<noteq> job_status v \<longrightarrow> finished_at new \<noteq> finished_at v"
  shows "sound_write v new"
  using assms by (auto simp: run_write_def sound_write_def owner_def)

lemma cancel_write_sound:
  assumes "job_status v \<noteq> J_INTERRUPTED \<or> \<not> may_hold_unattended_media v" and "cancel_row now v = Inr new"
  shows "sound_write v new"
  using assms by (cases "job_status v") (auto simp: cancel_row_def request_cancel_def cancel_open_steps_def sound_write_def Let_def status_sets)

lemma interrupt_write_sound:
  "job_status v = J_RUNNING \<Longrightarrow> worker_id v = Some w \<Longrightarrow> sound_write v (interrupt_row now why v)"
  using compute_progress_bounds
  by (simp add: sound_write_def interrupt_row_def Let_def set_duration_def split: option.split)

lemma failure_write_sound: "job_status v = J_RUNNING \<Longrightarrow> sound_write v (fail_row now human etype v)"
  by (simp add: sound_write_def fail_row_def cancel_open_steps_def set_duration_def status_sets split: option.split)

lemma row_write_sound:
  assumes "row_write fleet v new" and "\<forall>env \<in> fleet. keeps_control env"
    and "job_status new \<noteq> job_status v \<longrightarrow> finished_at new \<noteq> finished_at v"
  shows "sound_write v new"
  using assms(1)
proof cases
  case (by_run env c c')
  with assms(2,3) show ?thesis by (auto intro: run_write_sound dest: run_commit_write)
next
  case (by_cleanup env c why)
  with assms(3) show ?thesis by (auto intro: run_write_sound run_write_release)
qed (auto intro: cancel_write_sound interrupt_write_sound failure_write_sound)

section \<open>The system\<close>

text \<open>
  One committed transaction of the API or of a worker. Claims, heartbeats and the reaper work on locked rows or in one
  statement, a submission inserts after checks against an earlier table \<open>s\<close>, and \<open>do_write\<close> is any write above that was
  computed from a row \<open>v\<close> read at an earlier time (the clock has moved since that job last finished). A retry and the cancellation that
  queues a job again, the first commit of a task and a failure recorded for a row that is no longer running are serial: they see the
  row they change. \<open>stale_retry_keeps_owner\<close> below shows what a retry of an outdated row does.
\<close>

inductive sys_step :: "('w, 'z) pipeline_env_scheme set \<Rightarrow> job_table \<Rightarrow> job_table \<Rightarrow> bool"
  for fleet :: "('w, 'z) pipeline_env_scheme set" where
  do_submit: "submit_provisioning se u r key ip s = (Inr (j, True), s') \<Longrightarrow> others se (api_jobs s) = tbl
     \<Longrightarrow> sys_step fleet tbl (api_jobs s')"
| do_retry: "j \<in> set (api_jobs s) \<Longrightarrow> retry_stages mv now u j stg ip s = (res, s')
     \<Longrightarrow> sys_step fleet (api_jobs s) (api_jobs s')"
| do_cancel: "j \<in> set (api_jobs s) \<Longrightarrow> cancel_job now u j ip s = (res, s') \<Longrightarrow> sys_step fleet (api_jobs s) (api_jobs s')"
| do_claim: "engine_claim e now locked tbl = (ids, tbl') \<Longrightarrow> sys_step fleet tbl tbl'"
| do_heartbeat: "heartbeat jid w now tbl = (answer, tbl') \<Longrightarrow> sys_step fleet tbl tbl'"
| do_begin: "j \<in> set tbl \<Longrightarrow> sys_step fleet tbl (put_row (ensure_steps stage_definitions j) tbl)"
| do_fail: "j \<in> set tbl \<Longrightarrow> sys_step fleet tbl (put_row (fail_row now human etype j) tbl)"
| do_reap: "j \<in> set (claim_stale_running_jobs stale 1 own locked tbl)
     \<Longrightarrow> sys_step fleet tbl (put_row (interrupt_row now LOST_WORKER_REASON j) tbl)"
| do_write: "cur \<in> set tbl \<Longrightarrow> row_write fleet v new \<Longrightarrow> job_id v = job_id cur
     \<Longrightarrow> (job_status new \<noteq> job_status v \<longrightarrow> finished_at new \<noteq> finished_at v)
     \<Longrightarrow> flush_row now (commit_row v new cur) tbl = Inr tbl' \<Longrightarrow> sys_step fleet tbl tbl'"

inductive reachable :: "('w, 'z) pipeline_env_scheme set \<Rightarrow> job_table \<Rightarrow> bool"
  for fleet :: "('w, 'z) pipeline_env_scheme set" where
  start: "reachable fleet []"
| step: "reachable fleet tbl \<Longrightarrow> sys_step fleet tbl tbl' \<Longrightarrow> reachable fleet tbl'"

inductive_cases sys_stepE: "sys_step fleet tbl tbl'"

lemma create_job_row_ok: "create_job now jid name dc uid key payload fp ip tbl = Inr (j, tbl') \<Longrightarrow> row_ok j"
  by (auto simp: create_job_def insert_row_def Let_def row_ok_def new_job_row_def status_sets split: if_splits option.splits)

lemma submit_table_ok:
  assumes "table_ok (others env (api_jobs s))" and "submit_provisioning env u r key ip s = (Inr (j, True), s')"
  shows "table_ok (api_jobs s')"
  using assms(2)
proof (cases rule: submit_cases)
  case insert
  from insert(1) show ?thesis
  proof (cases rule: insert_request_cases)
    case (created j)
    have "unique_jobs (others env (api_jobs s))" using assms(1) by (simp add: table_ok_def)
    then have "unique_jobs (api_jobs s')"
      using insert_row_unique create_job_InrD(11) [OF created(3)] created(2) by simp
    with assms(1) created create_job_row_ok [OF created(3)] show ?thesis by (simp add: table_ok_def)
  qed (auto split: sum.splits)
qed simp_all

lemma retry_table_ok:
  assumes "table_ok (api_jobs s)" and "j \<in> set (api_jobs s)" and "retry_stages mv now u j stg ip s = (res, s')"
  shows "table_ok (api_jobs s')"
proof (cases "api_jobs s' = api_jobs s")
  case False
  then obtain keys reset j' tbl where r: "reset_for_retry now keys j (api_jobs s) = Inr (reset, j', tbl)" "reset \<noteq> []" "api_jobs s' = tbl"
    using assms(3) by (auto simp: retry_stages_def split: if_splits sum.splits)
  then have "flush_row now (requeue now (snd (reset_steps keys j))) (api_jobs s) = Inr tbl"
    by (auto simp: reset_for_retry_def Let_def prod.case_eq_if split: if_splits sum.splits)
  with assms(1) have "table_ok tbl"
    by (rule flush_row_table_ok) (rule row_ok_requeue, rule row_okD [OF assms(1,2)])
  with r(3) show ?thesis by simp
qed (use assms(1) in simp)

lemma cancel_row_ok: "row_ok j \<Longrightarrow> cancel_row now j = Inr j' \<Longrightarrow> row_ok j'"
  by (auto simp: cancel_row_def row_ok_hand row_ok_request_cancel split: if_splits)

lemma cancel_table_ok:
  assumes "table_ok (api_jobs s)" and "j \<in> set (api_jobs s)" and "cancel_job now u j ip s = (res, s')"
  shows "table_ok (api_jobs s')"
  using assms flush_row_table_ok [OF assms(1)] cancel_row_ok [OF row_okD [OF assms(1,2)]]
  by (auto simp: cancel_job_def split: sum.splits)

lemma claim_table_ok: "table_ok tbl \<Longrightarrow> table_ok (snd (claim_due_jobs limit w now locked tbl))"
  using claim_due_jobs_unique [of tbl]
  by (auto simp: table_ok_def claim_due_jobs_def Let_def list_all_iff row_ok_mark_claimed)

lemma engine_claim_table_ok: "table_ok tbl \<Longrightarrow> engine_claim e now locked tbl = (ids, tbl') \<Longrightarrow> table_ok tbl'"
  using claim_table_ok [of tbl "free_slots e" "engine_id e" now locked]
  by (auto simp: engine_claim_def Let_def split: if_splits prod.splits)

lemma heartbeat_table_ok:
  assumes "table_ok tbl" and "heartbeat jid w now tbl = (answer, tbl')"
  shows "table_ok tbl'"
proof -
  have "row_ok (j\<lparr>heartbeat_at := Some now, updated_at := now\<rparr>)" if "row_ok j" for j
    using that by (simp add: row_ok_def)
  then have "list_all row_ok (snd (heartbeat jid w now tbl))"
    using assms(1) by (auto simp: table_ok_def heartbeat_def list_all_iff split: option.split)
  with assms heartbeat_unique [of tbl jid w now] show ?thesis by (simp add: table_ok_def)
qed

lemma interrupt_table_ok:
  assumes "table_ok tbl" and "j \<in> set tbl" and "interrupt en env now why j sy = (j', sy')" and "job_status j = J_RUNNING"
  shows "table_ok (put_row j' tbl)"
proof (rule put_row_table_ok [OF assms(1,2)])
  note result = interrupt_row_result [OF assms(3)]
  show "row_key j' = row_key j" using result(1) .
  show "row_ok j'" using result(3) row_okD [OF assms(1,2)] by blast
  show "is_active j" if "is_active j'" using assms(4) by (simp add: is_active_def status_sets)
qed

lemma put_row_same: "unique_jobs tbl \<Longrightarrow> j \<in> set tbl \<Longrightarrow> put_row j tbl = tbl"
  unfolding put_row_def by (rule map_idI) (use job_rows.consistent_key_inj in auto)

lemma reap_table_ok:
  "table_ok tbl \<Longrightarrow> reap_stale_jobs en env timeout clk own budget tbl sy = (n, tbl', sy') \<Longrightarrow> table_ok tbl'"
proof (induction budget arbitrary: tbl sy n)
  case (Suc budget)
  show ?case
  proof (cases "claim_stale_running_jobs (clk budget - timeout) 1 own {} tbl")
    case (Cons j js)
    then have "j \<in> set (claim_stale_running_jobs (clk budget - timeout) 1 own {} tbl)" by simp
    then have "j \<in> set tbl" "job_status j = J_RUNNING" by (auto dest: claim_stale_sound)
    moreover obtain j' s1 where i: "interrupt en env (clk budget) LOST_WORKER_REASON j sy = (j', s1)" by fastforce
    ultimately have "table_ok (put_row j' tbl)" using Suc.prems(1) by (intro interrupt_table_ok)
    then show ?thesis using Suc.IH Suc.prems(2) Cons by (auto simp: i split: prod.splits)
  qed (use Suc.prems in simp)
qed simp

lemma begin_table_ok: "table_ok tbl \<Longrightarrow> j \<in> set tbl \<Longrightarrow> table_ok (put_row (ensure_steps stage_definitions j) tbl)"
proof (rule put_row_table_ok)
  assume "table_ok tbl" "j \<in> set tbl"
  then have "row_ok j" by (rule row_okD)
  then show "row_ok (ensure_steps stage_definitions j)"
    using ensure_registered_distinct [of j] by (simp add: row_ok_def) (simp add: ensure_steps_def)
  show "is_active j" if "is_active (ensure_steps stage_definitions j)" using that by (simp add: is_active_def ensure_steps_def)
qed (simp_all add: row_key_ensure_steps)

lemma fail_table_ok: "table_ok tbl \<Longrightarrow> j \<in> set tbl \<Longrightarrow> table_ok (put_row (fail_row now human etype j) tbl)"
proof (rule put_row_table_ok)
  assume "table_ok tbl" "j \<in> set tbl"
  then have "row_ok j" by (rule row_okD)
  then show "row_ok (fail_row now human etype j)" by (intro fail_row_fields(3)) (simp_all add: row_ok_def)
  show "is_active j" if "is_active (fail_row now human etype j)" using that by (simp add: is_active_def fail_row_fields(2) status_sets)
qed (simp_all add: fail_row_fields(1))

lemma interrupted_table_ok:
  "table_ok tbl \<Longrightarrow> j \<in> set tbl \<Longrightarrow> job_status j = J_RUNNING \<Longrightarrow> table_ok (put_row (interrupt_row now why j) tbl)"
  by (rule put_row_table_ok) (auto simp: interrupt_row_fields is_active_def status_sets dest: row_okD)

lemma write_table_ok:
  assumes "table_ok tbl" and "cur \<in> set tbl" and "row_write fleet v new" and "\<forall>env \<in> fleet. keeps_control env"
    and "job_status new \<noteq> job_status v \<longrightarrow> finished_at new \<noteq> finished_at v" and "flush_row now (commit_row v new cur) tbl = Inr tbl'"
  shows "table_ok tbl'"
  using assms(1,6) commit_row_ok [OF row_write_sound [OF assms(3-5)] row_okD [OF assms(1,2)] assms(5)] by (rule flush_row_table_ok)

lemma sys_step_table_ok:
  assumes "sys_step fleet tbl tbl'" and "\<forall>env \<in> fleet. keeps_control env" and "table_ok tbl"
  shows "table_ok tbl'"
  using assms
proof cases
  case (do_write cur v new now)
  then show ?thesis using write_table_ok [OF assms(3) _ _ assms(2)] by blast
next
  case (do_reap j stale own locked now)
  then have "j \<in> set tbl" "job_status j = J_RUNNING" by (auto dest: claim_stale_sound)
  with assms(3) do_reap(1) show ?thesis by (simp add: interrupted_table_ok)
qed (use assms(3) in \<open>auto intro: submit_table_ok retry_table_ok cancel_table_ok engine_claim_table_ok heartbeat_table_ok begin_table_ok fail_table_ok\<close>)

lemma reachable_table_ok:
  assumes "reachable fleet tbl" and "\<forall>env \<in> fleet. keeps_control env"
  shows "table_ok tbl"
  using assms(1)
proof induction
  case start
  show ?case using job_rows.consistent_Nil by (simp add: table_ok_def)
next
  case (step tbl tbl')
  from step.hyps(2) assms(2) step.IH show ?case by (rule sys_step_table_ok)
qed

lemma spawn_all_length: "length (tasks (fold spawn ids e)) \<le> length (tasks e) + length ids"
proof (induction ids arbitrary: e)
  case (Cons i ids)
  have "length (tasks (spawn i e)) \<le> Suc (length (tasks e))" by (simp add: spawn_def)
  with Cons.IH [of "spawn i e"] show ?case by simp
qed simp

lemma spawn_all_same [simp]: "concurrency (fold spawn ids e) = concurrency e"
  by (induction ids arbitrary: e) (simp_all add: spawn_def)

lemma spawn_all_tasks: "set (tasks (fold spawn ids e)) = set (tasks e) \<union> set ids"
  by (induction ids arbitrary: e) (auto simp: spawn_def)

lemma heartbeat_disowned: "(\<And>r. r \<in> set tbl \<Longrightarrow> job_id r = jid \<Longrightarrow> worker_id r \<noteq> Some w) \<Longrightarrow> fst (heartbeat jid w now tbl) = None"
proof -
  assume other: "\<And>r. r \<in> set tbl \<Longrightarrow> job_id r = jid \<Longrightarrow> worker_id r \<noteq> Some w"
  then have "find (owns_running jid w) tbl = None" by (auto simp: find_None_iff_all owns_running_def)
  with other show ?thesis by (auto simp: heartbeat_def dest!: find_SomeD split: option.split)
qed

lemma put_row_list_all2:
  "j \<in> set tbl \<Longrightarrow> distinct (map job_id tbl) \<Longrightarrow> job_id j' = job_id j \<Longrightarrow> P j j' \<Longrightarrow> (\<And>r. P r r) \<Longrightarrow> list_all2 P tbl (put_row j' tbl)"
  by (auto simp: put_row_def list_all2_conv_all_nth in_set_conv_nth distinct_conv_nth)

definition reaped :: "uuid list \<Rightarrow> ProvisioningJob \<Rightarrow> ProvisioningJob \<Rightarrow> bool" where
  "reaped own r r' \<longleftrightarrow> r' = r \<or> (job_status r = J_RUNNING \<and> job_id r \<notin> set own \<and> job_id r' = job_id r
     \<and> job_status r' = J_INTERRUPTED \<and> worker_id r' = None)"

lemma reaped_trans: "reaped own a b \<Longrightarrow> reaped own b c \<Longrightarrow> reaped own a c"
  by (auto simp: reaped_def)

lemma interrupt_reaped:
  assumes "interrupt en env now why j sy = (j', sy')" and "job_status j = J_RUNNING" and "job_id j \<notin> set own"
  shows "reaped own j j'"
  using assms interrupt_row_result [OF assms(1)] by (auto simp: reaped_def row_key_def)

lemma reap_rows:
  "table_ok tbl \<Longrightarrow> reap_stale_jobs en env timeout clk own budget tbl sy = (n, tbl', sy')
     \<Longrightarrow> list_all2 (reaped own) tbl tbl' \<and> n \<le> budget
       \<and> (n < budget \<longrightarrow> claim_stale_running_jobs (clk (budget - n - 1) - timeout) 1 own {} tbl' = [])"
proof (induction budget arbitrary: tbl sy n)
  case 0
  then show ?case by (auto simp: reaped_def list_all2_same)
next
  case (Suc budget)
  show ?case
  proof (cases "claim_stale_running_jobs (clk budget - timeout) 1 own {} tbl")
    case Nil
    with Suc.prems show ?thesis by (auto simp: reaped_def list_all2_same)
  next
    case (Cons j js)
    then have "j \<in> set (claim_stale_running_jobs (clk budget - timeout) 1 own {} tbl)" by simp
    then have j: "j \<in> set tbl" "job_status j = J_RUNNING" "job_id j \<notin> set own" by (auto dest: claim_stale_sound)
    obtain j' s1 where i: "interrupt en env (clk budget) LOST_WORKER_REASON j sy = (j', s1)" by fastforce
    have ok: "table_ok (put_row j' tbl)" using Suc.prems(1) j(1) i j(2) by (rule interrupt_table_ok)
    obtain m where m: "n = Suc m" "reap_stale_jobs en env timeout clk own budget (put_row j' tbl) s1 = (m, tbl', sy')"
      using Suc.prems(2) Cons by (auto simp: i split: prod.splits)
    have "distinct (map job_id tbl)" using Suc.prems(1) job_rows.consistent_distinct by (simp add: table_ok_def)
    with j(1) have "list_all2 (reaped own) tbl (put_row j' tbl)"
      using interrupt_reaped [OF i j(2,3)] by (intro put_row_list_all2) (auto simp: reaped_def)
    with Suc.IH [OF ok m(2)] m(1) show ?thesis by (auto elim: list_all2_trans [rotated] intro: reaped_trans)
  qed
qed

section \<open>Properties\<close>

text \<open>
  C1. Every job table that submissions, retries, cancellations, claims, heartbeats, interruptions and the commits of
  running pipelines can reach is consistent: job ids are distinct, no two active jobs share a VM name (ignoring case) or a reserved
  IPv4 address, a running job has an owner, a start time and a heartbeat, a queued or interrupted one has no owner, a
  finished one has its finish time, and progress stays within 0 and 100. Each transaction is a step of its own, and commits of
  different runs, of the API and of the reaper interleave freely: a run, a cancellation, an interruption and a recorded failure may rest on
  a row that others have changed since it was read, and then overwrite the columns they changed. What puts a job back into
  the queue (a retry, and the cancellation of an interrupted job that may hold answer media), the first commit of a task and the
  failure of a job that is no longer running must see the row they change.
\<close>

theorem reachable_tables_consistent:
  assumes "reachable fleet tbl" and "\<forall>env \<in> fleet. keeps_control env"
  shows "distinct (map job_id tbl)
    \<and> (\<forall>a \<in> set tbl. \<forall>b \<in> set tbl. is_active a \<and> is_active b
         \<and> (lower (job_vm_name a) = lower (job_vm_name b) \<or> (reserved_ipv4 a \<noteq> None \<and> reserved_ipv4 a = reserved_ipv4 b)) \<longrightarrow> a = b)
    \<and> (\<forall>j \<in> set tbl. 0 \<le> progress j \<and> progress j \<le> 100
         \<and> (job_status j = J_RUNNING \<longrightarrow> worker_id j \<noteq> None \<and> heartbeat_at j \<noteq> None \<and> started_at j \<noteq> None)
         \<and> (job_status j \<in> {J_QUEUED, J_INTERRUPTED} \<longrightarrow> worker_id j = None)
         \<and> (job_status j \<in> TERMINAL_JOB_STATUSES \<longrightarrow> finished_at j \<noteq> None))"
proof -
  have ok: "unique_jobs tbl" "list_all row_ok tbl" using reachable_table_ok [OF assms] by (simp_all add: table_ok_def)
  have "a = b" if "a \<in> set tbl" "b \<in> set tbl" "is_active a" "is_active b"
    "lower (job_vm_name a) = lower (job_vm_name b) \<or> (reserved_ipv4 a \<noteq> None \<and> reserved_ipv4 a = reserved_ipv4 b)" for a b
    using that unique_jobs_vm_name [OF ok(1)] unique_jobs_ipv4 [OF ok(1)] by (metis option.exhaust)
  moreover have "distinct (map job_id tbl)" using ok(1) by (rule job_rows.consistent_distinct)
  ultimately show ?thesis using ok(2) by (auto simp: list_all_iff row_ok_def)
qed

definition sample_system :: "unit System" where
  "sample_system = \<lparr>sys_audit = [], sys_notifications = [], sys_metrics = fresh_registry, sys_events = [], sys_ticks = 0,
     sys_world = ()\<rparr>"

text \<open>Workers that run the handlers of the repository: one job is submitted, claimed and begun.\<close>

definition sample_fleet :: "rat stage_env set" where
  "sample_fleet = {stage_pipeline (sample_stage_env sample_request [] None None) (\<lambda>_ _. None)}"

lemma sample_fleet_keeps: "\<forall>env \<in> sample_fleet. keeps_control env"
  by (auto simp: sample_fleet_def sample_stage_env_def intro!: stage_pipeline_keeps_control)

theorem reachable_tables_consistent_witness:
  "\<exists>j. reachable sample_fleet [j] \<and> job_status j = J_RUNNING \<and> worker_id j = Some ''w1'' \<and> heartbeat_at j \<noteq> None"
proof -
  let ?sub = "submit_provisioning (sample_submit None) None sample_request None None empty_api"
  let ?e = "init_engine \<lparr>worker_concurrency = 2, worker_poll_interval_seconds = 2, worker_heartbeat_interval_seconds = 10,
     worker_heartbeat_timeout_seconds = 60, worker_reaper_interval_seconds = 30, worker_shutdown_grace_seconds = 0\<rparr> ''w1'' 0"
  have "identity_policy_version sample_request = V2" "reserved_ipv4_for sample_request = None"
    by (simp_all add: sample_request_def reserved_ipv4_for_def)
  then obtain j s' where sub: "?sub = (Inr (j, True), s')" and one: "api_jobs s' = [j]" and j: "job_status j = J_QUEUED"
    by (simp add: submit_provisioning_def insert_request_def create_job_def insert_row_def sample_submit_def empty_api_def
        Let_def find_by_idempotency_key_def has_active_job_for_vm_def has_ipv4_reservation_def new_job_row_def)
  have "sys_step sample_fleet [] (api_jobs s')"
    by (rule do_submit [OF sub]) (simp add: sample_submit_def empty_api_def)
  then have r1: "reachable sample_fleet [j]" using reachable.step [OF reachable.start] one by fastforce
  define t where "t = queued_at j"
  have "engine_claim ?e t {} [j] = ([job_id j], [mark_claimed t ''w1'' j])"
    using j by (simp add: t_def engine_claim_def free_slots_def init_engine_def Let_def claim_due_jobs_def due_jobs_def mark_claimed_def)
  then have r2: "reachable sample_fleet [mark_claimed t ''w1'' j]" using r1 by (intro reachable.step [OF r1]) (rule do_claim)
  then have "heartbeat_at (mark_claimed t ''w1'' j) \<noteq> None"
    using reachable_tables_consistent [OF r2 sample_fleet_keeps] by (simp add: mark_claimed_def)
  with r2 show ?thesis by (intro exI [of _ "mark_claimed t ''w1'' j"]) (simp add: mark_claimed_def)
qed

text \<open>
  Known defect: a retry writes the columns it changed onto whatever the row has become. When another retry has put the
  job back and a worker has claimed it since, a retry of the row as it was (a stopped job without an owner) leaves the job queued
  and owned; C1 therefore takes retries as serial.
\<close>

theorem stale_retry_keeps_owner:
  assumes "job_status v \<in> RETRYABLE_STATUSES" and "worker_id v = None" and "job_status cur = J_RUNNING" and "worker_id cur = Some w"
  shows "job_status (commit_row v (requeue now (snd (reset_steps keys v))) cur) = J_QUEUED
    \<and> worker_id (commit_row v (requeue now (snd (reset_steps keys v))) cur) = Some w"
  using assms by (auto simp: commit_row_def written_def requeue_def reset_steps_def Let_def RETRYABLE_STATUSES_def)

lemma fail_before_row:
  "fst (fail_before_pipeline en now human etype j s) = fail_row now human etype j"
  by (simp add: fail_before_pipeline_def Let_def)

lemma fail_row_ended:
  "job_status (fail_row now human etype j) = J_FAILED" "worker_id (fail_row now human etype j) = None"
  "finished_at (fail_row now human etype j) = Some now"
  by (simp_all add: fail_row_def cancel_open_steps_def set_duration_def split: option.split)

lemma mark_interrupted_result:
  assumes "mark_interrupted en env now wid j s = (j', s')"
  shows "job_status j' = J_INTERRUPTED \<and> worker_id j' = None \<or> j' = j \<and> \<not> owns_running (job_id j) wid j"
  using assms interrupt_row_result(2,4) [of en env now SHUTDOWN_REASON j s j' s']
  by (auto simp: mark_interrupted_def owns_running_def split: if_splits)

lemma execute_job_ended:
  assumes "owns_running jid wid j"
  shows "job_status (fst (execute_job en env now wid how later left j s)) \<in> TERMINAL_JOB_STATUSES
      \<and> finished_at (fst (execute_job en env now wid how later left j s)) \<noteq> None
      \<and> (how = Crashed_task \<longrightarrow> job_status (fst (execute_job en env now wid how later left j s)) = J_FAILED
           \<and> worker_id (fst (execute_job en env now wid how later left j s)) = None)
    \<or> how \<in> {Disowned_task, Shut_down_task} \<and> execute_job en env now wid how later left j s = left"
proof (cases "build_context en (ensure_steps stage_definitions j)")
  case (Inl e)
  with assms show ?thesis
    by (cases e) (simp add: execute_job_def owns_running_def Let_def fail_before_row fail_row_ended status_sets)
next
  case (Inr rp)
  have over: "job_status (job (execute env c)) \<in> TERMINAL_JOB_STATUSES" "finished_at (job (execute env c)) \<noteq> None" for c
    using execute_final_row [of env c] by (auto simp: status_sets split: if_splits)
  with Inr assms show ?thesis
    by (cases how) (simp_all add: execute_job_def owns_running_def Let_def fail_before_row fail_row_ended status_sets)
qed

text \<open>
  C39. A task never leaves its job running under its worker: whether the pipeline returns, raises or is cancelled by the shutdown
  of the worker, the job ends, or it is parked as interrupted without an owner, or the row was no longer this worker's. A task that the
  heartbeat cancelled because the row is in other hands leaves the row alone, and a pipeline that raises leaves a failed job
  without an owner.
\<close>

theorem processed_job_settled:
  assumes "owns_running jid wid j" and "process_job en env now wid how later left j s = (j', s')"
  shows "job_status j' \<in> TERMINAL_JOB_STATUSES \<and> finished_at j' \<noteq> None
           \<and> (how = Crashed_task \<longrightarrow> job_status j' = J_FAILED \<and> worker_id j' = None)
         \<or> how = Shut_down_task \<and> job_status j' = J_INTERRUPTED \<and> worker_id j' = None
         \<or> how \<in> {Disowned_task, Shut_down_task} \<and> j' = fst left
           \<and> (how = Shut_down_task \<longrightarrow> \<not> owns_running (job_id j') wid j')"
proof -
  obtain k t where run: "execute_job en env now wid how later left j s = (k, t)" by fastforce
  note ended = execute_job_ended [OF assms(1), of en env now how later left s, unfolded run fst_conv]
  show ?thesis
  proof (cases "how = Shut_down_task")
    case True
    with assms(2) run have "mark_interrupted en env later wid k t = (j', s')" by (simp add: process_job_def)
    from mark_interrupted_result [OF this] ended True show ?thesis by auto
  next
    case False
    with assms(2) run have "j' = k" by (auto simp: process_job_def)
    with ended False show ?thesis by auto
  qed
qed

definition shut_down_row :: ProvisioningJob where
  "shut_down_row = (new_job_row ''c'' ''web01'' 20)\<lparr>job_status := J_RUNNING, worker_id := Some ''w1'', started_at := Some 21,
     heartbeat_at := Some 30, request_payload := Some (JObj [])\<rparr>"

definition accepting_engine_env :: engine_env where
  "accepting_engine_env = \<lparr>model_validate = (\<lambda>_. Some sample_request),
     vcenters = [\<lparr>vc_id = ''v-1'', vc_name = ''vc'', vc_host = ''vc.example.com'', vc_enabled = True\<rparr>], usernames = (\<lambda>_. None)\<rparr>"

text \<open>A run that the shutdown of the worker cancels parks its job.\<close>

theorem processed_job_settled_witness:
  "job_status (fst (process_job accepting_engine_env (sample_env (\<lambda>_. sample_success) (\<lambda>_. False) (\<lambda>_. False)) 40 ''w1'' Shut_down_task 50
      (shut_down_row, sample_system) shut_down_row sample_system)) = J_INTERRUPTED"
proof -
  let ?env = "sample_env (\<lambda>_. sample_success) (\<lambda>_. False) (\<lambda>_. False) :: unit pipeline_env"
  let ?p = "process_job accepting_engine_env ?env 40 ''w1'' Shut_down_task 50 (shut_down_row, sample_system) shut_down_row sample_system"
  have own: "owns_running ''c'' ''w1'' shut_down_row" by (simp add: owns_running_def shut_down_row_def new_job_row_def)
  have "\<exists>rp. build_context accepting_engine_env (ensure_steps stage_definitions shut_down_row) = Inr rp"
    by (simp add: build_context_def load_request_payload_def accepting_engine_env_def ensure_steps_def shut_down_row_def
        parse_stored_request_def build_vcenter_target_def sample_request_def)
  then have "execute_job accepting_engine_env ?env 40 ''w1'' Shut_down_task 50 (shut_down_row, sample_system) shut_down_row sample_system
      = (shut_down_row, sample_system)"
    using own by (auto simp: execute_job_def owns_running_def Let_def)
  then have "?p = interrupt accepting_engine_env ?env 50 SHUTDOWN_REASON shut_down_row sample_system"
    using own by (simp add: process_job_def mark_interrupted_def owns_running_def)
  then have "job_status (fst ?p) \<notin> TERMINAL_JOB_STATUSES"
    using interrupt_row_result(2) [of accepting_engine_env ?env 50 SHUTDOWN_REASON shut_down_row sample_system "fst ?p" "snd ?p"]
    by (simp add: status_sets)
  moreover have "fst ?p \<noteq> shut_down_row"
    using \<open>?p = _\<close> interrupt_row_result(2) [of accepting_engine_env ?env 50 SHUTDOWN_REASON shut_down_row sample_system "fst ?p" "snd ?p"]
    by (auto simp: shut_down_row_def)
  ultimately show ?thesis using processed_job_settled [OF own, of accepting_engine_env ?env 40 Shut_down_task 50 "(shut_down_row, sample_system)" sample_system "fst ?p" "snd ?p"]
    by simp
qed

text \<open>
  A worker never runs more jobs than its configured concurrency: what one poll claims, together with
  the tasks already running, fits the slots, and every job it starts is by then owned by this worker.
\<close>

theorem claimed_tasks_fit_slots:
  assumes "unique_jobs tbl" and "int (length (tasks e)) \<le> concurrency e" and "engine_claim e now locked tbl = (ids, tbl')"
  shows "int (length (tasks (start_claimed (Inr ids) e))) \<le> concurrency e
    \<and> set (tasks (start_claimed (Inr ids) e)) = set (tasks e) \<union> set ids
    \<and> (\<forall>r \<in> set tbl'. job_id r \<in> set ids \<longrightarrow> worker_id r = Some (engine_id e) \<and> job_status r = J_RUNNING)"
proof (cases "free_slots e \<le> 0")
  case True
  with assms show ?thesis by (auto simp: engine_claim_def start_claimed_def)
next
  case False
  let ?due = "due_jobs (free_slots e) now locked tbl"
  from False assms(3) have ids: "ids = map job_id (map (mark_claimed now (engine_id e)) ?due)"
    and tbl: "tbl' = map (\<lambda>j. if job_id j \<in> job_id ` set ?due then mark_claimed now (engine_id e) j else j) tbl"
    by (auto simp: engine_claim_def claim_due_jobs_def Let_def)
  have id: "job_id (mark_claimed now w j) = job_id j" for w j by (simp add: mark_claimed_def)
  have "int (length ids) \<le> free_slots e" using False due_jobs_length [of "free_slots e" now locked tbl] by (simp add: ids)
  with False assms(2) have "int (length (tasks e)) + int (length ids) \<le> concurrency e" by (simp add: free_slots_def)
  with spawn_all_length [of ids e] have "int (length (tasks (fold spawn ids e))) \<le> concurrency e" by linarith
  moreover have "worker_id r = Some (engine_id e) \<and> job_status r = J_RUNNING" if "r \<in> set tbl'" "job_id r \<in> set ids" for r
    using that by (auto simp: tbl ids id image_image mark_claimed_def split: if_splits)
  ultimately show ?thesis by (simp add: start_claimed_def spawn_all_tasks)
qed

definition sample_engine :: JobEngine where
  "sample_engine = init_engine \<lparr>worker_concurrency = 2, worker_poll_interval_seconds = 2, worker_heartbeat_interval_seconds = 10,
     worker_heartbeat_timeout_seconds = 60, worker_reaper_interval_seconds = 30, worker_shutdown_grace_seconds = 0\<rparr> ''w1'' 0"

lemma sample_engine_fields: "concurrency sample_engine = 2" "tasks sample_engine = []" "engine_id sample_engine = ''w1''"
  by (simp_all add: sample_engine_def init_engine_def Let_def)

theorem claimed_tasks_fit_slots_witness:
  "int (length (tasks (start_claimed (Inr (fst (engine_claim sample_engine 50 {} sample_table))) sample_engine))) \<le> 2"
  using claimed_tasks_fit_slots [OF unique_sample_table, of sample_engine 50 "{}"
      "fst (engine_claim sample_engine 50 {} sample_table)" "snd (engine_claim sample_engine 50 {} sample_table)"]
  by (simp add: sample_engine_fields)

text \<open>
  One reaper pass changes only running jobs of other workers; it interrupts each and removes its owner,
  so that the worker that lost it is told so by its next heartbeat; it stops at its budget, or when no
  running job has a heartbeat older than the timeout.
\<close>

theorem reaper_takes_stale_jobs_only:
  assumes "table_ok tbl" and "reap_stale_jobs en env timeout clk own budget tbl sy = (n, tbl', sy')"
  shows "list_all2 (\<lambda>r r'. r' = r \<or> (job_status r = J_RUNNING \<and> job_id r \<notin> set own \<and> job_status r' = J_INTERRUPTED
         \<and> (\<forall>w t. fst (heartbeat (job_id r) w t tbl') = None))) tbl tbl'
    \<and> n \<le> budget
    \<and> (n < budget \<longrightarrow> claim_stale_running_jobs (clk (budget - n - 1) - timeout) 1 own {} tbl' = [])"
proof -
  note rows = reap_rows [OF assms]
  have ids: "distinct (map job_id tbl')" using reap_table_ok [OF assms] job_rows.consistent_distinct by (simp add: table_ok_def)
  have "fst (heartbeat (job_id r) w t tbl') = None" if "r' \<in> set tbl'" "job_id r' = job_id r" "worker_id r' = None" for r r' w t
    using that ids by (intro heartbeat_disowned) (metis distinct_map inj_onD option.distinct(1))
  then have "list_all2 (\<lambda>r r'. r' = r \<or> (job_status r = J_RUNNING \<and> job_id r \<notin> set own \<and> job_status r' = J_INTERRUPTED
         \<and> (\<forall>w t. fst (heartbeat (job_id r) w t tbl') = None))) tbl tbl'"
    using rows by (auto simp: reaped_def elim!: list.rel_mono_strong)
  with rows show ?thesis by blast
qed

definition sample_stale_table :: job_table where
  "sample_stale_table = [(new_job_row ''c'' ''srv-c'' 20)\<lparr>job_status := J_RUNNING, worker_id := Some ''w9'', started_at := Some 21,
     heartbeat_at := Some 30\<rparr>]"

definition sample_engine_env :: engine_env where
  "sample_engine_env = \<lparr>model_validate = (\<lambda>_. None), vcenters = [], usernames = (\<lambda>_. None)\<rparr>"

lemma sample_stale_ok: "table_ok sample_stale_table"
proof -
  have "unique_jobs sample_stale_table"
    using job_rows.consistent_snoc [OF job_rows.consistent_Nil] by (simp add: sample_stale_table_def)
  moreover have "list_all row_ok sample_stale_table"
    by (simp add: sample_stale_table_def row_ok_def new_job_row_def status_sets)
  ultimately show ?thesis by (simp add: table_ok_def)
qed

theorem reaper_takes_stale_jobs_only_witness:
  "\<exists>r. fst (reap_stale_jobs sample_engine_env (sample_env (\<lambda>_. sample_success) (\<lambda>_. False) (\<lambda>_. False)) 60 (\<lambda>n. 200) [] 1
        sample_stale_table sample_system) = 1
     \<and> fst (snd (reap_stale_jobs sample_engine_env (sample_env (\<lambda>_. sample_success) (\<lambda>_. False) (\<lambda>_. False)) 60 (\<lambda>n. 200) [] 1
        sample_stale_table sample_system)) = [r]
     \<and> job_status r = J_INTERRUPTED \<and> fst (heartbeat ''c'' ''w9'' 300 [r]) = None"
proof -
  let ?env = "sample_env (\<lambda>_. sample_success) (\<lambda>_. False) (\<lambda>_. False) :: unit pipeline_env"
  let ?r = "reap_stale_jobs sample_engine_env ?env 60 (\<lambda>n. 200) [] 1 sample_stale_table sample_system"
  let ?j = "(new_job_row ''c'' ''srv-c'' 20)\<lparr>job_status := J_RUNNING, worker_id := Some ''w9'', started_at := Some 21, heartbeat_at := Some 30\<rparr>"
  obtain n tbl' sy' where r: "?r = (n, tbl', sy')" by (cases ?r)
  have c: "claim_stale_running_jobs (200 - 60) 1 [] {} sample_stale_table = [?j]"
    by (simp add: claim_stale_running_jobs_def sample_stale_table_def new_job_row_def)
  have b: "build_context sample_engine_env (interrupt_row 200 LOST_WORKER_REASON ?j) = Inl (''RuntimeError'', ''Job c has no stored provisioning request.'')"
    by (simp add: build_context_def load_request_payload_def interrupt_row_def Let_def set_duration_def new_job_row_def sample_engine_env_def)
  have n: "n = 1" "tbl' = put_row (interrupt_row 200 LOST_WORKER_REASON ?j) sample_stale_table"
    using r c b by (auto simp: interrupt_def Let_def split: prod.splits)
  then have "\<exists>r. tbl' = [r] \<and> job_id r = ''c'' \<and> job_status r = J_INTERRUPTED"
    using interrupt_row_fields(1,3) [of 200 LOST_WORKER_REASON ?j]
    by (simp add: put_row_def sample_stale_table_def row_key_def new_job_row_def)
  then obtain x where x: "tbl' = [x]" "job_id x = ''c''" "job_status x = J_INTERRUPTED" by blast
  have "fst (heartbeat ''c'' ''w9'' 300 tbl') = None"
    using reaper_takes_stale_jobs_only [OF sample_stale_ok r] x by (auto simp: sample_stale_table_def new_job_row_def)
  with n(1) x(1,3) r show ?thesis by (intro exI [of _ x]) simp
qed

text \<open>
  The wait for running jobs at shutdown is unbounded exactly when the configured grace is not
  positive: a grace of zero waits for every job instead.
\<close>

theorem zero_grace_waits_forever:
  "drain_timeout (init_engine st wid now) =
     (if worker_shutdown_grace_seconds st \<le> 0 then None else Some (worker_shutdown_grace_seconds st))"
  by (simp add: drain_timeout_def init_engine_def Let_def)

end
