(* ===== verification/Rbac.thy ===== *)
theory Rbac
  imports Infra_Prelude "HOL-Library.List_Lexorder" "HOL-Library.Char_ord"
begin

text \<open>
  The permission matrix (\<^verbatim>\<open>auth/permissions.py\<close>): the permissions, the three roles and the two functions that
  evaluate a list of role names, one for the decision of a route and one for the list sent to the frontend.
\<close>

datatype Permission =
    INFRASTRUCTURE_READ | PROVISIONING_VALIDATE | PROVISIONING_SUBMIT | JOBS_READ | JOBS_RETRY | JOBS_CANCEL
  | AUDIT_READ | ADMIN_VCENTERS | ADMIN_CERTIFICATES | ADMIN_APPLICATIONS | ADMIN_CREDENTIALS | ADMIN_SETTINGS

fun permission_value :: "Permission \<Rightarrow> string" where
  "permission_value INFRASTRUCTURE_READ = ''infrastructure.read''"
| "permission_value PROVISIONING_VALIDATE = ''provisioning.validate''"
| "permission_value PROVISIONING_SUBMIT = ''provisioning.submit''"
| "permission_value JOBS_READ = ''jobs.read''"
| "permission_value JOBS_RETRY = ''jobs.retry''"
| "permission_value JOBS_CANCEL = ''jobs.cancel''"
| "permission_value AUDIT_READ = ''audit.read''"
| "permission_value ADMIN_VCENTERS = ''admin.vcenters''"
| "permission_value ADMIN_CERTIFICATES = ''admin.certificates''"
| "permission_value ADMIN_APPLICATIONS = ''admin.applications''"
| "permission_value ADMIN_CREDENTIALS = ''admin.credentials''"
| "permission_value ADMIN_SETTINGS = ''admin.settings''"

definition ROLE_VIEWER :: "Permission set" where
  "ROLE_VIEWER = {INFRASTRUCTURE_READ, JOBS_READ, AUDIT_READ}"

definition ROLE_OPERATOR :: "Permission set" where
  "ROLE_OPERATOR = ROLE_VIEWER \<union> {PROVISIONING_VALIDATE, PROVISIONING_SUBMIT, JOBS_RETRY, JOBS_CANCEL}"

definition ROLE_ADMINISTRATOR :: "Permission set" where
  "ROLE_ADMINISTRATOR =
     {INFRASTRUCTURE_READ, PROVISIONING_VALIDATE, PROVISIONING_SUBMIT, JOBS_READ, JOBS_RETRY, JOBS_CANCEL,
      AUDIT_READ, ADMIN_VCENTERS, ADMIN_CERTIFICATES, ADMIN_APPLICATIONS, ADMIN_CREDENTIALS, ADMIN_SETTINGS}"

definition ROLE_PERMISSIONS :: "(string, Permission set) dict" where
  "ROLE_PERMISSIONS =
     [(''viewer'', ROLE_VIEWER), (''operator'', ROLE_OPERATOR), (''administrator'', ROLE_ADMINISTRATOR)]"

definition permissions_for_roles :: "string list \<Rightarrow> string list" where
  "permissions_for_roles roles =
     sorted_list_of_set (permission_value ` fold (\<lambda>role granted. granted \<union> dict_get ROLE_PERMISSIONS role {}) roles {})"

fun roles_grant :: "string list \<Rightarrow> Permission \<Rightarrow> bool" where
  "roles_grant [] p = False"
| "roles_grant (role # roles) p = (p \<in> dict_get ROLE_PERMISSIONS role {} \<or> roles_grant roles p)"

section \<open>Both evaluations agree\<close>

lemma administrator_has_all: "ROLE_ADMINISTRATOR = UNIV"
proof -
  have "p \<in> ROLE_ADMINISTRATOR" for p by (cases p) (simp_all add: ROLE_ADMINISTRATOR_def)
  then show ?thesis by blast
qed

lemma permission_value_inject: "permission_value p = permission_value q \<longleftrightarrow> p = q"
  by (cases p; cases q) simp_all

lemma roles_grant_iff: "roles_grant roles p \<longleftrightarrow> (\<exists>role \<in> set roles. p \<in> dict_get ROLE_PERMISSIONS role {})"
  by (induction roles) auto

lemma granted_fold:
  "fold (\<lambda>role granted. granted \<union> dict_get ROLE_PERMISSIONS role {}) roles g = g \<union> {p. roles_grant roles p}"
  by (induction roles arbitrary: g) auto

lemma set_permissions_for_roles: "set (permissions_for_roles roles) = permission_value ` {p. roles_grant roles p}"
proof -
  have "finite {p. roles_grant roles p}" by (rule finite_subset [of _ ROLE_ADMINISTRATOR]) (simp add: administrator_has_all, simp add: ROLE_ADMINISTRATOR_def)
  then show ?thesis by (simp add: permissions_for_roles_def granted_fold)
qed

lemma listed_iff_granted: "permission_value p \<in> set (permissions_for_roles roles) \<longleftrightarrow> roles_grant roles p"
  unfolding set_permissions_for_roles by (auto simp: permission_value_inject)

lemma role_hierarchy: "ROLE_VIEWER \<subset> ROLE_OPERATOR" "ROLE_OPERATOR \<subset> ROLE_ADMINISTRATOR"
proof -
  have "JOBS_RETRY \<in> ROLE_OPERATOR - ROLE_VIEWER" "ADMIN_SETTINGS \<in> ROLE_ADMINISTRATOR - ROLE_OPERATOR"
    by (simp_all add: ROLE_OPERATOR_def ROLE_VIEWER_def ROLE_ADMINISTRATOR_def)
  moreover have "ROLE_VIEWER \<subseteq> ROLE_OPERATOR" by (auto simp: ROLE_OPERATOR_def)
  ultimately show "ROLE_VIEWER \<subset> ROLE_OPERATOR" "ROLE_OPERATOR \<subset> ROLE_ADMINISTRATOR"
    by (auto simp: administrator_has_all)
qed

lemma unknown_role_grants_nothing:
  "role \<notin> {''viewer'', ''operator'', ''administrator''} \<Longrightarrow> \<not> roles_grant [role] p"
  by (simp add: dict_get_def ROLE_PERMISSIONS_def)

end
