(* ===== verification/Rate_Limit.thy ===== *)
theory Rate_Limit
  imports Infra_Prelude
begin

text \<open>
  Login rate limiting (\<^verbatim>\<open>core/rate_limit.py\<close>): the in-process sliding window, and the Redis fixed window that
  falls back to it. Clock readings are exact rationals of seconds; subtracting the whole-second window from a
  binary64 reading of the monotonic clock is exact, since both are multiples of the reading's unit in the last place.

  Redis and SHA-256 are not part of the repository: the transaction of \<^verbatim>\<open>INCR\<close> and \<^verbatim>\<open>EXPIRE\<close> is a function over the
  server's state (\<^term>\<open>None\<close> when it raises) that is given the time at which it executes, the digest is a function
  on text.
\<close>

section \<open>The limiters\<close>

record SlidingWindowRateLimiter =
  window_hits :: "(string, rat list) dict"

definition new_sliding_window :: SlidingWindowRateLimiter where
  "new_sliding_window = \<lparr>window_hits = []\<rparr>"

definition window_allow ::
  "string \<Rightarrow> int \<Rightarrow> rat \<Rightarrow> rat \<Rightarrow> SlidingWindowRateLimiter \<Rightarrow> bool \<times> SlidingWindowRateLimiter" where
  "window_allow key limit window_seconds now s =
     (let cutoff = now - window_seconds;
          hits = dropWhile (\<lambda>t. t < cutoff) (dict_get (window_hits s) key [])
      in if int (length hits) \<ge> limit then (False, s\<lparr>window_hits := AList.update key hits (window_hits s)\<rparr>)
         else (True, s\<lparr>window_hits := AList.update key (hits @ [now]) (window_hits s)\<rparr>))"

definition window_reset :: "string \<Rightarrow> SlidingWindowRateLimiter \<Rightarrow> SlidingWindowRateLimiter" where
  "window_reset key s = s\<lparr>window_hits := AList.delete key (window_hits s)\<rparr>"

record 'r redis_ops =
  incr_expire :: "rat \<Rightarrow> string \<Rightarrow> int \<Rightarrow> 'r \<Rightarrow> int option \<times> 'r"
  sha256_hex :: "string \<Rightarrow> string"

record 'r RedisRateLimiter =
  limiter_redis :: 'r
  fallback :: SlidingWindowRateLimiter

definition redis_key :: "'r redis_ops \<Rightarrow> string \<Rightarrow> int \<Rightarrow> rat \<Rightarrow> string" where
  "redis_key ops key window_seconds wall =
     ''infraops:ratelimit:'' @ take 32 (sha256_hex ops key) @ '':'' @ int_text \<lfloor>wall / of_int window_seconds\<rfloor>"

text \<open>\<open>wall\<close> is the reading of \<^verbatim>\<open>time.time()\<close>, \<open>tick\<close> that of \<^verbatim>\<open>time.monotonic()\<close>.\<close>

definition redis_allow ::
  "'r redis_ops \<Rightarrow> string \<Rightarrow> int \<Rightarrow> int \<Rightarrow> rat \<Rightarrow> rat \<Rightarrow> 'r RedisRateLimiter \<Rightarrow> bool \<times> 'r RedisRateLimiter" where
  "redis_allow ops key limit window_seconds wall tick s =
     (case incr_expire ops wall (redis_key ops key window_seconds wall) (window_seconds * 2) (limiter_redis s) of
        (Some count, r) \<Rightarrow> (count \<le> limit, s\<lparr>limiter_redis := r\<rparr>)
      | (None, r) \<Rightarrow>
          (case window_allow key limit (of_int window_seconds) tick (fallback s) of
             (ok, f) \<Rightarrow> (ok, s\<lparr>limiter_redis := r, fallback := f\<rparr>)))"

section \<open>Sequences of attempts\<close>

text \<open>An attempt is a key with both clock readings; the limiter is called with one limit and one window.\<close>

type_synonym attempt = "string \<times> rat \<times> rat"

fun run_attempts ::
  "'r redis_ops \<Rightarrow> int \<Rightarrow> int \<Rightarrow> attempt list \<Rightarrow> 'r RedisRateLimiter \<Rightarrow> attempt list \<times> 'r RedisRateLimiter" where
  "run_attempts ops limit w [] s = ([], s)"
| "run_attempts ops limit w ((k, wall, tick) # as) s =
     (case redis_allow ops k limit w wall tick s of
        (ok, s1) \<Rightarrow>
          (case run_attempts ops limit w as s1 of
             (granted, s2) \<Rightarrow> (if ok then (k, wall, tick) # granted else granted, s2)))"

definition clocks_advance :: "attempt list \<Rightarrow> bool" where
  "clocks_advance as \<longleftrightarrow> sorted_wrt (\<lambda>(_, w1, m1) (_, w2, m2). w1 \<le> w2 \<and> m1 \<le> m2) as"

text \<open>
  What Redis documents: \<open>cnt r k t\<close> is the counter under \<open>k\<close> as seen at time \<open>t\<close>. A successful transaction returns
  the incremented counter and keeps it for the given time to live; other keys are untouched; a failed transaction
  may or may not have counted.
\<close>

definition redis_counts :: "'r redis_ops \<Rightarrow> ('r \<Rightarrow> string \<Rightarrow> rat \<Rightarrow> int) \<Rightarrow> bool" where
  "redis_counts ops cnt \<longleftrightarrow>
     (\<forall>t k ttl r. case incr_expire ops t k ttl r of
        (Some n, r') \<Rightarrow>
          n = cnt r k t + 1 \<and> (\<forall>u. t \<le> u \<and> u < t + of_int ttl \<longrightarrow> cnt r' k u = n) \<and> (\<forall>k'. k' \<noteq> k \<longrightarrow> cnt r' k' = cnt r k')
      | (None, r') \<Rightarrow> \<forall>k' u. t \<le> u \<longrightarrow> cnt r k' u \<le> cnt r' k' u)
     \<and> (\<forall>r k t. 0 \<le> cnt r k t) \<and> (\<forall>x. length (sha256_hex ops x) = 64)"

text \<open>The log of a run: each attempt with its decision and whether Redis took it.\<close>

fun attempt_log :: "'r redis_ops \<Rightarrow> int \<Rightarrow> int \<Rightarrow> attempt list \<Rightarrow> 'r RedisRateLimiter \<Rightarrow> (attempt \<times> bool \<times> bool) list" where
  "attempt_log ops limit w [] s = []"
| "attempt_log ops limit w ((k, wall, tick) # as) s =
     ((k, wall, tick), fst (redis_allow ops k limit w wall tick s),
        fst (incr_expire ops wall (redis_key ops k w wall) (w * 2) (limiter_redis s)) \<noteq> None)
     # attempt_log ops limit w as (snd (redis_allow ops k limit w wall tick s))"

lemma granted_log: "fst (run_attempts ops limit w as s) = map fst (filter (\<lambda>(_, ok, _). ok) (attempt_log ops limit w as s))"
  by (induction as arbitrary: s) (auto simp: case_prod_beta)

lemma log_attempts: "(a, ok, red) \<in> set (attempt_log ops limit w as s) \<Longrightarrow> a \<in> set as"
proof (induction as arbitrary: s)
  case (Cons b as)
  then show ?case by (cases b) (auto dest: Cons.IH)
qed simp

lemma int_text_inject [simp]: "int_text i = int_text j \<longleftrightarrow> i = j"
proof -
  have d: "hd (nat_text n) \<noteq> CHR ''-''" for n
    using nat_text_digits [of n] nat_text_not_Nil [of n] by (cases "nat_text n") (auto simp: is_digit_def)
  have "CHR ''-'' # x = nat_text n \<Longrightarrow> False" for x n using d [of n] by (metis list.sel(1))
  note this this [OF sym]
  then show ?thesis by (auto simp: int_text_def split: if_splits)
qed

lemma redis_key_bucket:
  assumes "redis_counts ops cnt" and "redis_key ops k w t = redis_key ops k' w u"
  shows "\<lfloor>t / of_int w\<rfloor> = \<lfloor>u / of_int w\<rfloor>"
proof -
  have "length (take 32 (sha256_hex ops x)) = 32" for x using assms(1) by (simp add: redis_counts_def)
  then show ?thesis using assms(2) by (simp add: redis_key_def append_eq_append_conv)
qed

lemma same_bucket_near:
  fixes t u :: rat
  assumes "0 < w" and "\<lfloor>t / of_int w\<rfloor> = \<lfloor>u / of_int w\<rfloor>"
  shows "u < t + of_int (w * 2)"
proof -
  have w: "0 < (of_int w :: rat)" using assms(1) by simp
  have "u / of_int w < t / of_int w + 1" using assms(2) by linarith
  then have "u < (t / of_int w + 1) * of_int w" using w by (simp add: pos_divide_less_eq)
  also have "\<dots> = t + of_int w" using w by (simp add: distrib_right)
  finally show ?thesis using w by simp
qed

lemma redis_law:
  assumes "redis_counts ops cnt" and "incr_expire ops t k ttl r = (n, r')"
  shows "n = Some m \<Longrightarrow> m = cnt r k t + 1"
    and "n = Some m \<Longrightarrow> t \<le> u \<Longrightarrow> u < t + of_int ttl \<Longrightarrow> cnt r' k u = m"
    and "n = Some m \<Longrightarrow> k' \<noteq> k \<Longrightarrow> cnt r' k' = cnt r k'"
    and "n = None \<Longrightarrow> t \<le> u \<Longrightarrow> cnt r k' u \<le> cnt r' k' u"
proof -
  have "case (n, r') of
      (Some n, r') \<Rightarrow> n = cnt r k t + 1 \<and> (\<forall>u. t \<le> u \<and> u < t + of_int ttl \<longrightarrow> cnt r' k u = n) \<and> (\<forall>k'. k' \<noteq> k \<longrightarrow> cnt r' k' = cnt r k')
    | (None, r') \<Rightarrow> \<forall>k' u. t \<le> u \<longrightarrow> cnt r k' u \<le> cnt r' k' u"
    unfolding assms(2) [symmetric]
    by (rule assms(1) [unfolded redis_counts_def, THEN conjunct1, THEN spec, THEN spec, THEN spec, THEN spec])
  then show "n = Some m \<Longrightarrow> m = cnt r k t + 1"
    and "n = Some m \<Longrightarrow> t \<le> u \<Longrightarrow> u < t + of_int ttl \<Longrightarrow> cnt r' k u = m"
    and "n = Some m \<Longrightarrow> k' \<noteq> k \<Longrightarrow> cnt r' k' = cnt r k'"
    and "n = None \<Longrightarrow> t \<le> u \<Longrightarrow> cnt r k' u \<le> cnt r' k' u" by auto
qed

definition redis_granted :: "string \<Rightarrow> int \<Rightarrow> int \<Rightarrow> (attempt \<times> bool \<times> bool) list \<Rightarrow> nat" where
  "redis_granted k w b entries = length (filter (\<lambda>((k', wall, _), ok, red). k' = k \<and> \<lfloor>wall / of_int w\<rfloor> = b \<and> ok \<and> red) entries)"

lemma redis_granted_bound:
  assumes R: "redis_counts ops cnt" and w: "0 < w"
  shows "clocks_advance as \<Longrightarrow> (\<And>a. a \<in> set as \<Longrightarrow> start \<le> fst (snd a)) \<Longrightarrow> 0 \<le> c
    \<Longrightarrow> (\<And>u. start \<le> u \<Longrightarrow> \<lfloor>u / of_int w\<rfloor> = b \<Longrightarrow> c \<le> cnt (limiter_redis s) (redis_key ops k w u) u)
    \<Longrightarrow> int (redis_granted k w b (attempt_log ops limit w as s)) \<le> max 0 (limit - c)"
proof (induction as arbitrary: s start c)
  case (Cons a as)
  obtain k' wall tick where a: "a = (k', wall, tick)" by (cases a)
  let ?rk = "redis_key ops k' w wall"
  obtain n r where i: "incr_expire ops wall ?rk (w * 2) (limiter_redis s) = (n, r)" by fastforce
  have later: "clocks_advance as" "\<And>x. x \<in> set as \<Longrightarrow> wall \<le> fst (snd x)"
    using Cons.prems(1) a by (auto simp: clocks_advance_def)
  have start: "start \<le> wall" using Cons.prems(2) a by force
  define s1 where "s1 = snd (redis_allow ops k' limit w wall tick s)"
  have s1: "limiter_redis s1 = r" by (auto simp: s1_def redis_allow_def i split: option.splits prod.splits)
  note law = redis_law [OF R i]
  show ?case
  proof (cases "n \<noteq> None \<and> (\<exists>u. start \<le> u \<and> \<lfloor>u / of_int w\<rfloor> = b \<and> redis_key ops k w u = ?rk)")
    case True
    then obtain m v where m: "n = Some m" and v: "\<lfloor>v / of_int w\<rfloor> = b" "redis_key ops k w v = ?rk" by auto
    have b: "\<lfloor>wall / of_int w\<rfloor> = b" using redis_key_bucket [OF R v(2)] v(1) by simp
    then have rk: "redis_key ops k w u = ?rk" if "\<lfloor>u / of_int w\<rfloor> = b" for u
      using v that by (simp add: redis_key_def)
    have mc: "c + 1 \<le> m" using law(1) [OF m] Cons.prems(4) [OF start b] rk [OF b] by simp
    have "int (redis_granted k w b (attempt_log ops limit w as s1)) \<le> max 0 (limit - m)"
    proof (rule Cons.IH [OF later])
      show "0 \<le> m" using mc Cons.prems(3) by simp
      fix u assume "wall \<le> u" and u: "\<lfloor>u / of_int w\<rfloor> = b"
      then have "cnt r ?rk u = m" using law(2) [OF m] same_bucket_near [OF w, of wall u] b by simp
      then show "m \<le> cnt (limiter_redis s1) (redis_key ops k w u) u" by (simp add: s1 rk [OF u])
    qed
    moreover have "fst (redis_allow ops k' limit w wall tick s) = (m \<le> limit)" by (simp add: redis_allow_def i m)
    ultimately show ?thesis using mc by (auto simp: a redis_granted_def s1_def [symmetric])
  next
    case False
    then have un: "\<not> (k' = k \<and> \<lfloor>wall / of_int w\<rfloor> = b \<and> n \<noteq> None)" using start by auto
    have "int (redis_granted k w b (attempt_log ops limit w as s1)) \<le> max 0 (limit - c)"
    proof (rule Cons.IH [OF later Cons.prems(3)])
      fix u assume u: "wall \<le> u" "\<lfloor>u / of_int w\<rfloor> = b"
      then have "c \<le> cnt (limiter_redis s) (redis_key ops k w u) u" using Cons.prems(4) start by simp
      also have "\<dots> \<le> cnt r (redis_key ops k w u) u"
      proof (cases n)
        case (Some m)
        then have "redis_key ops k w u \<noteq> ?rk" using False u start by (metis option.simps(3) order_trans)
        then show ?thesis using law(3) [OF Some] by simp
      qed (use law(4) u in simp)
      finally show "c \<le> cnt (limiter_redis s1) (redis_key ops k w u) u" by (simp add: s1)
    qed
    then show ?thesis using un by (auto simp: a redis_granted_def s1_def [symmetric] i)
  qed
qed (simp add: redis_granted_def)

definition fallback_granted :: "string \<Rightarrow> rat \<Rightarrow> rat \<Rightarrow> (attempt \<times> bool \<times> bool) list \<Rightarrow> nat" where
  "fallback_granted k lo hi entries = length (filter (\<lambda>((k', _, tick), ok, red). k' = k \<and> lo \<le> tick \<and> tick \<le> hi \<and> ok \<and> \<not> red) entries)"

definition recent_hits :: "string \<Rightarrow> rat \<Rightarrow> SlidingWindowRateLimiter \<Rightarrow> nat" where
  "recent_hits k lo f = length (filter (\<lambda>t. lo \<le> t) (dict_get (window_hits f) k []))"

lemma filter_dropWhile_below:
  "(\<And>t. P t \<Longrightarrow> \<not> Q t) \<Longrightarrow> filter Q (dropWhile P xs) = filter Q xs"
  by (induction xs) auto

lemma window_allow_other: "k' \<noteq> k \<Longrightarrow> recent_hits k lo (snd (window_allow k' limit w t f)) = recent_hits k lo f"
  by (simp add: window_allow_def recent_hits_def Let_def)

lemma window_allow_recent:
  assumes "t \<le> lo + w"
  shows "recent_hits k lo (snd (window_allow k limit w t f)) = recent_hits k lo f + (if fst (window_allow k limit w t f) \<and> lo \<le> t then 1 else 0)"
    and "fst (window_allow k limit w t f) \<Longrightarrow> int (recent_hits k lo f) < limit"
proof -
  let ?h = "dropWhile (\<lambda>u. u < t - w) (dict_get (window_hits f) k [])"
  have h: "filter (\<lambda>u. lo \<le> u) ?h = filter (\<lambda>u. lo \<le> u) (dict_get (window_hits f) k [])"
    by (rule filter_dropWhile_below) (use assms in linarith)
  show "recent_hits k lo (snd (window_allow k limit w t f)) = recent_hits k lo f + (if fst (window_allow k limit w t f) \<and> lo \<le> t then 1 else 0)"
    by (simp add: window_allow_def recent_hits_def Let_def h)
  assume "fst (window_allow k limit w t f)"
  then have "int (length ?h) < limit" by (simp add: window_allow_def Let_def split: if_splits)
  moreover have "recent_hits k lo f \<le> length ?h" unfolding recent_hits_def h [symmetric] by (rule length_filter_le)
  ultimately show "int (recent_hits k lo f) < limit" by linarith
qed

lemma fallback_granted_late:
  "(\<And>a. a \<in> set as \<Longrightarrow> hi < snd (snd a)) \<Longrightarrow> fallback_granted k lo hi (attempt_log ops limit w as s) = 0"
  unfolding fallback_granted_def by (auto simp: filter_empty_conv dest!: log_attempts) force

lemma fallback_granted_bound:
  "clocks_advance as \<Longrightarrow>
   int (fallback_granted k lo (lo + of_int w) (attempt_log ops limit w as s)) + int (recent_hits k lo (fallback s))
     \<le> max limit (int (recent_hits k lo (fallback s)))"
proof (induction as arbitrary: s)
  case (Cons a as)
  obtain k' wall tick where a: "a = (k', wall, tick)" by (cases a)
  have later: "clocks_advance as" "\<And>x. x \<in> set as \<Longrightarrow> tick \<le> snd (snd x)"
    using Cons.prems a by (auto simp: clocks_advance_def)
  obtain n r where i: "incr_expire ops wall (redis_key ops k' w wall) (w * 2) (limiter_redis s) = (n, r)" by fastforce
  define s1 where "s1 = snd (redis_allow ops k' limit w wall tick s)"
  note IH = Cons.IH [OF later(1), of s1]
  let ?f = "window_allow k' limit (of_int w) tick (fallback s)"
  have step: "fallback_granted k lo (lo + of_int w) (attempt_log ops limit w (a # as) s)
      = (if k' = k \<and> lo \<le> tick \<and> tick \<le> lo + of_int w \<and> fst (redis_allow ops k' limit w wall tick s) \<and> n = None then 1 else 0)
        + fallback_granted k lo (lo + of_int w) (attempt_log ops limit w as s1)"
    by (auto simp: a fallback_granted_def i s1_def)
  show ?case
  proof (cases "n = None \<and> k' = k")
    case False
    then have "recent_hits k lo (fallback s1) = recent_hits k lo (fallback s)"
      using window_allow_other [of k' k lo limit "of_int w" tick "fallback s"]
      by (auto simp: s1_def redis_allow_def i case_prod_beta split: option.splits)
    with False IH show ?thesis unfolding step by auto
  next
    case True
    then have g: "fst (redis_allow ops k' limit w wall tick s) = fst ?f" "fallback s1 = snd ?f"
      using i by (auto simp: s1_def redis_allow_def split: prod.splits)
    show ?thesis
    proof (cases "tick \<le> lo + of_int w")
      case in_window: True
      note rec = window_allow_recent [OF in_window, of k limit "fallback s"]
      show ?thesis using IH rec True g in_window unfolding step by (auto split: if_splits)
    next
      case False
      then have "fallback_granted k lo (lo + of_int w) (attempt_log ops limit w (a # as) s) = 0"
        using later(2) a by (intro fallback_granted_late) force
      then show ?thesis by simp
    qed
  qed
qed (simp add: fallback_granted_def)

section \<open>The limiter never fails open\<close>

lemma window_two_buckets:
  fixes a t :: rat
  assumes "0 < w" "a \<le> t" "t < a + of_int w"
  shows "\<lfloor>t / of_int w\<rfloor> \<in> {\<lfloor>a / of_int w\<rfloor>, \<lfloor>a / of_int w\<rfloor> + 1}"
proof -
  have w: "0 < (of_int w :: rat)" using assms(1) by simp
  have "t / of_int w < a / of_int w + 1" using assms(3) w by (simp add: pos_divide_less_eq distrib_right)
  moreover have "a / of_int w \<le> t / of_int w" using assms(2) w by (simp add: divide_right_mono)
  ultimately show ?thesis by (simp add: floor_eq_iff) linarith
qed

text \<open>
  C33. The login limiter never fails open: whichever of its Redis calls fail, Redis grants a key at most its limit in each
  fixed window of its clock, the in-process fallback grants it at most the limit in any window of the length, and
  together they grant it at most three times the limit in any window (which may overlap two fixed windows of Redis).
  Within any window the limit itself is not the bound: the fixed windows alone allow twice the limit.
\<close>

theorem granted_attempts_bounded:
  assumes "redis_counts ops cnt" and "0 < w" and "0 \<le> limit" and "clocks_advance as"
  shows "int (redis_granted k w i (attempt_log ops limit w as \<lparr>limiter_redis = r, fallback = new_sliding_window\<rparr>)) \<le> limit
    \<and> int (fallback_granted k b (b + of_int w) (attempt_log ops limit w as \<lparr>limiter_redis = r, fallback = new_sliding_window\<rparr>)) \<le> limit
    \<and> int (length (filter (\<lambda>(k', wall, tick). k' = k \<and> a \<le> wall \<and> wall < a + of_int w \<and> b \<le> tick \<and> tick \<le> b + of_int w)
      (fst (run_attempts ops limit w as \<lparr>limiter_redis = r, fallback = new_sliding_window\<rparr>)))) \<le> 3 * limit"
proof -
  let ?s = "\<lparr>limiter_redis = r, fallback = new_sliding_window\<rparr>"
  let ?l = "attempt_log ops limit w as ?s"
  let ?B = "\<lfloor>a / of_int w\<rfloor>"
  let ?in = "\<lambda>(k', wall, tick). k' = k \<and> a \<le> wall \<and> wall < a + of_int w \<and> b \<le> tick \<and> tick \<le> b + of_int w"
  have "length (filter (\<lambda>e. ?in (fst e) \<and> fst (snd e)) entries)
      \<le> redis_granted k w ?B entries + redis_granted k w (?B + 1) entries + fallback_granted k b (b + of_int w) entries" for entries
  proof (induction entries)
    case (Cons e es)
    obtain k' wall tick ok red where e: "e = ((k', wall, tick), ok, red)" by (metis surj_pair)
    show ?case using Cons window_two_buckets [OF assms(2), of a wall]
      by (auto simp: e redis_granted_def fallback_granted_def)
  qed simp
  from this [of ?l] have "length (filter ?in (fst (run_attempts ops limit w as ?s)))
      \<le> redis_granted k w ?B ?l + redis_granted k w (?B + 1) ?l + fallback_granted k b (b + of_int w) ?l"
    unfolding granted_log by (simp add: filter_map o_def case_prod_beta conj_commute)
  moreover have g: "int (redis_granted k w i ?l) \<le> limit" for i
  proof (cases as)
    case (Cons x xs)
    have "int (redis_granted k w i ?l) \<le> max 0 (limit - 0)"
      by (rule redis_granted_bound [OF assms(1,2,4), where start = "fst (snd x)"])
        (use assms(1,4) Cons in \<open>auto simp: redis_counts_def clocks_advance_def\<close>)
    with assms(3) show ?thesis by simp
  qed (simp add: redis_granted_def assms(3))
  moreover have "int (fallback_granted k b (b + of_int w) ?l) \<le> limit"
    using fallback_granted_bound [OF assms(4), of k b w ops limit ?s] assms(3)
    by (simp add: recent_hits_def new_sliding_window_def dict_get_def)
  ultimately show ?thesis using g [of i] g [of ?B] g [of "?B + 1"] by linarith
qed

text \<open>A server that keeps every counter; it fails on every call while it is down.\<close>

definition memory_redis :: "bool \<Rightarrow> (string \<Rightarrow> int) redis_ops" where
  "memory_redis up = \<lparr>incr_expire = (\<lambda>t k ttl r. if up then (Some (\<bar>r k\<bar> + 1), r(k := \<bar>r k\<bar> + 1)) else (None, r)),
     sha256_hex = (\<lambda>x. replicate 64 (CHR ''0''))\<rparr>"

theorem granted_attempts_bounded_witness:
  "let as = [(''login-user:eve'', 0, 0), (''login-user:eve'', 1, 1), (''login-user:eve'', 2, 2)] in
   fst (run_attempts (memory_redis True) 1 60 as \<lparr>limiter_redis = (\<lambda>_. 0), fallback = new_sliding_window\<rparr>) = [(''login-user:eve'', 0, 0)]
   \<and> fst (run_attempts (memory_redis False) 2 60 as \<lparr>limiter_redis = (\<lambda>_. 0), fallback = new_sliding_window\<rparr>)
       = [(''login-user:eve'', 0, 0), (''login-user:eve'', 1, 1)]
   \<and> int (length (filter (\<lambda>(k', wall, tick). k' = ''login-user:eve'' \<and> 0 \<le> wall \<and> wall < 0 + of_int 60 \<and> 0 \<le> tick \<and> tick \<le> 0 + of_int 60)
       (fst (run_attempts (memory_redis True) 1 60 as \<lparr>limiter_redis = (\<lambda>_. 0), fallback = new_sliding_window\<rparr>)))) \<le> 3 * 1"
proof -
  let ?as = "[(''login-user:eve'', 0, 0), (''login-user:eve'', 1, 1), (''login-user:eve'', 2, 2)] :: attempt list"
  have r: "redis_counts (memory_redis True) (\<lambda>r k t. \<bar>r k\<bar>)" by (simp add: redis_counts_def memory_redis_def)
  have c: "clocks_advance ?as" by (simp add: clocks_advance_def)
  have fl: "\<lfloor>1 / 60 :: rat\<rfloor> = 0" "\<lfloor>1 / 30 :: rat\<rfloor> = 0" by (simp_all add: floor_eq_iff)
  have e: "fst (run_attempts (memory_redis True) 1 60 ?as \<lparr>limiter_redis = (\<lambda>_. 0), fallback = new_sliding_window\<rparr>) = [(''login-user:eve'', 0, 0)]"
    "fst (run_attempts (memory_redis False) 2 60 ?as \<lparr>limiter_redis = (\<lambda>_. 0), fallback = new_sliding_window\<rparr>)
       = [(''login-user:eve'', 0, 0), (''login-user:eve'', 1, 1)]"
    by (simp_all add: memory_redis_def redis_allow_def redis_key_def window_allow_def new_sliding_window_def dict_get_def Let_def fl)
  show ?thesis
    unfolding Let_def using granted_attempts_bounded [OF r _ _ c, of 60 1 "''login-user:eve''" 0 "\<lambda>_. 0" 0 0] e by simp
qed

end
