(* ===== verification/Auth_Sessions.thy ===== *)
theory Auth_Sessions
  imports Audit_Trail Rbac Rate_Limit Settings_Store Py_Text Indexed_Table
begin

text \<open>
  Sign-in sessions: password hashing and tokens (\<^verbatim>\<open>core/security.py\<close>), the authentication service
  (\<^verbatim>\<open>auth/service.py\<close>) over the users and the refresh-token registry (\<^verbatim>\<open>models/auth_tokens.py\<close>), the routes of
  \<^verbatim>\<open>api/v1/auth.py\<close> and the authorization dependencies (\<^verbatim>\<open>auth/dependencies.py\<close>).

  The JWT library and the cryptographic primitives are parameters: \<^verbatim>\<open>jwt.encode\<close> and \<^verbatim>\<open>jwt.decode\<close> with the configured
  key and issuer, scrypt and base64. Random identifiers and the clock readings of one request are the fields of
  \<open>draws\<close>. A failing request leaves the database as the last commit before the failure; the cookie flags that depend
  on the request's scheme are not modelled.
\<close>

section \<open>Passwords\<close>

record crypto_ops =
  scrypt :: "string \<Rightarrow> string \<Rightarrow> int \<Rightarrow> int \<Rightarrow> int \<Rightarrow> nat \<Rightarrow> string option"
  b64encode :: "string \<Rightarrow> string"
  b64decode :: "string \<Rightarrow> string option"

definition SCRYPT_N :: nat where "SCRYPT_N = 2 ^ 14"
definition SCRYPT_R :: nat where "SCRYPT_R = 8"
definition SCRYPT_P :: nat where "SCRYPT_P = 1"
definition DKLEN :: nat where "DKLEN = 64"

definition hash_password :: "crypto_ops \<Rightarrow> string \<Rightarrow> string \<Rightarrow> string option" where
  "hash_password ops salt password =
     map_option (\<lambda>digest. join_on ''$'' [''scrypt'', nat_text SCRYPT_N, nat_text SCRYPT_R, nat_text SCRYPT_P,
         b64encode ops salt, b64encode ops digest])
       (scrypt ops password salt (int SCRYPT_N) (int SCRYPT_R) (int SCRYPT_P) DKLEN)"

text \<open>Every \<^verbatim>\<open>ValueError\<close> or \<^verbatim>\<open>TypeError\<close> (a wrong number of fields, a bad number, bad base64, bad parameters) is a mismatch.\<close>

definition verify_password :: "crypto_ops \<Rightarrow> string \<Rightarrow> string \<Rightarrow> bool" where
  "verify_password ops password stored =
     (case split_on (CHR ''$'') stored of
        [algorithm, n, r, p, salt_b64, digest_b64] \<Rightarrow>
          algorithm = ''scrypt'' \<and>
          (case (b64decode ops digest_b64, b64decode ops salt_b64, int_of_text n, int_of_text r, int_of_text p) of
             (Some expected, Some salt, Some n', Some r', Some p') \<Rightarrow>
               (case scrypt ops password salt n' r' p' (length expected) of
                  None \<Rightarrow> False
                | Some actual \<Rightarrow> actual = expected)
           | _ \<Rightarrow> False)
      | _ \<Rightarrow> False)"

section \<open>Tokens\<close>

datatype auth_error =
    AuthenticationError string
  | RefreshTokenReuseError uuid
  | AuthorizationError string
  | RateLimitError string
  | MissingClaim
  | DuplicateToken

datatype jwt_error = ExpiredSignature | InvalidToken

record jwt_ops =
  jwt_encode :: "json_dict \<Rightarrow> string"
  jwt_decode :: "timestamp \<Rightarrow> string \<Rightarrow> jwt_error + json_dict"

record token_settings =
  access_token_expire_minutes :: int
  refresh_token_expire_minutes :: int
  rate_limit_login_per_minute :: int

record draws =
  access_jti :: string
  refresh_jti :: string
  new_family :: string
  at_decode :: timestamp
  at_check :: timestamp
  at_revoke :: timestamp
  at_access :: timestamp
  at_refresh :: timestamp
  at_response :: timestamp

definition minutes :: "int \<Rightarrow> timestamp" where
  "minutes m = m * 60000000"

definition create_token ::
  "jwt_ops \<Rightarrow> timestamp \<Rightarrow> string \<Rightarrow> string \<Rightarrow> string \<Rightarrow> int \<Rightarrow> json_dict \<Rightarrow> string \<times> string \<times> timestamp" where
  "create_token jwt now jti subject token_type expires_minutes extra =
     (let expires_at = now + minutes expires_minutes;
          payload = [(''sub'', JStr subject), (''type'', JStr token_type), (''jti'', JStr jti),
            (''iat'', JInt (py_int (total_seconds now))), (''exp'', JInt (py_int (total_seconds expires_at))),
            (''iss'', JStr ''infraops'')]
      in (jwt_encode jwt (dict_update payload extra), jti, expires_at))"

definition create_access_token ::
  "jwt_ops \<Rightarrow> token_settings \<Rightarrow> draws \<Rightarrow> string \<Rightarrow> string list \<Rightarrow> string \<times> timestamp" where
  "create_access_token jwt st d subject roles =
     (case create_token jwt (at_access d) (access_jti d) subject ''access'' (access_token_expire_minutes st)
            [(''roles'', JList (map JStr roles))] of
        (token, _, expires_at) \<Rightarrow> (token, expires_at))"

definition create_refresh_token :: "jwt_ops \<Rightarrow> token_settings \<Rightarrow> draws \<Rightarrow> string \<Rightarrow> string \<times> string \<times> timestamp" where
  "create_refresh_token jwt st d subject =
     create_token jwt (at_refresh d) (refresh_jti d) subject ''refresh'' (refresh_token_expire_minutes st) []"

definition decode_token :: "jwt_ops \<Rightarrow> timestamp \<Rightarrow> string \<Rightarrow> string \<Rightarrow> auth_error + json_dict" where
  "decode_token jwt now token expected_type =
     (case jwt_decode jwt now token of
        Inl ExpiredSignature \<Rightarrow> Inl (AuthenticationError ''Session token has expired.'')
      | Inl InvalidToken \<Rightarrow> Inl (AuthenticationError ''Invalid session token.'')
      | Inr payload \<Rightarrow>
          if map_of payload ''type'' \<noteq> Some (JStr expected_type) then Inl (AuthenticationError ''Invalid token type.'')
          else Inr payload)"

section \<open>The registry\<close>

record User =
  user_id :: uuid
  username :: string
  email :: "string option"
  full_name :: "string option"
  password_hash :: "string option"
  is_active :: bool
  roles :: "string list"
  last_login_at :: "timestamp option"

definition role_names :: "User \<Rightarrow> string list" where
  "role_names u = sort (roles u)"

record RefreshToken =
  jti :: string
  family_id :: string
  rt_user_id :: uuid
  expires_at :: timestamp
  used_at :: "timestamp option"
  revoked_at :: "timestamp option"

record IssuedTokens =
  access_token :: string
  access_expires_at :: timestamp
  refresh_token :: string

record AuthState =
  users :: "User list"
  refresh_tokens :: "RefreshToken list"
  audit_rows :: "AuditEvent list"

definition CONCURRENT_REFRESH_GRACE :: timestamp where
  "CONCURRENT_REFRESH_GRACE = 10000000"

text \<open>The dummy verification for unknown accounts only equalises the response time; its result is not used.\<close>

definition authenticate :: "crypto_ops \<Rightarrow> string \<Rightarrow> string \<Rightarrow> AuthState \<Rightarrow> auth_error + User" where
  "authenticate ops name password s =
     (case find (\<lambda>u. username u = name) (users s) of
        None \<Rightarrow> Inl (AuthenticationError ''Invalid username or password.'')
      | Some u \<Rightarrow>
          if \<not> is_active u \<or> \<not> truthy_text (password_hash u) then Inl (AuthenticationError ''Invalid username or password.'')
          else if \<not> verify_password ops password (the (password_hash u))
          then Inl (AuthenticationError ''Invalid username or password.'')
          else Inr u)"

definition issue_tokens ::
  "jwt_ops \<Rightarrow> token_settings \<Rightarrow> draws \<Rightarrow> User \<Rightarrow> string option \<Rightarrow> AuthState \<Rightarrow> auth_error + IssuedTokens \<times> AuthState" where
  "issue_tokens jwt st d u family s =
     (case create_access_token jwt st d (user_id u) (role_names u) of
        (access, access_exp) \<Rightarrow>
          (case create_refresh_token jwt st d (user_id u) of
             (refresh, j, refresh_exp) \<Rightarrow>
               if j \<in> jti ` set (refresh_tokens s) then Inl DuplicateToken
               else Inr (\<lparr>access_token = access, access_expires_at = access_exp, refresh_token = refresh\<rparr>,
                 s\<lparr>refresh_tokens := refresh_tokens s @
                   [\<lparr>jti = j, family_id = text_or family (new_family d), rt_user_id = user_id u,
                     expires_at = refresh_exp, used_at = None, revoked_at = None\<rparr>]\<rparr>)))"

text \<open>
  The operations are those of one request at a time: each reads what the requests before it committed. (The row that a
  rotation reads is locked for update until it commits, so two rotations of one token always run so; requests for other
  tokens of the family may overlap, which is outside the model.)
\<close>

definition revoke_family :: "timestamp \<Rightarrow> string \<Rightarrow> AuthState \<Rightarrow> AuthState" where
  "revoke_family now family s =
     s\<lparr>refresh_tokens := map (\<lambda>r. if family_id r = family \<and> revoked_at r = None
        then r\<lparr>revoked_at := Some now\<rparr> else r) (refresh_tokens s)\<rparr>"

definition get_active_user :: "AuthState \<Rightarrow> string \<Rightarrow> User option" where
  "get_active_user s uid =
     (case parse_uuid uid of
        None \<Rightarrow> None
      | Some parsed \<Rightarrow>
          (case find (\<lambda>u. user_id u = parsed) (users s) of
             None \<Rightarrow> None
           | Some u \<Rightarrow> if is_active u then Some u else None))"

definition reused :: "timestamp \<Rightarrow> RefreshToken \<Rightarrow> bool" where
  "reused now r = (case used_at r of None \<Rightarrow> False | Some t \<Rightarrow> now - t > CONCURRENT_REFRESH_GRACE)"

definition mark_used :: "timestamp \<Rightarrow> string \<Rightarrow> AuthState \<Rightarrow> AuthState" where
  "mark_used now j s =
     s\<lparr>refresh_tokens := map (\<lambda>r. if jti r = j \<and> used_at r = None then r\<lparr>used_at := Some now\<rparr> else r) (refresh_tokens s)\<rparr>"

definition rotate_refresh_token ::
  "jwt_ops \<Rightarrow> token_settings \<Rightarrow> draws \<Rightarrow> string \<Rightarrow> AuthState \<Rightarrow> (auth_error + User \<times> IssuedTokens) \<times> AuthState" where
  "rotate_refresh_token jwt st d token s =
     (case decode_token jwt (at_decode d) token ''refresh'' of
        Inl e \<Rightarrow> (Inl e, s)
      | Inr payload \<Rightarrow>
          (case find (\<lambda>r. jti r = get_text payload ''jti'') (refresh_tokens s) of
             None \<Rightarrow> (Inl (AuthenticationError ''Session is no longer valid. Please sign in again.''), s)
           | Some row \<Rightarrow>
               if rt_user_id row \<noteq> py_str (dict_get payload ''sub'' JNull)
               then (Inl (AuthenticationError ''Session is no longer valid. Please sign in again.''), s)
               else if revoked_at row \<noteq> None
               then (Inl (AuthenticationError ''Session was signed out. Please sign in again.''), s)
               else if reused (at_check d) row
               then (Inl (RefreshTokenReuseError (rt_user_id row)), revoke_family (at_revoke d) (family_id row) s)
               else
                 (case get_active_user s (rt_user_id row) of
                    None \<Rightarrow> (Inl (AuthenticationError ''Account no longer active.''),
                             revoke_family (at_revoke d) (family_id row) s)
                  | Some u \<Rightarrow>
                      (case issue_tokens jwt st d u (Some (family_id row)) (mark_used (at_check d) (jti row) s) of
                         Inl e \<Rightarrow> (Inl e, s)
                       | Inr (tokens, s') \<Rightarrow> (Inr (u, tokens), s')))))"

definition revoke_refresh_token :: "jwt_ops \<Rightarrow> draws \<Rightarrow> string \<Rightarrow> AuthState \<Rightarrow> uuid option \<times> AuthState" where
  "revoke_refresh_token jwt d token s =
     (case decode_token jwt (at_decode d) token ''refresh'' of
        Inl _ \<Rightarrow> (None, s)
      | Inr payload \<Rightarrow>
          (case find (\<lambda>r. jti r = get_text payload ''jti'') (refresh_tokens s) of
             None \<Rightarrow> (None, s)
           | Some row \<Rightarrow> (Some (rt_user_id row), revoke_family (at_revoke d) (family_id row) s)))"

definition purge_expired_refresh_tokens :: "timestamp \<Rightarrow> AuthState \<Rightarrow> AuthState" where
  "purge_expired_refresh_tokens now s =
     s\<lparr>refresh_tokens := filter (\<lambda>r. \<not> expires_at r < now - 86400000000) (refresh_tokens s)\<rparr>"

section \<open>Routes and authorization\<close>

record UserOut =
  out_id :: string
  out_username :: string
  out_email :: "string option"
  out_full_name :: "string option"
  out_roles :: "string list"
  out_permissions :: "string list"

record TokenResponse =
  resp_access_token :: string
  expires_in :: int
  resp_user :: UserOut
  refresh_cookie :: string

record 'r AuthApi =
  auth_db :: AuthState
  login_limiter :: "'r RedisRateLimiter"

definition user_out :: "User \<Rightarrow> UserOut" where
  "user_out u =
     \<lparr>out_id = user_id u, out_username = username u, out_email = email u, out_full_name = full_name u,
      out_roles = role_names u, out_permissions = permissions_for_roles (role_names u)\<rparr>"

definition token_response :: "draws \<Rightarrow> User \<Rightarrow> IssuedTokens \<Rightarrow> TokenResponse" where
  "token_response d u t =
     \<lparr>resp_access_token = access_token t,
      expires_in = max 0 (py_int (total_seconds (access_expires_at t - at_response d))),
      resp_user = user_out u, refresh_cookie = refresh_token t\<rparr>"

definition set_last_login :: "timestamp \<Rightarrow> User \<Rightarrow> AuthState \<Rightarrow> AuthState" where
  "set_last_login now u s =
     s\<lparr>users := map (\<lambda>v. if user_id v = user_id u then v\<lparr>last_login_at := Some now\<rparr> else v) (users s)\<rparr>"

definition add_audit :: "string \<Rightarrow> audit_args \<Rightarrow> AuthState \<Rightarrow> AuthState" where
  "add_audit action args s = s\<lparr>audit_rows := record_audit (audit_rows s) action args\<rparr>"

text \<open>The session work of a login after the rate limit; a failed attempt commits its audit row, an exception of the database rolls back.\<close>

definition sign_in ::
  "crypto_ops \<Rightarrow> jwt_ops \<Rightarrow> token_settings \<Rightarrow> draws \<Rightarrow> string \<Rightarrow> string \<Rightarrow> string option \<Rightarrow> AuthState
     \<Rightarrow> (auth_error + TokenResponse) \<times> AuthState" where
  "sign_in crypto jwt st d name password source_ip s =
     (case authenticate crypto name password s of
        Inl e \<Rightarrow> (Inl e, add_audit ''AUTH_LOGIN_FAILED''
          (audit_defaults\<lparr>au_username := Some name, au_resource_type := Some ''user'', au_resource_name := Some name,
             au_result := Some ''failure'', au_source_ip := source_ip\<rparr>) s)
      | Inr u \<Rightarrow>
          (case issue_tokens jwt st d u None (purge_expired_refresh_tokens (at_check d) s) of
             Inl e \<Rightarrow> (Inl e, s)
           | Inr (tokens, s1) \<Rightarrow>
               (Inr (token_response d u tokens),
                add_audit ''AUTH_LOGIN''
                  (audit_defaults\<lparr>au_user := Some (user_id u, username u), au_resource_type := Some ''user'',
                     au_resource_name := Some (username u), au_result := Some ''success'', au_source_ip := source_ip\<rparr>)
                  (set_last_login (at_response d) u s1))))"

text \<open>\<open>ip_clock\<close> and \<open>user_clock\<close> are the clock readings of the two limiter calls.\<close>

definition login ::
  "'r redis_ops \<Rightarrow> crypto_ops \<Rightarrow> jwt_ops \<Rightarrow> token_settings \<Rightarrow> draws \<Rightarrow> rat \<times> rat \<Rightarrow> rat \<times> rat
     \<Rightarrow> string \<Rightarrow> string \<Rightarrow> string option \<Rightarrow> 'r AuthApi \<Rightarrow> (auth_error + TokenResponse) \<times> 'r AuthApi" where
  "login redis crypto jwt st d ip_clock user_clock name password source_ip a =
     (let limit = rate_limit_login_per_minute st;
          (allowed_ip, l1) = redis_allow redis (''login-ip:'' @ text_or source_ip ''unknown'') limit 60
             (fst ip_clock) (snd ip_clock) (login_limiter a);
          (allowed_user, l2) = redis_allow redis (''login-user:'' @ casefold name) limit 60 (fst user_clock) (snd user_clock) l1
      in if \<not> (allowed_ip \<and> allowed_user)
         then (Inl (RateLimitError ''Too many login attempts - try again shortly.''), a\<lparr>login_limiter := l2\<rparr>)
         else case sign_in crypto jwt st d name password source_ip (auth_db a) of
           (res, s) \<Rightarrow> (res, a\<lparr>auth_db := s, login_limiter := l2\<rparr>))"

definition refresh_route ::
  "jwt_ops \<Rightarrow> token_settings \<Rightarrow> draws \<Rightarrow> string option \<Rightarrow> string option \<Rightarrow> AuthState
     \<Rightarrow> (auth_error + TokenResponse) \<times> AuthState" where
  "refresh_route jwt st d cookie source_ip s =
     (if \<not> truthy_text cookie then (Inl (AuthenticationError ''Missing refresh token.''), s)
      else case rotate_refresh_token jwt st d (the cookie) s of
        (Inl (RefreshTokenReuseError uid), s1) \<Rightarrow>
          (Inl (RefreshTokenReuseError uid), add_audit ''AUTH_REFRESH_REUSE_DETECTED''
             (audit_defaults\<lparr>au_resource_type := Some ''user'', au_resource_name := Some uid, au_result := Some ''revoked'',
                au_source_ip := source_ip, au_details := [(''user_id'', JStr uid)]\<rparr>) s1)
      | (Inl e, s1) \<Rightarrow> (Inl e, s1)
      | (Inr (u, tokens), s1) \<Rightarrow> (Inr (token_response d u tokens), s1))"

definition logout ::
  "jwt_ops \<Rightarrow> draws \<Rightarrow> string option \<Rightarrow> string option \<Rightarrow> AuthState \<Rightarrow> AuthState" where
  "logout jwt d cookie source_ip s =
     (case (if truthy_text cookie then revoke_refresh_token jwt d (the cookie) s else (None, s)) of
        (uid, s1) \<Rightarrow>
          add_audit ''AUTH_LOGOUT''
            (audit_defaults\<lparr>au_user := (case uid of None \<Rightarrow> None
                 | Some i \<Rightarrow> map_option (\<lambda>u. (user_id u, username u)) (find (\<lambda>u. user_id u = i) (users s1))),
               au_result := Some ''success'', au_source_ip := source_ip\<rparr>) s1)"

definition get_current_user :: "jwt_ops \<Rightarrow> timestamp \<Rightarrow> string option \<Rightarrow> AuthState \<Rightarrow> auth_error + User" where
  "get_current_user jwt now credentials s =
     (if \<not> truthy_text credentials then Inl (AuthenticationError ''Missing bearer token.'')
      else case decode_token jwt now (the credentials) ''access'' of
        Inl e \<Rightarrow> Inl e
      | Inr payload \<Rightarrow>
          (case map_of payload ''sub'' of
             None \<Rightarrow> Inl MissingClaim
           | Some sub \<Rightarrow>
               (case get_active_user s (py_str sub) of
                  None \<Rightarrow> Inl (AuthenticationError ''Account not found or inactive.'')
                | Some u \<Rightarrow> Inr u)))"

definition require_permission ::
  "jwt_ops \<Rightarrow> timestamp \<Rightarrow> Permission \<Rightarrow> string option \<Rightarrow> AuthState \<Rightarrow> auth_error + User" where
  "require_permission jwt now permission credentials s =
     (case get_current_user jwt now credentials s of
        Inl e \<Rightarrow> Inl e
      | Inr u \<Rightarrow>
          if \<not> roles_grant (role_names u) permission
          then Inl (AuthorizationError (''Your roles ('' @ text_or (Some (join_on '', '' (role_names u))) ''none''
                 @ '') do not grant '' @ squoted (permission_value permission) @ ''.''))
          else Inr u)"

section \<open>Stored passwords\<close>

text \<open>
  A stored password hash accepts exactly the passwords with the same scrypt digest under its salt: what
  \<open>hash_password\<close> wrote, \<open>verify_password\<close> reads back.
\<close>

theorem password_hash_roundtrip:
  assumes "\<And>x. b64decode ops (b64encode ops x) = Some x" and "\<And>x. CHR ''$'' \<notin> set (b64encode ops x)"
    and "scrypt ops password salt (2 ^ 14) 8 1 64 = Some digest" and "length digest = 64"
  shows "\<exists>stored. hash_password ops salt password = Some stored \<and>
    (\<forall>other. verify_password ops other stored = (scrypt ops other salt (2 ^ 14) 8 1 64 = Some digest))"
proof -
  let ?fields = "[''scrypt'', nat_text SCRYPT_N, nat_text SCRYPT_R, nat_text SCRYPT_P, b64encode ops salt, b64encode ops digest]"
  have "CHR ''$'' \<notin> set (nat_text n)" for n using nat_text_digits [of n] by (auto simp: list_all_iff is_digit_def)
  then have "split_on (CHR ''$'') (join_on ''$'' ?fields) = ?fields" using assms(2) by (intro split_join) auto
  then have "verify_password ops other (join_on ''$'' ?fields) = (scrypt ops other salt (2 ^ 14) 8 1 64 = Some digest)" for other
    using assms(1,4) by (auto simp: verify_password_def int_of_nat_text split: option.splits)
        (auto simp: SCRYPT_N_def SCRYPT_R_def SCRYPT_P_def)
  moreover have "hash_password ops salt password = Some (join_on ''$'' ?fields)"
    using assms(3) by (simp add: hash_password_def SCRYPT_N_def SCRYPT_R_def SCRYPT_P_def DKLEN_def)
  ultimately show ?thesis by blast
qed

text \<open>An encoding without dollar signs, for a concrete instance.\<close>

fun undot :: "string \<Rightarrow> string option" where
  "undot [] = Some []"
| "undot (c # cs) =
     (if c = CHR ''.'' then (case cs of [] \<Rightarrow> None | e # es \<Rightarrow> map_option ((#) (if e = CHR ''s'' then CHR ''$'' else CHR ''.'')) (undot es))
      else map_option ((#) c) (undot cs))"

definition plain_crypto :: crypto_ops where
  "plain_crypto = \<lparr>scrypt = (\<lambda>pw salt n r p k. Some (take k (pw @ replicate k (CHR ''0'')))),
     b64encode = concat \<circ> map (\<lambda>c. if c = CHR ''$'' then ''.s'' else if c = CHR ''.'' then ''.d'' else [c]),
     b64decode = undot\<rparr>"

theorem password_hash_roundtrip_witness:
  "\<exists>stored. hash_password plain_crypto ''pepper'' ''secret'' = Some stored
     \<and> verify_password plain_crypto ''secret'' stored \<and> \<not> verify_password plain_crypto ''guess'' stored"
proof -
  have "undot (concat (map (\<lambda>c. if c = CHR ''$'' then ''.s'' else if c = CHR ''.'' then ''.d'' else [c]) x)) = Some x" for x
    by (induction x) auto
  moreover have "CHR ''$'' \<notin> set (concat (map (\<lambda>c. if c = CHR ''$'' then ''.s'' else if c = CHR ''.'' then ''.d'' else [c]) x))" for x
    by (induction x) auto
  moreover have "scrypt plain_crypto pw ''pepper'' (2 ^ 14) 8 1 64 = Some (take 64 (pw @ replicate 64 (CHR ''0'')))" for pw
    by (simp add: plain_crypto_def)
  moreover have "take 64 (''guess'' @ replicate 64 (CHR ''0'')) \<noteq> take 64 (''secret'' @ replicate 64 (CHR ''0''))"
    by (simp add: take_Cons')
  ultimately show ?thesis
    using password_hash_roundtrip [of plain_crypto "''secret''" "''pepper''" "take 64 (''secret'' @ replicate 64 (CHR ''0''))"]
    by (auto simp: plain_crypto_def)
qed

section \<open>The registry as a table\<close>

interpretation registry: indexed_table jti "\<lambda>_ _. False"
  by unfold_locales simp

lemma registry_consistent_iff: "registry.consistent rows \<longleftrightarrow> distinct (map jti rows)"
  by (simp add: registry.consistent_def)

lemma revoke_family_jtis [simp]: "map jti (refresh_tokens (revoke_family now family s)) = map jti (refresh_tokens s)"
  by (simp add: revoke_family_def)

lemma mark_used_jtis [simp]: "map jti (refresh_tokens (mark_used now j s)) = map jti (refresh_tokens s)"
  by (simp add: mark_used_def)

lemma issue_tokens_InrD:
  assumes "issue_tokens jwt st d u family s = Inr (t, s')"
  shows "\<exists>exp. s' = s\<lparr>refresh_tokens := refresh_tokens s @ [\<lparr>jti = refresh_jti d, family_id = text_or family (new_family d),
      rt_user_id = user_id u, expires_at = exp, used_at = None, revoked_at = None\<rparr>]\<rparr>"
    and "refresh_jti d \<notin> jti ` set (refresh_tokens s)"
  using assms
  by (auto simp: issue_tokens_def create_refresh_token_def create_token_def Let_def split: prod.splits if_splits)

lemma issue_tokens_consistent:
  assumes "issue_tokens jwt st d u family s = Inr (t, s')" and "registry.consistent (refresh_tokens s)"
  shows "registry.consistent (refresh_tokens s')"
proof -
  obtain r where r: "refresh_tokens s' = refresh_tokens s @ [r]" "jti r \<notin> jti ` set (refresh_tokens s)"
    using issue_tokens_InrD [OF assms(1)] by auto
  show ?thesis unfolding r(1) by (rule registry.consistent_snoc [OF assms(2) r(2)]) simp
qed

section \<open>Rotation\<close>

text \<open>The registered row a refresh token stands for.\<close>

definition presented :: "jwt_ops \<Rightarrow> draws \<Rightarrow> string \<Rightarrow> AuthState \<Rightarrow> RefreshToken option" where
  "presented jwt d token s =
     (case decode_token jwt (at_decode d) token ''refresh'' of
        Inl _ \<Rightarrow> None
      | Inr payload \<Rightarrow> find (\<lambda>r. jti r = get_text payload ''jti'') (refresh_tokens s))"

lemma presented_in: "presented jwt d token s = Some r \<Longrightarrow> r \<in> set (refresh_tokens s)"
  by (auto simp: presented_def dest: find_SomeD split: sum.splits)

text \<open>The subject of the token is the account of the row.\<close>

definition owned :: "jwt_ops \<Rightarrow> draws \<Rightarrow> string \<Rightarrow> RefreshToken \<Rightarrow> bool" where
  "owned jwt d token row =
     (case decode_token jwt (at_decode d) token ''refresh'' of
        Inl _ \<Rightarrow> False
      | Inr payload \<Rightarrow> rt_user_id row = py_str (dict_get payload ''sub'' JNull))"

definition ends_family :: "draws \<Rightarrow> AuthState \<Rightarrow> RefreshToken \<Rightarrow> bool" where
  "ends_family d s row \<longleftrightarrow> revoked_at row = None \<and> (reused (at_check d) row \<or> get_active_user s (rt_user_id row) = None)"

text \<open>The four ways a rotation ends.\<close>

lemma rotate_cases:
  obtains (refused) e where "rotate_refresh_token jwt st d token s = (Inl e, s)" "\<And>uid. e \<noteq> RefreshTokenReuseError uid"
      "\<And>row. presented jwt d token s = Some row \<Longrightarrow> owned jwt d token row \<Longrightarrow> \<not> ends_family d s row"
  | (reuse) row where "presented jwt d token s = Some row" "owned jwt d token row" "revoked_at row = None" "reused (at_check d) row"
      "rotate_refresh_token jwt st d token s
         = (Inl (RefreshTokenReuseError (rt_user_id row)), revoke_family (at_revoke d) (family_id row) s)"
  | (inactive) row where "presented jwt d token s = Some row" "owned jwt d token row" "revoked_at row = None" "\<not> reused (at_check d) row"
      "get_active_user s (rt_user_id row) = None"
      "rotate_refresh_token jwt st d token s
         = (Inl (AuthenticationError ''Account no longer active.''), revoke_family (at_revoke d) (family_id row) s)"
  | (rotated) row u t s' where "presented jwt d token s = Some row" "owned jwt d token row" "revoked_at row = None" "\<not> reused (at_check d) row"
      "get_active_user s (rt_user_id row) = Some u"
      "issue_tokens jwt st d u (Some (family_id row)) (mark_used (at_check d) (jti row) s) = Inr (t, s')"
      "rotate_refresh_token jwt st d token s = (Inr (u, t), s')"
proof (cases "decode_token jwt (at_decode d) token ''refresh''")
  case (Inl e)
  then show ?thesis
    by (intro refused [of e]) (auto simp: rotate_refresh_token_def decode_token_def owned_def split: sum.splits jwt_error.splits if_splits)
next
  case (Inr payload)
  show ?thesis
  proof (cases "presented jwt d token s")
    case None
    with Inr show ?thesis by (intro refused) (simp add: presented_def rotate_refresh_token_def, simp_all)
  next
    case (Some row)
    then have f: "find (\<lambda>r. jti r = get_text payload ''jti'') (refresh_tokens s) = Some row" using Inr by (simp add: presented_def)
    have o: "owned jwt d token row = (rt_user_id row = py_str (dict_get payload ''sub'' JNull))" using Inr by (simp add: owned_def)
    note rot = rotate_refresh_token_def [of jwt st d token s, unfolded Inr sum.case f option.case]
    consider "\<not> owned jwt d token row \<or> revoked_at row \<noteq> None"
      | "owned jwt d token row" "revoked_at row = None" "reused (at_check d) row"
      | "owned jwt d token row" "revoked_at row = None" "\<not> reused (at_check d) row" by blast
    then show ?thesis
    proof cases
      case 1
      then show ?thesis using Some
        by (cases "owned jwt d token row") (auto simp: rot o ends_family_def intro: refused)
    next
      case 2
      then show ?thesis using Some o by (intro reuse [of row]) (simp_all add: rot)
    next
      case 3
      show ?thesis
      proof (cases "get_active_user s (rt_user_id row)")
        case None
        with 3 Some o show ?thesis by (intro inactive [of row]) (simp_all add: rot)
      next
        case u: (Some u)
        show ?thesis
        proof (cases "issue_tokens jwt st d u (Some (family_id row)) (mark_used (at_check d) (jti row) s)")
          case (Inl e)
          then have "e = DuplicateToken" by (auto simp: issue_tokens_def split: prod.splits if_splits)
          with Inl 3 u o Some show ?thesis by (intro refused [of DuplicateToken]) (simp_all add: rot ends_family_def)
        next
          case (Inr x)
          obtain t s' where "x = (t, s')" by (cases x)
          with Inr 3 u Some o show ?thesis by (intro rotated [of row u t s']) (simp_all add: rot)
        qed
      qed
    qed
  qed
qed

text \<open>
  C31. A refresh token yields new tokens only while its registered row belongs to the subject of the token, is not revoked,
  was not first used more than ten seconds ago, and its account is active. Then exactly one row is added, of the
  same family and account, and the presented row keeps the time of its first use (within the ten seconds it may be
  rotated any number of times). Otherwise no row is added. Exactly the rows of its own family are revoked when the
  row was reused after the ten seconds, which is what the reuse error reports, or its account is not active;
  every other refusal changes nothing.
\<close>

theorem rotation_contract:
  "case rotate_refresh_token jwt st d token s of
     (Inr (u, t), s') \<Rightarrow>
       (\<exists>row new. presented jwt d token s = Some row \<and> owned jwt d token row \<and> revoked_at row = None
          \<and> (used_at row = None \<or> at_check d - the (used_at row) \<le> 10000000)
          \<and> get_active_user s (rt_user_id row) = Some u \<and> users s' = users s
          \<and> refresh_tokens s' = map (\<lambda>r. if jti r = jti row \<and> used_at r = None then r\<lparr>used_at := Some (at_check d)\<rparr> else r) (refresh_tokens s) @ [new]
          \<and> jti new \<notin> jti ` set (refresh_tokens s) \<and> family_id new = text_or (Some (family_id row)) (new_family d)
          \<and> rt_user_id new = user_id u \<and> used_at new = None \<and> revoked_at new = None)
   | (Inl e, s') \<Rightarrow>
       users s' = users s
       \<and> refresh_tokens s' =
           (case presented jwt d token s of
              None \<Rightarrow> refresh_tokens s
            | Some row \<Rightarrow>
                if owned jwt d token row \<and> revoked_at row = None
                   \<and> ((\<exists>t. used_at row = Some t \<and> 10000000 < at_check d - t) \<or> get_active_user s (rt_user_id row) = None)
                then map (\<lambda>r. if family_id r = family_id row \<and> revoked_at r = None then r\<lparr>revoked_at := Some (at_revoke d)\<rparr> else r)
                       (refresh_tokens s)
                else refresh_tokens s)
       \<and> (\<forall>uid. (e = RefreshTokenReuseError uid) =
           (case presented jwt d token s of
              None \<Rightarrow> False
            | Some row \<Rightarrow> owned jwt d token row \<and> revoked_at row = None \<and> uid = rt_user_id row
                \<and> (\<exists>t. used_at row = Some t \<and> 10000000 < at_check d - t)))"
proof -
  have re: "reused (at_check d) row \<longleftrightarrow> (\<exists>t. used_at row = Some t \<and> 10000000 < at_check d - t)" for row
    by (auto simp: reused_def CONCURRENT_REFRESH_GRACE_def split: option.splits)
  show ?thesis
  proof (cases rule: rotate_cases [of jwt st d token s])
    case (refused e)
    then show ?thesis by (auto simp: ends_family_def re split: option.splits)
  next
    case (reuse row)
    then show ?thesis by (auto simp: revoke_family_def re [symmetric])
  next
    case (inactive row)
    then show ?thesis by (auto simp: revoke_family_def re [symmetric])
  next
    case (rotated row u t s')
    have g: "used_at row = None \<or> at_check d - the (used_at row) \<le> 10000000"
      using rotated(4) by (auto simp: reused_def CONCURRENT_REFRESH_GRACE_def not_less split: option.splits)
    have fresh: "refresh_jti d \<notin> jti ` set (refresh_tokens s)"
      using issue_tokens_InrD(2) [OF rotated(6)] mark_used_jtis [of "at_check d" "jti row" s] by (metis set_map)
    from issue_tokens_InrD(1) [OF rotated(6)] show ?thesis using rotated(1,2,3,5,7) g fresh
      by (auto simp: mark_used_def)
  qed
qed

section \<open>Revoked families\<close>

definition dead :: "string \<Rightarrow> AuthState \<Rightarrow> bool" where
  "dead F s = list_all (\<lambda>r. family_id r = F \<longrightarrow> revoked_at r \<noteq> None) (refresh_tokens s)"

text \<open>
  Requests against the registry, one transaction after another, while accounts change in any way. New families are random:
  none repeats the family \<open>F\<close> under consideration.
\<close>

inductive session_step :: "crypto_ops \<Rightarrow> jwt_ops \<Rightarrow> token_settings \<Rightarrow> string \<Rightarrow> AuthState \<Rightarrow> AuthState \<Rightarrow> bool"
  for crypto jwt st F where
  SignIn: "sign_in crypto jwt st d name password ip s = (res, s') \<Longrightarrow> new_family d \<noteq> F \<Longrightarrow> session_step crypto jwt st F s s'"
| Refresh: "refresh_route jwt st d cookie ip s = (res, s') \<Longrightarrow> new_family d \<noteq> F \<Longrightarrow> session_step crypto jwt st F s s'"
| Logout: "session_step crypto jwt st F s (logout jwt d cookie ip s)"
| Accounts: "session_step crypto jwt st F s (s\<lparr>users := us\<rparr>)"

lemma dead_frame [simp]:
  "dead F (add_audit action args s) = dead F s" "dead F (set_last_login now u s) = dead F s" "dead F (s\<lparr>users := us\<rparr>) = dead F s"
  by (simp_all add: dead_def add_audit_def set_last_login_def)

lemma dead_revoke [simp]: "dead F s \<Longrightarrow> dead F (revoke_family now family s)"
  by (auto simp: dead_def revoke_family_def list.pred_map elim!: list.pred_mono_strong)

lemma revoke_family_dead: "dead F (revoke_family now F s)"
  unfolding dead_def revoke_family_def by (simp add: list.pred_map) (simp add: list.pred_set)

lemma dead_mark_used [simp]: "dead F (mark_used now j s) = dead F s"
  unfolding dead_def mark_used_def by (simp add: list.pred_map) (rule list.pred_cong, auto)

lemma dead_issue:
  "issue_tokens jwt st d u family s = Inr (t, s') \<Longrightarrow> text_or family (new_family d) \<noteq> F \<Longrightarrow> dead F s \<Longrightarrow> dead F s'"
  by (drule issue_tokens_InrD(1)) (auto simp: dead_def)

lemma dead_rotate:
  assumes "dead F s" and "new_family d \<noteq> F" and "rotate_refresh_token jwt st d token s = (res, s')"
  shows "dead F s'"
proof (cases rule: rotate_cases [of jwt st d token s])
  case (rotated row u t s'')
  then have "family_id row \<noteq> F" using assms(1) presented_in [OF rotated(1)] by (auto simp: dead_def list_all_iff)
  then have "text_or (Some (family_id row)) (new_family d) \<noteq> F" using assms(2) by (simp add: text_or_def)
  then show ?thesis using dead_issue [OF rotated(6)] assms(1,3) rotated(7) by simp
qed (use assms in auto)

lemma dead_session_step:
  assumes "session_step crypto jwt st F s s'" and "dead F s"
  shows "dead F s'"
  using assms
proof (induction rule: session_step.induct)
  case (SignIn d name password ip s res s')
  then have "dead F (purge_expired_refresh_tokens (at_check d) s)" by (auto simp: dead_def list_all_iff purge_expired_refresh_tokens_def)
  then show ?case using SignIn dead_issue [of jwt st d _ None]
    by (auto simp: sign_in_def text_or_def split: sum.splits)
next
  case (Refresh d cookie ip s res s')
  then show ?case using dead_rotate [OF Refresh(3,2)]
    by (auto simp: refresh_route_def split: if_splits sum.splits auth_error.splits prod.splits)
next
  case (Logout s d cookie ip)
  then show ?case by (auto simp: logout_def revoke_refresh_token_def split: sum.splits option.splits)
qed simp

lemma dead_session_steps: "(session_step crypto jwt st F)\<^sup>*\<^sup>* s s' \<Longrightarrow> dead F s \<Longrightarrow> dead F s'"
  by (induction rule: rtranclp_induct) (auto dest: dead_session_step)

lemma dead_rotation_refused:
  assumes "dead (family_id r) s" and "presented jwt d token s = Some r"
  shows "\<exists>e. rotate_refresh_token jwt st d token s = (Inl (AuthenticationError e), s)"
proof -
  have "revoked_at r \<noteq> None" using assms presented_in by (auto simp: dead_def list_all_iff)
  then show ?thesis using assms(2) by (auto simp: presented_def rotate_refresh_token_def split: sum.splits)
qed

text \<open>
  C30. Once a session has ended, because its token was reused after the grace or because its user signed out, it stays
  ended: whatever sign-ins, refreshes, sign-outs, purges and account changes follow, every token of that login is refused
  and changes nothing.
\<close>

theorem ended_session_stays_ended:
  assumes "presented jwt d token s = Some row"
    and "refresh_route jwt st d (Some token) ip s = (Inl (RefreshTokenReuseError uid), s1)
       \<or> token \<noteq> [] \<and> s1 = logout jwt d (Some token) ip s"
    and "(session_step crypto jwt st (family_id row))\<^sup>*\<^sup>* s1 s2"
    and "presented jwt d' token' s2 = Some r" and "family_id r = family_id row"
  shows "\<exists>e. rotate_refresh_token jwt st d' token' s2 = (Inl (AuthenticationError e), s2)"
proof -
  have "dead (family_id row) s1"
    using assms(2)
  proof
    assume "refresh_route jwt st d (Some token) ip s = (Inl (RefreshTokenReuseError uid), s1)"
    then show ?thesis using assms(1) revoke_family_dead
      by (cases rule: rotate_cases [of jwt st d token s])
        (auto simp: refresh_route_def split: if_splits auth_error.splits)
  next
    assume "token \<noteq> [] \<and> s1 = logout jwt d (Some token) ip s"
    then show ?thesis using assms(1) revoke_family_dead
      by (auto simp: logout_def revoke_refresh_token_def presented_def split: sum.splits)
  qed
  then show ?thesis using dead_rotation_refused [OF _ assms(4)] dead_session_steps [OF assms(3)] assms(5) by metis
qed

text \<open>A concrete registry: one account, a token used long ago and its live successor.\<close>

definition sample_uid :: uuid where
  "sample_uid = ''00000000-0000-0000-0000-0000000000a1''"

definition sample_jwt :: jwt_ops where
  "sample_jwt = \<lparr>jwt_encode = (\<lambda>p. get_text p ''jti''),
     jwt_decode = (\<lambda>now tok. Inr [(''sub'', JStr sample_uid), (''type'', JStr ''refresh''), (''jti'', JStr tok)])\<rparr>"

definition sample_draws :: draws where
  "sample_draws = \<lparr>access_jti = ''a2'', refresh_jti = ''t2'', new_family = ''g'', at_decode = 30000000, at_check = 30000000,
     at_revoke = 30000000, at_access = 30000000, at_refresh = 30000000, at_response = 30000000\<rparr>"

definition sample_token :: "string \<Rightarrow> timestamp option \<Rightarrow> RefreshToken" where
  "sample_token j used = \<lparr>jti = j, family_id = ''f'', rt_user_id = sample_uid, expires_at = 90000000, used_at = used, revoked_at = None\<rparr>"

definition sample_auth :: AuthState where
  "sample_auth = \<lparr>users = [\<lparr>user_id = sample_uid, username = ''ann'', email = None, full_name = None, password_hash = None,
       is_active = True, roles = [''viewer''], last_login_at = None\<rparr>],
     refresh_tokens = [sample_token ''t0'' (Some 0), sample_token ''t1'' None], audit_rows = []\<rparr>"

lemma sample_decode: "decode_token sample_jwt now tok ''refresh'' = Inr [(''sub'', JStr sample_uid), (''type'', JStr ''refresh''), (''jti'', JStr tok)]"
  by (simp add: decode_token_def sample_jwt_def)

lemma sample_presented:
  "tok \<noteq> [] \<Longrightarrow> presented sample_jwt d tok s = find (\<lambda>r. jti r = tok) (refresh_tokens s)"
  by (simp add: presented_def sample_decode get_text_def str_or_empty_def py_str_def)

lemma sample_rotate:
  assumes "tok \<noteq> []" and "find (\<lambda>r. jti r = tok) (refresh_tokens s) = Some row" and "rt_user_id row = sample_uid" and "revoked_at row = None"
  shows "rotate_refresh_token sample_jwt st d tok s =
    (if reused (at_check d) row
     then (Inl (RefreshTokenReuseError (rt_user_id row)), revoke_family (at_revoke d) (family_id row) s)
     else case get_active_user s (rt_user_id row) of
       None \<Rightarrow> (Inl (AuthenticationError ''Account no longer active.''), revoke_family (at_revoke d) (family_id row) s)
     | Some u \<Rightarrow> (case issue_tokens sample_jwt st d u (Some (family_id row)) (mark_used (at_check d) (jti row) s) of
         Inl e \<Rightarrow> (Inl e, s) | Inr (tokens, s') \<Rightarrow> (Inr (u, tokens), s')))"
  using assms by (simp add: rotate_refresh_token_def sample_decode get_text_def str_or_empty_def py_str_def dict_get_def)

lemma sample_reuse:
  "rotate_refresh_token sample_jwt st sample_draws ''t0'' s = (Inl (RefreshTokenReuseError sample_uid), revoke_family 30000000 ''f'' s)"
  if "find (\<lambda>r. jti r = ''t0'') (refresh_tokens s) = Some (sample_token ''t0'' (Some 0))"
  using sample_rotate [OF _ that, of st sample_draws]
  by (simp add: sample_token_def sample_draws_def reused_def CONCURRENT_REFRESH_GRACE_def)

definition sample_settings :: token_settings where
  "sample_settings = \<lparr>access_token_expire_minutes = 15, refresh_token_expire_minutes = 720, rate_limit_login_per_minute = 10\<rparr>"

theorem ended_session_stays_ended_witness:
  "let (res, s1) = refresh_route sample_jwt sample_settings sample_draws (Some ''t0'') None sample_auth; s2 = s1\<lparr>users := []\<rparr> in
   res = Inl (RefreshTokenReuseError sample_uid)
   \<and> (\<exists>e. rotate_refresh_token sample_jwt sample_settings sample_draws ''t1'' s2 = (Inl (AuthenticationError e), s2))"
proof -
  have f: "find (\<lambda>r. jti r = ''t0'') (refresh_tokens sample_auth) = Some (sample_token ''t0'' (Some 0))"
    by (simp add: sample_auth_def sample_token_def)
  obtain s1 where s1: "refresh_route sample_jwt sample_settings sample_draws (Some ''t0'') None sample_auth
      = (Inl (RefreshTokenReuseError sample_uid), s1)" and t: "refresh_tokens s1 = refresh_tokens (revoke_family 30000000 ''f'' sample_auth)"
    by (simp add: refresh_route_def sample_reuse [OF f] add_audit_def)
  have p: "presented sample_jwt sample_draws ''t0'' sample_auth = Some (sample_token ''t0'' (Some 0))" using f by (simp add: sample_presented)
  have q: "presented sample_jwt sample_draws ''t1'' (s1\<lparr>users := []\<rparr>) = Some ((sample_token ''t1'' None)\<lparr>revoked_at := Some 30000000\<rparr>)"
    by (simp add: sample_presented t revoke_family_def sample_auth_def sample_token_def)
  have "(session_step plain_crypto sample_jwt sample_settings (family_id (sample_token ''t0'' (Some 0))))\<^sup>*\<^sup>* s1 (s1\<lparr>users := []\<rparr>)"
    by (rule r_into_rtranclp) (rule Accounts)
  from ended_session_stays_ended [OF p disjI1 [OF s1] this q, of] s1 show ?thesis by (simp add: sample_token_def)
qed

section \<open>Authorization\<close>

text \<open>
  C32. A route that requires a permission is entered exactly with an unexpired access token of an existing, active account
  one of whose current roles grants the permission; the permissions listed to the frontend are the ones that are granted.
\<close>

theorem authorization_exact:
  "require_permission jwt now p credentials s = Inr u \<longleftrightarrow>
     (\<exists>token payload sub uid. credentials = Some token \<and> token \<noteq> [] \<and> jwt_decode jwt now token = Inr payload
        \<and> map_of payload ''type'' = Some (JStr ''access'') \<and> map_of payload ''sub'' = Some sub \<and> parse_uuid (py_str sub) = Some uid
        \<and> find (\<lambda>v. user_id v = uid) (users s) = Some u \<and> is_active u
        \<and> permission_value p \<in> set (permissions_for_roles (role_names u)))"
proof -
  have "require_permission jwt now p credentials s = Inr u \<longleftrightarrow>
      get_current_user jwt now credentials s = Inr u \<and> permission_value p \<in> set (permissions_for_roles (role_names u))"
    unfolding listed_iff_granted by (auto simp: require_permission_def split: sum.splits)
  moreover have "get_current_user jwt now credentials s = Inr u \<longleftrightarrow>
      (\<exists>token payload sub. credentials = Some token \<and> token \<noteq> [] \<and> decode_token jwt now token ''access'' = Inr payload
         \<and> map_of payload ''sub'' = Some sub \<and> get_active_user s (py_str sub) = Some u)"
    by (cases credentials) (auto simp: get_current_user_def split: sum.splits option.splits)
  moreover have "decode_token jwt now token ''access'' = Inr payload \<longleftrightarrow>
      jwt_decode jwt now token = Inr payload \<and> map_of payload ''type'' = Some (JStr ''access'')" for token payload
    by (auto simp: decode_token_def split: sum.splits jwt_error.splits)
  moreover have "get_active_user s x = Some u \<longleftrightarrow> (\<exists>uid. parse_uuid x = Some uid \<and> find (\<lambda>v. user_id v = uid) (users s) = Some u \<and> is_active u)" for x
    by (auto simp: get_active_user_def split: option.splits)
  ultimately show ?thesis by (simp only:) blast
qed

end
