(* ===== verification/Stream_Tickets.thy ===== *)
theory Stream_Tickets
  imports Json_Parse
begin

text \<open>
  Single-use tickets for the job event stream (\<^verbatim>\<open>auth/stream_tickets.py\<close>). Redis and SHA-256 are parameters; the random
  ticket is an argument.
\<close>

record 'r ticket_redis =
  redis_set :: "string \<Rightarrow> string \<Rightarrow> int \<Rightarrow> 'r \<Rightarrow> 'r"
  redis_getdel :: "string \<Rightarrow> 'r \<Rightarrow> string option \<times> 'r"
  sha256_hexdigest :: "string \<Rightarrow> string"

definition TICKET_TTL_SECONDS :: int where
  "TICKET_TTL_SECONDS = 30"

definition ticket_key :: "'r ticket_redis \<Rightarrow> string \<Rightarrow> string" where
  "ticket_key ops ticket = ''infraops:stream-ticket:'' @ sha256_hexdigest ops ticket"

definition ticket_payload :: "uuid \<Rightarrow> uuid \<Rightarrow> string" where
  "ticket_payload uid jid = json_dumps (JObj [(''user_id'', JStr uid), (''job_id'', JStr jid)])"

definition issue :: "'r ticket_redis \<Rightarrow> string \<Rightarrow> uuid \<Rightarrow> uuid \<Rightarrow> 'r \<Rightarrow> string \<times> 'r" where
  "issue ops ticket uid jid r = (ticket, redis_set ops (ticket_key ops ticket) (ticket_payload uid jid) TICKET_TTL_SECONDS r)"

text \<open>
  The redeemed payload: \<^verbatim>\<open>ValueError\<close>, \<^verbatim>\<open>KeyError\<close> and \<^verbatim>\<open>TypeError\<close> give no user; an attribute that is missing on a value of
  another type is not caught (\<^term>\<open>Inl ()\<close>).
\<close>

definition ticket_user :: "string \<Rightarrow> uuid \<Rightarrow> unit + uuid option" where
  "ticket_user raw jid =
     (case json_loads raw of
        None \<Rightarrow> Inr None
      | Some (JObj d) \<Rightarrow>
          if map_of d ''job_id'' \<noteq> Some (JStr jid) then Inr None
          else (case map_of d ''user_id'' of
             None \<Rightarrow> Inr None
           | Some (JStr u) \<Rightarrow> Inr (parse_uuid u)
           | Some JNull \<Rightarrow> Inr None
           | Some _ \<Rightarrow> Inl ())
      | Some _ \<Rightarrow> Inl ())"

definition consume :: "'r ticket_redis \<Rightarrow> string \<Rightarrow> uuid \<Rightarrow> 'r \<Rightarrow> (unit + uuid option) \<times> 'r" where
  "consume ops ticket jid r =
     (if ticket = [] \<or> length ticket > 128 then (Inr None, r)
      else case redis_getdel ops (ticket_key ops ticket) r of
        (raw, r') \<Rightarrow> (if truthy_text raw then ticket_user (the raw) jid else Inr None, r'))"

text \<open>What Redis documents of the two commands, by the content \<open>val r\<close> of the keys.\<close>

definition redis_values :: "'r ticket_redis \<Rightarrow> ('r \<Rightarrow> string \<Rightarrow> string option) \<Rightarrow> bool" where
  "redis_values ops val \<longleftrightarrow>
     (\<forall>k v ttl r. val (redis_set ops k v ttl r) = (val r)(k := Some v))
     \<and> (\<forall>k r. fst (redis_getdel ops k r) = val r k \<and> val (snd (redis_getdel ops k r)) = (val r)(k := None))"

lemma ticket_user_payload:
  "parse_uuid uid = Some uid \<Longrightarrow> ticket_user (ticket_payload uid jid) jid' = Inr (if jid' = jid then Some uid else None)"
  by (simp add: ticket_user_def ticket_payload_def loads_dumps del: json_dumps.simps)

lemma ticket_payload_truthy [simp]: "ticket_payload uid jid \<noteq> []"
  by (simp add: ticket_payload_def)

lemma consume_result:
  assumes "redis_values ops val" and "ticket \<noteq> []" and "length ticket \<le> 128"
  shows "consume ops ticket jid r = (if truthy_text (val r (ticket_key ops ticket)) then ticket_user (the (val r (ticket_key ops ticket))) jid else Inr None,
      snd (redis_getdel ops (ticket_key ops ticket) r))"
proof -
  have "fst (redis_getdel ops (ticket_key ops ticket) r) = val r (ticket_key ops ticket)" using assms(1) by (simp add: redis_values_def)
  then show ?thesis using assms(2,3) by (simp add: consume_def case_prod_beta)
qed

text \<open>
  C34. A stream ticket opens one stream of one job: redeemed while it has not expired, it yields the user it was issued to,
  only for the job it was issued for; redeemed for another job it yields nothing and is spent; a second redemption
  always yields nothing.
\<close>

theorem stream_ticket_single_use:
  assumes "redis_values ops val" and "ticket \<noteq> []" and "length ticket \<le> 128" and "parse_uuid uid = Some uid"
    and "r1 = snd (issue ops ticket uid jid r)"
    and "val r2 (ticket_key ops ticket) \<in> {None, val r1 (ticket_key ops ticket)}"
    and "consume ops ticket jid' r2 = (res, r3)"
  shows "res = Inr (if val r2 (ticket_key ops ticket) \<noteq> None \<and> jid' = jid then Some uid else None)
    \<and> fst (consume ops ticket jid'' r3) = Inr None"
proof -
  let ?k = "ticket_key ops ticket"
  note consumed = consume_result [OF assms(1-3)]
  have "val r1 ?k = Some (ticket_payload uid jid)" using assms(1,5) by (simp add: issue_def redis_values_def)
  then have "res = Inr (if val r2 ?k \<noteq> None \<and> jid' = jid then Some uid else None)"
    using assms(6,7) ticket_user_payload [OF assms(4), of jid jid'] by (auto simp: consumed)
  moreover have "val r3 ?k = None" using assms(1,7) by (auto simp: consumed redis_values_def)
  then have "fst (consume ops ticket jid'' r3) = Inr None" by (simp add: consumed)
  ultimately show ?thesis by blast
qed

definition memory_values :: "(string \<Rightarrow> string option) ticket_redis" where
  "memory_values = \<lparr>redis_set = (\<lambda>k v ttl m. m(k := Some v)), redis_getdel = (\<lambda>k m. (m k, m(k := None))), sha256_hexdigest = (\<lambda>s. s)\<rparr>"

theorem stream_ticket_single_use_witness:
  "let uid = ''00000000-0000-0000-0000-0000000000a1''; r1 = snd (issue memory_values ''tk'' uid ''job-1'' (\<lambda>_. None))
   in fst (consume memory_values ''tk'' ''job-1'' r1) = Inr (Some uid)
      \<and> fst (consume memory_values ''tk'' ''job-1'' (snd (consume memory_values ''tk'' ''job-2'' r1))) = Inr None"
proof -
  let ?u = "''00000000-0000-0000-0000-0000000000a1''"
  let ?r = "snd (issue memory_values ''tk'' ?u ''job-1'' (\<lambda>_. None))"
  have l: "redis_values memory_values (\<lambda>m. m)" by (simp add: redis_values_def memory_values_def)
  have u: "parse_uuid ?u = Some ?u" by code_simp
  have s: "?r (ticket_key memory_values ''tk'') \<noteq> None" by (simp add: issue_def memory_values_def)
  have t: "fst (consume memory_values ''tk'' j ?r) = Inr (if j = ''job-1'' then Some ?u else None)"
    "fst (consume memory_values ''tk'' ''job-1'' (snd (consume memory_values ''tk'' j ?r))) = Inr None" for j
    using stream_ticket_single_use [where ops = memory_values and val = "\<lambda>m. m" and ticket = "''tk''" and uid = ?u and jid = "''job-1''"
        and r = "\<lambda>_. None" and ?r1.0 = ?r and ?r2.0 = ?r and jid' = j and jid'' = "''job-1''"
        and res = "fst (consume memory_values ''tk'' j ?r)" and ?r3.0 = "snd (consume memory_values ''tk'' j ?r)"] l u s by auto
  show ?thesis unfolding Let_def using t(1) [of "''job-1''"] t(2) [of "''job-2''"] by simp
qed

end
