(* ===== verification/Preflight.thy ===== *)
theory Preflight
  imports Storage_Placement Ip_Conflict Provisioning_Service App_Installer Certificates Windows_Media
begin

text \<open>
  Preflight validation (\<^verbatim>\<open>services/provisioning/preflight.py\<close>) . The inventory, the database rows, the secret store, the ping program and the resolver are
  the fields of an environment; the naming policy is an administrator's regular expression, evaluated by a parameter.
  Dashes and arrows of the messages are written in ASCII.
\<close>

section \<open>Environment\<close>

datatype secret_error = SecretNotFoundError | SecretFailure

record preflight_env =
  pf_settings :: json_dict
  pf_vcenters :: "VCenterConnection list"
  pf_test_connection :: "VCenterConnection \<Rightarrow> guest_error + bool \<times> string"
  pf_datacenters :: "guest_error + DatacenterOut list"
  pf_clusters :: "string \<Rightarrow> guest_error + ClusterOut list"
  pf_hosts :: "string \<Rightarrow> guest_error + HostOut list"
  pf_resource_pools :: "string \<Rightarrow> guest_error + string list"
  pf_datastores :: "string \<Rightarrow> guest_error + DatastoreOut list"
  pf_networks :: "string \<Rightarrow> guest_error + NetworkOut list"
  pf_isos :: "string \<Rightarrow> guest_error + IsoImageOut list"
  pf_check_host_https :: "string list \<Rightarrow> guest_error + (string, string option) dict"
  pf_read_datastore_file :: "string \<Rightarrow> string \<Rightarrow> nat \<Rightarrow> guest_error + string"
  pf_vm_exists :: "string \<Rightarrow> guest_error + bool"
  pf_used_ips :: "guest_error + (string, string) dict"
  pf_ping :: "string option"
  pf_windows :: bool
  pf_exec :: "string list \<Rightarrow> string + int \<times> string"
  pf_lookup :: "string \<Rightarrow> string option"
  pf_policy_fullmatch :: "string \<Rightarrow> string \<Rightarrow> bool option"
  pf_get_secret :: "string \<Rightarrow> secret_error + string"
  pf_provider_name :: string
  pf_packages :: "CertificatePackage list"
  pf_applications :: "Application list"

section \<open>Checks\<close>

definition check :: "string \<Rightarrow> string \<Rightarrow> CheckStatus \<Rightarrow> string \<Rightarrow> PreflightCheck" where
  "check code label st detail =
     \<lparr>check_code = code, check_label = label, check_status = st, check_detail = detail, check_blocking = True\<rparr>"

definition advice :: "string \<Rightarrow> string \<Rightarrow> string \<Rightarrow> PreflightCheck" where
  "advice code label detail =
     \<lparr>check_code = code, check_label = label, check_status = WARN, check_detail = detail, check_blocking = False\<rparr>"

definition safe_infrastructure_failure :: "guest_error \<Rightarrow> string \<Rightarrow> string" where
  "safe_infrastructure_failure exn fallback_text =
     (case exn of
        Infra e \<Rightarrow> human_message e @ '' Reason: '' @ reason e @ '' Recommended action: '' @ recommended_action e
      | Other _ \<Rightarrow> fallback_text)"

definition vcenter_checks :: "preflight_env \<Rightarrow> ProvisioningRequest \<Rightarrow> PreflightCheck list \<times> VCenterConnection option" where
  "vcenter_checks env r =
     (case find (\<lambda>c. vc_id c = vcenter_id (compute r)) (pf_vcenters env) of
        None \<Rightarrow> ([check ''vcenter'' ''vCenter connection'' FAIL ''The selected vCenter connection no longer exists.''], None)
      | Some row \<Rightarrow>
          if \<not> vc_enabled row
          then ([check ''vcenter'' ''vCenter connection'' FAIL (''vCenter '' @ squoted (vc_name row) @ '' is disabled.'')], None)
          else ([case pf_test_connection env row of
                   Inl e \<Rightarrow> check ''vcenter'' ''vCenter connection'' FAIL (safe_infrastructure_failure e
                     ''The vCenter connection could not be tested. Try again or contact an administrator.'')
                 | Inr (ok, detail) \<Rightarrow>
                     if ok then check ''vcenter'' ''vCenter connection successful'' PASS (vc_name row @ '' ('' @ vc_host row @ '')'')
                     else check ''vcenter'' ''vCenter connection'' FAIL detail], Some row))"

definition host_file_transfers :: "preflight_env \<Rightarrow> string list \<Rightarrow> PreflightCheck list" where
  "host_file_transfers env names =
     (let label = ''ESXi hosts reachable for VMware Tools file transfers'' in
      case pf_check_host_https env names of
        Inl e \<Rightarrow> [check ''esxi_https'' label FAIL (safe_infrastructure_failure e ''The ESXi hosts could not be checked.'')]
      | Inr results \<Rightarrow>
          (let problems = filter (\<lambda>(_, p). truthy_text p) results in
           if problems = [] then [check ''esxi_https'' label PASS (join_on '', '' names)]
           else [check ''esxi_https'' label FAIL
             (join_on ''; '' (map (\<lambda>(name, p). name @ '': '' @ the p) problems)
              @ ''. Every guest configuration step uploads its script to the ESXi host that runs the VM: allow HTTPS (TCP 443) ''
              @ ''from the InfraOps server to every ESXi host, make the host names resolve inside the backend and worker containers, ''
              @ ''and trust their certificates (the vCenter VMCA root in VCENTER_CA_FILE) or untick ''
              @ squoted ''Verify the TLS certificate'' @ '' on the vCenter connection.'')]))"

definition host_checks :: "preflight_env \<Rightarrow> ProvisioningRequest \<Rightarrow> (string, HostOut) dict \<Rightarrow> PreflightCheck list" where
  "host_checks env r hosts =
     (let hid = host_id (compute r);
          selected = (if truthy_text hid then map_of hosts (the hid) else None);
          transfer = (if truthy_text hid then (case selected of None \<Rightarrow> [] | Some h \<Rightarrow> [host_name h])
                      else map host_name (filter available_for_provisioning (map snd hosts)))
      in (if \<not> truthy_text hid then []
          else case selected of
            None \<Rightarrow> [check ''host'' ''Host availability'' FAIL ''The manually selected host was not found in the compute target.'']
          | Some h \<Rightarrow>
              if \<not> available_for_provisioning h
              then [check ''host'' ''Host availability'' FAIL (''Host '' @ squoted (host_name h) @ '' is not available (state=''
                     @ connection_state h @ '', maintenance='' @ py_repr_json (JBool (maintenance_mode h)) @ '').'')]
              else [check ''host'' ''Host available'' PASS (host_name h)])
         @ (if transfer = [] then [] else host_file_transfers env transfer))"

definition resource_pool_checks :: "ProvisioningRequest \<Rightarrow> string list \<Rightarrow> PreflightCheck list" where
  "resource_pool_checks r pools =
     [if the (resource_pool_id (compute r)) \<notin> set pools
      then check ''resource_pool'' ''Resource pool exists'' FAIL ''The selected resource pool does not belong to this cluster.''
      else check ''resource_pool'' ''Resource pool exists'' PASS []]"

definition selected_storage :: "string \<Rightarrow> int \<Rightarrow> (string, DatastoreOut) dict \<Rightarrow> PreflightCheck" where
  "selected_storage sid needed_gb datastores =
     (let missing = check ''datastore'' ''Selected datastore available'' FAIL
            ''The selected datastore is not accessible from this compute target.'' in
      case map_of datastores sid of
        None \<Rightarrow> missing
      | Some s \<Rightarrow>
          if \<not> accessible s then missing
          else if free_gb s < of_int needed_gb
          then check ''datastore_capacity'' ''Selected datastore capacity'' FAIL
                 (ds_name s @ '' has '' @ fixed_0 (free_gb s) @ '' GB free; the VM needs about '' @ int_text needed_gb @ '' GB.'')
          else check ''datastore_capacity'' ''Selected datastore has room'' PASS
                 (ds_name s @ '' ('' @ fixed_0 (free_gb s) @ '' GB free, '' @ int_text needed_gb @ '' GB needed)''))"

definition automatic_storage :: "DatastoreChoice \<Rightarrow> PreflightCheck list" where
  "automatic_storage choice =
     (case chosen_datastore choice of
        None \<Rightarrow> [check ''datastore_capacity'' ''Automatic storage placement'' FAIL
          (choice_detail choice @ '' Choose a datastore in the wizard''
           @ (if preferred_configured choice then '' or add one under Settings -> Preferred datastores.'' else ''.''))]
      | Some _ \<Rightarrow>
          check ''datastore_capacity'' ''Automatic storage placement'' PASS (choice_detail choice)
          # (if preferred_configured choice then []
             else [advice ''preferred_datastores'' ''Preferred datastores configured''
               (''Automatic placement uses the datastore with the most free space, which is often a slow capacity tier. ''
                @ ''List the fast datastores under Settings -> Preferred datastores, or choose a datastore in the wizard.'')]))"

text \<open>A preferred list that is not iterable raises a \<^verbatim>\<open>TypeError\<close> where it is read.\<close>

definition check_storage :: "ProvisioningRequest \<Rightarrow> (string, DatastoreOut) dict \<Rightarrow> json_dict \<Rightarrow> guest_error + PreflightCheck list" where
  "check_storage r datastores rows =
     (case find truthy_text (map disk_datastore_id (disks (hardware r))) of
        Some sid \<Rightarrow> Inr [selected_storage (the sid) (total_disk_gb r) datastores]
      | None \<Rightarrow>
          (case json_iter (map_of rows ''preferred_datastores'') of
             None \<Rightarrow> Inl (Other ''TypeError'')
           | Some preferred \<Rightarrow>
               Inr (automatic_storage (choose_automatic_datastore (map snd datastores) preferred (total_disk_gb r)))))"

definition network_checks :: "ProvisioningRequest \<Rightarrow> (string, NetworkOut) dict \<Rightarrow> PreflightCheck list" where
  "network_checks r networks =
     (case map_of networks (network_id (network r)) of
        None \<Rightarrow> [check ''network'' ''Network exists'' FAIL (''Port group '' @ squoted (network_id (network r)) @ '' was not found.'')]
      | Some n \<Rightarrow> [check ''network'' ''Network exists'' PASS (net_name n @ '' ('' @ net_type n @ '')'')])"

definition windows_media_check :: "preflight_env \<Rightarrow> string \<Rightarrow> IsoImageOut \<Rightarrow> PreflightCheck" where
  "windows_media_check env dc img =
     (let title = ''Windows Server installation media'' in
      case pf_read_datastore_file env dc (iso_path img) ISO_HEADER_BYTES of
        Inl e \<Rightarrow> check ''windows_media'' title FAIL (safe_infrastructure_failure e ''The ISO could not be read from its datastore.'')
      | Inr header \<Rightarrow>
          (let label = iso_volume_label header in
           case classify_windows_media label of
             SERVER \<Rightarrow> check ''windows_media'' title PASS (''Volume label '' @ text_or label ''None'' @ ''.'')
           | CLIENT \<Rightarrow> check ''windows_media'' title FAIL
               (iso_name img @ '' is Windows client media (volume label '' @ text_or label ''None''
                @ ''). Only Windows Server installs without anyone answering Setup or OOBE pages.'')
           | UNKNOWN \<Rightarrow> check ''windows_media'' title FAIL
               (iso_name img @ '' is not recognised as Windows Server installation media (volume label '' @ text_or label ''missing''
                @ ''). Microsoft Server ISOs carry an '' @ squoted ''SSS_''
                @ '' volume label; use unmodified Microsoft media or keep that label when rebuilding it.'')))"

definition iso_checks ::
  "preflight_env \<Rightarrow> ProvisioningRequest \<Rightarrow> string \<Rightarrow> (string, DatastoreOut) dict \<Rightarrow> (string, IsoImageOut) dict \<Rightarrow> PreflightCheck list" where
  "iso_checks env r dc datastores isos =
     (case map_of isos (iso_id (guest r)) of
        None \<Rightarrow> [check ''iso'' ''ISO available'' FAIL ''The selected ISO was not found in this datacenter.'']
      | Some img \<Rightarrow>
          if (case map_of datastores (iso_datastore_id img) of None \<Rightarrow> True | Some s \<Rightarrow> \<not> accessible s)
          then [check ''iso'' ''ISO accessible to cluster'' FAIL
                  (iso_name img @ '' is stored on a datastore unavailable to this cluster.'')]
          else [check ''iso'' ''ISO available'' PASS (iso_name img @ '' on '' @ iso_datastore_name img),
                windows_media_check env dc img])"

text \<open>The checks that follow a call; an exception ends the section with the check of its handler.\<close>

definition fetch :: "guest_error + 'a \<Rightarrow> ('a \<Rightarrow> PreflightCheck list) \<Rightarrow> PreflightCheck list" where
  "fetch call k =
     (case call of
        Inl e \<Rightarrow> [check ''infrastructure'' ''Infrastructure discovery'' FAIL
          (safe_infrastructure_failure e ''Infrastructure inventory could not be loaded. Try again.'')]
      | Inr x \<Rightarrow> k x)"

definition cluster_checks ::
  "preflight_env \<Rightarrow> ProvisioningRequest \<Rightarrow> json_dict \<Rightarrow> DatacenterOut \<Rightarrow> ClusterOut \<Rightarrow> PreflightCheck list" where
  "cluster_checks env r rows dc cl =
     fetch (pf_hosts env (cl_id cl)) (\<lambda>hs.
       host_checks env r (dict_by host_out_id hs)
       @ fetch (if truthy_text (resource_pool_id (compute r)) then pf_resource_pools env (cl_id cl) else Inr []) (\<lambda>pools.
         (if truthy_text (resource_pool_id (compute r)) then resource_pool_checks r pools else [])
         @ fetch (pf_datastores env (cl_id cl)) (\<lambda>stores.
           fetch (check_storage r (dict_by ds_id stores) rows) (\<lambda>storage.
             storage
             @ fetch (pf_networks env (dc_id dc)) (\<lambda>nets.
               network_checks r (dict_by net_id nets)
               @ fetch (pf_isos env (dc_id dc)) (\<lambda>images.
                 iso_checks env r (dc_id dc) (dict_by ds_id stores) (dict_by iso_out_id images)))))))"

definition infrastructure_checks :: "preflight_env \<Rightarrow> ProvisioningRequest \<Rightarrow> json_dict \<Rightarrow> PreflightCheck list" where
  "infrastructure_checks env r rows =
     fetch (pf_datacenters env) (\<lambda>dcs.
       case map_of (dict_by dc_id dcs) (comp_datacenter_id (compute r)) of
         None \<Rightarrow> [check ''datacenter'' ''Datacenter exists'' FAIL
                   (''Datacenter '' @ squoted (comp_datacenter_id (compute r)) @ '' was not found.'')]
       | Some dc \<Rightarrow>
           check ''datacenter'' ''Datacenter exists'' PASS (dc_name dc)
           # fetch (pf_clusters env (dc_id dc)) (\<lambda>cls.
               case map_of (dict_by cl_id cls) (cluster_id (compute r)) of
                 None \<Rightarrow> [check ''cluster'' ''Compute target exists'' FAIL
                           (''Compute target '' @ squoted (cluster_id (compute r)) @ '' was not found in '' @ dc_name dc @ ''.'')]
               | Some cl \<Rightarrow>
                   check ''cluster'' ''Compute target available'' PASS
                     (cl_name cl @ '' ('' @ int_text (hosts_count cl) @ '' host(s), DRS '' @ (if drs_enabled cl then ''on'' else ''off'') @ '')'')
                   # cluster_checks env r rows dc cl))"

section \<open>Names and addresses\<close>

definition name_policy_checks :: "preflight_env \<Rightarrow> ProvisioningRequest \<Rightarrow> json_dict \<Rightarrow> PreflightCheck list" where
  "name_policy_checks env r rows =
     (let policy = (case map_of rows ''vm_name_policy_regex'' of
                      None \<Rightarrow> [] | Some v \<Rightarrow> if truthy v then py_str v else []) in
      if policy = [] then []
      else let found = pf_policy_fullmatch env policy (vms_name (vm r)) in
        (if found = None
         then [advice ''name_policy'' ''VM name policy'' ''The configured naming policy regex is invalid - check Administration -> Settings.'']
         else [])
        @ [if found = Some False
           then check ''name_policy'' ''VM name policy'' FAIL
                  (squoted (vms_name (vm r)) @ '' does not match the configured naming policy.'')
           else check ''name_policy'' ''VM name matches naming policy'' PASS []])"

definition vm_name_check :: "preflight_env \<Rightarrow> ProvisioningRequest \<Rightarrow> PreflightCheck" where
  "vm_name_check env r =
     (case pf_vm_exists env (vms_name (vm r)) of
        Inl e \<Rightarrow> check ''vm_name_unique'' ''VM name uniqueness'' FAIL
          (safe_infrastructure_failure e ''VM name availability could not be checked. Try again.'')
      | Inr present \<Rightarrow>
          if present then check ''vm_name_unique'' ''VM name is available'' FAIL
            (''A VM named '' @ squoted (vms_name (vm r)) @ '' already exists.'')
          else check ''vm_name_unique'' ''VM name is available'' PASS [])"

definition conflict_providers :: "preflight_env \<Rightarrow> provider list" where
  "conflict_providers env =
     [(''ICMP'', \<lambda>a p. Inr (icmp_check (pf_ping env) (pf_windows env) (pf_exec env) a)),
      (''DNS'', \<lambda>a p. Inr (dns_check ''DNS'' (pf_lookup env) a)),
      (''VMware inventory'', \<lambda>a p. Inr (inventory_check (pf_used_ips env) None a))]"

definition ip_conflict_checks :: "preflight_env \<Rightarrow> Ipv4Config \<Rightarrow> PreflightCheck" where
  "ip_conflict_checks env c =
     (let report = run_conflict_check (cfg_address c) (cfg_prefix c) (conflict_providers env) in
      if conflict_detected report
      then check ''ip_conflict'' ''IP conflict check'' FAIL
             (join_on '' '' (map provider_detail (filter (\<lambda>p. provider_status p = CONFLICT_DETECTED) (conf_providers report))))
      else check ''ip_conflict'' ''No conflict detected'' PASS (confidence_note report))"

definition address_checks :: "preflight_env \<Rightarrow> ProvisioningRequest \<Rightarrow> bool \<Rightarrow> VCenterConnection option \<Rightarrow> PreflightCheck list" where
  "address_checks env r run_ip_conflict_checks target =
     (case (ip_mode (network r), ipv4 (network r)) of
        (STATIC, Some c) \<Rightarrow>
          (let issues = validate_static_ipv4 (cfg_address c) (cfg_prefix c) (cfg_gateway c) (cfg_dns_servers c) in
           (if issues \<noteq> [] then [check ''ip_syntax'' ''IP address syntax'' FAIL (join_on ''; '' (map issue_message issues))]
            else [check ''ip_syntax'' ''IP address syntax valid'' PASS []])
           @ (if run_ip_conflict_checks \<and> issues = [] \<and> target \<noteq> None then [ip_conflict_checks env c] else []))
      | _ \<Rightarrow> [])"

section \<open>Packages, applications and secrets\<close>

definition package_problem :: "(uuid, CertificatePackage) dict \<Rightarrow> uuid \<Rightarrow> string list" where
  "package_problem packages pid =
     (case map_of packages pid of
        None \<Rightarrow> [''Package '' @ squoted pid @ '' does not exist.'']
      | Some p \<Rightarrow>
          if \<not> pkg_enabled p then [''Package '' @ squoted (pkg_name p) @ '' is disabled.'']
          else if \<not> list_ex id (pkg_certificates_enabled p)
          then [''Package '' @ squoted (pkg_name p) @ '' contains no enabled certificates.'']
          else [])"

definition check_certificates :: "preflight_env \<Rightarrow> ProvisioningRequest \<Rightarrow> PreflightCheck" where
  "check_certificates env r =
     (let ids = certificate_package_ids r;
          packages = dict_by pkg_id (filter (\<lambda>p. pkg_id p \<in> set ids) (pf_packages env));
          problems = concat (map (package_problem packages) ids)
      in if ids = [] then check ''certificates'' ''Certificate packages'' PASS ''None selected.''
         else if problems \<noteq> [] then check ''certificates'' ''Certificate packages available'' FAIL (join_on '' '' problems)
         else check ''certificates'' ''Certificate packages available'' PASS
                (join_on '', '' (map (\<lambda>pid. pkg_name (the (map_of packages pid))) ids)))"

definition selected_applications :: "preflight_env \<Rightarrow> ProvisioningRequest \<Rightarrow> Application list" where
  "selected_applications env r = filter (\<lambda>a. appl_id a \<in> set (application_ids r)) (pf_applications env)"

definition app_node :: "'z Application_scheme \<Rightarrow> AppNode" where
  "app_node a = \<lparr>node_id = appl_id a, node_name = appl_name a, node_enabled = appl_enabled a,
                 dependency_ids = fset_of_list (appl_depends_on a)\<rparr>"

definition enabled_catalog :: "'z Application_scheme list \<Rightarrow> catalog" where
  "enabled_catalog apps = dict_by node_id (map app_node (filter appl_enabled apps))"

definition check_applications :: "preflight_env \<Rightarrow> ProvisioningRequest \<Rightarrow> PreflightCheck option" where
  "check_applications env r =
     (if application_ids r = [] then Some (check ''applications'' ''Application definitions'' PASS ''None selected.'')
      else
        let selected = selected_applications env r;
            missing = filter (\<lambda>a. a \<notin> appl_id ` set selected) (application_ids r);
            disabled = map appl_name (filter (\<lambda>a. \<not> appl_enabled a) selected)
        in map_option (\<lambda>(ordered, errors).
             let problems = (if missing \<noteq> [] then [''Applications not found: '' @ join_on '', '' missing @ ''.''] else [])
                            @ (if disabled \<noteq> [] then [''Applications disabled: '' @ join_on '', '' disabled @ ''.''] else [])
                            @ errors
             in if problems \<noteq> [] then check ''applications'' ''Application definitions valid'' FAIL (join_on '' '' problems)
                else check ''applications'' ''Application definitions valid'' PASS
                       (''Install order: '' @ join_on '' -> '' (map node_name ordered)))
             (resolve_install_order (application_ids r) (enabled_catalog (pf_applications env))))"

definition installer_policy_check :: "preflight_env \<Rightarrow> ProvisioningRequest \<Rightarrow> string list \<Rightarrow> PreflightCheck" where
  "installer_policy_check env r allowed_roots =
     (let selected = selected_applications env r;
          outside = filter (\<lambda>p. allowed_roots \<noteq> [] \<and> \<not> path_within_roots p allowed_roots) (map appl_installer_path selected)
      in if selected \<noteq> [] \<and> allowed_roots = []
         then check ''installer_policy'' ''Installer repository policy'' FAIL
                (''No approved installer repository roots are configured. Configure at least ''
                 @ ''one root before selecting applications.'')
         else if outside \<noteq> []
         then check ''installer_policy'' ''Installer locations approved'' FAIL
                (nat_text (length outside) @ '' installer path(s) are outside the approved software ''
                 @ ''repository roots configured by administrators.'')
         else check ''installer_policy'' ''Installer locations approved'' PASS [])"

definition check_product_key :: "preflight_env \<Rightarrow> ProvisioningRequest \<Rightarrow> PreflightCheck" where
  "check_product_key env r =
     (let title = ''Windows product key''; reference = the (product_key_ref (guest r)) in
      if \<not> truthy_text (product_key_ref (guest r))
      then check ''product_key'' title PASS ''None selected; volume-license and evaluation media need none.''
      else case pf_get_secret env (reference @ ''/password'') of
        Inl SecretNotFoundError \<Rightarrow> check ''product_key'' title FAIL (''Product key '' @ squoted reference @ '' is not resolvable.'')
      | Inl SecretFailure \<Rightarrow> check ''product_key'' title FAIL
          (''Product key '' @ squoted reference @ '' could not be checked. Contact an administrator.'')
      | Inr key \<Rightarrow>
          if fullmatch PRODUCT_KEY (upper (strip key)) then check ''product_key'' title PASS reference
          else check ''product_key'' title FAIL
            (''Product key '' @ squoted reference @ '' is not a 25-character key (XXXXX-XXXXX-XXXXX-XXXXX-XXXXX).''))"

definition secret_bases :: "ProvisioningRequest \<Rightarrow> string list" where
  "secret_bases r =
     guest_credential_ref (guest r) # (case domain_join (guest r) of None \<Rightarrow> [] | Some d \<Rightarrow> [domain_credential_ref d])"

definition secret_problem :: "preflight_env \<Rightarrow> string \<Rightarrow> string \<Rightarrow> string list" where
  "secret_problem env base suffix =
     (case pf_get_secret env (base @ ''/'' @ suffix) of
        Inr _ \<Rightarrow> []
      | Inl SecretNotFoundError \<Rightarrow> [''Secret '' @ squoted (base @ ''/'' @ suffix) @ '' is not resolvable by the ''
          @ squoted (pf_provider_name env) @ '' provider.'']
      | Inl SecretFailure \<Rightarrow> [''Secret '' @ squoted (base @ ''/'' @ suffix) @ '' could not be checked. Contact an administrator.''])"

definition check_credentials :: "preflight_env \<Rightarrow> ProvisioningRequest \<Rightarrow> PreflightCheck list" where
  "check_credentials env r =
     (let problems = concat (map (\<lambda>base. concat (map (secret_problem env base) [''username'', ''password''])) (secret_bases r));
          guest_prefix = ''Secret '' @ [CHR 0x27] @ guest_credential_ref (guest r) @ ''/'';
          hint = (if list_ex (\<lambda>p. startswith p guest_prefix) problems
                  then [''Select a configured Windows provisioning administrator credential. ''
                        @ ''It is required before network configuration and domain join.''] else [])
      in [check_product_key env r,
          if problems \<noteq> [] then check ''credentials'' ''Credential references resolvable'' FAIL (join_on '' '' (problems @ hint))
          else check ''credentials'' ''Credential references resolvable'' PASS []])"

section \<open>The report\<close>

definition preflight_report :: "PreflightCheck list \<Rightarrow> PreflightReport" where
  "preflight_report checks =
     (let blocking = filter (\<lambda>c. check_status c = FAIL \<and> check_blocking c) checks;
          warnings = filter (\<lambda>c. check_status c = WARN) checks
      in \<lparr>report_ready = (blocking = []), report_checks = checks,
          report_summary =
            (if blocking = []
             then ''Ready to provision ('' @ nat_text (length checks) @ '' checks, '' @ nat_text (length warnings) @ '' warning(s)).''
             else ''Not ready - '' @ nat_text (length blocking) @ '' blocking problem(s) must be resolved.'')\<rparr>)"

text \<open>\<^term>\<open>None\<close>: the stored list of installer roots is not iterable and \<^verbatim>\<open>validate\<close> raises.\<close>

definition validate :: "preflight_env \<Rightarrow> ProvisioningRequest \<Rightarrow> bool \<Rightarrow> PreflightReport option" where
  "validate env r run_ip_conflict_checks =
     (let rows = load_effective (pf_settings env);
          (connection, target) = vcenter_checks env r
      in Option.bind (check_applications env r) (\<lambda>applications.
           Option.bind (json_iter (map_of rows ''allowed_installer_roots'')) (\<lambda>roots.
             Some (preflight_report
               (connection
                @ (if target \<noteq> None then infrastructure_checks env r rows else [])
                @ name_policy_checks env r rows
                @ (if target \<noteq> None then [vm_name_check env r] else [])
                @ address_checks env r run_ip_conflict_checks target
                @ [check_certificates env r, applications, installer_policy_check env r (map py_str roots)]
                @ check_credentials env r)))))"

section \<open>What readiness means\<close>

definition reachable_hosts :: "preflight_env \<Rightarrow> string list \<Rightarrow> bool" where
  "reachable_hosts env names \<longleftrightarrow>
     names = [] \<or> (\<exists>res. pf_check_host_https env names = Inr res \<and> (\<forall>(n, p) \<in> set res. \<not> truthy_text p))"

definition hosts_ok :: "preflight_env \<Rightarrow> ProvisioningRequest \<Rightarrow> (string, HostOut) dict \<Rightarrow> bool" where
  "hosts_ok env r hosts \<longleftrightarrow>
     (if truthy_text (host_id (compute r))
      then \<exists>h. map_of hosts (the (host_id (compute r))) = Some h \<and> available_for_provisioning h \<and> reachable_hosts env [host_name h]
      else reachable_hosts env (map host_name (filter available_for_provisioning (map snd hosts))))"

definition pool_ok :: "preflight_env \<Rightarrow> ProvisioningRequest \<Rightarrow> ClusterOut \<Rightarrow> bool" where
  "pool_ok env r cl \<longleftrightarrow>
     (truthy_text (resource_pool_id (compute r)) \<longrightarrow>
        (\<exists>pools. pf_resource_pools env (cl_id cl) = Inr pools \<and> the (resource_pool_id (compute r)) \<in> set pools))"

definition storage_ok :: "ProvisioningRequest \<Rightarrow> (string, DatastoreOut) dict \<Rightarrow> json_dict \<Rightarrow> bool" where
  "storage_ok r stores rows \<longleftrightarrow>
     (case find truthy_text (map disk_datastore_id (disks (hardware r))) of
        Some sid \<Rightarrow> \<exists>s. map_of stores (the sid) = Some s \<and> fits (total_disk_gb r) s
      | None \<Rightarrow> \<exists>preferred s. json_iter (map_of rows ''preferred_datastores'') = Some preferred
                  \<and> chosen_datastore (choose_automatic_datastore (map snd stores) preferred (total_disk_gb r)) = Some s
                  \<and> fits (total_disk_gb r) s)"

definition media_ok :: "preflight_env \<Rightarrow> ProvisioningRequest \<Rightarrow> string \<Rightarrow> (string, DatastoreOut) dict \<Rightarrow> (string, IsoImageOut) dict \<Rightarrow> bool" where
  "media_ok env r dc stores isos \<longleftrightarrow>
     (\<exists>img s header. map_of isos (iso_id (guest r)) = Some img \<and> map_of stores (iso_datastore_id img) = Some s \<and> accessible s
        \<and> pf_read_datastore_file env dc (iso_path img) ISO_HEADER_BYTES = Inr header
        \<and> classify_windows_media (iso_volume_label header) = SERVER)"

definition cluster_ok :: "preflight_env \<Rightarrow> ProvisioningRequest \<Rightarrow> json_dict \<Rightarrow> DatacenterOut \<Rightarrow> ClusterOut \<Rightarrow> bool" where
  "cluster_ok env r rows dc cl \<longleftrightarrow>
     (\<exists>hs stores nets images.
        pf_hosts env (cl_id cl) = Inr hs \<and> hosts_ok env r (dict_by host_out_id hs) \<and> pool_ok env r cl
        \<and> pf_datastores env (cl_id cl) = Inr stores \<and> storage_ok r (dict_by ds_id stores) rows
        \<and> pf_networks env (dc_id dc) = Inr nets \<and> map_of (dict_by net_id nets) (network_id (network r)) \<noteq> None
        \<and> pf_isos env (dc_id dc) = Inr images \<and> media_ok env r (dc_id dc) (dict_by ds_id stores) (dict_by iso_out_id images))"

definition infrastructure_ok :: "preflight_env \<Rightarrow> ProvisioningRequest \<Rightarrow> json_dict \<Rightarrow> bool" where
  "infrastructure_ok env r rows \<longleftrightarrow>
     (\<exists>dcs dc cls cl. pf_datacenters env = Inr dcs \<and> map_of (dict_by dc_id dcs) (comp_datacenter_id (compute r)) = Some dc
        \<and> pf_clusters env (dc_id dc) = Inr cls \<and> map_of (dict_by cl_id cls) (cluster_id (compute r)) = Some cl
        \<and> cluster_ok env r rows dc cl)"

definition policy_ok :: "preflight_env \<Rightarrow> ProvisioningRequest \<Rightarrow> json_dict \<Rightarrow> bool" where
  "policy_ok env r rows \<longleftrightarrow>
     (\<forall>v. map_of rows ''vm_name_policy_regex'' = Some v \<and> truthy v \<and> py_str v \<noteq> []
        \<longrightarrow> pf_policy_fullmatch env (py_str v) (vms_name (vm r)) \<noteq> Some False)"

definition address_ok :: "preflight_env \<Rightarrow> ProvisioningRequest \<Rightarrow> bool \<Rightarrow> bool" where
  "address_ok env r probe \<longleftrightarrow>
     (\<forall>c. ip_mode (network r) = STATIC \<and> ipv4 (network r) = Some c \<longrightarrow>
        validate_static_ipv4 (cfg_address c) (cfg_prefix c) (cfg_gateway c) (cfg_dns_servers c) = []
        \<and> (probe \<longrightarrow> \<not> conflict_detected (run_conflict_check (cfg_address c) (cfg_prefix c) (conflict_providers env))))"

definition packages_ok :: "preflight_env \<Rightarrow> ProvisioningRequest \<Rightarrow> bool" where
  "packages_ok env r \<longleftrightarrow>
     (\<forall>pid \<in> set (certificate_package_ids r). \<exists>p. find (\<lambda>p. pkg_id p = pid) (rev (pf_packages env)) = Some p
        \<and> pkg_enabled p \<and> True \<in> set (pkg_certificates_enabled p))"

definition applications_ok :: "preflight_env \<Rightarrow> ProvisioningRequest \<Rightarrow> string list \<Rightarrow> bool" where
  "applications_ok env r roots \<longleftrightarrow>
     set (application_ids r) \<subseteq> appl_id ` set (pf_applications env)
     \<and> (\<forall>a \<in> set (selected_applications env r). appl_enabled a \<and> path_within_roots (appl_installer_path a) roots)
     \<and> installable (application_ids r) (enabled_catalog (pf_applications env))"

definition secrets_ok :: "preflight_env \<Rightarrow> ProvisioningRequest \<Rightarrow> bool" where
  "secrets_ok env r \<longleftrightarrow>
     (\<forall>base \<in> set (secret_bases r). \<forall>suffix \<in> {''username'', ''password''}. \<exists>v. pf_get_secret env (base @ ''/'' @ suffix) = Inr v)
     \<and> (truthy_text (product_key_ref (guest r)) \<longrightarrow>
          (\<exists>key. pf_get_secret env (the (product_key_ref (guest r)) @ ''/password'') = Inr key
             \<and> fullmatch PRODUCT_KEY (upper (strip key))))"

definition provisionable :: "preflight_env \<Rightarrow> ProvisioningRequest \<Rightarrow> bool \<Rightarrow> bool" where
  "provisionable env r probe \<longleftrightarrow>
     (let rows = load_effective (pf_settings env) in
      (\<exists>row detail. find (\<lambda>c. vc_id c = vcenter_id (compute r)) (pf_vcenters env) = Some row \<and> vc_enabled row
         \<and> pf_test_connection env row = Inr (True, detail))
      \<and> infrastructure_ok env r rows \<and> policy_ok env r rows \<and> pf_vm_exists env (vms_name (vm r)) = Inr False
      \<and> address_ok env r probe \<and> packages_ok env r
      \<and> (\<exists>roots. json_iter (map_of rows ''allowed_installer_roots'') = Some roots \<and> applications_ok env r (map py_str roots))
      \<and> secrets_ok env r)"

section \<open>Each section passes exactly under its condition\<close>

definition passes :: "PreflightCheck \<Rightarrow> bool" where
  "passes c \<longleftrightarrow> \<not> (check_status c = FAIL \<and> check_blocking c)"

lemma passes_check [simp]: "passes (check code label st detail) \<longleftrightarrow> st \<noteq> FAIL" "passes (advice code label detail)"
  by (simp_all add: passes_def check_def advice_def)

lemma ready_iff: "report_ready (preflight_report cs) \<longleftrightarrow> list_all passes cs"
  by (auto simp: preflight_report_def Let_def passes_def list_all_iff filter_empty_conv)

lemma fetch_passes: "list_all passes (fetch call k) \<longleftrightarrow> (\<exists>x. call = Inr x \<and> list_all passes (k x))"
  by (auto simp: fetch_def split: sum.splits)

lemma host_transfers_pass: "names \<noteq> [] \<Longrightarrow> list_all passes (host_file_transfers env names) \<longleftrightarrow> reachable_hosts env names"
  by (auto simp: host_file_transfers_def reachable_hosts_def Let_def filter_empty_conv split: sum.splits)

lemma host_checks_pass: "list_all passes (host_checks env r hosts) \<longleftrightarrow> hosts_ok env r hosts"
proof (cases "truthy_text (host_id (compute r))")
  case True
  then show ?thesis
    by (cases "map_of hosts (the (host_id (compute r)))") (auto simp: host_checks_def hosts_ok_def Let_def host_transfers_pass)
next
  case False
  then show ?thesis by (auto simp: host_checks_def hosts_ok_def Let_def host_transfers_pass reachable_hosts_def [of env "[]"])
qed

lemma selected_storage_passes:
  "passes (selected_storage sid n stores) \<longleftrightarrow> (\<exists>s. map_of stores sid = Some s \<and> fits n s)"
  by (auto simp: selected_storage_def Let_def fits_def split: option.splits)

lemma automatic_storage_passes:
  "list_all passes (automatic_storage (choose_automatic_datastore ds preferred n))
     \<longleftrightarrow> (\<exists>s. chosen_datastore (choose_automatic_datastore ds preferred n) = Some s \<and> fits n s)"
  using chosen_fits(2) by (auto simp: automatic_storage_def split: option.splits)

lemma storage_passes:
  "(\<exists>cs. check_storage r stores rows = Inr cs \<and> list_all passes cs) \<longleftrightarrow> storage_ok r stores rows"
  by (auto simp: check_storage_def storage_ok_def selected_storage_passes automatic_storage_passes split: option.splits)

lemma media_passes: "list_all passes (iso_checks env r dc stores isos) \<longleftrightarrow> media_ok env r dc stores isos"
  by (auto simp: iso_checks_def media_ok_def windows_media_check_def Let_def
      split: option.splits sum.splits WindowsMediaKind.splits)

lemma network_passes: "list_all passes (network_checks r nets) \<longleftrightarrow> map_of nets (network_id (network r)) \<noteq> None"
  by (auto simp: network_checks_def split: option.splits)

lemma cluster_passes: "list_all passes (cluster_checks env r rows dc cl) \<longleftrightarrow> cluster_ok env r rows dc cl"
proof -
  have pool: "(\<exists>pools. (if t then q else Inr []) = Inr pools \<and> list_all passes (if t then resource_pool_checks r pools else []) \<and> P)
      \<longleftrightarrow> (t \<longrightarrow> (\<exists>pools. q = Inr pools \<and> the (resource_pool_id (compute r)) \<in> set pools)) \<and> P" for t q P
    by (auto simp: resource_pool_checks_def)
  show ?thesis
    unfolding cluster_checks_def fetch_passes list_all_append host_checks_pass pool network_passes media_passes cluster_ok_def
      pool_ok_def storage_passes [symmetric]
    by blast
qed

lemma found_passes:
  "list_all passes (case found of None \<Rightarrow> [check code label FAIL detail] | Some x \<Rightarrow> f x) \<longleftrightarrow> (\<exists>x. found = Some x \<and> list_all passes (f x))"
  by (cases found) auto

lemma infrastructure_passes: "list_all passes (infrastructure_checks env r rows) \<longleftrightarrow> infrastructure_ok env r rows"
  unfolding infrastructure_checks_def infrastructure_ok_def fetch_passes found_passes
  by (simp add: fetch_passes found_passes cluster_passes)

lemma policy_passes: "list_all passes (name_policy_checks env r rows) \<longleftrightarrow> policy_ok env r rows"
  by (auto simp: name_policy_checks_def policy_ok_def Let_def split: option.splits)

lemma vm_name_passes: "passes (vm_name_check env r) \<longleftrightarrow> pf_vm_exists env (vms_name (vm r)) = Inr False"
  by (auto simp: vm_name_check_def split: sum.splits)

lemma address_passes: "list_all passes (address_checks env r probe (Some row)) \<longleftrightarrow> address_ok env r probe"
  by (auto simp: address_checks_def address_ok_def ip_conflict_checks_def Let_def split: IpMode.splits option.splits)

lemma find_filter: "Q y \<Longrightarrow> (\<And>x. P x \<Longrightarrow> Q x) \<Longrightarrow> find P (filter Q xs) = find P xs"
  by (induction xs) auto

lemma package_problem_Nil:
  "package_problem packages pid = []
     \<longleftrightarrow> (\<exists>p. map_of packages pid = Some p \<and> pkg_enabled p \<and> True \<in> set (pkg_certificates_enabled p))"
  by (auto simp: package_problem_def list_ex_iff split: option.splits)

lemma packages_pass: "passes (check_certificates env r) \<longleftrightarrow> packages_ok env r"
proof -
  let ?ids = "certificate_package_ids r"
  have "map_of (dict_by pkg_id (filter (\<lambda>p. pkg_id p \<in> set ?ids) (pf_packages env))) pid
      = find (\<lambda>p. pkg_id p = pid) (rev (pf_packages env))" if "pid \<in> set ?ids" for pid
    using that by (auto simp: map_of_dict_by rev_filter intro: find_filter [where y = "\<lparr>pkg_id = pid, pkg_name = [], pkg_enabled = True, pkg_certificates_enabled = []\<rparr>"])
  then show ?thesis
    by (auto simp: check_certificates_def packages_ok_def Let_def package_problem_Nil)
qed

lemma installable_Nil [simp]: "installable [] cat"
  by (simp add: installable_def needed_def)

lemma applications_pass:
  "\<exists>c. check_applications env r = Some c \<and>
     (passes c \<longleftrightarrow> set (application_ids r) \<subseteq> appl_id ` set (pf_applications env)
        \<and> (\<forall>a \<in> set (selected_applications env r). appl_enabled a)
        \<and> installable (application_ids r) (enabled_catalog (pf_applications env)))"
proof (cases "application_ids r = []")
  case True
  then show ?thesis by (simp add: check_applications_def selected_applications_def)
next
  case False
  have found: "(\<forall>a \<in> set (application_ids r). a \<in> appl_id ` set (selected_applications env r))
      \<longleftrightarrow> set (application_ids r) \<subseteq> appl_id ` set (pf_applications env)"
    by (auto simp: selected_applications_def)
  obtain ordered errors where res: "resolve_install_order (application_ids r) (enabled_catalog (pf_applications env)) = Some (ordered, errors)"
      and e: "errors = [] \<longleftrightarrow> installable (application_ids r) (enabled_catalog (pf_applications env))"
    using resolve_install_order_spec [of "application_ids r" "enabled_catalog (pf_applications env)"]
    by (auto split: option.splits if_splits)
  show ?thesis
    using False unfolding found [symmetric] e [symmetric]
    by (auto simp: check_applications_def res Let_def filter_empty_conv)
qed

lemma no_roots: "\<not> path_within_roots p []"
  by (simp add: path_within_roots_def split: sum.split)

lemma policy_check_passes:
  "passes (installer_policy_check env r roots)
     \<longleftrightarrow> (\<forall>a \<in> set (selected_applications env r). path_within_roots (appl_installer_path a) roots)"
  using no_roots by (cases "selected_applications env r = []"; cases "roots = []")
    (auto simp: installer_policy_check_def Let_def filter_empty_conv hd_in_set)

lemma secret_problem_Nil: "secret_problem env base suffix = [] \<longleftrightarrow> (\<exists>v. pf_get_secret env (base @ ''/'' @ suffix) = Inr v)"
  by (auto simp: secret_problem_def split: sum.splits secret_error.splits)

lemma product_key_passes:
  "passes (check_product_key env r) \<longleftrightarrow>
     (truthy_text (product_key_ref (guest r)) \<longrightarrow>
        (\<exists>key. pf_get_secret env (the (product_key_ref (guest r)) @ ''/password'') = Inr key \<and> fullmatch PRODUCT_KEY (upper (strip key))))"
  by (auto simp: check_product_key_def Let_def split: sum.splits secret_error.splits)

lemma credentials_pass: "list_all passes (check_credentials env r) \<longleftrightarrow> secrets_ok env r"
  by (auto simp: check_credentials_def secrets_ok_def Let_def product_key_passes secret_problem_Nil)

lemma connection_passes:
  "list_all passes (fst (vcenter_checks env r)) \<longleftrightarrow>
     (\<exists>row detail. find (\<lambda>c. vc_id c = vcenter_id (compute r)) (pf_vcenters env) = Some row \<and> vc_enabled row
        \<and> pf_test_connection env row = Inr (True, detail))"
  "list_all passes (fst (vcenter_checks env r)) \<Longrightarrow> snd (vcenter_checks env r) \<noteq> None"
  by (auto simp: vcenter_checks_def split: option.splits sum.splits if_splits prod.splits)

lemma validate_cases:
  "case validate env r probe of
     None \<Rightarrow> json_iter (map_of (load_effective (pf_settings env)) ''allowed_installer_roots'') = None
   | Some rep \<Rightarrow> report_ready rep \<longleftrightarrow> provisionable env r probe"
proof -
  let ?rows = "load_effective (pf_settings env)"
  obtain c where c: "check_applications env r = Some c"
      and pc: "passes c \<longleftrightarrow> set (application_ids r) \<subseteq> appl_id ` set (pf_applications env)
        \<and> (\<forall>a \<in> set (selected_applications env r). appl_enabled a)
        \<and> installable (application_ids r) (enabled_catalog (pf_applications env))" using applications_pass by blast
  obtain connection target where v: "vcenter_checks env r = (connection, target)" by fastforce
  note conn = connection_passes [of env r, unfolded v fst_conv snd_conv]
  show ?thesis
  proof (cases "json_iter (map_of ?rows ''allowed_installer_roots'')")
    case None
    then show ?thesis by (simp add: validate_def c v)
  next
    case (Some roots)
    show ?thesis
    proof (cases target)
      case None
      then have "\<not> list_all passes connection" using conn(2) by blast
      then show ?thesis unfolding conn(1) by (auto simp: validate_def c v Some None ready_iff provisionable_def Let_def conn(1))
    next
      case target: (Some row)
      show ?thesis
        using pc by (auto simp: validate_def c v Some target ready_iff provisionable_def Let_def conn(1) infrastructure_passes
            policy_passes vm_name_passes address_passes packages_pass policy_check_passes credentials_pass applications_ok_def)
    qed
  qed
qed

text \<open>
  C28. Preflight is exact: it raises only when the stored installer roots are not a list, and otherwise reports ready exactly
  when the vCenter connection is enabled and answers, the datacenter, compute target, host, pool, storage, network and Windows
  Server media are there and fit, the name is free and allowed, the static address is valid and free of detected conflicts,
  every selected package and application is usable from the approved roots, and every secret resolves.
\<close>

theorem preflight_exact:
  "case validate env r probe of
     None \<Rightarrow> json_iter (map_of (load_effective (pf_settings env)) ''allowed_installer_roots'') = None
   | Some rep \<Rightarrow> report_ready rep \<longleftrightarrow> provisionable env r probe"
  by (rule validate_cases)

section \<open>An environment that is ready\<close>

definition sample_header :: string where
  "sample_header = replicate (16 * 2048) (CHR 0x00) @ [CHR 0x01] @ ''CD001'' @ replicate 34 (CHR '' '') @ ''SSS_X64FREE'' @ replicate 21 (CHR '' '')"

definition sample_env :: preflight_env where
  "sample_env = \<lparr>pf_settings = [], pf_vcenters = [\<lparr>vc_id = ''v-1'', vc_name = ''vc'', vc_host = ''vc.example'', vc_enabled = True\<rparr>],
     pf_test_connection = (\<lambda>_. Inr (True, [])), pf_datacenters = Inr [\<lparr>dc_id = ''dc-1'', dc_name = ''DC''\<rparr>],
     pf_clusters = (\<lambda>_. Inr [\<lparr>cl_id = ''c-1'', cl_name = ''C'', drs_enabled = True, hosts_count = 1\<rparr>]),
     pf_hosts = (\<lambda>_. Inr [\<lparr>host_out_id = ''h-1'', host_name = ''esx1'', connection_state = ''connected'', maintenance_mode = False,
        available_for_provisioning = True\<rparr>]),
     pf_resource_pools = (\<lambda>_. Inr []),
     pf_datastores = (\<lambda>_. Inr [\<lparr>ds_id = ''d-1'', ds_name = ''SSD'', free_gb = 500, accessible = True\<rparr>]),
     pf_networks = (\<lambda>_. Inr [\<lparr>net_id = ''n-1'', net_name = ''LAN'', net_type = ''DVPG''\<rparr>]),
     pf_isos = (\<lambda>_. Inr [\<lparr>iso_out_id = ''iso-1'', iso_name = ''srv.iso'', iso_datastore_id = ''d-1'', iso_datastore_name = ''SSD'',
        iso_path = ''[SSD] srv.iso''\<rparr>]),
     pf_check_host_https = (\<lambda>names. Inr (map (\<lambda>n. (n, None)) names)), pf_read_datastore_file = (\<lambda>_ _ n. Inr (take n sample_header)),
     pf_vm_exists = (\<lambda>_. Inr False), pf_used_ips = Inr [], pf_ping = None, pf_windows = False, pf_exec = (\<lambda>_. Inr (1, [])),
     pf_lookup = (\<lambda>_. None), pf_policy_fullmatch = (\<lambda>_ _. Some True), pf_get_secret = (\<lambda>_. Inr ''s3cret''),
     pf_provider_name = ''env'', pf_packages = [], pf_applications = []\<rparr>"

lemma descriptor_of_header:
  "length p = 16 * 2048 \<Longrightarrow> length d \<le> 2048 \<Longrightarrow> take 2048 (drop (16 * 2048) (take ISO_HEADER_BYTES (p @ d))) = d"
  by (simp add: ISO_HEADER_BYTES_def)

lemma sample_media: "iso_volume_label (take ISO_HEADER_BYTES sample_header) = Some ''SSS_X64FREE''"
proof -
  let ?d = "[CHR 0x01] @ ''CD001'' @ replicate 34 (CHR '' '') @ ''SSS_X64FREE'' @ replicate 21 (CHR '' '')"
  have "take 2048 (drop (16 * 2048) (take ISO_HEADER_BYTES sample_header)) = ?d"
    unfolding sample_header_def by (rule descriptor_of_header) (simp only: length_replicate, simp)
  moreover have "take 32 (drop 40 ?d) = ''SSS_X64FREE'' @ replicate 21 (CHR '' '')" "length ?d = 72" by (simp_all add: numeral_eq_Suc)
  moreover have "strip (map (\<lambda>c. if (of_char c :: nat) < 128 then c else CHR ''?'') (''SSS_X64FREE'' @ replicate 21 (CHR '' ''))) = ''SSS_X64FREE''"
    by code_simp
  ultimately show ?thesis by (simp add: iso_volume_label_def)
qed

lemma sample_env_provisionable: "provisionable sample_env sample_request True"
proof -
  have label: "classify_windows_media (Some ''SSS_X64FREE'') = SERVER" by code_simp
  have rows: "load_effective [] = SETTING_DEFAULTS" by code_simp
  have place: "chosen_datastore (choose_automatic_datastore [\<lparr>ds_id = ''d-1'', ds_name = ''SSD'', free_gb = 500, accessible = True\<rparr>] [] 60)
      = Some \<lparr>ds_id = ''d-1'', ds_name = ''SSD'', free_gb = 500, accessible = True\<rparr>"
    by (simp add: choose_automatic_datastore_def normalize_preferred_def most_free_def)
  have defaults: "map_of SETTING_DEFAULTS ''preferred_datastores'' = Some (JList [])"
      "map_of SETTING_DEFAULTS ''allowed_installer_roots'' = Some (JList [])" "map_of SETTING_DEFAULTS ''vm_name_policy_regex'' = Some (JStr [])"
    by (simp_all add: SETTING_DEFAULTS_def)
  have one: "dict_by key [x] = [(key x, x)]" for key :: "'a \<Rightarrow> 'b" and x by (simp add: dict_by_def dict_update_def)
  have "infrastructure_ok sample_env sample_request SETTING_DEFAULTS"
    by (simp add: infrastructure_ok_def cluster_ok_def hosts_ok_def pool_ok_def storage_ok_def media_ok_def reachable_hosts_def
        sample_env_def sample_request_def one defaults json_iter_def json_items_def place total_disk_gb_def fits_def sample_media label)
  then show ?thesis
    by (auto simp: provisionable_def Let_def rows policy_ok_def address_ok_def packages_ok_def applications_ok_def secrets_ok_def
        sample_env_def sample_request_def defaults json_iter_def json_items_def selected_applications_def)
qed

lemma sample_env_ready: "\<exists>rep. validate sample_env sample_request True = Some rep \<and> report_ready rep"
proof -
  have "load_effective [] = SETTING_DEFAULTS" by code_simp
  then have "load_effective (pf_settings sample_env) = SETTING_DEFAULTS" by (simp add: sample_env_def)
  then have "json_iter (map_of (load_effective (pf_settings sample_env)) ''allowed_installer_roots'') \<noteq> None"
    by (simp add: SETTING_DEFAULTS_def json_iter_def json_items_def)
  with validate_cases [of sample_env sample_request True] sample_env_provisionable show ?thesis
    by (auto split: option.splits)
qed

end
