(* ===== verification/Vcenter_Contract.thy ===== *)
theory Vcenter_Contract
  imports Stages_Create
begin

text \<open>
  What the creation stage relies on in a vCenter, as an interface: a created machine is found again under its name with the
  marker it was created with, and looking machines up changes none. The lemmas say what the stage promises over any such
  vCenter; they are interpreted for the simulation.
\<close>

locale vcenter =
  fixes env :: "('w, 'z) stage_env_scheme"
  assumes created_found: "create_vm env spec w = (Inr ref, w1) \<Longrightarrow>
      fst (find_vm_ownership env (spec_vm_name spec) w1)
        = Inr (Some \<lparr>owned_vm_id = vm_ref_id ref, owned_name = vm_ref_name ref, owner_job_id = spec_job_id spec\<rparr>)"
    and lookup_changes_none: "fst (find_vm_ownership env n (snd (find_vm_ownership env m w))) = fst (find_vm_ownership env n w)"
begin

lemma lookup_again: "find_vm_ownership env m w = (r, w1) \<Longrightarrow> fst (find_vm_ownership env n w1) = fst (find_vm_ownership env n w)"
  by (metis lookup_changes_none snd_conv)

text \<open>After a successful run of the stage the machine carries the marker of the job.\<close>

lemma created_is_owned:
  assumes run: "stage_create_vm env c = Some (Inr out, c')" and "vm_name c = vms_name (vm (se_request env))"
  shows "\<exists>ref. vm_ref c' = Some ref \<and> fst (find_vm_ownership env (vm_name c) (world c'))
      = Inr (Some \<lparr>owned_vm_id = vm_ref_id ref, owned_name = vm_ref_name ref, owner_job_id = Some (job_id (job c))\<rparr>)"
proof -
  obtain r w where look: "find_vm_ownership env (vm_name c) (world c) = (r, w)" by fastforce
  with run obtain existing where r: "r = Inr existing"
    by (cases r) (auto simp: stage_create_vm_def run_simps Let_def map_job_def)
  show ?thesis
  proof (cases existing)
    case None
    with create_vm_new [of env c w] look r run created_found assms(2) show ?thesis by metis
  next
    case (Some v)
    with create_vm_existing [of env c v w] look r run
    have "world c' = w" "owner_job_id v = Some (job_id (job c))" "vm_ref c' = Some \<lparr>vm_ref_id = owned_vm_id v, vm_ref_name = owned_name v\<rparr>"
      by (auto split: if_splits)
    with lookup_again [OF look, of "vm_name c"] look r Some show ?thesis by simp
  qed
qed

text \<open>Running the stage again in the same world, after a crash of the worker for instance, goes on with the same machine.\<close>

lemma rerun:
  assumes "stage_create_vm env c = Some (Inr out, c')" and "vm_name c = vms_name (vm (se_request env))"
    and "vm_name d = vm_name c" "world d = world c'"
  shows "\<exists>r d'. stage_create_vm env d = Some (r, d')
      \<and> (if job_id (job d) = job_id (job c) then (\<exists>again. r = Inr again \<and> outcome_status again = ''SKIPPED'') \<and> vm_ref d' = vm_ref c'
         else \<exists>e. r = Inl (Infra e) \<and> \<not> retryable e)
      \<and> (\<forall>n. fst (find_vm_ownership env n (world d')) = fst (find_vm_ownership env n (world d)))"
proof -
  obtain ref where ref: "vm_ref c' = Some ref" "fst (find_vm_ownership env (vm_name d) (world d))
      = Inr (Some \<lparr>owned_vm_id = vm_ref_id ref, owned_name = vm_ref_name ref, owner_job_id = Some (job_id (job c))\<rparr>)"
    using created_is_owned [OF assms(1,2)] assms(3,4) by auto
  then obtain w where look: "find_vm_ownership env (vm_name d) (world d)
      = (Inr (Some \<lparr>owned_vm_id = vm_ref_id ref, owned_name = vm_ref_name ref, owner_job_id = Some (job_id (job c))\<rparr>), w)"
    by (metis prod.collapse)
  from create_vm_existing [OF this] ref(1) lookup_again [OF look] show ?thesis by (auto split: if_splits)
qed

end

end
