(* ===== verification/Vcenter_Sim.thy ===== *)
theory Vcenter_Sim
  imports Vcenter_Contract Stage_Handlers
begin

text \<open>
  The vCenter of \<^verbatim>\<open>INFRASTRUCTURE_MODE=mock\<close> (\<^verbatim>\<open>services/vmware/mock.py\<close>): the simulated estates, the discovery and lifecycle
  operations, and the simulated progress of Windows Setup. The world is the state of the process: the estates by vCenter id, the
  clock, which moves exactly while the simulation sleeps, and the number of random identifiers drawn. Attributes of results that no
  caller reads (usage figures) are left out, as in the value objects.
\<close>

section \<open>Estates\<close>

record MockHost =
  mh_id :: string
  mh_name :: string
  mh_maintenance_mode :: bool
  mh_connection_state :: string

definition MockHost_init :: "string \<Rightarrow> string \<Rightarrow> bool \<Rightarrow> bool \<Rightarrow> MockHost" where
  "MockHost_init i name maintenance disconnected =
     \<lparr>mh_id = i, mh_name = name, mh_maintenance_mode = maintenance,
      mh_connection_state = (if disconnected then ''disconnected'' else ''connected'')\<rparr>"

record MockDatastore =
  md_id :: string
  md_name :: string
  md_type :: string
  md_capacity_gb :: rat
  md_free_gb :: rat
  md_datastore_cluster_id :: "string option"
  md_accessible :: bool

record MockVM =
  mv_id :: string
  mv_name :: string
  mv_power_state :: string
  mv_tools_status :: "string option"
  mv_tools_running_status :: "string option"
  mv_tools_version_status :: "string option"
  mv_guest_state :: "string option"
  mv_guest_operations_ready :: bool
  mv_guest_family :: "string option"
  mv_has_guest_os :: bool
  mv_ip_address :: "string option"
  mv_hostname :: "string option"
  mv_network_id :: "string option"
  mv_cpu :: int
  mv_memory_mb :: int
  mv_disks_gb :: "int list"
  mv_powered_on_at :: "rat option"
  mv_answer_media :: "string list"
  mv_installation_media :: "string list"
  mv_screenshots :: nat
  mv_datastore_id :: "string option"
  mv_owner_job_id :: "string option"
  mv_keystrokes :: "nat list"

definition MockVM_init :: "string \<Rightarrow> string \<Rightarrow> bool \<Rightarrow> MockVM" where
  "MockVM_init i name installed =
     \<lparr>mv_id = i, mv_name = name, mv_power_state = ''poweredOff'', mv_tools_status = None, mv_tools_running_status = None,
      mv_tools_version_status = None, mv_guest_state = None, mv_guest_operations_ready = False, mv_guest_family = None,
      mv_has_guest_os = installed, mv_ip_address = None, mv_hostname = None, mv_network_id = None, mv_cpu = 2, mv_memory_mb = 4096,
      mv_disks_gb = [], mv_powered_on_at = None, mv_answer_media = [], mv_installation_media = [], mv_screenshots = 0,
      mv_datastore_id = None, mv_owner_job_id = None, mv_keystrokes = []\<rparr>"

record MockCluster =
  mc_name :: string
  mc_dc :: string
  mc_drs :: bool
  mc_hosts :: "string list"
  mc_cores :: int
  mc_memory_gb :: int

record MockPool =
  mp_name :: string
  mp_cluster :: string

record MockIso = IsoImageOut +
  iso_datacenter_id :: string
  iso_datacenter_name :: string
  iso_size_bytes :: int
  iso_last_modified :: rat

record MockInventory =
  inv_datacenters :: "(string, string) dict"
  inv_clusters :: "(string, MockCluster) dict"
  inv_hosts :: "(string, MockHost) dict"
  inv_resource_pools :: "(string, MockPool) dict"
  inv_datastores :: "(string, MockDatastore) dict"
  inv_cluster_datastores :: "(string, string list) dict"
  inv_datastore_clusters :: "(string, string \<times> rat \<times> rat) dict"
  inv_networks :: "(string, NetworkOut) dict"
  inv_network_datacenters :: "(string, string) dict"
  inv_isos :: "(string, MockIso) dict"
  inv_iso_labels :: "(string, string) dict"
  inv_existing_vms :: "(string, MockVM) dict"
  inv_reserved_ips :: "(string, string) dict"

definition cluster_of :: "string \<Rightarrow> string \<Rightarrow> bool \<Rightarrow> string list \<Rightarrow> int \<Rightarrow> int \<Rightarrow> MockCluster" where
  "cluster_of name dc drs hs cores mem =
     \<lparr>mc_name = name, mc_dc = dc, mc_drs = drs, mc_hosts = hs, mc_cores = cores, mc_memory_gb = mem\<rparr>"

definition datastore_of :: "string \<Rightarrow> string \<Rightarrow> string \<Rightarrow> rat \<Rightarrow> rat \<Rightarrow> string option \<Rightarrow> bool \<Rightarrow> string \<times> MockDatastore" where
  "datastore_of i name kind capacity free dsc ok =
     (i, \<lparr>md_id = i, md_name = name, md_type = kind, md_capacity_gb = capacity, md_free_gb = free, md_datastore_cluster_id = dsc, md_accessible = ok\<rparr>)"

definition iso_of :: "string \<Rightarrow> string \<Rightarrow> string \<times> string \<Rightarrow> string \<times> string \<Rightarrow> string \<Rightarrow> int \<Rightarrow> rat \<Rightarrow> string \<times> MockIso" where
  "iso_of i name dc store path bytes modified =
     (i, \<lparr>iso_out_id = i, iso_name = name, iso_datastore_id = fst store, iso_datastore_name = snd store, iso_path = path,
          iso_datacenter_id = fst dc, iso_datacenter_name = snd dc, iso_size_bytes = bytes, iso_last_modified = modified\<rparr>)"

definition existing_vm :: "nat \<Rightarrow> string \<Rightarrow> string \<Rightarrow> string \<times> MockVM" where
  "existing_vm index name ip =
     (upper name, (MockVM_init (''vm-'' @ nat_text (70 + index)) name True)
        \<lparr>mv_power_state := ''poweredOn'', mv_tools_status := Some ''toolsOk'', mv_ip_address := Some ip, mv_hostname := Some (lower name)\<rparr>)"

definition day :: rat where "day = 86400"

definition MockInventory_init :: "rat \<Rightarrow> MockInventory" where
  "MockInventory_init now =
     (let corp = (''datacenter-21'', ''DC01-Corporate''); lab = (''datacenter-22'', ''DC02-Lab'');
          san1 = (''datastore-41'', ''PROD-SAN-01''); san2 = (''datastore-42'', ''PROD-SAN-02''); labsan = (''datastore-44'', ''LAB-SAN-01'')
      in
     \<lparr>inv_datacenters = [corp, lab],
      inv_clusters =
        [(''domain-c7'', cluster_of ''PROD-CLUSTER'' ''datacenter-21'' True [''host-11'', ''host-12'', ''host-13''] 96 1536),
         (''domain-c8'', cluster_of ''EDGE-CLUSTER'' ''datacenter-21'' False [''host-14''] 48 512),
         (''domain-c9'', cluster_of ''LAB-CLUSTER'' ''datacenter-22'' True [''host-15''] 32 256)],
      inv_hosts = map (\<lambda>h. (mh_id h, h))
        [MockHost_init ''host-11'' ''esx01.company.local'' False False, MockHost_init ''host-12'' ''esx02.company.local'' False False,
         MockHost_init ''host-13'' ''esx03.company.local'' True False, MockHost_init ''host-14'' ''esx04.company.local'' False False,
         MockHost_init ''host-15'' ''lab-esx01.company.local'' False False],
      inv_resource_pools =
        [(''resgroup-31'', \<lparr>mp_name = ''Resources'', mp_cluster = ''domain-c7''\<rparr>),
         (''resgroup-32'', \<lparr>mp_name = ''PROD-HIGH'', mp_cluster = ''domain-c7''\<rparr>),
         (''resgroup-33'', \<lparr>mp_name = ''PROD-STANDARD'', mp_cluster = ''domain-c7''\<rparr>),
         (''resgroup-34'', \<lparr>mp_name = ''Resources'', mp_cluster = ''domain-c8''\<rparr>),
         (''resgroup-35'', \<lparr>mp_name = ''Resources'', mp_cluster = ''domain-c9''\<rparr>)],
      inv_datastores =
        [datastore_of ''datastore-41'' ''PROD-SAN-01'' ''VMFS'' 20480 9216 (Some ''group-p45'') True,
         datastore_of ''datastore-42'' ''PROD-SAN-02'' ''VMFS'' 10240 3072 (Some ''group-p45'') True,
         datastore_of ''datastore-43'' ''PROD-VSAN-01'' ''VSAN'' 40960 18432 None True,
         datastore_of ''datastore-44'' ''LAB-SAN-01'' ''NFS'' 5120 2048 None True,
         datastore_of ''datastore-45'' ''RETIRE-SAN'' ''VMFS'' 2048 256 None False],
      inv_cluster_datastores =
        [(''domain-c7'', [''datastore-41'', ''datastore-42'', ''datastore-43'', ''datastore-45'']),
         (''domain-c8'', [''datastore-43'']), (''domain-c9'', [''datastore-44''])],
      inv_datastore_clusters = [(''group-p45'', (''PROD-SAN-CLUSTER'', 30720, 12288))],
      inv_networks = map (\<lambda>n. (net_id n, n))
        [\<lparr>net_id = ''dvportgroup-51'', net_name = ''VLAN100-PROD'', net_type = ''DISTRIBUTED_PORT_GROUP''\<rparr>,
         \<lparr>net_id = ''dvportgroup-52'', net_name = ''VLAN200-MGMT'', net_type = ''DISTRIBUTED_PORT_GROUP''\<rparr>,
         \<lparr>net_id = ''dvportgroup-53'', net_name = ''VLAN300-DB'', net_type = ''DISTRIBUTED_PORT_GROUP''\<rparr>,
         \<lparr>net_id = ''network-54'', net_name = ''VLAN400-LAB'', net_type = ''STANDARD_PORT_GROUP''\<rparr>],
      inv_network_datacenters =
        [(''dvportgroup-51'', ''datacenter-21''), (''dvportgroup-52'', ''datacenter-21''), (''dvportgroup-53'', ''datacenter-21''),
         (''network-54'', ''datacenter-22'')],
      inv_isos =
        [iso_of ''iso-corp-windows-2025'' ''Windows Server 2025.iso'' corp san1 ''[PROD-SAN-01] ISO/Windows Server 2025.iso'' 5764607488 (now - 30 * day),
         iso_of ''iso-corp-windows-2022'' ''Windows Server 2022.iso'' corp san2 ''[PROD-SAN-02] ISO/Windows Server 2022.iso'' 5365624832 (now - 90 * day),
         iso_of ''iso-corp-windows-11'' ''Windows 11 24H2.iso'' corp san1 ''[PROD-SAN-01] ISO/Windows 11 24H2.iso'' 5819484160 (now - 45 * day),
         iso_of ''iso-lab-windows-2022'' ''Windows Server 2022.iso'' lab labsan ''[LAB-SAN-01] ISO/Windows Server 2022.iso'' 5365624832 (now - 60 * day),
         iso_of ''iso-lab-ubuntu-2404'' ''Ubuntu Server 24.04 LTS.iso'' lab labsan ''[LAB-SAN-01] ISO/ubuntu-24.04-live-server-amd64.iso'' 2732572672 (now - 10 * day)],
      inv_iso_labels =
        [(''[PROD-SAN-01] ISO/Windows Server 2025.iso'', ''SSS_X64FREE_EN-US_DV9''),
         (''[PROD-SAN-02] ISO/Windows Server 2022.iso'', ''SSS_X64FREE_EN-US_DV9''),
         (''[PROD-SAN-01] ISO/Windows 11 24H2.iso'', ''CCCOMA_X64FRE_EN-US_DV9''),
         (''[LAB-SAN-01] ISO/Windows Server 2022.iso'', ''SSS_X64FREE_EN-US_DV9''),
         (''[LAB-SAN-01] ISO/ubuntu-24.04-live-server-amd64.iso'', ''Ubuntu-Server 24.04 LTS amd64'')],
      inv_existing_vms = [existing_vm 0 ''APP-PROD-004'' ''10.20.30.10'', existing_vm 1 ''SQL-TEST-002'' ''10.20.30.11''],
      inv_reserved_ips =
        [(''10.20.30.1'', ''VLAN100 gateway''), (''10.20.30.2'', ''core-sw-01''), (''10.20.30.3'', ''core-sw-02''),
         (''10.20.30.10'', ''APP-PROD-004''), (''10.20.30.11'', ''SQL-TEST-002'')]\<rparr>)"

definition find_vm_by_name :: "MockInventory \<Rightarrow> string \<Rightarrow> MockVM option" where
  "find_vm_by_name est name = map_of (inv_existing_vms est) (upper name)"

text \<open>The process: \<^verbatim>\<open>_MOCK_ESTATES\<close>, the clock in seconds and the identifiers drawn.\<close>

record Simulator =
  sim_estates :: "(string, MockInventory) dict"
  sim_now :: rat
  sim_draws :: nat

definition estate :: "string \<Rightarrow> Simulator \<Rightarrow> MockInventory" where
  "estate vc w = (case map_of (sim_estates w) vc of None \<Rightarrow> MockInventory_init (sim_now w) | Some est \<Rightarrow> est)"

definition store_estate :: "string \<Rightarrow> MockInventory \<Rightarrow> Simulator \<Rightarrow> Simulator" where
  "store_estate vc est w = w\<lparr>sim_estates := AList.update vc est (sim_estates w)\<rparr>"

definition reset_mock_estates :: "Simulator \<Rightarrow> Simulator" where
  "reset_mock_estates w = w\<lparr>sim_estates := []\<rparr>"

definition sim_sleep :: "rat \<Rightarrow> Simulator \<Rightarrow> Simulator" where
  "sim_sleep d w = w\<lparr>sim_now := sim_now w + d\<rparr>"

definition LATENCY_DISCOVERY :: rat where "LATENCY_DISCOVERY = 15 / 100"
definition LATENCY_CREATE :: rat where "LATENCY_CREATE = 4"
definition LATENCY_RECONFIG :: rat where "LATENCY_RECONFIG = 1"
definition LATENCY_POWER_ON :: rat where "LATENCY_POWER_ON = 3 / 2"
definition TOOLS_READY_DELAY_SECONDS :: rat where "TOOLS_READY_DELAY_SECONDS = 3"

text \<open>An operation that sleeps and then works on the estate, and one on a registered machine (\<^verbatim>\<open>_require_vm\<close>).\<close>

definition on_estate ::
  "string \<Rightarrow> rat \<Rightarrow> (Simulator \<Rightarrow> MockInventory \<Rightarrow> (guest_error + 'a) \<times> MockInventory) \<Rightarrow> (Simulator, 'a) call" where
  "on_estate vc latency f w =
     (let w1 = sim_sleep latency w in case f w1 (estate vc w1) of (r, est) \<Rightarrow> (r, store_estate vc est w1))"

definition query :: "string \<Rightarrow> (MockInventory \<Rightarrow> guest_error + 'a) \<Rightarrow> (Simulator, 'a) call" where
  "query vc f = on_estate vc LATENCY_DISCOVERY (\<lambda>w est. (f est, est))"

definition require_vm :: "string \<Rightarrow> MockInventory \<Rightarrow> (string \<times> MockVM) option" where
  "require_vm v est = find (\<lambda>(_, mv). mv_id mv = v) (inv_existing_vms est)"

definition set_vm :: "string \<Rightarrow> MockVM \<Rightarrow> MockInventory \<Rightarrow> MockInventory" where
  "set_vm key mv est = est\<lparr>inv_existing_vms := AList.update key mv (inv_existing_vms est)\<rparr>"

definition on_vm ::
  "string \<Rightarrow> rat \<Rightarrow> string \<Rightarrow> (Simulator \<Rightarrow> MockInventory \<Rightarrow> MockVM \<Rightarrow> (guest_error + 'a) \<times> MockVM) \<Rightarrow> (Simulator, 'a) call" where
  "on_vm vc latency v f =
     on_estate vc latency (\<lambda>w est.
       case require_vm v est of
         None \<Rightarrow> (Inl (Other ''ServiceUnavailableError''), est)
       | Some (key, mv) \<Rightarrow> (case f w est mv of (r, mv') \<Rightarrow> (r, set_vm key mv' est)))"

section \<open>Discovery\<close>

definition sim_test_connection :: "(Simulator, ConnectionTestResult) call" where
  "sim_test_connection w =
     (Inr \<lparr>test_ok = True, test_latency_ms = Some 12, test_detail = ''Mock vCenter session established.''\<rparr>, sim_sleep LATENCY_DISCOVERY w)"

definition sim_get_datacenters :: "string \<Rightarrow> (Simulator, DatacenterOut list) call" where
  "sim_get_datacenters vc = query vc (\<lambda>est. Inr (map (\<lambda>(i, n). \<lparr>dc_id = i, dc_name = n\<rparr>) (inv_datacenters est)))"

definition sim_get_clusters :: "string \<Rightarrow> string \<Rightarrow> (Simulator, ClusterOut list) call" where
  "sim_get_clusters vc dc = query vc (\<lambda>est.
     if map_of (inv_datacenters est) dc = None then Inl (Other ''NotFoundError'')
     else Inr (map (\<lambda>(i, x). \<lparr>cl_id = i, cl_name = mc_name x, drs_enabled = mc_drs x, hosts_count = int (length (mc_hosts x))\<rparr>)
       (filter (\<lambda>(_, x). mc_dc x = dc) (inv_clusters est))))"

definition host_out :: "MockHost \<Rightarrow> HostOut" where
  "host_out h = \<lparr>host_out_id = mh_id h, host_name = mh_name h, connection_state = mh_connection_state h, maintenance_mode = mh_maintenance_mode h,
     available_for_provisioning = (mh_connection_state h = ''connected'' \<and> \<not> mh_maintenance_mode h)\<rparr>"

definition sim_get_hosts :: "string \<Rightarrow> string \<Rightarrow> (Simulator, HostOut list) call" where
  "sim_get_hosts vc cl = query vc (\<lambda>est.
     case map_of (inv_clusters est) cl of
       None \<Rightarrow> Inl (Other ''NotFoundError'')
     | Some x \<Rightarrow> collect (\<lambda>i. case map_of (inv_hosts est) i of None \<Rightarrow> Inl (Other ''KeyError'') | Some h \<Rightarrow> Inr (host_out h)) (mc_hosts x))"

text \<open>The rest of the discovery of a cluster starts with the same check.\<close>

definition cluster_query :: "string \<Rightarrow> string \<Rightarrow> (MockInventory \<Rightarrow> 'a) \<Rightarrow> (Simulator, 'a) call" where
  "cluster_query vc cl f = query vc (\<lambda>est. if map_of (inv_clusters est) cl = None then Inl (Other ''NotFoundError'') else Inr (f est))"

definition sim_get_resource_pools :: "string \<Rightarrow> string \<Rightarrow> (Simulator, string list) call" where
  "sim_get_resource_pools vc cl = cluster_query vc cl (\<lambda>est. map fst (filter (\<lambda>(_, p). mp_cluster p = cl) (inv_resource_pools est)))"

definition round_1 :: "rat \<Rightarrow> rat" where
  "round_1 x = double (of_int (round_half_even (x * 10)) / 10)"

definition sim_get_datastores :: "string \<Rightarrow> string \<Rightarrow> (Simulator, DatastoreOut list) call" where
  "sim_get_datastores vc cl = cluster_query vc cl (\<lambda>est.
     map (\<lambda>(_, d). \<lparr>ds_id = md_id d, ds_name = md_name d, free_gb = round_1 (md_free_gb d), accessible = md_accessible d\<rparr>)
       (filter (\<lambda>(_, d). md_id d \<in> set (dict_get (inv_cluster_datastores est) cl [])) (inv_datastores est)))"

record DatastoreClusterOut =
  dsc_id :: string
  dsc_name :: string
  dsc_capacity_gb :: rat
  dsc_free_gb :: rat

definition sim_get_datastore_clusters :: "string \<Rightarrow> string \<Rightarrow> (Simulator, DatastoreClusterOut list) call" where
  "sim_get_datastore_clusters vc cl = cluster_query vc cl (\<lambda>est.
     let visible = map md_datastore_cluster_id (List.map_filter (map_of (inv_datastores est)) (dict_get (inv_cluster_datastores est) cl []))
     in map (\<lambda>(i, n, cap, free). \<lparr>dsc_id = i, dsc_name = n, dsc_capacity_gb = cap, dsc_free_gb = free\<rparr>)
          (filter (\<lambda>(i, _). Some i \<in> set visible) (inv_datastore_clusters est)))"

definition datacenter_query :: "string \<Rightarrow> string \<Rightarrow> (MockInventory \<Rightarrow> guest_error + 'a) \<Rightarrow> (Simulator, 'a) call" where
  "datacenter_query vc dc f = query vc (\<lambda>est. if map_of (inv_datacenters est) dc = None then Inl (Other ''NotFoundError'') else f est)"

definition sim_get_networks :: "string \<Rightarrow> string \<Rightarrow> (Simulator, NetworkOut list) call" where
  "sim_get_networks vc dc = datacenter_query vc dc (\<lambda>est.
     Inr (sort_key net_name (map snd (filter (\<lambda>(i, _). map_of (inv_network_datacenters est) i = Some dc) (inv_networks est)))))"

definition sim_get_isos :: "string \<Rightarrow> string \<Rightarrow> (Simulator, IsoImageOut list) call" where
  "sim_get_isos vc dc = datacenter_query vc dc (\<lambda>est.
     Inr (sort_key iso_name (map (IsoImageOut.truncate \<circ> snd) (filter (\<lambda>(_, i). iso_datacenter_id i = dc) (inv_isos est)))))"

definition mock_iso_header :: "string \<Rightarrow> string" where
  "mock_iso_header label =
     replicate (16 * 2048) (CHR 0x00)
     @ [CHR 0x01] @ ''CD001'' @ [CHR 0x01] @ replicate 33 (CHR 0x00)
     @ label @ replicate (32 - length label) (CHR '' '') @ replicate (2048 - 72) (CHR 0x00)"

definition sim_read_datastore_file :: "string \<Rightarrow> string \<Rightarrow> string \<Rightarrow> nat \<Rightarrow> (Simulator, string) call" where
  "sim_read_datastore_file vc dc path max_bytes = datacenter_query vc dc (\<lambda>est.
     case map_of (inv_iso_labels est) path of
       Some label \<Rightarrow> Inr (take max_bytes (mock_iso_header label))
     | None \<Rightarrow>
         if endswith (lower path) ''.png'' then Inr (take max_bytes [CHR 0x89, CHR ''P'', CHR ''N'', CHR ''G'', CHR 0x0D, CHR 0x0A, CHR 0x1A, CHR 0x0A])
         else Inl (Infra (infra_error (squoted path @ '' was not found on its datastore.'') ''The file was moved or deleted.''
                ''Refresh the inventory and select the file again.'' [] False)))"

section \<open>Inventory queries\<close>

definition sim_vm_exists :: "string \<Rightarrow> string \<Rightarrow> (Simulator, bool) call" where
  "sim_vm_exists vc name = query vc (\<lambda>est. Inr (find_vm_by_name est name \<noteq> None))"

definition advance_installation :: "rat \<Rightarrow> MockVM \<Rightarrow> MockVM" where
  "advance_installation now mv =
     (let installing = (mv_answer_media mv \<noteq> [] \<and> mv_installation_media mv \<noteq> []) in
      case mv_powered_on_at mv of
        None \<Rightarrow> mv
      | Some t \<Rightarrow>
          if (mv_has_guest_os mv \<or> installing) \<and> now - t \<ge> TOOLS_READY_DELAY_SECONDS \<and> \<not> mv_guest_operations_ready mv
          then mv\<lparr>mv_has_guest_os := True, mv_guest_state := Some ''running'', mv_guest_family := Some ''windowsGuest'',
                  mv_tools_status := Some ''toolsOk'', mv_tools_running_status := Some ''guestToolsRunning'',
                  mv_tools_version_status := Some ''guestToolsCurrent'', mv_guest_operations_ready := True\<rparr>
          else mv)"

text \<open>\<^verbatim>\<open>_info\<close> on a machine that \<^verbatim>\<open>_advance_installation\<close> has moved on.\<close>

definition vm_info :: "MockVM \<Rightarrow> PowerStateInfo" where
  "vm_info mv =
     \<lparr>power_state = mv_power_state mv, tools_status = mv_tools_status mv, tools_running_status = mv_tools_running_status mv,
      tools_version_status = mv_tools_version_status mv, guest_operations_ready = mv_guest_operations_ready mv, guest_family = mv_guest_family mv,
      ip_addresses = (if truthy_text (mv_ip_address mv) then [the (mv_ip_address mv)] else []),
      guest_host_name = (if truthy_text (mv_hostname mv) then mv_hostname mv
                         else if mv_guest_operations_ready mv then Some (upper (mv_name mv)) else None),
      cpu_usage_mhz = Some (if mv_power_state mv = ''poweredOn'' then (if mv_guest_operations_ready mv then 120 else 1800) else 0),
      cpu_capacity_mhz = Some (mv_cpu mv * 2400)\<rparr>"

definition observe_vm :: "string \<Rightarrow> (MockInventory \<Rightarrow> (string \<times> MockVM) option) \<Rightarrow> (Simulator, PowerStateInfo option) call" where
  "observe_vm vc find_it = on_estate vc LATENCY_DISCOVERY (\<lambda>w est.
     case find_it est of
       None \<Rightarrow> (Inr None, est)
     | Some (key, mv) \<Rightarrow> (let mv' = advance_installation (sim_now w) mv in (Inr (Some (vm_info mv')), set_vm key mv' est)))"

definition sim_get_vm_info :: "string \<Rightarrow> string \<Rightarrow> (Simulator, PowerStateInfo option) call" where
  "sim_get_vm_info vc name = observe_vm vc (\<lambda>est. map_option (Pair (upper name)) (find_vm_by_name est name))"

definition sim_get_vm_info_by_id :: "string \<Rightarrow> string \<Rightarrow> (Simulator, PowerStateInfo option) call" where
  "sim_get_vm_info_by_id vc v = observe_vm vc (require_vm v)"

definition sim_get_used_ips :: "string \<Rightarrow> (Simulator, (string, string) dict) call" where
  "sim_get_used_ips vc = query vc (\<lambda>est.
     Inr (fold (\<lambda>(_, mv) used. if truthy_text (mv_ip_address mv) then AList.update (the (mv_ip_address mv)) (mv_name mv) used else used)
       (inv_existing_vms est) (inv_reserved_ips est)))"

definition sim_resolve_vm_id :: "string \<Rightarrow> string \<Rightarrow> (Simulator, string option) call" where
  "sim_resolve_vm_id vc name = query vc (\<lambda>est. Inr (map_option mv_id (find_vm_by_name est name)))"

definition ownership :: "MockVM \<Rightarrow> VmOwnership" where
  "ownership mv = \<lparr>owned_vm_id = mv_id mv, owned_name = mv_name mv, owner_job_id = mv_owner_job_id mv\<rparr>"

definition sim_find_vm_ownership :: "string \<Rightarrow> string \<Rightarrow> (Simulator, VmOwnership option) call" where
  "sim_find_vm_ownership vc name = query vc (\<lambda>est. Inr (map_option ownership (find_vm_by_name est name)))"

definition sim_tag_vm_owner :: "string \<Rightarrow> string \<Rightarrow> string \<Rightarrow> (Simulator, unit) call" where
  "sim_tag_vm_owner vc v jid = on_vm vc 0 v (\<lambda>w est mv.
     if mv_owner_job_id mv \<noteq> None \<and> mv_owner_job_id mv \<noteq> Some jid
     then (Inl (Infra (infra_error (''VM '' @ squoted (mv_name mv) @ '' belongs to another InfraOps job.'') ''Ownership marker mismatch.''
             ''Choose a different VM name.'' [] False)), mv)
     else (Inr (), mv\<lparr>mv_owner_job_id := Some jid\<rparr>))"

section \<open>Lifecycle\<close>

definition placement_error :: "VmCreateSpec \<Rightarrow> MockInventory \<Rightarrow> InfraOperationError option" where
  "placement_error spec est =
     (case map_of (inv_clusters est) (spec_cluster_id spec) of
        None \<Rightarrow> Some (infra_error (''Cluster '' @ squoted (spec_cluster_id spec) @ '' is not available in the selected datacenter.'')
          ''The placement inventory changed after validation.'' ''Re-open the wizard and select the infrastructure again.'' [] False)
      | Some cl \<Rightarrow>
          if mc_dc cl \<noteq> spec_datacenter_id spec
          then Some (infra_error (''Cluster '' @ squoted (spec_cluster_id spec) @ '' is not available in the selected datacenter.'')
            ''The placement inventory changed after validation.'' ''Re-open the wizard and select the infrastructure again.'' [] False)
          else if truthy_text (spec_host_id spec) \<and> the (spec_host_id spec) \<notin> set (mc_hosts cl)
          then Some (infra_error (''Host '' @ squoted (the (spec_host_id spec)) @ '' does not belong to cluster '' @ squoted (spec_cluster_id spec) @ ''.'')
            ''The requested host and cluster do not match.'' ''Select a host from the chosen cluster.'' [] False)
          else if truthy_text (spec_resource_pool_id spec)
              \<and> (case map_of (inv_resource_pools est) (the (spec_resource_pool_id spec)) of None \<Rightarrow> True | Some p \<Rightarrow> mp_cluster p \<noteq> spec_cluster_id spec)
          then Some (infra_error (''Resource pool '' @ squoted (the (spec_resource_pool_id spec)) @ '' was not found in the cluster.'')
            ''Resource pool removed or moved after validation.'' ''Re-select the placement target and retry.'' [] False)
          else if find_vm_by_name est (spec_vm_name spec) \<noteq> None
          then Some (infra_error (''A virtual machine named '' @ squoted (spec_vm_name spec) @ '' already exists.'')
            ''Duplicate VM name in the vCenter inventory.'' ''Choose a different VM name and resubmit the request.'' [] False)
          else None)"

definition creation_candidates :: "VmCreateSpec \<Rightarrow> MockInventory \<Rightarrow> MockDatastore list" where
  "creation_candidates spec est =
     (let allowed = dict_get (inv_cluster_datastores est) (spec_cluster_id spec) [];
          candidates = filter (\<lambda>d. md_id d \<in> set allowed \<and> md_accessible d \<and> md_free_gb d \<ge> of_int (size_gb (spec_os_disk spec)))
            (map snd (inv_datastores est))
      in if truthy_text (spec_datastore_id spec) then filter (\<lambda>d. md_id d = the (spec_datastore_id spec)) candidates else candidates)"

definition iso_available :: "VmCreateSpec \<Rightarrow> MockInventory \<Rightarrow> MockIso \<Rightarrow> bool" where
  "iso_available spec est img =
     (iso_datacenter_id img = spec_datacenter_id spec
      \<and> iso_datastore_id img \<in> set (dict_get (inv_cluster_datastores est) (spec_cluster_id spec) [])
      \<and> (case map_of (inv_datastores est) (iso_datastore_id img) of None \<Rightarrow> False | Some d \<Rightarrow> md_accessible d))"

definition TOOLS_ISO :: string where "TOOLS_ISO = ''[] /vmimages/tools-isoimages/windows.iso''"

definition created_vm :: "VmCreateSpec \<Rightarrow> string \<Rightarrow> MockDatastore \<Rightarrow> MockIso \<Rightarrow> MockVM" where
  "created_vm spec v d img =
     (MockVM_init v (spec_vm_name spec) False)\<lparr>mv_cpu := spec_cpu spec, mv_memory_mb := spec_memory_mb spec, mv_disks_gb := [size_gb (spec_os_disk spec)],
        mv_datastore_id := Some (md_id d), mv_installation_media := [iso_path img, TOOLS_ISO], mv_owner_job_id := spec_job_id spec\<rparr>"

definition take_space :: "string \<Rightarrow> int \<Rightarrow> MockInventory \<Rightarrow> MockInventory" where
  "take_space sid gb est =
     est\<lparr>inv_datastores := map (\<lambda>(k, d). (k, if md_id d = sid then d\<lparr>md_free_gb := double (md_free_gb d - of_int gb)\<rparr> else d)) (inv_datastores est)\<rparr>"

text \<open>
  A creation is two moments with a pause between them, in which other calls may come: the checks with the deduction of
  the space, and the registration of the machine. \<open>sim_create_vm\<close> is a creation without other calls in the pause; a
  run that is cut off in the pause leaves what \<open>sim_begin_creation\<close> left, with the space taken and no machine.
\<close>

definition sim_begin_creation :: "string \<Rightarrow> VmCreateSpec \<Rightarrow> (Simulator, MockDatastore \<times> MockIso) call" where
  "sim_begin_creation vc spec w =
     (let est = estate vc w; fail = (\<lambda>e. (Inl (Infra e), store_estate vc est w)) in
      case placement_error spec est of
        Some e \<Rightarrow> fail e
      | None \<Rightarrow>
          (case first_max md_free_gb (creation_candidates spec est) of
             None \<Rightarrow> fail (infra_error ''No selected datastore has enough accessible capacity for the VM.''
               (''The OS disk requires approximately '' @ int_text (size_gb (spec_os_disk spec)) @ '' GB.'')
               ''Select another datastore or reduce the requested disk capacity.'' [] False)
           | Some d \<Rightarrow>
               (case map_of (inv_isos est) (spec_iso_id spec) of
                  Some img \<Rightarrow>
                    if iso_available spec est img
                    then (Inr (d, img), store_estate vc (take_space (md_id d) (size_gb (spec_os_disk spec)) est) w)
                    else fail (infra_error ''The selected ISO is not available to the target compute cluster.''
                      ''The ISO belongs to another datacenter or an inaccessible datastore.''
                      ''Refresh the ISO inventory and select another image.'' [] False)
                | None \<Rightarrow> fail (infra_error ''The selected ISO is not available to the target compute cluster.''
                      ''The ISO belongs to another datacenter or an inaccessible datastore.''
                      ''Refresh the ISO inventory and select another image.'' [] False))))"

definition sim_register_vm :: "(nat \<Rightarrow> string) \<Rightarrow> string \<Rightarrow> VmCreateSpec \<Rightarrow> MockDatastore \<Rightarrow> MockIso \<Rightarrow> Simulator \<Rightarrow> VmRef \<times> Simulator" where
  "sim_register_vm hex vc spec d img w =
     (let v = ''vm-'' @ hex (sim_draws w)
      in (\<lparr>vm_ref_id = v, vm_ref_name = spec_vm_name spec\<rparr>,
          store_estate vc (set_vm (upper (spec_vm_name spec)) (created_vm spec v d img) (estate vc w)) (w\<lparr>sim_draws := Suc (sim_draws w)\<rparr>)))"

definition sim_create_vm :: "(nat \<Rightarrow> string) \<Rightarrow> string \<Rightarrow> VmCreateSpec \<Rightarrow> (Simulator, VmRef) call" where
  "sim_create_vm hex vc spec w =
     (case sim_begin_creation vc spec w of
        (Inl e, w1) \<Rightarrow> (Inl e, w1)
      | (Inr (d, img), w1) \<Rightarrow>
          (case sim_register_vm hex vc spec d img (sim_sleep LATENCY_CREATE w1) of (ref, w2) \<Rightarrow> (Inr ref, w2)))"

definition sim_configure_hardware :: "string \<Rightarrow> string \<Rightarrow> int \<Rightarrow> int \<Rightarrow> (Simulator, unit) call" where
  "sim_configure_hardware vc v n mb = on_vm vc LATENCY_RECONFIG v (\<lambda>w est mv. (Inr (), mv\<lparr>mv_cpu := n, mv_memory_mb := mb\<rparr>))"

definition sim_attach_network :: "string \<Rightarrow> string \<Rightarrow> string \<Rightarrow> string \<Rightarrow> AdapterType \<Rightarrow> string \<Rightarrow> (Simulator, unit) call" where
  "sim_attach_network vc host v net adapter dc = on_vm vc LATENCY_RECONFIG v (\<lambda>w est mv.
     if map_of (inv_networks est) net = None
     then (Inl (Infra (infra_error (''Network '' @ squoted net @ '' no longer exists on '' @ host @ ''.'') ''Port group removed or renamed.''
             ''Select a valid port group and retry the network stage.'' [] True)), mv)
     else if map_of (inv_datacenters est) dc = None
     then (Inl (Infra (infra_error ''The selected datacenter no longer exists.'' ''The placement inventory changed after validation.''
             ''Refresh the infrastructure inventory and retry.'' [] False)), mv)
     else if map_of (inv_network_datacenters est) net \<noteq> Some dc
     then (Inl (Infra (infra_error ''The selected network belongs to another datacenter.''
             ''Network scope changed or the request contains a stale selection.'' ''Select a network from the target datacenter.'' [] False)), mv)
     else (Inr (), mv\<lparr>mv_network_id := Some net\<rparr>))"

definition sim_attach_answer_media :: "string \<Rightarrow> string \<Rightarrow> string \<Rightarrow> string option \<Rightarrow> string \<Rightarrow> string \<Rightarrow> (Simulator, string) call" where
  "sim_attach_answer_media vc v dc ds file_name content = on_vm vc LATENCY_RECONFIG v (\<lambda>w est mv.
     if content = []
     then (Inl (Infra (infra_error ''The generated answer media was empty.'' ''No answer-file content was supplied.''
             ''Retry the unattended installation preparation stage.'' [] True)), mv)
     else let path = ''[mock-datastore] infraops-unattend/'' @ file_name in (Inr path, mv\<lparr>mv_answer_media := List.insert path (mv_answer_media mv)\<rparr>))"

definition sim_remove_answer_media :: "string \<Rightarrow> string \<Rightarrow> string \<Rightarrow> string \<Rightarrow> (Simulator, unit) call" where
  "sim_remove_answer_media vc v dc path = on_vm vc 0 v (\<lambda>w est mv. (Inr (), mv\<lparr>mv_answer_media := removeAll path (mv_answer_media mv)\<rparr>))"

definition sim_power_on :: "string \<Rightarrow> string \<Rightarrow> (Simulator, unit) call" where
  "sim_power_on vc v = on_vm vc LATENCY_POWER_ON v (\<lambda>w est mv.
     if mv_power_state mv = ''poweredOn''
     then (Inl (Infra (infra_error (''VM '' @ squoted (mv_name mv) @ '' is already powered on.'') ''The VM was powered on outside this stage.''
             ''Reset the VM or retry the stage.'' [] True)), mv)
     else (Inr (), mv\<lparr>mv_power_state := ''poweredOn'', mv_powered_on_at := Some (sim_now w),
                      mv_guest_state := (if mv_has_guest_os mv then Some ''running'' else mv_guest_state mv)\<rparr>))"

definition sim_reset :: "string \<Rightarrow> string \<Rightarrow> (Simulator, unit) call" where
  "sim_reset vc v = on_vm vc 0 v (\<lambda>w est mv. (Inr (), mv\<lparr>mv_powered_on_at := Some (sim_now w)\<rparr>))"

definition sim_send_keystrokes :: "string \<Rightarrow> string \<Rightarrow> nat list \<Rightarrow> (Simulator, nat) call" where
  "sim_send_keystrokes vc v keys = on_vm vc 0 v (\<lambda>w est mv. (Inr (length keys), mv\<lparr>mv_keystrokes := mv_keystrokes mv @ keys\<rparr>))"

definition tools_timeout_error :: "MockVM \<Rightarrow> rat \<Rightarrow> string \<Rightarrow> InfraOperationError" where
  "tools_timeout_error mv timeout timeout_text =
     infra_error (''VMware Tools did not become ready on '' @ squoted (mv_name mv) @ '' within the configured timeout.'')
       (''Tools heartbeat absent after '' @ int_text (py_int timeout) @ '' seconds.'')
       ''Open the console screenshot attached to this step to see where the guest stopped, then retry the failed stage.''
       (''mock: tools_ready_delay=3.0s timeout='' @ timeout_text @ ''s'') True"

text \<open>One round of \<^verbatim>\<open>wait_for_tools\<close>; \<open>timeout_text\<close> is the timeout as Python prints it.\<close>

definition tools_round ::
  "string \<Rightarrow> string \<Rightarrow> rat \<Rightarrow> string \<Rightarrow> rat \<Rightarrow> Simulator \<Rightarrow> (guest_error + unit) \<times> Simulator + Simulator" where
  "tools_round vc v timeout timeout_text deadline w =
     (case on_vm vc 0 v (\<lambda>w est mv. let mv' = advance_installation (sim_now w) mv in (Inr mv', mv')) w of
        (Inl e, w1) \<Rightarrow> Inl (Inl e, w1)
      | (Inr mv, w1) \<Rightarrow>
          if mv_guest_operations_ready mv then Inl (Inr (), w1)
          else if sim_now w1 \<ge> deadline then Inl (Inl (Infra (tools_timeout_error mv timeout timeout_text)), w1)
          else Inr (sim_sleep (1 / 4) w1))"

definition sim_wait_for_tools :: "string \<Rightarrow> string \<Rightarrow> rat \<Rightarrow> string \<Rightarrow> Simulator \<Rightarrow> ((guest_error + unit) \<times> Simulator) option" where
  "sim_wait_for_tools vc v timeout timeout_text w = loop (tools_round vc v timeout timeout_text (sim_now w + timeout)) w"

definition sim_detach_installation_media :: "string \<Rightarrow> string \<Rightarrow> (Simulator, string list) call" where
  "sim_detach_installation_media vc v = on_vm vc LATENCY_RECONFIG v (\<lambda>w est mv. (Inr (mv_installation_media mv), mv\<lparr>mv_installation_media := []\<rparr>))"

definition sim_add_data_disks :: "string \<Rightarrow> string \<Rightarrow> DiskSpec list \<Rightarrow> (Simulator, nat) call" where
  "sim_add_data_disks vc v ds = on_estate vc LATENCY_RECONFIG (\<lambda>w est.
     case require_vm v est of
       None \<Rightarrow> (Inl (Other ''ServiceUnavailableError''), est)
     | Some (key, mv) \<Rightarrow>
         (let missing = drop (length (mv_disks_gb mv) - 1) ds; required = sum_list (map size_gb missing);
              added = mv\<lparr>mv_disks_gb := mv_disks_gb mv @ map size_gb missing\<rparr>
          in case map_of (inv_datastores est) (text_or (mv_datastore_id mv) []) of
               None \<Rightarrow> (Inr (length missing), set_vm key added est)
             | Some d \<Rightarrow>
                 if md_free_gb d < of_int required
                 then (Inl (Infra (infra_error (''Datastore '' @ squoted (md_name d) @ '' has only '' @ fixed_0 (md_free_gb d)
                          @ '' GB free but the data disks need '' @ int_text required @ '' GB.'') ''Insufficient datastore capacity.''
                        ''Free space on the datastore, then retry this stage.'' [] True)), est)
                 else (Inr (length missing), set_vm key added (take_space (md_id d) required est))))"

definition sim_check_host_https :: "string list \<Rightarrow> (string, string option) dict" where
  "sim_check_host_https names = map (\<lambda>n. (n, None)) names"

definition sim_capture_screenshot :: "string \<Rightarrow> string \<Rightarrow> (Simulator, string) call" where
  "sim_capture_screenshot vc v = on_vm vc 0 v (\<lambda>w est mv.
     (Inr (''[mock-datastore] '' @ mv_name mv @ ''/'' @ mv_name mv @ ''-'' @ nat_text (Suc (mv_screenshots mv)) @ ''.png''),
      mv\<lparr>mv_screenshots := Suc (mv_screenshots mv)\<rparr>))"

text \<open>An environment whose vCenter is the simulation.\<close>

definition simulate :: "(nat \<Rightarrow> string) \<Rightarrow> string \<Rightarrow> (Simulator, 'z) stage_env_scheme \<Rightarrow> (Simulator, 'z) stage_env_scheme" where
  "simulate hex vc env = env\<lparr>
     remove_answer_media := (\<lambda>v dc path w. case sim_remove_answer_media vc v dc path w of (Inl e, w') \<Rightarrow> (Some e, w') | (Inr _, w') \<Rightarrow> (None, w')),
     capture_screenshot := (\<lambda>v w. case sim_capture_screenshot vc v w of (Inl e, w') \<Rightarrow> (None, w') | (Inr p, w') \<Rightarrow> (Some p, w')),
     se_time := sim_now, se_sleep := sim_sleep,
     test_connection := sim_test_connection, get_datacenters := sim_get_datacenters vc, get_clusters := sim_get_clusters vc,
     get_hosts := sim_get_hosts vc, get_resource_pools := sim_get_resource_pools vc, get_datastores := sim_get_datastores vc,
     get_networks := sim_get_networks vc, get_isos := sim_get_isos vc, get_vm_info := sim_get_vm_info vc,
     get_vm_info_by_id := sim_get_vm_info_by_id vc, get_used_ips := sim_get_used_ips vc, find_vm_ownership := sim_find_vm_ownership vc,
     create_vm := sim_create_vm hex vc, configure_hardware := sim_configure_hardware vc, attach_network := sim_attach_network vc (se_host env),
     attach_answer_media := sim_attach_answer_media vc, power_on := sim_power_on vc, reset_vm := sim_reset vc,
     send_keystrokes := sim_send_keystrokes vc,
     detach_installation_media := (\<lambda>v w. case sim_detach_installation_media vc v w of (Inl e, w') \<Rightarrow> (Inl (e, False), w') | (Inr ms, w') \<Rightarrow> (Inr ms, w')),
     add_data_disks := sim_add_data_disks vc\<rparr>"

section \<open>The simulation is such a vCenter\<close>

lemma estate_store [simp]: "estate vc (store_estate vc est w) = est" "sim_now (store_estate vc est w) = sim_now w"
  by (simp_all add: estate_def store_estate_def update_conv')

lemma sim_sleep_fields [simp]: "estate vc (sim_sleep d (store_estate vc est w)) = est" "sim_now (sim_sleep d w) = sim_now w + d"
  by (simp_all add: sim_sleep_def estate_def store_estate_def update_conv')

lemma find_vm_set [simp]: "find_vm_by_name (set_vm key m est) name = (if upper name = key then Some m else find_vm_by_name est name)"
  by (simp add: find_vm_by_name_def set_vm_def update_conv')

lemma simulate_simps [simp]:
  "find_vm_ownership (simulate hex vc env) = sim_find_vm_ownership vc" "create_vm (simulate hex vc env) = sim_create_vm hex vc"
  "se_time (simulate hex vc env) = sim_now" "se_sleep (simulate hex vc env) = sim_sleep" "se_request (simulate hex vc env) = se_request env"
  "get_vm_info (simulate hex vc env) = sim_get_vm_info vc" "get_vm_info_by_id (simulate hex vc env) = sim_get_vm_info_by_id vc"
  "power_on (simulate hex vc env) = sim_power_on vc" "reset_vm (simulate hex vc env) = sim_reset vc"
  "send_keystrokes (simulate hex vc env) = sim_send_keystrokes vc" "se_guest (simulate hex vc env) = se_guest env"
  "settings_rows (simulate hex vc env) = settings_rows env" "se_iso (simulate hex vc env) = se_iso env"
  by (simp_all add: simulate_def)

interpretation simulator: vcenter "simulate hex vc env" for hex vc and env :: "(Simulator, 'z) stage_env_scheme"
proof
  fix spec w ref w1
  assume "create_vm (simulate hex vc env) spec w = (Inr ref, w1)"
  then show "fst (find_vm_ownership (simulate hex vc env) (spec_vm_name spec) w1)
      = Inr (Some \<lparr>owned_vm_id = vm_ref_id ref, owned_name = vm_ref_name ref, owner_job_id = spec_job_id spec\<rparr>)"
    by (auto simp: sim_create_vm_def sim_register_vm_def sim_find_vm_ownership_def query_def on_estate_def Let_def ownership_def created_vm_def
        MockVM_init_def sim_sleep_def estate_def store_estate_def update_conv' split: prod.splits sum.splits)
next
  fix n m w
  show "fst (find_vm_ownership (simulate hex vc env) n (snd (find_vm_ownership (simulate hex vc env) m w)))
      = fst (find_vm_ownership (simulate hex vc env) n w)"
    by (simp add: sim_find_vm_ownership_def query_def on_estate_def Let_def)
qed

section \<open>A simulated installation\<close>

text \<open>The machine that an estate knows under a key and an identifier.\<close>

definition machine :: "string \<Rightarrow> string \<Rightarrow> string \<Rightarrow> MockVM \<Rightarrow> Simulator \<Rightarrow> bool" where
  "machine vc v key m w \<longleftrightarrow> map_of (sim_estates w) vc \<noteq> None \<and> distinct (map fst (inv_existing_vms (estate vc w)))
     \<and> require_vm v (estate vc w) = Some (key, m)"

lemma find_updated:
  "find (\<lambda>(_, m). mv_id m = v) vms = Some (key, m) \<Longrightarrow> distinct (map fst vms) \<Longrightarrow> mv_id m' = v \<Longrightarrow>
     find (\<lambda>(_, m). mv_id m = v) (AList.update key m' vms) = Some (key, m')"
  by (induction vms) (auto split: if_splits dest: find_SomeD)

lemma machine_set:
  assumes "machine vc v key m w" and "mv_id m' = mv_id m"
  shows "machine vc v key m' (store_estate vc (set_vm key m' (estate vc w)) w')"
    and "machine vc v key m (sim_sleep d w)"
  using assms find_SomeD [of "\<lambda>(_, m). mv_id m = v" "inv_existing_vms (estate vc w)" "(key, m)"]
  by (auto simp: machine_def require_vm_def set_vm_def find_updated distinct_update store_estate_def update_conv' estate_def sim_sleep_def)

lemma machine_named: "machine vc v key m w \<Longrightarrow> map_of (inv_existing_vms (estate vc w)) key = Some m"
  by (auto simp: machine_def require_vm_def dest: find_SomeD)

lemma estate_sleep: "machine vc v key m w \<Longrightarrow> estate vc (sim_sleep d w) = estate vc w"
  by (auto simp: machine_def estate_def sim_sleep_def)

text \<open>What an operation on the machine returns and leaves.\<close>

lemma on_machine:
  assumes "machine vc v key m w" and "f (sim_sleep d w) (estate vc w) m = (r, m')" and "mv_id m' = mv_id m"
  shows "\<exists>w'. on_vm vc d v f w = (r, w') \<and> machine vc v key m' w' \<and> sim_now w' = sim_now w + d"
proof -
  have "require_vm v (estate vc w) = Some (key, m)" using assms(1) by (simp add: machine_def)
  with assms machine_set(1) [OF machine_set(2) [OF assms(1) refl] assms(3), of d "sim_sleep d w"] show ?thesis
    by (simp add: on_vm_def on_estate_def Let_def estate_sleep [OF assms(1)])
qed

lemma observe_machine:
  assumes "machine vc v key m w" and "find_it (estate vc w) = Some (key, m)"
  shows "\<exists>w'. observe_vm vc find_it w = (Inr (Some (vm_info (advance_installation (sim_now w + LATENCY_DISCOVERY) m))), w')
     \<and> machine vc v key (advance_installation (sim_now w + LATENCY_DISCOVERY) m) w' \<and> sim_now w' = sim_now w + LATENCY_DISCOVERY"
proof -
  have "mv_id (advance_installation t m) = mv_id m" for t by (simp add: advance_installation_def Let_def split: option.split)
  with assms machine_set(1) [OF machine_set(2) [OF assms(1) refl], of _ LATENCY_DISCOVERY "sim_sleep LATENCY_DISCOVERY w"] show ?thesis
    by (simp add: observe_vm_def on_estate_def Let_def estate_sleep [OF assms(1)])
qed

text \<open>A machine that Windows gets installed on once it runs, or is installed on.\<close>

definition installable :: "MockVM \<Rightarrow> bool" where
  "installable m \<longleftrightarrow> (mv_has_guest_os m \<or> mv_answer_media m \<noteq> [] \<and> mv_installation_media m \<noteq> [])
     \<and> (mv_guest_operations_ready m \<longrightarrow> mv_tools_running_status m = Some ''guestToolsRunning'' \<and> mv_guest_family m = Some ''windowsGuest'')"

definition runs_since :: "rat \<Rightarrow> MockVM \<Rightarrow> bool" where
  "runs_since t m \<longleftrightarrow> installable m \<and> mv_power_state m = ''poweredOn'' \<and> (\<exists>on \<le> t. mv_powered_on_at m = Some on)"

lemma advance_keeps: "installable m \<Longrightarrow> installable (advance_installation now m)"
  "mv_power_state (advance_installation now m) = mv_power_state m" "mv_id (advance_installation now m) = mv_id m"
  "mv_powered_on_at (advance_installation now m) = mv_powered_on_at m"
  by (auto simp: installable_def advance_installation_def Let_def split: option.splits)

text \<open>Windows is there three seconds after the machine was started.\<close>

lemma installed_in_time:
  "runs_since t m \<Longrightarrow> t + TOOLS_READY_DELAY_SECONDS \<le> now \<Longrightarrow>
     tools_ready (vm_info (advance_installation now m)) \<and> guest_family (vm_info (advance_installation now m)) = Some ''windowsGuest''"
  by (auto simp: runs_since_def installable_def advance_installation_def tools_ready_def vm_info_def Let_def)

lemma keystroke:
  assumes "machine vc v key m w" "runs_since t m"
  shows "\<exists>m' w'. sim_send_keystrokes vc v keys w = (Inr (length keys), w') \<and> machine vc v key m' w' \<and> runs_since t m' \<and> sim_now w' = sim_now w"
  using on_machine [OF assms(1), of "\<lambda>w est m. (Inr (length keys), m\<lparr>mv_keystrokes := mv_keystrokes m @ keys\<rparr>)" 0 "Inr (length keys)"
      "m\<lparr>mv_keystrokes := mv_keystrokes m @ keys\<rparr>"] assms(2)
  by (fastforce simp: sim_send_keystrokes_def runs_since_def installable_def)

lemma keys_pressed:
  assumes "machine vc v key m (world c)" "runs_since t m"
  shows "\<exists>sent c' m'. press_key_to_boot_from_iso (simulate hex vc env) v c = Some (Inr sent, c') \<and> vm_ref c' = vm_ref c \<and> vm_name c' = vm_name c
     \<and> machine vc v key m' (world c') \<and> runs_since t m' \<and> sim_now (world c) + BOOT_KEY_SECONDS \<le> sim_now (world c')"
proof -
  let ?E = "simulate hex vc env" and ?stop = "sim_now (world c) + BOOT_KEY_SECONDS" and ?time = "\<lambda>s :: nat \<times> Simulator JobRunContext. sim_now (world (snd s))"
  define I where "I s \<longleftrightarrow> vm_ref (snd s) = vm_ref c \<and> vm_name (snd s) = vm_name c
     \<and> (\<exists>m'. machine vc v key m' (world (snd s)) \<and> runs_since t m')" for s :: "nat \<times> Simulator JobRunContext"
  have round: "(\<exists>sent c'. press_key ?E v ?stop s = Inl (Inr sent, c') \<and> I (sent, c') \<and> ?stop \<le> sim_now (world c'))
      \<or> (\<exists>s'. press_key ?E v ?stop s = Inr s' \<and> I s' \<and> ?time s < ?stop \<and> ?time s + BOOT_KEY_INTERVAL_SECONDS \<le> ?time s')" if I: "I s" for s
  proof -
    obtain sent d where s: "s = (sent, d)" by fastforce
    from I obtain m1 where "machine vc v key m1 (world d)" "runs_since t m1" by (auto simp: I_def s)
    then obtain m2 w where "sim_send_keystrokes vc v [HID_SPACEBAR] (world d) = (Inr (length [HID_SPACEBAR]), w)"
      "machine vc v key m2 w" "runs_since t m2" "sim_now w = sim_now (world d)" using keystroke by blast
    with I machine_set(2) [of vc v key m2 w m2 BOOT_KEY_INTERVAL_SECONDS] show ?thesis
      by (auto simp: press_key_def s I_def)
  qed
  have start: "I (0, c)" using assms(1,2) by (auto simp: I_def)
  have step: "I s'" if "I s" "press_key ?E v ?stop s = Inr s'" for s s' using round [OF that(1)] that(2) by auto
  have "\<exists>x. loop (press_key ?E v ?stop) (0, c) = Some x"
    by (rule loop_ends [where d = BOOT_KEY_INTERVAL_SECONDS and time = ?time and I = I and deadline = ?stop, OF _ start step])
      (use round in \<open>fastforce simp: BOOT_KEY_INTERVAL_SECONDS_def\<close>)+
  then obtain x where x: "loop (press_key ?E v ?stop) (0, c) = Some x" by blast
  have "\<exists>s. I s \<and> press_key ?E v ?stop s = Inl x" by (rule loop_result [where I = I, OF x start]) (rule step)
  then obtain s where s: "I s" "press_key ?E v ?stop s = Inl x" by blast
  with round [OF s(1)] obtain sent c' where "x = (Inr sent, c')" "I (sent, c')" "?stop \<le> sim_now (world c')" by auto
  with x show ?thesis by (auto simp: press_key_to_boot_from_iso_def I_def)
qed

lemma started:
  assumes "machine vc v key m w" "installable m" and "mv_power_state m = ''poweredOn'' \<longleftrightarrow> on"
  shows "\<exists>w' m'. (if on then sim_reset vc v w else sim_power_on vc v w) = (Inr (), w') \<and> machine vc v key m' w' \<and> runs_since (sim_now w') m'"
proof (cases on)
  case True
  with assms on_machine [OF assms(1), of "\<lambda>w est m. (Inr (), m\<lparr>mv_powered_on_at := Some (sim_now w)\<rparr>)" 0] show ?thesis
    by (fastforce simp: sim_reset_def runs_since_def installable_def)
next
  case False
  let ?f = "\<lambda>w (est :: MockInventory) m. if mv_power_state m = ''poweredOn''
     then (Inl (Infra (infra_error (''VM '' @ squoted (mv_name m) @ '' is already powered on.'') ''The VM was powered on outside this stage.''
             ''Reset the VM or retry the stage.'' [] True)), m)
     else (Inr (), m\<lparr>mv_power_state := ''poweredOn'', mv_powered_on_at := Some (sim_now w),
                      mv_guest_state := (if mv_has_guest_os m then Some ''running'' else mv_guest_state m)\<rparr>)"
  from False assms on_machine [OF assms(1), of ?f LATENCY_POWER_ON] show ?thesis
    by (fastforce simp: sim_power_on_def runs_since_def installable_def)
qed

lemma setup_awaited:
  assumes "machine vc v key m (world c)" "runs_since t m" "t + TOOLS_READY_DELAY_SECONDS \<le> sim_now (world c)"
    and "vm_ref c = Some ref" "vm_ref_id ref = v"
  shows "\<exists>out c'. stage_wait_for_guest_os (simulate hex vc env) c = Some (Inr out, c') \<and> outcome_status out = ''SUCCEEDED''
     \<and> guest_os_status (job c') = GO_READY"
proof -
  let ?m = "advance_installation (sim_now (world c) + LATENCY_DISCOVERY) m"
  obtain w' where look: "sim_get_vm_info_by_id vc v (world c) = (Inr (Some (vm_info ?m)), w')"
    using observe_machine [OF assms(1), of "require_vm v"] assms(1) by (auto simp: sim_get_vm_info_by_id_def machine_def)
  have ready: "tools_ready (vm_info ?m)" "guest_family (vm_info ?m) = Some ''windowsGuest''"
    using installed_in_time [OF assms(2), of "sim_now (world c) + LATENCY_DISCOVERY"] assms(3) by (auto simp: LATENCY_DISCOVERY_def)
  have "contains (casefold ''windowsGuest'') ''windows''" by code_simp
  moreover have "watch_setup (simulate hex vc env) v timeout a deadline \<lparr>watched = c\<lparr>job := j\<rparr>, last_busy = b, last_report = r\<rparr>
      = Inl (Inr (vm_info ?m), c\<lparr>job := j, world := w'\<rparr>)" for timeout a deadline b r j
    using look ready(1) by (simp add: watch_setup_def Let_def)
  ultimately show ?thesis using assms(4,5) ready(2)
    by (simp add: stage_wait_for_guest_os_def run_simps Let_def map_job_def vm_id_def require_vm_id_def loop.simps outcome_def truthy_text_def)
qed

text \<open>
  C11. In the simulation a machine with its installation and answer media, started by the power-on stage (or restarted, when it runs
  already), has Windows installed: the power-on stage succeeds, and the stage that waits for Windows then succeeds as well.
\<close>

theorem simulated_installation_completes:
  assumes "machine vc v (upper (vm_name c)) m (world c)" and "installable m" and "vm_ref c = Some ref" and "vm_ref_id ref = v"
  shows "\<exists>o1 c1 o2 c2. stage_power_on (simulate hex vc env) c = Some (Inr o1, c1)
     \<and> stage_wait_for_guest_os (simulate hex vc env) c1 = Some (Inr o2, c2)
     \<and> outcome_status o2 = ''SUCCEEDED'' \<and> guest_os_status (job c2) = GO_READY"
proof -
  let ?key = "upper (vm_name c)"
  let ?m = "advance_installation (sim_now (world c) + LATENCY_DISCOVERY) m"
  have "map_option (Pair ?key) (find_vm_by_name (estate vc (world c)) (vm_name c)) = Some (?key, m)"
    using machine_named [OF assms(1)] by (simp add: find_vm_by_name_def)
  then obtain w1 where look: "sim_get_vm_info vc (vm_name c) (world c) = (Inr (Some (vm_info ?m)), w1)" "machine vc v ?key ?m w1"
    using observe_machine [OF assms(1), of "\<lambda>est. map_option (Pair ?key) (find_vm_by_name est (vm_name c))"] unfolding sim_get_vm_info_def by blast
  let ?on = "power_state (vm_info ?m) = ''poweredOn''"
  obtain w2 m2 where start: "(if ?on then sim_reset vc v w1 else sim_power_on vc v w1) = (Inr (), w2)"
    "machine vc v ?key m2 w2" "runs_since (sim_now w2) m2"
    using started [OF look(2) advance_keeps(1) [OF assms(2)], of ?on] by (auto simp: vm_info_def)
  let ?c2 = "c\<lparr>world := w2\<rparr>"
  obtain sent c3 m3 where keys: "press_key_to_boot_from_iso (simulate hex vc env) v ?c2 = Some (Inr sent, c3)" "vm_ref c3 = vm_ref c"
    "machine vc v ?key m3 (world c3)" "runs_since (sim_now w2) m3" "sim_now w2 + BOOT_KEY_SECONDS \<le> sim_now (world c3)"
    using keys_pressed [of vc v ?key m2 ?c2 "sim_now w2" hex env] start by auto
  let ?c4 = "map_job (\<lambda>j. j\<lparr>guest_os_status := GO_INSTALLATION_IN_PROGRESS\<rparr>) c3"
  have "\<exists>o1. stage_power_on (simulate hex vc env) c = Some (Inr o1, ?c4)"
    using look start(1) keys(1) assms(3,4)
    by (auto simp: stage_power_on_def run_simps Let_def vm_id_def require_vm_id_def map_job_def)
  moreover have "\<exists>o2 c'. stage_wait_for_guest_os (simulate hex vc env) ?c4 = Some (Inr o2, c') \<and> outcome_status o2 = ''SUCCEEDED''
     \<and> guest_os_status (job c') = GO_READY"
    by (rule setup_awaited [of vc v ?key m3 _ "sim_now w2" ref])
      (use keys assms(3,4) in \<open>simp_all add: map_job_def TOOLS_READY_DELAY_SECONDS_def BOOT_KEY_SECONDS_def\<close>)
  ultimately show ?thesis by blast
qed

definition sample_machine :: MockVM where
  "sample_machine = (MockVM_init ''vm-7'' ''srv01'' False)
     \<lparr>mv_answer_media := [''[mock-datastore] infraops-unattend/j-1.iso''], mv_installation_media := [''[PROD-SAN-01] ISO/Windows Server 2025.iso'', TOOLS_ISO]\<rparr>"

theorem simulated_installation_completes_witness:
  "\<forall>env. (let w = \<lparr>sim_estates = [(''v-1'', set_vm ''SRV01'' sample_machine (MockInventory_init 0))], sim_now = 0, sim_draws = 0\<rparr>;
       c = sample_context (sample_job []) w
   in \<exists>o1 c1 o2 c2. stage_power_on (simulate nat_text ''v-1'' env) c = Some (Inr o1, c1)
        \<and> stage_wait_for_guest_os (simulate nat_text ''v-1'' env) c1 = Some (Inr o2, c2) \<and> outcome_status o2 = ''SUCCEEDED'')" (is "\<forall>env. ?P env")
proof
  fix env
  let ?w = "\<lparr>sim_estates = [(''v-1'', set_vm ''SRV01'' sample_machine (MockInventory_init 0))], sim_now = 0, sim_draws = 0\<rparr>"
  let ?c = "sample_context (sample_job []) ?w"
  have up: "upper ''srv01'' = ''SRV01''" "upper ''APP-PROD-004'' = ''APP-PROD-004''" "upper ''SQL-TEST-002'' = ''SQL-TEST-002''"
    "nat_text 70 = ''70''" "nat_text 71 = ''71''" by code_simp+
  have "machine ''v-1'' ''vm-7'' (upper (vm_name ?c)) sample_machine (world ?c)"
    by (simp add: machine_def estate_def require_vm_def set_vm_def sample_context_def MockInventory_init_def Let_def existing_vm_def up
        sample_machine_def MockVM_init_def)
  moreover have "installable sample_machine" by (simp add: installable_def sample_machine_def MockVM_init_def)
  ultimately show "?P env"
    using simulated_installation_completes [of "''v-1''" "''vm-7''" ?c sample_machine "\<lparr>vm_ref_id = ''vm-7'', vm_ref_name = ''srv01''\<rparr>" nat_text env]
    by (simp add: Let_def sample_context_def) blast
qed

section \<open>Creation survives a crash\<close>

text \<open>
  C10. When the creation stage has created its machine in the simulated vCenter and the worker is lost before the result is stored, the
  job that runs the stage again goes on with the same machine, and no other job can take it; neither changes what the vCenter reports of
  any machine.
\<close>

theorem create_vm_survives_crash:
  assumes "stage_create_vm (simulate hex vc env) c = Some (Inr out, c')" and "vm_name c = vms_name (vm (se_request env))"
    and "vm_name d = vm_name c" and "world d = world c'"
  shows "\<exists>r d'. stage_create_vm (simulate hex vc env) d = Some (r, d')
      \<and> (if job_id (job d) = job_id (job c) then (\<exists>again. r = Inr again \<and> outcome_status again = ''SKIPPED'') \<and> vm_ref d' = vm_ref c'
         else \<exists>e. r = Inl (Infra e) \<and> \<not> retryable e)
      \<and> (\<forall>n. fst (sim_find_vm_ownership vc n (world d')) = fst (sim_find_vm_ownership vc n (world d)))"
  using simulator.rerun [OF assms(1) _ assms(3,4)] assms(2) by simp

definition sim_request :: ProvisioningRequest where
  "sim_request = sample_request
     \<lparr>compute := \<lparr>vcenter_id = ''v-1'', comp_datacenter_id = ''datacenter-21'', cluster_id = ''domain-c7'', host_id = None, resource_pool_id = None\<rparr>,
      hardware := (hardware sample_request)\<lparr>disks := [\<lparr>size_gb = 60, disk_provisioning = THIN, disk_datastore_id = Some ''datastore-41''\<rparr>]\<rparr>,
      guest := (guest sample_request)\<lparr>iso_id := ''iso-corp-windows-2025''\<rparr>\<rparr>"

definition idle_guest :: "Simulator guest_ops" where
  "idle_guest = \<lparr>upload_file = (\<lambda>p s w. (None, w)), run_program = (\<lambda>p a t w. (Inr \<lparr>exit_code = 0, stdout = [], stderr = []\<rparr>, w)),
     delete_file = (\<lambda>p w. (None, w))\<rparr>"

definition sim_env :: "ProvisioningRequest \<Rightarrow> Simulator stage_env" where
  "sim_env r =
     \<lparr>stage_handlers = (\<lambda>key. None), cancel_seen = (\<lambda>key. False), cancelled_first = (\<lambda>key c. None), settings_rows = Some [],
      clock = (\<lambda>n. int n), remove_answer_media = (\<lambda>v dc p w. (None, w)), capture_screenshot = (\<lambda>v w. (None, w)),
      se_request = r, se_host = ''vcenter.example.com'', se_guest = (\<lambda>cr. idle_guest), se_token = nat_text, se_secret = (\<lambda>p. Inr ''secret''),
      se_jobs = [], se_applications = [], se_packages = [], se_certificates = [], se_today = (2026, 1, 1), se_fullmatch = (\<lambda>p s. Some True),
      se_time = sim_now, se_sleep = sim_sleep, se_ping = None, se_windows = False, se_exec = (\<lambda>argv. Inl ''not found''),
      se_urlsafe = nat_text, se_iso = (\<lambda>t. int_text t),
      test_connection = sim_test_connection, get_datacenters = sim_get_datacenters ''v-1'', get_clusters = sim_get_clusters ''v-1'',
      get_hosts = sim_get_hosts ''v-1'', get_resource_pools = sim_get_resource_pools ''v-1'', get_datastores = sim_get_datastores ''v-1'',
      get_networks = sim_get_networks ''v-1'', get_isos = sim_get_isos ''v-1'', get_vm_info = sim_get_vm_info ''v-1'',
      get_vm_info_by_id = sim_get_vm_info_by_id ''v-1'', get_used_ips = sim_get_used_ips ''v-1'', find_vm_ownership = sim_find_vm_ownership ''v-1'',
      create_vm = sim_create_vm nat_text ''v-1'', configure_hardware = sim_configure_hardware ''v-1'',
      attach_network = sim_attach_network ''v-1'' ''vcenter.example.com'', attach_answer_media = sim_attach_answer_media ''v-1'',
      power_on = sim_power_on ''v-1'', reset_vm = sim_reset ''v-1'', send_keystrokes = sim_send_keystrokes ''v-1'',
      detach_installation_media = (\<lambda>v w. (Inr [], w)), add_data_disks = sim_add_data_disks ''v-1''\<rparr>"

definition sim_context :: "Simulator JobRunContext" where
  "sim_context = (sample_context (sample_job []) \<lparr>sim_estates = [], sim_now = 0, sim_draws = 0\<rparr>)\<lparr>vm_name := ''web01'', vm_ref := None\<rparr>"

lemma free_name: "find_vm_by_name (MockInventory_init t) ''web01'' = None"
proof -
  have "upper ''web01'' = ''WEB01''" "upper ''APP-PROD-004'' = ''APP-PROD-004''" "upper ''SQL-TEST-002'' = ''SQL-TEST-002''" by code_simp+
  then show ?thesis by (simp add: find_vm_by_name_def MockInventory_init_def Let_def existing_vm_def)
qed

lemma sim_creation:
  assumes "estate ''v-1'' w = MockInventory_init t"
  shows "\<exists>ref w'. sim_create_vm hex ''v-1'' (create_spec sim_request ''datastore-41'' jid) w = (Inr ref, w')"
proof -
  let ?spec = "create_spec sim_request ''datastore-41'' jid" and ?est = "MockInventory_init t"
  have spec: "spec_cluster_id ?spec = ''domain-c7''" "spec_datacenter_id ?spec = ''datacenter-21''" "spec_host_id ?spec = None"
    "spec_resource_pool_id ?spec = None" "spec_vm_name ?spec = ''web01''" "size_gb (spec_os_disk ?spec) = 60"
    "spec_datastore_id ?spec = Some ''datastore-41''" "spec_iso_id ?spec = ''iso-corp-windows-2025''"
    by (simp_all add: create_spec_def sim_request_def sample_request_def)
  have cl: "map_of (inv_clusters ?est) ''domain-c7'' = Some (cluster_of ''PROD-CLUSTER'' ''datacenter-21'' True [''host-11'', ''host-12'', ''host-13''] 96 1536)"
    by (simp add: MockInventory_init_def Let_def)
  have "placement_error ?spec ?est = None"
    unfolding placement_error_def spec cl by (simp add: cluster_of_def truthy_text_def free_name)
  moreover have "first_max md_free_gb (creation_candidates ?spec ?est) = Some (snd (datastore_of ''datastore-41'' ''PROD-SAN-01'' ''VMFS'' 20480 9216 (Some ''group-p45'') True))"
    by (simp add: creation_candidates_def spec MockInventory_init_def Let_def datastore_of_def truthy_text_def dict_get_def)
  moreover have "\<exists>img. map_of (inv_isos ?est) ''iso-corp-windows-2025'' = Some img \<and> iso_available ?spec ?est img"
    by (simp add: iso_available_def spec MockInventory_init_def Let_def iso_of_def datastore_of_def dict_get_def)
  ultimately show ?thesis using assms
    by (auto simp: sim_create_vm_def sim_begin_creation_def sim_register_vm_def Let_def spec)
qed

lemma sim_stores_found: "estate ''v-1'' w = MockInventory_init t \<Longrightarrow> map_of (sim_estates w) ''v-1'' \<noteq> None \<Longrightarrow>
   \<exists>ds w'. sim_get_datastores ''v-1'' ''domain-c7'' w = (Inr ds, w') \<and> estate ''v-1'' w' = MockInventory_init t"
  by (auto simp: sim_get_datastores_def cluster_query_def query_def on_estate_def Let_def estate_def sim_sleep_def store_estate_def update_conv'
      MockInventory_init_def)

theorem create_vm_survives_crash_witness:
  "\<exists>out c' again d'. stage_create_vm (simulate nat_text ''v-1'' (sim_env sim_request)) sim_context = Some (Inr out, c')
     \<and> stage_create_vm (simulate nat_text ''v-1'' (sim_env sim_request)) (sim_context\<lparr>world := world c'\<rparr>) = Some (Inr again, d')
     \<and> outcome_status again = ''SKIPPED'' \<and> vm_ref d' = vm_ref c'"
proof -
  let ?E = "simulate nat_text ''v-1'' (sim_env sim_request)"
  have own: "\<exists>w. sim_find_vm_ownership ''v-1'' ''web01'' (world sim_context) = (Inr None, w) \<and> estate ''v-1'' w = MockInventory_init LATENCY_DISCOVERY
      \<and> map_of (sim_estates w) ''v-1'' \<noteq> None"
    by (simp add: sim_find_vm_ownership_def query_def on_estate_def Let_def sim_context_def sample_context_def estate_def sim_sleep_def store_estate_def
        free_name)
  then obtain w where w: "sim_find_vm_ownership ''v-1'' ''web01'' (world sim_context) = (Inr None, w)"
    "estate ''v-1'' w = MockInventory_init LATENCY_DISCOVERY" "map_of (sim_estates w) ''v-1'' \<noteq> None" by blast
  obtain ds w2 where ds: "sim_get_datastores ''v-1'' ''domain-c7'' w = (Inr ds, w2)" "estate ''v-1'' w2 = MockInventory_init LATENCY_DISCOVERY"
    using sim_stores_found [OF w(2,3)] by blast
  obtain ref w3 where ref: "sim_create_vm nat_text ''v-1'' (create_spec sim_request ''datastore-41'' ''j-1'') w2 = (Inr ref, w3)"
    using sim_creation [OF ds(2)] by blast
  have c: "vm_name sim_context = ''web01''" "job_id (job sim_context) = ''j-1''"
    by (simp_all add: sim_context_def sample_context_def sample_job_def new_job_row_def)
  have e: "se_request (sim_env sim_request) = sim_request" "get_datastores ?E = sim_get_datastores ''v-1''"
    by (simp_all add: sim_env_def simulate_def)
  have r: "cluster_id (compute sim_request) = ''domain-c7''" "find truthy_text (map disk_datastore_id (disks (hardware sim_request))) = Some (Some ''datastore-41'')"
    by (simp_all add: sim_request_def truthy_text_def)
  have "stage_create_vm ?E sim_context \<noteq> None \<and> is_ok (fst (the (stage_create_vm ?E sim_context)))"
    using w(1) ds(1) ref
    by (simp add: stage_create_vm_def create_new_vm_def placement_datastore_def os_disk_datastore_def run_simps Let_def c r is_ok_def if_distribR
        e map_job_def job_audit_def)
  then have "\<exists>out c'. stage_create_vm ?E sim_context = Some (Inr out, c')" by (auto simp: is_ok_def split: sum.splits)
  then obtain out c' where run: "stage_create_vm ?E sim_context = Some (Inr out, c')" by blast
  have "vm_name sim_context = vms_name (vm (se_request (sim_env sim_request)))"
    by (simp add: sim_context_def sim_env_def sim_request_def sample_request_def)
  from create_vm_survives_crash [OF run this, of "sim_context\<lparr>world := world c'\<rparr>"] run show ?thesis by auto
qed

end
