(* ===== verification/Secret_Store.thy ===== *)
theory Secret_Store
  imports Py_Text
begin

text \<open>
  Stored credentials: their encryption and its keys (\<^verbatim>\<open>secrets/encryption.py\<close>), resolution (\<^verbatim>\<open>secrets/database_provider.py\<close>,
  \<^verbatim>\<open>secrets/service.py\<close>) and re-encryption under a new key (\<^verbatim>\<open>secrets/rotate.py\<close>). SHA-256, Base64 and the \<^verbatim>\<open>MultiFernet\<close> of the
  cryptography library are parameters; a key is the text given to \<^verbatim>\<open>Fernet\<close>, and the number of the encryption stands for its random
  initialization vector. Credentials are ASCII text.
\<close>

section \<open>Keys\<close>

record fernet_ops =
  sha256_digest :: "string \<Rightarrow> string"
  urlsafe_encode :: "string \<Rightarrow> string"
  multi_encrypt :: "string list \<Rightarrow> nat \<Rightarrow> string \<Rightarrow> string"
  multi_decrypt :: "string list \<Rightarrow> string \<Rightarrow> string option"
  multi_rotate :: "string list \<Rightarrow> nat \<Rightarrow> string \<Rightarrow> string option"

record key_settings =
  secret_key :: string
  credential_encryption_key :: string
  credential_encryption_previous_keys :: string

definition KEY_LABEL :: string where
  "KEY_LABEL = ''infraops/credential-store/v1'' @ [CHR 0x00]"

definition derive_key :: "fernet_ops \<Rightarrow> string \<Rightarrow> string" where
  "derive_key ops key_root = urlsafe_encode ops (sha256_digest ops (KEY_LABEL @ key_root))"

definition add_root :: "string \<Rightarrow> string list \<Rightarrow> string list" where
  "add_root previous roots = (if previous \<noteq> [] \<and> previous \<notin> set roots then roots @ [previous] else roots)"

definition key_roots :: "key_settings \<Rightarrow> string list" where
  "key_roots st =
     (let primary = (if credential_encryption_key st \<noteq> [] then credential_encryption_key st else secret_key st);
          roots = fold (\<lambda>p. add_root (strip p)) (split_on CHR '','' (credential_encryption_previous_keys st)) [primary]
      in add_root (secret_key st) roots)"

definition fernet :: "fernet_ops \<Rightarrow> key_settings \<Rightarrow> string list" where
  "fernet ops st = map (derive_key ops) (key_roots st)"

section \<open>Encryption\<close>

datatype store_error = Secret_Not_Found string string | Secrets_Provider_Error string | Secret_Value_Error string

definition is_ascii :: "string \<Rightarrow> bool" where
  "is_ascii s = list_all (\<lambda>c. (of_char c :: nat) < 128) s"

definition encrypt_secret :: "fernet_ops \<Rightarrow> key_settings \<Rightarrow> nat \<Rightarrow> string \<Rightarrow> store_error + string" where
  "encrypt_secret ops st n v =
     (if v = [] then Inl (Secret_Value_Error ''A secret value cannot be empty.'') else Inr (multi_encrypt ops (fernet ops st) n v))"

definition decrypt_secret :: "fernet_ops \<Rightarrow> key_settings \<Rightarrow> string \<Rightarrow> store_error + string" where
  "decrypt_secret ops st token =
     (let failed = Inl (Secrets_Provider_Error (''A stored credential could not be decrypted. Verify CREDENTIAL_ENCRYPTION_KEY ''
            @ ''(or SECRET_KEY) and CREDENTIAL_ENCRYPTION_PREVIOUS_KEYS.'')) in
      if \<not> is_ascii token then failed
      else case multi_decrypt ops (fernet ops st) token of None \<Rightarrow> failed | Some v \<Rightarrow> Inr v)"

definition reencrypt_secret :: "fernet_ops \<Rightarrow> key_settings \<Rightarrow> nat \<Rightarrow> string \<Rightarrow> store_error + string" where
  "reencrypt_secret ops st n token =
     (let failed = Inl (Secrets_Provider_Error ''A stored credential could not be re-encrypted.'') in
      if \<not> is_ascii token then failed
      else case multi_rotate ops (fernet ops st) n token of None \<Rightarrow> failed | Some t \<Rightarrow> Inr t)"

section \<open>Resolution\<close>

record SecretReference =
  sr_name :: string
  sr_provider :: string
  sr_purpose :: string
  sr_encrypted_username :: "string option"
  sr_encrypted_password :: "string option"
  sr_revision :: int

definition PROVIDER_NAME :: string where "PROVIDER_NAME = ''database''"

definition split_secret_name :: "string \<Rightarrow> store_error + string \<times> string" where
  "split_secret_name name =
     (case rpartition CHR ''/'' name of
        (Some base, field) \<Rightarrow>
          if field \<notin> {''username'', ''password''} \<or> base = [] then Inl (Secret_Not_Found name PROVIDER_NAME) else Inr (base, field)
      | (None, _) \<Rightarrow> Inl (Secret_Not_Found name PROVIDER_NAME))"

definition encrypted_field :: "string \<Rightarrow> SecretReference \<Rightarrow> string option" where
  "encrypted_field field r = (if field = ''username'' then sr_encrypted_username r else sr_encrypted_password r)"

definition get_secret :: "fernet_ops \<Rightarrow> key_settings \<Rightarrow> SecretReference list \<Rightarrow> string \<Rightarrow> store_error + string" where
  "get_secret ops st rows name =
     (case split_secret_name name of
        Inl e \<Rightarrow> Inl e
      | Inr (base, field) \<Rightarrow>
          (case find (\<lambda>r. sr_name r = base \<and> sr_provider r = PROVIDER_NAME) rows of
             None \<Rightarrow> Inl (Secret_Not_Found name PROVIDER_NAME)
           | Some r \<Rightarrow>
               (if truthy_text (encrypted_field field r) then decrypt_secret ops st (the (encrypted_field field r))
                else Inl (Secret_Not_Found name PROVIDER_NAME))))"

definition get_credentials ::
  "fernet_ops \<Rightarrow> key_settings \<Rightarrow> SecretReference list \<Rightarrow> string \<Rightarrow> string \<Rightarrow> store_error + string \<times> string" where
  "get_credentials ops st rows username_ref password_ref =
     (case get_secret ops st rows username_ref of
        Inl e \<Rightarrow> Inl e
      | Inr u \<Rightarrow> (case get_secret ops st rows password_ref of Inl e \<Rightarrow> Inl e | Inr p \<Rightarrow> Inr (u, p)))"

section \<open>Rotation\<close>

definition rotate_field :: "fernet_ops \<Rightarrow> key_settings \<Rightarrow> nat \<Rightarrow> string option \<Rightarrow> store_error + string option" where
  "rotate_field ops st n field =
     (if truthy_text field then (case reencrypt_secret ops st n (the field) of Inl e \<Rightarrow> Inl e | Inr t \<Rightarrow> Inr (Some t)) else Inr field)"

definition rotate_row :: "fernet_ops \<Rightarrow> key_settings \<Rightarrow> nat \<Rightarrow> SecretReference \<Rightarrow> store_error + SecretReference" where
  "rotate_row ops st n r =
     (case rotate_field ops st n (sr_encrypted_username r) of
        Inl e \<Rightarrow> Inl e
      | Inr u \<Rightarrow>
          (case rotate_field ops st (Suc n) (sr_encrypted_password r) of
             Inl e \<Rightarrow> Inl e
           | Inr p \<Rightarrow> Inr (r\<lparr>sr_encrypted_username := u, sr_encrypted_password := p\<rparr>)))"

text \<open>All rows are locked and changed in one transaction: an error leaves the table as it was.\<close>

primrec rotate_rows :: "fernet_ops \<Rightarrow> key_settings \<Rightarrow> nat \<Rightarrow> SecretReference list \<Rightarrow> store_error + SecretReference list" where
  "rotate_rows ops st n [] = Inr []"
| "rotate_rows ops st n (r # rs) =
     (case rotate_row ops st n r of
        Inl e \<Rightarrow> Inl e
      | Inr r' \<Rightarrow> (case rotate_rows ops st (n + 2) rs of Inl e \<Rightarrow> Inl e | Inr rs' \<Rightarrow> Inr (r' # rs')))"

definition rotate_all :: "fernet_ops \<Rightarrow> key_settings \<Rightarrow> nat \<Rightarrow> SecretReference list \<Rightarrow> (store_error + nat) \<times> SecretReference list" where
  "rotate_all ops st n rows = (case rotate_rows ops st n rows of Inl e \<Rightarrow> (Inl e, rows) | Inr rows' \<Rightarrow> (Inr (length rows), rows'))"

section \<open>Correctness\<close>

text \<open>
  The documented behaviour of \<^verbatim>\<open>MultiFernet\<close>: encryption and rotation use the first key, a token is decrypted by every list of keys that
  holds the key it was made with, and tokens are non-empty ASCII text.
\<close>

definition made_with :: "fernet_ops \<Rightarrow> string \<Rightarrow> string \<Rightarrow> string \<Rightarrow> bool" where
  "made_with ops k v t \<longleftrightarrow> t \<noteq> [] \<and> is_ascii t \<and> (\<forall>ks. k \<in> set ks \<longrightarrow> multi_decrypt ops ks t = Some v)"

definition fernet_ok :: "fernet_ops \<Rightarrow> bool" where
  "fernet_ok ops \<longleftrightarrow>
     (\<forall>k ks n v. made_with ops k v (multi_encrypt ops (k # ks) n v))
     \<and> (\<forall>k ks n t v. multi_decrypt ops (k # ks) t = Some v \<longrightarrow> (\<exists>t'. multi_rotate ops (k # ks) n t = Some t' \<and> made_with ops k v t'))"

lemma add_root_hd: "roots \<noteq> [] \<Longrightarrow> add_root p roots \<noteq> [] \<and> hd (add_root p roots) = hd roots"
  by (simp add: add_root_def)

lemma fold_add_root_hd: "roots \<noteq> [] \<Longrightarrow> fold (\<lambda>p. add_root (strip p)) ps roots \<noteq> [] \<and> hd (fold (\<lambda>p. add_root (strip p)) ps roots) = hd roots"
  by (induction ps arbitrary: roots) (simp_all add: add_root_hd)

text \<open>The configured key comes first, and no key twice.\<close>

lemma key_roots_primary:
  "key_roots st \<noteq> [] \<and> hd (key_roots st) = (if credential_encryption_key st \<noteq> [] then credential_encryption_key st else secret_key st)"
  unfolding key_roots_def Let_def using fold_add_root_hd by (simp add: add_root_hd)

lemma add_root_distinct: "distinct roots \<Longrightarrow> distinct (add_root p roots)"
  by (simp add: add_root_def)

lemma key_roots_distinct: "distinct (key_roots st)"
proof -
  have "distinct roots \<Longrightarrow> distinct (fold (\<lambda>p. add_root (strip p)) ps roots)" for ps roots
    by (induction ps arbitrary: roots) (simp_all add: add_root_distinct)
  then show ?thesis unfolding key_roots_def Let_def by (intro add_root_distinct) simp
qed

lemma fernet_Cons: "\<exists>ks. fernet ops st = derive_key ops (hd (key_roots st)) # ks"
  unfolding fernet_def using key_roots_primary [of st] by (cases "key_roots st") auto

lemma decrypt_made: "made_with ops k v t \<Longrightarrow> k \<in> set (fernet ops st) \<Longrightarrow> decrypt_secret ops st t = Inr v"
  by (simp add: made_with_def decrypt_secret_def)

text \<open>A stored credential stays readable while the key root it was made with is configured anywhere.\<close>

lemma encrypted_readable:
  assumes "fernet_ok ops" and "encrypt_secret ops st n v = Inr t" and "hd (key_roots st) \<in> set (key_roots st')"
  shows "decrypt_secret ops st' t = Inr v"
proof -
  obtain ks where "fernet ops st = derive_key ops (hd (key_roots st)) # ks" using fernet_Cons by blast
  with assms(1,2) have "made_with ops (derive_key ops (hd (key_roots st))) v t"
    by (auto simp: encrypt_secret_def fernet_ok_def split: if_splits)
  from decrypt_made [OF this] assms(3) show ?thesis by (simp add: fernet_def)
qed

text \<open>Readable fields, and what resolution sees of a field and of a row.\<close>

definition readable_field :: "fernet_ops \<Rightarrow> key_settings \<Rightarrow> string option \<Rightarrow> bool" where
  "readable_field ops st f \<longleftrightarrow> truthy_text f \<longrightarrow> is_ok (decrypt_secret ops st (the f))"

definition readable :: "fernet_ops \<Rightarrow> key_settings \<Rightarrow> SecretReference \<Rightarrow> bool" where
  "readable ops st r \<longleftrightarrow> readable_field ops st (sr_encrypted_username r) \<and> readable_field ops st (sr_encrypted_password r)"

definition same_field :: "fernet_ops \<Rightarrow> key_settings \<Rightarrow> key_settings \<Rightarrow> string option \<Rightarrow> string option \<Rightarrow> bool" where
  "same_field ops st st' f f' \<longleftrightarrow> truthy_text f' = truthy_text f
     \<and> (truthy_text f \<longrightarrow> decrypt_secret ops st' (the f') = decrypt_secret ops st (the f))"

definition same_secrets :: "fernet_ops \<Rightarrow> key_settings \<Rightarrow> key_settings \<Rightarrow> SecretReference \<Rightarrow> SecretReference \<Rightarrow> bool" where
  "same_secrets ops st st' r r' \<longleftrightarrow> sr_name r' = sr_name r \<and> sr_provider r' = sr_provider r
     \<and> same_field ops st st' (sr_encrypted_username r) (sr_encrypted_username r')
     \<and> same_field ops st st' (sr_encrypted_password r) (sr_encrypted_password r')"

lemma rotate_field_keeps:
  assumes "fernet_ok ops" and "hd (key_roots st) \<in> set (key_roots st')" and "readable_field ops st f"
  shows "\<exists>f'. rotate_field ops st n f = Inr f' \<and> same_field ops st st' f f'"
proof (cases "truthy_text f")
  case True
  obtain ks where ks: "fernet ops st = derive_key ops (hd (key_roots st)) # ks" using fernet_Cons by blast
  from assms(3) True obtain v where v: "decrypt_secret ops st (the f) = Inr v"
    by (auto simp: readable_field_def is_ok_def split: sum.splits)
  then have t: "is_ascii (the f)" "multi_decrypt ops (fernet ops st) (the f) = Some v"
    by (auto simp: decrypt_secret_def Let_def split: if_splits option.splits)
  with assms(1) ks obtain t' where "multi_rotate ops (fernet ops st) n (the f) = Some t'"
    "made_with ops (derive_key ops (hd (key_roots st))) v t'"
    unfolding fernet_ok_def by metis
  with True t v decrypt_made [of ops "derive_key ops (hd (key_roots st))" v t' st'] assms(2) show ?thesis
    by (auto simp: rotate_field_def reencrypt_secret_def same_field_def made_with_def truthy_text_def fernet_def)
qed (simp add: rotate_field_def same_field_def)

lemma rotate_row_keeps:
  assumes "fernet_ok ops" and "hd (key_roots st) \<in> set (key_roots st')" and "readable ops st r"
  shows "\<exists>r'. rotate_row ops st n r = Inr r' \<and> same_secrets ops st st' r r'"
proof -
  have "readable_field ops st (sr_encrypted_username r)" "readable_field ops st (sr_encrypted_password r)"
    using assms(3) by (simp_all add: readable_def)
  from rotate_field_keeps [OF assms(1,2) this(1), of n] rotate_field_keeps [OF assms(1,2) this(2), of "Suc n"] show ?thesis
    by (auto simp: rotate_row_def same_secrets_def)
qed

lemma rotate_rows_keep:
  assumes "fernet_ok ops" and "hd (key_roots st) \<in> set (key_roots st')"
  shows "\<forall>r \<in> set rows. readable ops st r \<Longrightarrow> \<exists>rows'. rotate_rows ops st n rows = Inr rows' \<and> list_all2 (same_secrets ops st st') rows rows'"
proof (induction rows arbitrary: n)
  case (Cons r rs)
  then obtain rs' where rs: "rotate_rows ops st (n + 2) rs = Inr rs'" "list_all2 (same_secrets ops st st') rs rs'" by fastforce
  obtain r' where "rotate_row ops st n r = Inr r'" "same_secrets ops st st' r r'"
    using rotate_row_keeps [OF assms, of r n] Cons.prems by auto
  with rs show ?case by simp
qed simp

lemma find_same:
  assumes "list_all2 (same_secrets ops st st') rows rows'"
  shows "rel_option (same_secrets ops st st') (find (\<lambda>r. sr_name r = base \<and> sr_provider r = p) rows)
     (find (\<lambda>r. sr_name r = base \<and> sr_provider r = p) rows')"
  using assms by (induction rule: list_all2_induct) (auto simp: same_secrets_def)

lemma get_secret_same:
  assumes "list_all2 (same_secrets ops st st') rows rows'"
  shows "get_secret ops st' rows' name = get_secret ops st rows name"
proof (cases "split_secret_name name")
  case (Inr bf)
  obtain base field where bf: "bf = (base, field)" by fastforce
  from find_same [OF assms, of base PROVIDER_NAME] show ?thesis
    by (cases rule: option.rel_cases) (auto simp: get_secret_def Inr bf same_secrets_def same_field_def encrypted_field_def)
qed (simp add: get_secret_def)

text \<open>
  C23. Re-encrypting the stored credentials succeeds when all of them can be read, counts the rows, and changes no credential, even for
  settings from which every former key has been removed and only the current one is left.
\<close>

theorem rotation_keeps_secrets:
  assumes "fernet_ok ops" and "\<forall>r \<in> set rows. readable ops st r" and "hd (key_roots st) \<in> set (key_roots st')"
  shows "\<exists>rows'. rotate_all ops st n rows = (Inr (length rows), rows') \<and> (\<forall>name. get_secret ops st' rows' name = get_secret ops st rows name)"
proof -
  obtain rows' where "rotate_rows ops st n rows = Inr rows'" "list_all2 (same_secrets ops st st') rows rows'"
    using rotate_rows_keep [OF assms(1,3,2)] by blast
  then show ?thesis using get_secret_same by (auto simp: rotate_all_def)
qed

text \<open>A concrete instance of the parameters: tokens name their key and value in unary.\<close>

definition unary :: "string \<Rightarrow> string" where
  "unary s = concat (map (\<lambda>c. replicate (of_char c) (CHR ''x'') @ ''.'') s)"

definition of_unary :: "string \<Rightarrow> string" where
  "of_unary e = map (\<lambda>w. char_of (length w)) (butlast (split_on CHR ''.'' e))"

lemma unary_split: "split_on CHR ''.'' (unary s) = map (\<lambda>c. replicate (of_char c) (CHR ''x'')) s @ [[]]"
  by (induction s) (simp_all add: unary_def split_on_append)

lemma of_unary [simp]: "of_unary (unary s) = s"
  unfolding of_unary_def unary_split by (simp add: comp_def)

lemma unary_chars: "set (unary s) \<subseteq> {CHR ''x'', CHR ''.''}"
  by (auto simp: unary_def)

definition plain_fernet :: fernet_ops where
  "plain_fernet =
     (let encrypt = (\<lambda>ks (n :: nat) v. unary (hd ks) @ ''|'' @ unary v);
          decrypt = (\<lambda>ks t. case split_on CHR ''|'' t of [a, b] \<Rightarrow> if a \<in> set (map unary ks) then Some (of_unary b) else None | _ \<Rightarrow> None)
      in \<lparr>sha256_digest = id, urlsafe_encode = id, multi_encrypt = encrypt, multi_decrypt = decrypt,
          multi_rotate = (\<lambda>ks n t. map_option (encrypt ks n) (decrypt ks t))\<rparr>)"

lemma unary_bar: "split_on CHR ''|'' (unary a @ ''|'' @ unary b) = [unary a, unary b]"
proof -
  have "CHR ''|'' \<notin> set (unary a)" "CHR ''|'' \<notin> set (unary b)" using unary_chars by fastforce+
  then show ?thesis by (simp add: split_on_append split_on_plain)
qed

lemma plain_fernet_ok: "fernet_ok plain_fernet"
proof -
  have "is_ascii (unary a @ ''|'' @ unary b)" for a b
    using unary_chars by (fastforce simp: is_ascii_def list_all_iff)
  then have "made_with plain_fernet k v (multi_encrypt plain_fernet (k # ks) n v)" for k ks n v
    by (auto simp: made_with_def plain_fernet_def Let_def unary_bar [simplified])
  moreover have "multi_decrypt plain_fernet ks t = Some v \<Longrightarrow> multi_rotate plain_fernet ks n t = Some (multi_encrypt plain_fernet ks n v)" for ks n t v
    by (simp add: plain_fernet_def Let_def)
  ultimately show ?thesis by (metis fernet_ok_def)
qed

theorem rotation_keeps_secrets_witness:
  "let st = \<lparr>secret_key = ''s'', credential_encryption_key = ''new'', credential_encryption_previous_keys = ''old''\<rparr>;
       st' = \<lparr>secret_key = [], credential_encryption_key = ''new'', credential_encryption_previous_keys = []\<rparr>;
       token = multi_encrypt plain_fernet [derive_key plain_fernet ''old''] 0 ''admin'';
       rows = [\<lparr>sr_name = ''ad/join'', sr_provider = ''database'', sr_purpose = ''generic'', sr_encrypted_username = Some token,
                sr_encrypted_password = None, sr_revision = 1\<rparr>]
   in \<exists>rows'. rotate_all plain_fernet st 1 rows = (Inr 1, rows') \<and> get_secret plain_fernet st' rows' ''ad/join/username'' = Inr ''admin''
      \<and> get_secret plain_fernet st' rows ''ad/join/username'' \<noteq> Inr ''admin''"
proof -
  let ?st = "\<lparr>secret_key = ''s'', credential_encryption_key = ''new'', credential_encryption_previous_keys = ''old''\<rparr>"
  let ?st' = "\<lparr>secret_key = [], credential_encryption_key = ''new'', credential_encryption_previous_keys = []\<rparr>"
  let ?token = "multi_encrypt plain_fernet [derive_key plain_fernet ''old''] 0 ''admin''"
  let ?rows = "[\<lparr>sr_name = ''ad/join'', sr_provider = ''database'', sr_purpose = ''generic'', sr_encrypted_username = Some ?token,
                sr_encrypted_password = None, sr_revision = 1\<rparr>]"
  have roots: "key_roots ?st = [''new'', ''old'', ''s'']" "key_roots ?st' = [''new'']" by code_simp+
  have made: "made_with plain_fernet (derive_key plain_fernet ''old'') ''admin'' ?token" using plain_fernet_ok by (simp add: fernet_ok_def)
  have read: "decrypt_secret plain_fernet ?st ?token = Inr ''admin''"
    by (rule decrypt_made [OF made]) (simp add: fernet_def roots)
  have "derive_key plain_fernet ''old'' \<noteq> derive_key plain_fernet ''new''" by (simp add: derive_key_def plain_fernet_def Let_def)
  then have "unary (derive_key plain_fernet ''old'') \<noteq> unary (derive_key plain_fernet ''new'')" by (metis of_unary)
  moreover have "multi_decrypt plain_fernet [k] ?token = (if unary (derive_key plain_fernet ''old'') = unary k then Some ''admin'' else None)" for k
    by (simp add: plain_fernet_def Let_def unary_bar [simplified])
  ultimately have other: "multi_decrypt plain_fernet (fernet plain_fernet ?st') ?token = None" by (simp add: fernet_def roots)
  have t: "truthy_text (Some ?token)" using made by (simp add: made_with_def truthy_text_def)
  have "\<forall>r \<in> set ?rows. readable plain_fernet ?st r" by (simp add: readable_def readable_field_def read is_ok_def truthy_text_def)
  moreover have "hd (key_roots ?st) \<in> set (key_roots ?st')" by (simp add: roots)
  moreover have name: "split_secret_name ''ad/join/username'' = Inr (''ad/join'', ''username'')" by code_simp
  moreover have "get_secret plain_fernet ?st ?rows ''ad/join/username'' = Inr ''admin''"
    using read t by (simp add: get_secret_def name encrypted_field_def PROVIDER_NAME_def)
  moreover have "get_secret plain_fernet ?st' ?rows ''ad/join/username'' \<noteq> Inr ''admin''"
    using other by (simp add: get_secret_def name encrypted_field_def PROVIDER_NAME_def truthy_text_def decrypt_secret_def Let_def)
  ultimately show ?thesis using rotation_keeps_secrets [OF plain_fernet_ok, of ?rows ?st ?st' 1] by (auto simp: Let_def)
qed

end
