(* ===== verification/Catalog_Admin.thy ===== *)
theory Catalog_Admin
  imports Preflight
begin

text \<open>
  Administration of the application catalog (\<^verbatim>\<open>api/v1/admin_applications.py\<close> with the payloads of \<^verbatim>\<open>schemas/applications.py\<close>): create,
  update and delete, each one transaction that an error rolls back. The rows are kept in table order; the identifier of a new row is an
  argument, detection settings are texts, and an explicit null (refused by the columns, ignored for the dependencies) is an unset
  field; the dash of one message is written in ASCII.
  The lemmas show that no sequence of these operations brings a cycle or a dangling dependency into the catalog.
\<close>

section \<open>Rows, payloads and errors\<close>

record CatalogRow = Application +
  appl_version :: string
  appl_description :: string
  appl_created_by :: "uuid option"

record ApplicationCreate =
  new_name :: string
  new_version :: string
  new_description :: string
  new_installer_type :: InstallerType
  new_installer_path :: string
  new_install_arguments :: string
  new_detection_method :: DetectionMethod
  new_detection_config :: json_dict
  new_timeout_seconds :: int
  new_reboot_required :: bool
  new_enabled :: bool
  new_dependency_ids :: "uuid list"

record ApplicationUpdate =
  chg_name :: "string option"
  chg_version :: "string option"
  chg_description :: "string option"
  chg_installer_type :: "InstallerType option"
  chg_installer_path :: "string option"
  chg_install_arguments :: "string option"
  chg_detection_method :: "DetectionMethod option"
  chg_detection_config :: "(string, string) dict option"
  chg_timeout_seconds :: "int option"
  chg_reboot_required :: "bool option"
  chg_enabled :: "bool option"
  chg_dependency_ids :: "uuid list option"

datatype catalog_error = Request_Invalid string | App_Error app_error | Multiple_Results_Found

record CatalogState =
  cat_rows :: "CatalogRow list"
  cat_audit :: "AuditEvent list"

definition checked_create :: "ApplicationCreate \<Rightarrow> string + string \<times> (string, string) dict" where
  "checked_create p =
     (if \<not> (len_between 2 200 (new_name p) \<and> length (new_version p) \<le> 50 \<and> length (new_description p) \<le> 2000
             \<and> len_between 3 500 (new_installer_path p) \<and> length (new_install_arguments p) \<le> 2000
             \<and> 30 \<le> new_timeout_seconds p \<and> new_timeout_seconds p \<le> 14400 \<and> length (new_dependency_ids p) \<le> 20)
      then Inl ''field constraints''
      else case validate_installer_path (new_installer_path p) (Some (new_installer_type p)) of
        Inl e \<Rightarrow> Inl e
      | Inr path \<Rightarrow>
          (case validate_detection_config (new_detection_method p) (new_detection_config p) of
             Inl e \<Rightarrow> Inl e
           | Inr config \<Rightarrow> Inr (path, config)))"

definition checked_path :: "ApplicationUpdate \<Rightarrow> string + string option" where
  "checked_path p =
     (case chg_installer_path p of
        None \<Rightarrow> Inr None
      | Some path \<Rightarrow> (case validate_installer_path path (chg_installer_type p) of Inl e \<Rightarrow> Inl e | Inr v \<Rightarrow> Inr (Some v)))"

definition checked_config :: "ApplicationUpdate \<Rightarrow> string + (string, string) dict option" where
  "checked_config p =
     (case (chg_detection_method p, chg_detection_config p) of
        (Some m, Some config) \<Rightarrow>
          (case validate_detection_config m (map (\<lambda>(k, v). (k, JStr v)) config) of Inl e \<Rightarrow> Inl e | Inr v \<Rightarrow> Inr (Some v))
      | (_, config) \<Rightarrow> Inr config)"

definition checked_update :: "ApplicationUpdate \<Rightarrow> string + ApplicationUpdate" where
  "checked_update p =
     (if \<not> (opt_ok (len_between 2 200) (chg_name p) \<and> opt_ok (\<lambda>v. length v \<le> 50) (chg_version p)
             \<and> opt_ok (\<lambda>v. length v \<le> 2000) (chg_description p) \<and> opt_ok (len_between 3 500) (chg_installer_path p)
             \<and> opt_ok (\<lambda>v. length v \<le> 2000) (chg_install_arguments p) \<and> opt_ok (\<lambda>t. 30 \<le> t \<and> t \<le> 14400) (chg_timeout_seconds p)
             \<and> opt_ok (\<lambda>ids. length ids \<le> 20) (chg_dependency_ids p))
      then Inl ''field constraints''
      else case checked_path p of
        Inl e \<Rightarrow> Inl e
      | Inr path \<Rightarrow>
          (case checked_config p of
             Inl e \<Rightarrow> Inl e
           | Inr config \<Rightarrow> Inr (p\<lparr>chg_installer_path := path, chg_detection_config := config\<rparr>)))"

section \<open>Dependencies\<close>

definition edited_node :: "uuid \<Rightarrow> uuid list \<Rightarrow> CatalogRow \<Rightarrow> AppNode" where
  "edited_node edited deps a = (if appl_id a = edited then (app_node a)\<lparr>dependency_ids := fset_of_list deps\<rparr> else app_node a)"

definition edited_catalog :: "CatalogRow list \<Rightarrow> uuid \<Rightarrow> uuid list \<Rightarrow> catalog" where
  "edited_catalog rows edited deps =
     (let cat = dict_by node_id (map (edited_node edited deps) rows)
      in if map_of cat edited = None
         then AList.update edited \<lparr>node_id = edited, node_name = ''(new)'', node_enabled = True, dependency_ids = fset_of_list deps\<rparr> cat
         else cat)"

definition graph_error :: "string \<Rightarrow> bool" where
  "graph_error e \<longleftrightarrow> contains e ''Circular'' \<or> contains e ''does not exist''"

text \<open>The search of the resolver never runs out of fuel (\<open>resolve_install_order_spec\<close>).\<close>

definition assert_acyclic :: "CatalogRow list \<Rightarrow> uuid \<Rightarrow> uuid list \<Rightarrow> catalog_error option" where
  "assert_acyclic rows edited deps =
     (let cat = edited_catalog rows edited deps;
          errors = (case resolve_install_order (map fst cat) cat of Some (_, errors) \<Rightarrow> errors | None \<Rightarrow> []);
          cycle_errors = filter graph_error errors
      in if cycle_errors \<noteq> []
         then Some (App_Error (DomainValidationError (''Dependency validation failed: '' @ join_on '' '' cycle_errors) []))
         else None)"

definition first_occurrences :: "'a list \<Rightarrow> 'a list" where
  "first_occurrences xs = rev (remdups (rev xs))"

definition replace_dependencies :: "CatalogRow list \<Rightarrow> uuid \<Rightarrow> uuid list \<Rightarrow> catalog_error + uuid list" where
  "replace_dependencies rows self deps =
     (let unique_ids = first_occurrences deps in
      if self \<in> set unique_ids then Inl (App_Error (DomainValidationError ''An application cannot depend on itself.'' []))
      else case find (\<lambda>d. d \<notin> appl_id ` set rows) unique_ids of
        Some d \<Rightarrow> Inl (App_Error (DomainValidationError (''Dependency '' @ squoted d @ '' does not exist.'') []))
      | None \<Rightarrow> Inr unique_ids)"

section \<open>Operations\<close>

definition audit_catalog :: "string \<Rightarrow> user \<Rightarrow> string option \<Rightarrow> string \<Rightarrow> json_dict \<Rightarrow> CatalogState \<Rightarrow> CatalogState" where
  "audit_catalog action user ip name details s =
     s\<lparr>cat_audit := record_audit (cat_audit s) action (audit_defaults\<lparr>au_user := Some user, au_resource_type := Some ''application'',
         au_resource_name := Some name, au_source_ip := ip, au_details := details\<rparr>)\<rparr>"

definition new_row :: "user \<Rightarrow> uuid \<Rightarrow> ApplicationCreate \<Rightarrow> string \<Rightarrow> (string, string) dict \<Rightarrow> CatalogRow" where
  "new_row user new_id p path config =
     \<lparr>appl_id = new_id, appl_name = new_name p, appl_installer_type = new_installer_type p, appl_installer_path = path,
      appl_install_arguments = new_install_arguments p, appl_detection_method = new_detection_method p,
      appl_detection_config = config, appl_timeout_seconds = new_timeout_seconds p, appl_reboot_required = new_reboot_required p,
      appl_enabled = new_enabled p, appl_depends_on = [], appl_version = new_version p, appl_description = new_description p,
      appl_created_by = Some (fst user)\<rparr>"

definition create_application ::
  "user \<Rightarrow> string option \<Rightarrow> uuid \<Rightarrow> ApplicationCreate \<Rightarrow> CatalogState \<Rightarrow> (catalog_error + CatalogRow) \<times> CatalogState" where
  "create_application user ip new_id p s =
     (case checked_create p of
        Inl e \<Rightarrow> (Inl (Request_Invalid e), s)
      | Inr (path, config) \<Rightarrow>
          (let same = filter (\<lambda>a. appl_name a = new_name p) (cat_rows s); row = new_row user new_id p path config in
           if 1 < length same then (Inl Multiple_Results_Found, s)
           else if same \<noteq> []
           then (Inl (App_Error (ConflictError (''An application named '' @ squoted (new_name p) @ '' already exists.'') [])), s)
           else case replace_dependencies (cat_rows s @ [row]) new_id (new_dependency_ids p) of
             Inl e \<Rightarrow> (Inl e, s)
           | Inr ids \<Rightarrow>
               (let rows = cat_rows s @ [row\<lparr>appl_depends_on := ids\<rparr>] in
                case assert_acyclic rows new_id (new_dependency_ids p) of
                  Some e \<Rightarrow> (Inl e, s)
                | None \<Rightarrow> (Inr (row\<lparr>appl_depends_on := ids\<rparr>),
                    audit_catalog ''APPLICATION_CREATED'' user ip (new_name p)
                      [(''installer_type'', JStr (installer_type_value (new_installer_type p)))] (s\<lparr>cat_rows := rows\<rparr>)))))"

definition set_fields :: "ApplicationUpdate \<Rightarrow> CatalogRow \<Rightarrow> CatalogRow" where
  "set_fields p a =
     (let keep = (\<lambda>old v. case v of None \<Rightarrow> old | Some new \<Rightarrow> new) in
      a\<lparr>appl_name := keep (appl_name a) (chg_name p), appl_version := keep (appl_version a) (chg_version p),
        appl_description := keep (appl_description a) (chg_description p),
        appl_installer_type := (case chg_installer_type p of None \<Rightarrow> appl_installer_type a | Some t \<Rightarrow> t),
        appl_installer_path := keep (appl_installer_path a) (chg_installer_path p),
        appl_install_arguments := keep (appl_install_arguments a) (chg_install_arguments p),
        appl_detection_method := (case chg_detection_method p of None \<Rightarrow> appl_detection_method a | Some m \<Rightarrow> m),
        appl_detection_config := (case chg_detection_config p of None \<Rightarrow> appl_detection_config a | Some c \<Rightarrow> c),
        appl_timeout_seconds := (case chg_timeout_seconds p of None \<Rightarrow> appl_timeout_seconds a | Some t \<Rightarrow> t),
        appl_reboot_required := (case chg_reboot_required p of None \<Rightarrow> appl_reboot_required a | Some b \<Rightarrow> b),
        appl_enabled := (case chg_enabled p of None \<Rightarrow> appl_enabled a | Some b \<Rightarrow> b)\<rparr>)"

definition set_field_names :: "ApplicationUpdate \<Rightarrow> string list" where
  "set_field_names p = sort (map snd (filter fst
     [(chg_name p \<noteq> None, ''name''), (chg_version p \<noteq> None, ''version''), (chg_description p \<noteq> None, ''description''),
      (chg_installer_type p \<noteq> None, ''installer_type''), (chg_installer_path p \<noteq> None, ''installer_path''),
      (chg_install_arguments p \<noteq> None, ''install_arguments''), (chg_detection_method p \<noteq> None, ''detection_method''),
      (chg_detection_config p \<noteq> None, ''detection_config''), (chg_timeout_seconds p \<noteq> None, ''timeout_seconds''),
      (chg_reboot_required p \<noteq> None, ''reboot_required''), (chg_enabled p \<noteq> None, ''enabled''),
      (chg_dependency_ids p \<noteq> None, ''dependency_ids'')]))"

definition replace_row :: "CatalogRow \<Rightarrow> CatalogRow list \<Rightarrow> CatalogRow list" where
  "replace_row row rows = map (\<lambda>a. if appl_id a = appl_id row then row else a) rows"

definition changed_dependencies :: "CatalogRow list \<Rightarrow> CatalogRow \<Rightarrow> uuid list option \<Rightarrow> catalog_error + CatalogRow" where
  "changed_dependencies rows row deps =
     (case deps of
        None \<Rightarrow> Inr row
      | Some ds \<Rightarrow>
          (case replace_dependencies rows (appl_id row) ds of
             Inl e \<Rightarrow> Inl e
           | Inr ids \<Rightarrow>
               (let row' = row\<lparr>appl_depends_on := ids\<rparr> in
                case assert_acyclic (replace_row row' rows) (appl_id row) ds of Some e \<Rightarrow> Inl e | None \<Rightarrow> Inr row')))"

definition update_application ::
  "user \<Rightarrow> string option \<Rightarrow> uuid \<Rightarrow> ApplicationUpdate \<Rightarrow> CatalogState \<Rightarrow> (catalog_error + CatalogRow) \<times> CatalogState" where
  "update_application user ip aid payload s =
     (case checked_update payload of
        Inl e \<Rightarrow> (Inl (Request_Invalid e), s)
      | Inr p \<Rightarrow>
          (case find (\<lambda>a. appl_id a = aid) (cat_rows s) of
             None \<Rightarrow> (Inl (App_Error (NotFoundError ''Application not found.'')), s)
           | Some a \<Rightarrow>
               (let row = set_fields p a in
                case validate_installer_path (appl_installer_path row) (Some (appl_installer_type row)) of
                  Inl e \<Rightarrow> (Inl (App_Error (DomainValidationError e [(''field'', JStr ''installer_path'')])), s)
                | Inr _ \<Rightarrow>
                    (case changed_dependencies (cat_rows s) row (chg_dependency_ids p) of
                       Inl e \<Rightarrow> (Inl e, s)
                     | Inr row' \<Rightarrow> (Inr row',
                         audit_catalog ''APPLICATION_UPDATED'' user ip (appl_name row')
                           [(''fields'', JList (map JStr (set_field_names p)))] (s\<lparr>cat_rows := replace_row row' (cat_rows s)\<rparr>))))))"

definition delete_application ::
  "user \<Rightarrow> string option \<Rightarrow> uuid \<Rightarrow> CatalogState \<Rightarrow> (catalog_error + unit) \<times> CatalogState" where
  "delete_application user ip aid s =
     (case find (\<lambda>a. appl_id a = aid) (cat_rows s) of
        None \<Rightarrow> (Inl (App_Error (NotFoundError ''Application not found.'')), s)
      | Some a \<Rightarrow>
          if list_ex (\<lambda>b. aid \<in> set (appl_depends_on b)) (cat_rows s)
          then (Inl (App_Error (ConflictError ''Other applications depend on this entry - remove those dependencies first.'' [])), s)
          else (Inr (), audit_catalog ''APPLICATION_DELETED'' user ip (appl_name a) []
                 (s\<lparr>cat_rows := filter (\<lambda>b. appl_id b \<noteq> aid) (cat_rows s)\<rparr>)))"

text \<open>The listings: all rows for administrators; by default only the enabled ones for everybody else.\<close>

definition list_applications :: "bool \<Rightarrow> CatalogState \<Rightarrow> CatalogRow list" where
  "list_applications enabled_only s =
     sort_key appl_name (if enabled_only then filter appl_enabled (cat_rows s) else cat_rows s)"

section \<open>The messages of the resolver\<close>

lemma contains_prefix: "contains (p @ t) p"
  unfolding contains_iff by (rule exI [of _ "[]"]) simp

lemma graph_error_cycle: "graph_error (cycle_error cat ch a)"
proof -
  have "contains (''Circular'' @ t) ''Circular''" for t by (rule contains_prefix)
  then show ?thesis unfolding graph_error_def cycle_error_def by simp
qed

lemma graph_error_missing: "graph_error (missing_error a)"
proof -
  have "contains (u @ ''does not exist'' @ v) ''does not exist''" for u v unfolding contains_iff by blast
  from this [of "''A selected application depends on application '' @ [CHR 0x27] @ a @ [CHR 0x27] @ '', which ''" "''.''"]
  show ?thesis unfolding graph_error_def missing_error_def by (simp add: append_assoc)
qed

lemma visit_all_messages:
  assumes "\<And>a s s'. f a s = Some s' \<Longrightarrow> list_all graph_error (dfs_errors s) \<Longrightarrow> list_all graph_error (dfs_errors s')"
  shows "visit_all f as s = Some s' \<Longrightarrow> list_all graph_error (dfs_errors s) \<Longrightarrow> list_all graph_error (dfs_errors s')"
  by (induction as arbitrary: s) (auto split: option.splits dest: assms)

lemma visit_messages: "visit k cat a s = Some s' \<Longrightarrow> list_all graph_error (dfs_errors s) \<Longrightarrow> list_all graph_error (dfs_errors s')"
proof (induction k arbitrary: a s s')
  case (Suc k)
  have all: "visit_all (visit k cat) as t = Some t' \<Longrightarrow> list_all graph_error (dfs_errors t) \<Longrightarrow> list_all graph_error (dfs_errors t')" for as t t'
    by (rule visit_all_messages [OF Suc.IH])
  from Suc.prems show ?case
    by (auto simp: graph_error_cycle graph_error_missing dest: all split: colour.splits option.splits)
qed simp

text \<open>Without an error that the filter keeps, the graph below the selection is sound.\<close>

lemma no_graph_errors:
  assumes "resolve_install_order selected cat = Some (ordered, errors)" and "filter graph_error errors = []"
  shows "\<forall>a \<in> needed selected cat. map_of cat a \<noteq> None \<and> (a, a) \<notin> (depends cat)\<^sup>+"
proof -
  obtain s where s: "visit_all (visit (Suc (length cat)) cat) selected start_state = Some s"
    and v: "visited (needed selected cat) cat (set selected) start_state s" using search_correct by blast
  have inv: "dfs_inv (needed selected cat) cat s" and sel: "dfs_errors s = [] \<Longrightarrow> \<forall>a \<in> set selected. colour_of s a = BLACK"
    using v by (simp_all add: visited_def)
  have all: "list_all graph_error (dfs_errors s)"
    using visit_all_messages [of "visit (Suc (length cat)) cat", OF visit_messages s] by (simp add: start_state_def del: visit.simps)
  have "dfs_errors s = []"
  proof (rule ccontr)
    assume e: "dfs_errors s \<noteq> []"
    then have "errors = dfs_errors s @ disabled_errors (required s)"
      using assms(1) s by (simp add: resolve_install_order_def Let_def del: visit.simps)
    with assms(2) all e show False by (cases "dfs_errors s") auto
  qed
  then have first: "deps_first (required s)" "distinct (map fst (required s))" "\<forall>(a, n) \<in> set (required s). map_of cat a = Some n"
    and keys: "fst ` set (required s) = needed selected cat"
    using inv keys_are_needed [OF inv _ sel] by (simp_all add: dfs_inv_def)
  then show ?thesis using required_acyclic [OF first] by fastforce
qed

section \<open>A sound catalog\<close>

definition dep_rel :: "CatalogRow list \<Rightarrow> (uuid \<times> uuid) set" where
  "dep_rel rows = {(appl_id a, d) | a d. a \<in> set rows \<and> d \<in> set (appl_depends_on a)}"

definition catalog_ok :: "CatalogRow list \<Rightarrow> bool" where
  "catalog_ok rows \<longleftrightarrow> distinct (map appl_id rows) \<and> acyclic (dep_rel rows)
     \<and> (\<forall>a \<in> set rows. distinct (appl_depends_on a) \<and> set (appl_depends_on a) \<subseteq> appl_id ` set rows
           \<and> is_ok (validate_installer_path (appl_installer_path a) (Some (appl_installer_type a))))"

lemma dep_rel_simps [simp]:
  "dep_rel [] = {}" "dep_rel (a # rows) = Pair (appl_id a) ` set (appl_depends_on a) \<union> dep_rel rows"
  by (auto simp: dep_rel_def)

lemma set_dict_by: "fst ` set (dict_by key xs) = key ` set xs"
proof (induction xs rule: rev_induct)
  case (snoc x xs)
  have "dict_by key (xs @ [x]) = AList.update (key x) x (dict_by key xs)" by (simp add: dict_by_def dict_update_def)
  then show ?case using snoc by (simp add: update_keys dom_update)
qed (simp add: dict_by_def dict_update_def)

lemma map_of_dict_by_distinct:
  assumes "distinct (map key xs)" and "x \<in> set xs"
  shows "map_of (dict_by key xs) (key x) = Some x"
proof -
  have "find (\<lambda>y. key y = key x) (rev xs) \<noteq> None" using assms(2) by (auto simp: find_None_iff)
  then obtain y where "find (\<lambda>y. key y = key x) (rev xs) = Some y" by blast
  moreover from find_SomeD [OF this] assms have "y = x" by (auto simp: distinct_map inj_on_def)
  ultimately show ?thesis by (simp add: map_of_dict_by)
qed

lemma depends_dict_by:
  assumes "distinct (map node_id ns)"
  shows "depends (dict_by node_id ns) = {(node_id n, d) | n d. n \<in> set ns \<and> d |\<in>| dependency_ids n}"
  using map_of_dict_by_distinct [OF assms] by (fastforce simp: depends_def dest: dict_by_SomeD)

lemma depends_dict_by_map:
  assumes "distinct (map node_id (map g rows))"
  shows "depends (dict_by node_id (map g rows)) = {(node_id (g a), d) | a d. a \<in> set rows \<and> d |\<in>| dependency_ids (g a)}"
  unfolding depends_dict_by [OF assms] by auto

lemma edited_node_id [simp]: "node_id (edited_node edited deps a) = appl_id a"
  by (simp add: edited_node_def app_node_def)

lemma edited_catalog_eq:
  assumes "row \<in> set rows"
  shows "edited_catalog rows (appl_id row) deps = dict_by node_id (map (edited_node (appl_id row) deps) rows)"
proof -
  have "appl_id row \<in> fst ` set (dict_by node_id (map (edited_node (appl_id row) deps) rows))"
    unfolding set_dict_by using assms by (force simp: image_image)
  then have "map_of (dict_by node_id (map (edited_node (appl_id row) deps) rows)) (appl_id row) \<noteq> None" by (simp add: map_of_eq_None_iff)
  then show ?thesis by (auto simp: edited_catalog_def Let_def)
qed

lemma edited_catalog_graph:
  assumes "distinct (map appl_id rows)" and "row \<in> set rows" and "set (appl_depends_on row) = set deps"
  shows "depends (edited_catalog rows (appl_id row) deps) = dep_rel rows"
    and "fst ` set (edited_catalog rows (appl_id row) deps) = appl_id ` set rows"
proof -
  let ?node = "edited_node (appl_id row) deps"
  have ids: "map node_id (map ?node rows) = map appl_id rows" by simp
  then have dist: "distinct (map node_id (map ?node rows))" using assms(1) by (simp only:)
  have self: "a = row" if "a \<in> set rows" "appl_id a = appl_id row" for a using that assms(1,2) by (auto simp: distinct_map inj_on_def)
  have deps: "d |\<in>| dependency_ids (?node a) \<longleftrightarrow> d \<in> set (appl_depends_on a)" if "a \<in> set rows" for a d
    using self [OF that] assms(3) by (auto simp: edited_node_def app_node_def fset_of_list_elem)
  then show "depends (edited_catalog rows (appl_id row) deps) = dep_rel rows"
    unfolding edited_catalog_eq [OF assms(2)] depends_dict_by_map [OF dist] dep_rel_def by (simp add: deps cong: conj_cong)
  show "fst ` set (edited_catalog rows (appl_id row) deps) = appl_id ` set rows"
    unfolding edited_catalog_eq [OF assms(2)] set_dict_by by (simp add: image_image)
qed

lemma assert_acyclic_sound:
  assumes "distinct (map appl_id rows)" and "row \<in> set rows" and "set (appl_depends_on row) = set deps"
    and "assert_acyclic rows (appl_id row) deps = None"
  shows "acyclic (dep_rel rows)"
proof -
  define cat where "cat = edited_catalog rows (appl_id row) deps"
  obtain ordered errors where r: "resolve_install_order (map fst cat) cat = Some (ordered, errors)"
    using resolve_install_order_spec [of "map fst cat" cat] by (auto split: option.splits)
  with assms(4) have "filter graph_error errors = []" by (simp add: assert_acyclic_def cat_def [symmetric] Let_def split: if_splits)
  from no_graph_errors [OF r this] have no: "(a, a) \<notin> (depends cat)\<^sup>+" if "a \<in> set (map fst cat)" for a
    using that needed_closed(2) by blast
  have graph: "depends cat = dep_rel rows" "set (map fst cat) = appl_id ` set rows"
    using edited_catalog_graph [OF assms(1-3)] by (simp_all add: cat_def)
  have "a \<in> appl_id ` set rows" if "(a, b) \<in> (dep_rel rows)\<^sup>+" for a b
    using tranclD [OF that] by (auto simp: dep_rel_def)
  then show ?thesis using no unfolding graph by (auto simp: acyclic_def)
qed

lemma replace_dependenciesD:
  assumes "replace_dependencies rows self deps = Inr ids"
  shows "distinct ids" and "set ids = set deps" and "set ids \<subseteq> appl_id ` set rows" and "self \<notin> set ids"
  using assms by (auto simp: replace_dependencies_def first_occurrences_def Let_def find_None_iff split: if_splits option.splits)

lemma strip_idem: "strip (strip s) = strip s"
proof -
  define r where "r = rstrip_chars is_space (dropWhile is_space s)"
  obtain t where t: "dropWhile is_space s = r @ t" using rstrip_chars_split [of "dropWhile is_space s" is_space] by (auto simp: r_def)
  have "dropWhile is_space r = r"
  proof (cases r)
    case (Cons c cs)
    then have "\<not> is_space c" using hd_dropWhile [of is_space s] t by simp
    then show ?thesis by (simp add: Cons)
  qed simp
  then show ?thesis by (simp add: strip_chars_def lstrip_chars_def r_def)
qed

lemma validate_installer_path_again:
  assumes "validate_installer_path v (Some t) = Inr path"
  shows "is_ok (validate_installer_path path (Some t))"
  using assms by (auto simp: validate_installer_path_def validate_windows_path_def Let_def strip_idem split: sum.splits if_splits)

lemma create_keeps_ok:
  assumes ok: "catalog_ok (cat_rows s)" and fresh: "new_id \<notin> appl_id ` set (cat_rows s)"
  shows "catalog_ok (cat_rows (snd (create_application user ip new_id p s)))"
proof (cases "create_application user ip new_id p s")
  case (Pair r s')
  show ?thesis
  proof (cases r)
    case Inl
    then have "s' = s" using Pair by (auto simp: create_application_def Let_def split: sum.splits prod.splits if_splits option.splits)
    then show ?thesis using ok Pair by simp
  next
    case (Inr row)
    from Pair Inr obtain path config ids where c: "checked_create p = Inr (path, config)"
      and d: "replace_dependencies (cat_rows s @ [new_row user new_id p path config]) new_id (new_dependency_ids p) = Inr ids"
      and row: "row = (new_row user new_id p path config)\<lparr>appl_depends_on := ids\<rparr>"
      and a: "assert_acyclic (cat_rows s @ [row]) new_id (new_dependency_ids p) = None"
      and s': "cat_rows s' = cat_rows s @ [row]"
      by (auto simp: create_application_def audit_catalog_def Let_def split: sum.splits prod.splits if_splits option.splits)
    have f: "appl_id row = new_id" "appl_depends_on row = ids" "appl_installer_path row = path"
      "appl_installer_type row = new_installer_type p" by (simp_all add: row new_row_def)
    note ids = replace_dependenciesD [OF d]
    have dist: "distinct (map appl_id (cat_rows s @ [row]))" using ok fresh f(1) by (auto simp: catalog_ok_def)
    have "acyclic (dep_rel (cat_rows s @ [row]))"
      by (rule assert_acyclic_sound [OF dist, of row "new_dependency_ids p"]) (use a ids(2) f in simp_all)
    moreover have "set (appl_depends_on row) \<subseteq> appl_id ` set (cat_rows s @ [row])"
      using ids(3) f by (simp add: new_row_def)
    moreover have "set (appl_depends_on a) \<subseteq> appl_id ` set (cat_rows s @ [row])" if "a \<in> set (cat_rows s)" for a
      using ok that by (auto simp: catalog_ok_def)
    moreover have "is_ok (validate_installer_path path (Some (new_installer_type p)))"
      using c by (intro validate_installer_path_again [of "new_installer_path p"]) (auto simp: checked_create_def split: if_splits sum.splits)
    ultimately show ?thesis using ok dist ids(1) f unfolding catalog_ok_def by (simp add: Pair s')
  qed
qed

lemma set_fields_kept [simp]: "appl_id (set_fields p a) = appl_id a" "appl_depends_on (set_fields p a) = appl_depends_on a"
  by (simp_all add: set_fields_def Let_def)

lemma changed_dependencies_kept:
  "changed_dependencies rows row deps = Inr row' \<Longrightarrow> appl_id row' = appl_id row \<and> appl_installer_path row' = appl_installer_path row
     \<and> appl_installer_type row' = appl_installer_type row"
  by (auto simp: changed_dependencies_def Let_def split: option.splits sum.splits)

lemma replace_row_ids: "map appl_id (replace_row row rows) = map appl_id rows"
  by (simp add: replace_row_def)

lemma replace_row_mem: "a \<in> set (replace_row row rows) \<Longrightarrow> a = row \<or> a \<in> set rows"
  by (auto simp: replace_row_def)

lemma replace_row_self: "appl_id row \<in> appl_id ` set rows \<Longrightarrow> row \<in> set (replace_row row rows)"
  by (force simp: replace_row_def)

text \<open>A change of the dependencies is checked; without one the graph is the old one.\<close>

lemma changed_dependencies_ok:
  assumes ok: "catalog_ok rows" and a: "a \<in> set rows" and row: "appl_id row = appl_id a" "appl_depends_on row = appl_depends_on a"
    and c: "changed_dependencies rows row deps = Inr row'"
  shows "acyclic (dep_rel (replace_row row' rows)) \<and> distinct (appl_depends_on row') \<and> set (appl_depends_on row') \<subseteq> appl_id ` set rows"
proof (cases deps)
  case None
  then have r: "row' = row" using c by (simp add: changed_dependencies_def)
  have "b = a" if "b \<in> set rows" "appl_id b = appl_id a" for b using that a ok by (auto simp: catalog_ok_def distinct_map inj_on_def)
  then have "dep_rel (replace_row row' rows) \<subseteq> dep_rel rows"
    unfolding r using row a by (auto simp: dep_rel_def replace_row_def split: if_splits)
  then have "acyclic (dep_rel (replace_row row' rows))" using ok acyclic_subset by (auto simp: catalog_ok_def)
  then show ?thesis using ok a row by (auto simp: r catalog_ok_def)
next
  case (Some ds)
  with c obtain ids where d: "replace_dependencies rows (appl_id row) ds = Inr ids" and r: "row' = row\<lparr>appl_depends_on := ids\<rparr>"
    and acy: "assert_acyclic (replace_row row' rows) (appl_id row') ds = None"
    by (auto simp: changed_dependencies_def Let_def split: sum.splits option.splits)
  note ids = replace_dependenciesD [OF d]
  have "row' \<in> set (replace_row row' rows)" by (rule replace_row_self) (use a row in \<open>simp add: r\<close>)
  then have "acyclic (dep_rel (replace_row row' rows))"
    using ok ids(2) by (intro assert_acyclic_sound [OF _ _ _ acy]) (simp_all add: replace_row_ids catalog_ok_def r)
  then show ?thesis using ids by (simp add: r)
qed

lemma update_keeps_ok:
  assumes ok: "catalog_ok (cat_rows s)"
  shows "catalog_ok (cat_rows (snd (update_application user ip aid payload s)))"
proof (cases "update_application user ip aid payload s")
  case (Pair r s')
  show ?thesis
  proof (cases r)
    case Inl
    then have "s' = s" using Pair by (auto simp: update_application_def Let_def split: sum.splits option.splits)
    then show ?thesis using ok Pair by simp
  next
    case (Inr row')
    from Pair Inr obtain p a v where a: "find (\<lambda>a. appl_id a = aid) (cat_rows s) = Some a"
      and v: "validate_installer_path (appl_installer_path (set_fields p a)) (Some (appl_installer_type (set_fields p a))) = Inr v"
      and c: "changed_dependencies (cat_rows s) (set_fields p a) (chg_dependency_ids p) = Inr row'"
      and s': "cat_rows s' = replace_row row' (cat_rows s)"
      by (auto simp: update_application_def audit_catalog_def Let_def split: sum.splits option.splits)
    have mem: "a \<in> set (cat_rows s)" using find_SomeD [OF a] by simp
    have graph: "acyclic (dep_rel (replace_row row' (cat_rows s)))" "distinct (appl_depends_on row')"
      "set (appl_depends_on row') \<subseteq> appl_id ` set (cat_rows s)"
      using changed_dependencies_ok [OF ok mem _ _ c] by simp_all
    have ids: "appl_id ` set (replace_row row' (cat_rows s)) = appl_id ` set (cat_rows s)"
      using arg_cong [OF replace_row_ids, of set row' "cat_rows s"] by simp
    have "is_ok (validate_installer_path (appl_installer_path row') (Some (appl_installer_type row')))"
      using v changed_dependencies_kept [OF c] by simp
    then show ?thesis using ok graph unfolding catalog_ok_def
      by (auto simp: Pair s' ids replace_row_ids dest!: replace_row_mem)
  qed
qed

lemma delete_keeps_ok:
  assumes ok: "catalog_ok (cat_rows s)"
  shows "catalog_ok (cat_rows (snd (delete_application user ip aid s)))"
proof (cases "find (\<lambda>a. appl_id a = aid) (cat_rows s) = None \<or> list_ex (\<lambda>b. aid \<in> set (appl_depends_on b)) (cat_rows s)")
  case True
  then show ?thesis using ok by (auto simp: delete_application_def split: option.splits)
next
  case False
  define rows where "rows = filter (\<lambda>b. appl_id b \<noteq> aid) (cat_rows s)"
  have "dep_rel rows \<subseteq> dep_rel (cat_rows s)" by (auto simp: dep_rel_def rows_def)
  then have acy: "acyclic (dep_rel rows)" using ok acyclic_subset by (auto simp: catalog_ok_def)
  have "aid \<notin> set (appl_depends_on b)" if "b \<in> set (cat_rows s)" for b using that False by (auto simp: list_ex_iff)
  then have "set (appl_depends_on b) \<subseteq> appl_id ` set rows" if "b \<in> set rows" for b
    using that ok by (fastforce simp: rows_def catalog_ok_def)
  moreover have "cat_rows (snd (delete_application user ip aid s)) = rows"
    using False by (auto simp: delete_application_def audit_catalog_def rows_def)
  ultimately show ?thesis using ok acy by (simp add: catalog_ok_def) (simp add: rows_def distinct_map_filter)
qed

section \<open>Reachable catalogs\<close>

inductive reachable_catalog :: "CatalogState \<Rightarrow> bool" where
  empty: "reachable_catalog \<lparr>cat_rows = [], cat_audit = trail\<rparr>"
| create: "reachable_catalog s \<Longrightarrow> new_id \<notin> appl_id ` set (cat_rows s) \<Longrightarrow>
    reachable_catalog (snd (create_application user ip new_id p s))"
| update: "reachable_catalog s \<Longrightarrow> reachable_catalog (snd (update_application user ip aid payload s))"
| delete: "reachable_catalog s \<Longrightarrow> reachable_catalog (snd (delete_application user ip aid s))"

lemma reachable_catalog_ok: "reachable_catalog s \<Longrightarrow> catalog_ok (cat_rows s)"
  by (induction rule: reachable_catalog.induct)
    (simp_all add: create_keeps_ok update_keeps_ok delete_keeps_ok catalog_ok_def [of "[]"] acyclic_def)

text \<open>What a selection needs, through the dependencies of the rows.\<close>

definition closure_of :: "uuid list \<Rightarrow> CatalogRow list \<Rightarrow> uuid set" where
  "closure_of selected rows = (dep_rel rows)\<^sup>* `` set selected"

lemma enabled_graph:
  assumes "catalog_ok rows"
  shows "depends (enabled_catalog rows) = {(appl_id a, d) | a d. a \<in> set rows \<and> appl_enabled a \<and> d \<in> set (appl_depends_on a)}"
    and "map_of (enabled_catalog rows) x = Some n \<longleftrightarrow> (\<exists>a \<in> set rows. appl_id a = x \<and> appl_enabled a \<and> n = app_node a)"
proof -
  have ids: "map node_id (map app_node (filter appl_enabled rows)) = map appl_id (filter appl_enabled rows)" by (simp add: app_node_def)
  have "distinct (map appl_id (filter appl_enabled rows))" using assms by (simp add: catalog_ok_def distinct_map_filter)
  then have dist: "distinct (map node_id (map app_node (filter appl_enabled rows)))" unfolding ids .
  show "depends (enabled_catalog rows) = {(appl_id a, d) | a d. a \<in> set rows \<and> appl_enabled a \<and> d \<in> set (appl_depends_on a)}"
    unfolding enabled_catalog_def depends_dict_by_map [OF dist] by (simp add: app_node_def fset_of_list_elem)
  show "map_of (enabled_catalog rows) x = Some n \<longleftrightarrow> (\<exists>a \<in> set rows. appl_id a = x \<and> appl_enabled a \<and> n = app_node a)"
    unfolding enabled_catalog_def using map_of_dict_by_distinct [OF dist]
    by (fastforce simp: app_node_def dest: dict_by_SomeD)
qed

lemma installable_enabled:
  assumes ok: "catalog_ok rows"
  shows "installable selected (enabled_catalog rows) \<longleftrightarrow>
    (\<forall>x \<in> closure_of selected rows. \<exists>a \<in> set rows. appl_id a = x \<and> appl_enabled a)"
proof -
  let ?E = "depends (enabled_catalog rows)" and ?N = "needed selected (enabled_catalog rows)"
  define on where "on = (\<lambda>x. \<exists>a \<in> set rows. appl_id a = x \<and> appl_enabled a)"
  have sub: "?E \<subseteq> dep_rel rows" unfolding enabled_graph(1) [OF ok] by (auto simp: dep_rel_def)
  then have le: "?N \<subseteq> closure_of selected rows" unfolding needed_def closure_of_def using rtrancl_mono by blast
  have acy: "(x, x) \<notin> ?E\<^sup>+" for x using ok acyclic_subset [OF _ sub] by (auto simp: catalog_ok_def acyclic_def)
  have step: "w \<in> ?N" if all: "\<forall>x \<in> ?N. on x" and "u \<in> ?N" "(u, w) \<in> dep_rel rows" for u w
  proof -
    from that obtain a where a: "a \<in> set rows" "appl_id a = u" "appl_enabled a" by (auto simp: on_def)
    from that(3) obtain b where b: "b \<in> set rows" "appl_id b = u" "w \<in> set (appl_depends_on b)" by (auto simp: dep_rel_def)
    have "b = a" using a b ok by (auto simp: catalog_ok_def distinct_map inj_on_def)
    then have "(u, w) \<in> ?E" unfolding enabled_graph(1) [OF ok] using a b by blast
    then show ?thesis using that(2) needed_closed(1) by blast
  qed
  have ge: "closure_of selected rows \<subseteq> ?N" if "\<forall>x \<in> ?N. on x"
  proof -
    have "x \<in> ?N" if "(y, x) \<in> (dep_rel rows)\<^sup>*" "y \<in> set selected" for x y
      using that by (induction rule: rtrancl_induct) (use step [OF \<open>\<forall>x \<in> ?N. on x\<close>] needed_closed(2) in blast)+
    then show ?thesis by (auto simp: closure_of_def)
  qed
  have "(case map_of (enabled_catalog rows) x of None \<Rightarrow> False | Some n \<Rightarrow> node_enabled n) \<longleftrightarrow> on x" for x
  proof (cases "map_of (enabled_catalog rows) x")
    case None
    then show ?thesis using enabled_graph(2) [OF ok, of x] by (auto simp: on_def)
  next
    case (Some n)
    then obtain a where "a \<in> set rows" "appl_id a = x" "appl_enabled a" "n = app_node a" using enabled_graph(2) [OF ok] by blast
    then show ?thesis by (auto simp: Some on_def app_node_def)
  qed
  then have "installable selected (enabled_catalog rows) \<longleftrightarrow> (\<forall>x \<in> ?N. on x)" by (simp add: installable_def acy)
  also have "\<dots> \<longleftrightarrow> (\<forall>x \<in> closure_of selected rows. on x)" using le ge by (meson subsetD)
  finally show ?thesis unfolding on_def .
qed

text \<open>With every row enabled the check refuses nothing else: it decides whether the edited graph is acyclic.\<close>

lemma assert_acyclic_exact:
  assumes dist: "distinct (map appl_id rows)" and row: "row \<in> set rows" "set (appl_depends_on row) = set deps"
    and on: "\<forall>a \<in> set rows. appl_enabled a \<and> set (appl_depends_on a) \<subseteq> appl_id ` set rows"
  shows "assert_acyclic rows (appl_id row) deps = None \<longleftrightarrow> acyclic (dep_rel rows)"
proof
  assume acy: "acyclic (dep_rel rows)"
  define cat where "cat = edited_catalog rows (appl_id row) deps"
  note graph = edited_catalog_graph [OF dist row, folded cat_def]
  have closed: "needed (map fst cat) cat \<subseteq> fst ` set cat"
  proof -
    have "x \<in> fst ` set cat" if "(y, x) \<in> (depends cat)\<^sup>*" "y \<in> fst ` set cat" for x y
      using that by (induction rule: rtrancl_induct) (use on in \<open>auto simp: graph dep_rel_def\<close>)
    then show ?thesis by (auto simp: needed_def)
  qed
  have enabled: "node_enabled n" if "map_of cat x = Some n" for x n
  proof -
    have "n \<in> set (map (edited_node (appl_id row) deps) rows)"
      using that dict_by_SomeD unfolding cat_def edited_catalog_eq [OF row(1)] by metis
    then show ?thesis using on by (auto simp: edited_node_def app_node_def)
  qed
  have "installable (map fst cat) cat" unfolding installable_def
  proof
    fix x assume "x \<in> needed (map fst cat) cat"
    then obtain n where n: "map_of cat x = Some n" using closed by (metis (no_types, opaque_lifting) map_of_eq_None_iff not_Some_eq subsetD)
    show "(case map_of cat x of None \<Rightarrow> False | Some n \<Rightarrow> node_enabled n) \<and> (x, x) \<notin> (depends cat)\<^sup>+"
      using acy enabled [OF n] by (simp add: n graph(1) acyclic_def)
  qed
  then show "assert_acyclic rows (appl_id row) deps = None"
    using resolve_install_order_spec [of "map fst cat" cat] by (auto simp: assert_acyclic_def cat_def [symmetric] Let_def split: option.splits)
qed (rule assert_acyclic_sound [OF dist row])

section \<open>Property\<close>

text \<open>
  C6. Whatever sequence of edits built the catalog, its dependencies exist and form no cycle, and preflight can resolve a selection
  exactly when everything the selection needs is enabled: no edit ever makes an application impossible to install.
\<close>

theorem reachable_catalog_resolves:
  assumes "reachable_catalog s"
  shows "acyclic (dep_rel (cat_rows s)) \<and> Range (dep_rel (cat_rows s)) \<subseteq> appl_id ` set (cat_rows s)
    \<and> (\<exists>ordered errors. resolve_install_order selected (enabled_catalog (cat_rows s)) = Some (ordered, errors)
         \<and> (errors = [] \<longleftrightarrow> (\<forall>x \<in> closure_of selected (cat_rows s). \<exists>a \<in> set (cat_rows s). appl_id a = x \<and> appl_enabled a)))"
proof -
  note ok = reachable_catalog_ok [OF assms]
  have "\<exists>ordered errors. resolve_install_order selected (enabled_catalog (cat_rows s)) = Some (ordered, errors)
      \<and> (errors = [] \<longleftrightarrow> installable selected (enabled_catalog (cat_rows s)))"
    using resolve_install_order_spec [of selected "enabled_catalog (cat_rows s)"] by (auto split: option.splits if_splits)
  then show ?thesis using ok by (auto simp: installable_enabled [OF ok] catalog_ok_def dep_rel_def)
qed

definition sample_path :: string where
  "sample_path = ''C:'' @ [bs] @ ''a.msi''"

definition sample_agent :: ApplicationCreate where
  "sample_agent = \<lparr>new_name = ''Agent'', new_version = ''1.0'', new_description = [], new_installer_type = MSI,
     new_installer_path = sample_path, new_install_arguments = [], new_detection_method = SERVICE_EXISTS,
     new_detection_config = [(''service_name'', JStr ''agent'')], new_timeout_seconds = 600, new_reboot_required = False,
     new_enabled = True, new_dependency_ids = []\<rparr>"

definition sample_tool :: ApplicationCreate where
  "sample_tool = sample_agent\<lparr>new_name := ''Tool'', new_dependency_ids := [''a'', ''a'']\<rparr>"

definition sample_first :: CatalogState where
  "sample_first = snd (create_application (''u-1'', ''admin'') None ''a'' sample_agent \<lparr>cat_rows = [], cat_audit = []\<rparr>)"

definition sample_catalog :: CatalogState where
  "sample_catalog = snd (create_application (''u-1'', ''admin'') None ''b'' sample_tool sample_first)"

lemma sample_validated:
  "validate_installer_path sample_path (Some MSI) = Inr sample_path"
  "validate_detection_config SERVICE_EXISTS [(''service_name'', JStr ''agent'')] = Inr [(''service_name'', ''agent'')]"
  by code_simp+

lemma sample_checked:
  "checked_create sample_agent = Inr (sample_path, [(''service_name'', ''agent'')])"
  "checked_create sample_tool = Inr (sample_path, [(''service_name'', ''agent'')])"
proof -
  have "length sample_path = 8" by (simp add: sample_path_def)
  then show "checked_create sample_agent = Inr (sample_path, [(''service_name'', ''agent'')])"
    "checked_create sample_tool = Inr (sample_path, [(''service_name'', ''agent'')])"
    by (simp_all add: checked_create_def sample_agent_def sample_tool_def sample_validated len_between_def)
qed

lemma sample_first_rows:
  "\<exists>a. cat_rows sample_first = [a] \<and> appl_id a = ''a'' \<and> appl_name a = ''Agent'' \<and> appl_enabled a \<and> appl_depends_on a = []"
proof -
  define row where "row = new_row (''u-1'', ''admin'') ''a'' sample_agent sample_path [(''service_name'', ''agent'')]"
  have f: "appl_id row = ''a''" "appl_name row = ''Agent''" "appl_enabled row" "appl_depends_on row = []" "row\<lparr>appl_depends_on := []\<rparr> = row"
    by (simp_all add: row_def new_row_def sample_agent_def)
  have "assert_acyclic [row] (appl_id row) [] = None"
    using f by (subst assert_acyclic_exact) (simp_all add: acyclic_def)
  then show ?thesis
    by (simp add: sample_first_def create_application_def sample_checked(1) row_def [symmetric] f replace_dependencies_def
        first_occurrences_def audit_catalog_def Let_def sample_agent_def [THEN arg_cong, of new_dependency_ids])
qed

lemma sample_catalog_rows:
  "\<exists>a b. cat_rows sample_catalog = [a, b] \<and> appl_id a = ''a'' \<and> appl_id b = ''b'' \<and> appl_enabled a \<and> appl_enabled b
     \<and> appl_depends_on a = [] \<and> appl_depends_on b = [''a'']"
proof -
  obtain a where a: "cat_rows sample_first = [a]" "appl_id a = ''a''" "appl_name a = ''Agent''" "appl_enabled a" "appl_depends_on a = []"
    using sample_first_rows by blast
  define row where "row = new_row (''u-1'', ''admin'') ''b'' sample_tool sample_path [(''service_name'', ''agent'')]"
  have f: "appl_id row = ''b''" "appl_enabled row" by (simp_all add: row_def new_row_def sample_agent_def sample_tool_def)
  have t: "new_name sample_tool = ''Tool''" "new_dependency_ids sample_tool = [''a'', ''a'']" by (simp_all add: sample_tool_def)
  have "dep_rel [a, row\<lparr>appl_depends_on := [''a'']\<rparr>] = {(''b'', ''a'')}" using a f by simp
  moreover have "acyclic {(''b'', ''a'')}" by (simp add: acyclic_insert) (simp add: acyclic_def)
  ultimately have "assert_acyclic [a, row\<lparr>appl_depends_on := [''a'']\<rparr>] ''b'' [''a'', ''a''] = None"
    using assert_acyclic_exact [of "[a, row\<lparr>appl_depends_on := [''a'']\<rparr>]" "row\<lparr>appl_depends_on := [''a'']\<rparr>" "[''a'', ''a'']"] a f by simp
  then show ?thesis
    using a f by (simp add: sample_catalog_def create_application_def sample_checked(2) row_def [symmetric] t replace_dependencies_def
        first_occurrences_def audit_catalog_def Let_def)
qed

theorem reachable_catalog_resolves_witness:
  "(''b'', ''a'') \<in> dep_rel (cat_rows sample_catalog)
   \<and> (\<exists>ordered. resolve_install_order [''b''] (enabled_catalog (cat_rows sample_catalog)) = Some (ordered, []))"
proof -
  obtain a where first: "cat_rows sample_first = [a]" "appl_id a = ''a''" using sample_first_rows by blast
  obtain a' b where rows: "cat_rows sample_catalog = [a', b]" "appl_id a' = ''a''" "appl_id b = ''b''" "appl_enabled a'" "appl_enabled b"
    "appl_depends_on a' = []" "appl_depends_on b = [''a'']" using sample_catalog_rows by blast
  have "reachable_catalog sample_first"
    unfolding sample_first_def by (rule reachable_catalog.create [OF reachable_catalog.empty]) simp
  then have "reachable_catalog sample_catalog"
    unfolding sample_catalog_def by (rule reachable_catalog.create) (simp add: first)
  note all = reachable_catalog_resolves [OF this, of "[''b'']"]
  have dep: "dep_rel (cat_rows sample_catalog) = {(''b'', ''a'')}" using rows by simp
  have "x \<in> {''a'', ''b''}" if "x \<in> closure_of [''b''] (cat_rows sample_catalog)" for x
    using that unfolding closure_of_def dep by (auto elim: rtranclE)
  then have "\<forall>x \<in> closure_of [''b''] (cat_rows sample_catalog). \<exists>a \<in> set (cat_rows sample_catalog). appl_id a = x \<and> appl_enabled a"
    using rows by auto
  with all dep show ?thesis by blast
qed

end
