(* ===== verification/Operational_Logs.thy ===== *)
theory Operational_Logs
  imports Job_Repository Py_Text Rbac Regex
begin

text \<open>
  The operational log (\<^verbatim>\<open>repositories/logs.py\<close>, \<^verbatim>\<open>schemas/logs.py\<close>, \<^verbatim>\<open>api/v1/logs.py\<close>): a filtered and paginated view of the steps of all
  jobs. The identifiers of the step rows and the identity of time zones are left out; rows that the \<^verbatim>\<open>ORDER BY\<close> leaves unordered stay in table
  order. The lemmas show that the severity filter and the reported severity agree, that the pages of a query list every matching step
  exactly once, and that callers without the administrator permission see nothing of the technical fields.
\<close>

section \<open>Text\<close>

text \<open>\<^verbatim>\<open>str.title\<close> and \<^verbatim>\<open>str.removeprefix\<close>.\<close>

fun title_from :: "bool \<Rightarrow> string \<Rightarrow> string" where
  "title_from inside [] = []"
| "title_from inside (c # cs) =
     (if is_lower_char c \<or> is_upper_char c then (if inside then lower_char c else upper_char c) # title_from True cs
      else c # title_from False cs)"

definition title_case :: "string \<Rightarrow> string" where
  "title_case s = title_from False s"

definition removeprefix :: "string \<Rightarrow> string \<Rightarrow> string" where
  "removeprefix s p = (if startswith s p then drop (length p) s else s)"

definition underscores_for :: "char \<Rightarrow> string \<Rightarrow> string" where
  "underscores_for c s = map (\<lambda>d. if d = c then CHR ''_'' else d) s"

text \<open>\<^verbatim>\<open>ILIKE\<close>: a null never matches.\<close>

definition ilike :: "string option \<Rightarrow> string \<Rightarrow> bool" where
  "ilike v pattern = (case v of None \<Rightarrow> False | Some s \<Rightarrow> sql_like (lower pattern) (lower s))"

definition around :: "string \<Rightarrow> string" where
  "around s = ''%'' @ s @ ''%''"

text \<open>\<^verbatim>\<open>OFFSET\<close> and \<^verbatim>\<open>LIMIT\<close>.\<close>

definition page_of :: "nat \<Rightarrow> nat \<Rightarrow> 'a list \<Rightarrow> 'a list" where
  "page_of page page_size xs = take page_size (drop ((page - 1) * page_size) xs)"

section \<open>Severity, message and details of a step\<close>

datatype LogSeverity = SEV_DEBUG | SEV_INFO | SEV_WARNING | SEV_ERROR | SEV_CRITICAL

definition LOGGABLE_STEP_STATUSES :: "StepStatus list" where
  "LOGGABLE_STEP_STATUSES = [S_RUNNING, S_SUCCEEDED, S_FAILED, S_SKIPPED, S_WARNING, S_NOT_APPLICABLE, S_CANCELLED]"

definition severity_for_status :: "StepStatus \<Rightarrow> LogSeverity" where
  "severity_for_status status =
     (if status = S_FAILED then SEV_ERROR
      else if status \<in> {S_CANCELLED, S_WARNING} then SEV_WARNING
      else if status \<in> {S_SKIPPED, S_NOT_APPLICABLE} then SEV_DEBUG
      else SEV_INFO)"

definition concise :: "string \<Rightarrow> nat \<Rightarrow> string" where
  "concise v limit =
     (let first_line = (case find (\<lambda>l. strip l \<noteq> []) (splitlines v) of None \<Rightarrow> [] | Some l \<Rightarrow> strip l);
          normalized = join_on '' '' (words first_line)
      in if length normalized \<le> limit then normalized
         else rstrip_chars is_space (take (limit - 3) normalized) @ ''...'')"

definition message_for_step :: "ProvisioningJobStep \<Rightarrow> string" where
  "message_for_step s =
     (if step_status s = S_FAILED \<and> truthy_text (error_human s) then concise (the (error_human s)) 240
      else if truthy_text (step_output s) then concise (the (step_output s)) 240
      else step_name s @ '': '' @ title_case (map (\<lambda>c. if c = CHR ''_'' then CHR '' '' else c) (step_status_value (step_status s))))"

definition details_for_step :: "ProvisioningJobStep \<Rightarrow> ProvisioningJob \<Rightarrow> bool \<Rightarrow> json_dict" where
  "details_for_step s j include_technical =
     [(''stage'', JStr (stage_key s)), (''status'', JStr (step_status_value (step_status s))), (''attempt'', JInt (int (attempt s)))]
     @ (if include_technical
        then [(''datacenter_id'', case job_datacenter_id j of None \<Rightarrow> JNull | Some d \<Rightarrow> JStr d), (''artifacts'', JObj (artifacts s))]
          @ (if truthy_text (error_technical s) then [(''technical_error'', JStr (the (error_technical s)))] else [])
        else [])"

section \<open>Search\<close>

record LogQuery =
  lq_page :: nat
  lq_page_size :: nat
  lq_severity :: "LogSeverity option"
  lq_component :: "string option"
  lq_datacenter :: "string option"
  lq_job_id :: "uuid option"
  lq_search :: "string option"
  lq_since :: "timestamp option"
  lq_until :: "timestamp option"

record LogEventOut =
  lo_timestamp :: timestamp
  lo_severity :: LogSeverity
  lo_component :: string
  lo_message :: string
  lo_resource_name :: string
  lo_datacenter_name :: "string option"
  lo_job_id :: uuid
  lo_details :: json_dict

definition step_time :: "ProvisioningJobStep \<times> ProvisioningJob \<Rightarrow> timestamp" where
  "step_time sj = (case step_finished_at (fst sj) of Some t \<Rightarrow> t
     | None \<Rightarrow> (case step_started_at (fst sj) of Some t \<Rightarrow> t | None \<Rightarrow> queued_at (snd sj)))"

fun severity_condition :: "LogSeverity option \<Rightarrow> StepStatus \<Rightarrow> bool" where
  "severity_condition None status = True"
| "severity_condition (Some SEV_ERROR) status = (status = S_FAILED)"
| "severity_condition (Some SEV_WARNING) status = (status \<in> {S_CANCELLED, S_WARNING})"
| "severity_condition (Some SEV_DEBUG) status = (status \<in> {S_SKIPPED, S_NOT_APPLICABLE})"
| "severity_condition (Some SEV_INFO) status = (status \<in> {S_RUNNING, S_SUCCEEDED})"
| "severity_condition (Some SEV_CRITICAL) status = False"

definition component_condition :: "string option \<Rightarrow> ProvisioningJobStep \<Rightarrow> bool" where
  "component_condition part s =
     (if truthy_text part
      then let key = strip (removeprefix (casefold (the part)) ''provisioning.'') in
           if key \<noteq> [] \<and> key \<noteq> ''provisioning'' then ilike (Some (stage_key s)) (around (underscores_for CHR '' '' key)) else True
      else True)"

definition datacenter_condition :: "string option \<Rightarrow> ProvisioningJob \<Rightarrow> bool" where
  "datacenter_condition dc j =
     (if truthy_text dc then ilike (job_datacenter_name j) (around (the dc)) \<or> job_datacenter_id j = dc else True)"

definition search_condition :: "string option \<Rightarrow> ProvisioningJobStep \<times> ProvisioningJob \<Rightarrow> bool" where
  "search_condition term sj =
     (if truthy_text term
      then ilike (Some (step_name (fst sj))) (around (the term)) \<or> ilike (step_output (fst sj)) (around (the term))
           \<or> ilike (error_human (fst sj)) (around (the term)) \<or> ilike (Some (job_vm_name (snd sj))) (around (the term))
      else True)"

definition log_conditions :: "LogQuery \<Rightarrow> ProvisioningJobStep \<times> ProvisioningJob \<Rightarrow> bool" where
  "log_conditions q sj \<longleftrightarrow>
     step_status (fst sj) \<in> set LOGGABLE_STEP_STATUSES \<and> severity_condition (lq_severity q) (step_status (fst sj))
     \<and> component_condition (lq_component q) (fst sj) \<and> datacenter_condition (lq_datacenter q) (snd sj)
     \<and> (case lq_job_id q of None \<Rightarrow> True | Some i \<Rightarrow> job_id (snd sj) = i)
     \<and> search_condition (lq_search q) sj
     \<and> (case lq_since q of None \<Rightarrow> True | Some t \<Rightarrow> t \<le> step_time sj)
     \<and> (case lq_until q of None \<Rightarrow> True | Some t \<Rightarrow> step_time sj \<le> t)"

definition log_event :: "bool \<Rightarrow> ProvisioningJobStep \<times> ProvisioningJob \<Rightarrow> LogEventOut" where
  "log_event include_technical sj =
     (case sj of (s, j) \<Rightarrow>
        \<lparr>lo_timestamp = step_time sj, lo_severity = severity_for_status (step_status s),
         lo_component = ''provisioning.'' @ stage_key s, lo_message = message_for_step s, lo_resource_name = job_vm_name j,
         lo_datacenter_name = job_datacenter_name j, lo_job_id = job_id j, lo_details = details_for_step s j include_technical\<rparr>)"

definition joined_steps :: "job_table \<Rightarrow> (ProvisioningJobStep \<times> ProvisioningJob) list" where
  "joined_steps tbl = concat (map (\<lambda>j. map (\<lambda>s. (s, j)) (steps j)) tbl)"

text \<open>Newest first; of one moment, the later step first.\<close>

definition matching_steps :: "LogQuery \<Rightarrow> job_table \<Rightarrow> (ProvisioningJobStep \<times> ProvisioningJob) list" where
  "matching_steps q tbl =
     sort_key (\<lambda>sj. - step_time sj) (sort_key (\<lambda>sj. - int (sequence (fst sj))) (filter (log_conditions q) (joined_steps tbl)))"

definition search_steps :: "LogQuery \<Rightarrow> bool \<Rightarrow> job_table \<Rightarrow> LogEventOut list \<times> nat" where
  "search_steps q include_technical tbl =
     (map (log_event include_technical) (page_of (lq_page q) (lq_page_size q) (matching_steps q tbl)), length (matching_steps q tbl))"

text \<open>The route: \<open>datacenter_id\<close> is the deprecated name of the \<open>datacenter\<close> filter.\<close>

definition search_logs :: "string list \<Rightarrow> string option \<Rightarrow> LogQuery \<Rightarrow> job_table \<Rightarrow> LogEventOut list \<times> nat" where
  "search_logs role_names datacenter_id q tbl =
     search_steps (q\<lparr>lq_datacenter := (if truthy_text (lq_datacenter q) then lq_datacenter q else datacenter_id)\<rparr>)
       (roles_grant role_names ADMIN_SETTINGS) tbl"

section \<open>Correctness\<close>

lemma mset_matching: "set (matching_steps q tbl) = {sj \<in> set (joined_steps tbl). log_conditions q sj}"
  by (auto simp: matching_steps_def)

lemma severity_condition_exact:
  "status \<in> set LOGGABLE_STEP_STATUSES \<Longrightarrow> severity_condition (Some sev) status \<longleftrightarrow> severity_for_status status = sev"
  by (cases sev; cases status) (simp_all add: LOGGABLE_STEP_STATUSES_def severity_for_status_def)

text \<open>Every event has the severity that was asked for, and the filter hides no step of that severity.\<close>

lemma severity_filter_exact:
  "set (matching_steps (q\<lparr>lq_severity := Some sev\<rparr>) tbl)
   = {sj \<in> set (matching_steps (q\<lparr>lq_severity := None\<rparr>) tbl). severity_for_status (step_status (fst sj)) = sev}"
  unfolding mset_matching log_conditions_def using severity_condition_exact by auto

lemma pages_concat:
  assumes "length xs \<le> n * k"
  shows "concat (map (\<lambda>p. page_of p k xs) [1..<Suc n]) = xs"
proof -
  have "concat (map (\<lambda>p. page_of p k xs) [1..<Suc m]) = take (m * k) xs" for m
    by (induction m) (auto simp: page_of_def take_add [symmetric] add.commute)
  then show ?thesis using assms by simp
qed

text \<open>The pages of a query, one after the other, list every matching step exactly once.\<close>

lemma log_pages_cover:
  assumes "snd (search_steps q t tbl) \<le> n * lq_page_size q"
  shows "concat (map (\<lambda>p. fst (search_steps (q\<lparr>lq_page := p\<rparr>) t tbl)) [1..<Suc n]) = map (log_event t) (matching_steps q tbl)"
proof -
  have "matching_steps (q\<lparr>lq_page := p\<rparr>) tbl = matching_steps q tbl" for p
    by (simp add: matching_steps_def log_conditions_def [abs_def])
  then have "concat (map (\<lambda>p. fst (search_steps (q\<lparr>lq_page := p\<rparr>) t tbl)) [1..<Suc n])
      = map (log_event t) (concat (map (\<lambda>p. page_of p (lq_page_size q) (matching_steps q tbl)) [1..<Suc n]))"
    by (simp add: search_steps_def map_concat comp_def)
  moreover have "length (matching_steps q tbl) \<le> n * lq_page_size q" using assms by (simp add: search_steps_def)
  ultimately show ?thesis by (simp only: pages_concat)
qed

section \<open>What callers without the administrator permission see\<close>

text \<open>Other technical contents of a job: another datacenter identifier, other artifacts and technical errors of its steps.\<close>

definition other_technical ::
  "(ProvisioningJob \<Rightarrow> string option) \<Rightarrow> (ProvisioningJobStep \<Rightarrow> json_dict \<times> string option) \<Rightarrow> ProvisioningJob \<Rightarrow> ProvisioningJob" where
  "other_technical dc f j =
     j\<lparr>job_datacenter_id := dc j, steps := map (\<lambda>s. s\<lparr>artifacts := fst (f s), error_technical := snd (f s)\<rparr>) (steps j)\<rparr>"

definition other_step ::
  "(ProvisioningJob \<Rightarrow> string option) \<Rightarrow> (ProvisioningJobStep \<Rightarrow> json_dict \<times> string option)
   \<Rightarrow> ProvisioningJobStep \<times> ProvisioningJob \<Rightarrow> ProvisioningJobStep \<times> ProvisioningJob" where
  "other_step dc f sj = ((fst sj)\<lparr>artifacts := fst (f (fst sj)), error_technical := snd (f (fst sj))\<rparr>, other_technical dc f (snd sj))"

lemma other_step_time [simp]: "step_time (other_step dc f sj) = step_time sj" "sequence (fst (other_step dc f sj)) = sequence (fst sj)"
  by (simp_all add: step_time_def other_step_def other_technical_def split: option.splits)

lemma joined_other: "joined_steps (map (other_technical dc f) tbl) = map (other_step dc f) (joined_steps tbl)"
  by (induction tbl) (simp_all add: joined_steps_def other_step_def other_technical_def)

lemma conditions_other:
  assumes "truthy_text (lq_datacenter q) \<longrightarrow> (\<forall>j. dc j = job_datacenter_id j)"
  shows "log_conditions q (other_step dc f sj) = log_conditions q sj"
proof -
  have "datacenter_condition (lq_datacenter q) (snd (other_step dc f sj)) = datacenter_condition (lq_datacenter q) (snd sj)"
    using assms by (simp add: datacenter_condition_def other_step_def other_technical_def)
  moreover have "component_condition c (fst (other_step dc f sj)) = component_condition c (fst sj)"
    "search_condition t (other_step dc f sj) = search_condition t sj"
    "step_status (fst (other_step dc f sj)) = step_status (fst sj)" "job_id (snd (other_step dc f sj)) = job_id (snd sj)" for c t
    by (simp_all add: component_condition_def search_condition_def other_step_def other_technical_def)
  ultimately show ?thesis by (simp add: log_conditions_def split: option.splits)
qed

lemma sort_key_map: "sort_key k (map f xs) = map f (sort_key (\<lambda>x. k (f x)) xs)"
proof -
  have "insort_key k (f x) (map f xs) = map f (insort_key (\<lambda>x. k (f x)) x xs)" for x xs
    by (induction xs) simp_all
  then show ?thesis by (induction xs) simp_all
qed

lemma matching_other:
  assumes "truthy_text (lq_datacenter q) \<longrightarrow> (\<forall>j. dc j = job_datacenter_id j)"
  shows "matching_steps q (map (other_technical dc f) tbl) = map (other_step dc f) (matching_steps q tbl)"
  by (simp add: matching_steps_def joined_other filter_map comp_def conditions_other [OF assms] sort_key_map)

lemma event_other: "log_event False (other_step dc f sj) = log_event False sj"
proof -
  have "step_time (fst (other_step dc f sj), snd (other_step dc f sj)) = step_time sj" by simp
  then show ?thesis
    by (cases sj) (simp add: log_event_def details_for_step_def message_for_step_def other_step_def other_technical_def)
qed

text \<open>
  C25. The log that a caller without the administrator permission gets does not depend on the technical fields of the steps, whatever the
  query, nor on the datacenter identifiers of the jobs unless the query itself names a datacenter.
\<close>

theorem technical_fields_hidden:
  assumes "\<not> roles_grant role_names ADMIN_SETTINGS"
    and "truthy_text (lq_datacenter q) \<or> truthy_text datacenter_id \<longrightarrow> (\<forall>j. dc j = job_datacenter_id j)"
  shows "search_logs role_names datacenter_id q (map (other_technical dc f) tbl) = search_logs role_names datacenter_id q tbl"
proof -
  let ?q = "q\<lparr>lq_datacenter := (if truthy_text (lq_datacenter q) then lq_datacenter q else datacenter_id)\<rparr>"
  have "truthy_text (lq_datacenter ?q) \<longrightarrow> (\<forall>j. dc j = job_datacenter_id j)" using assms(2) by auto
  from matching_other [OF this, of f tbl] assms(1) show ?thesis
    by (simp add: search_logs_def search_steps_def page_of_def take_map drop_map comp_def event_other)
qed

definition any_log :: LogQuery where
  "any_log = \<lparr>lq_page = 1, lq_page_size = 50, lq_severity = Some SEV_ERROR, lq_component = None, lq_datacenter = None, lq_job_id = None,
     lq_search = None, lq_since = None, lq_until = None\<rparr>"

definition failed_job :: ProvisioningJob where
  "failed_job = (new_job_row ''j-1'' ''SRV01'' 0)\<lparr>job_datacenter_id := Some ''dc-9'',
     steps := [(new_step_row ''join_domain'' ''Join domain'' 1 True)\<lparr>step_status := S_FAILED, error_human := Some ''The domain join failed.'',
        error_technical := Some ''0x52e'', artifacts := [(''attempts'', JInt 1)]\<rparr>]\<rparr>"

theorem technical_fields_hidden_witness:
  "search_logs [''operator''] None any_log [failed_job]
     = search_logs [''operator''] None any_log [other_technical (\<lambda>_. None) (\<lambda>_. ([], None)) failed_job]
   \<and> search_logs [''administrator''] None any_log [failed_job]
     \<noteq> search_logs [''administrator''] None any_log [other_technical (\<lambda>_. None) (\<lambda>_. ([], None)) failed_job]"
proof -
  have "\<not> roles_grant [''operator''] ADMIN_SETTINGS"
    by (simp add: ROLE_PERMISSIONS_def dict_get_def ROLE_OPERATOR_def ROLE_VIEWER_def)
  moreover have "roles_grant [''administrator''] ADMIN_SETTINGS"
    by (simp add: ROLE_PERMISSIONS_def dict_get_def ROLE_ADMINISTRATOR_def)
  ultimately show ?thesis
    using technical_fields_hidden [of "[''operator'']" any_log None "\<lambda>_. None" "\<lambda>_. ([], None)" "[failed_job]"]
    by (simp add: search_logs_def search_steps_def matching_steps_def joined_steps_def log_conditions_def LOGGABLE_STEP_STATUSES_def
        component_condition_def datacenter_condition_def search_condition_def any_log_def failed_job_def new_job_row_def new_step_row_def
        other_technical_def page_of_def log_event_def details_for_step_def truthy_text_def)
qed

end
