(* ===== verification/Audit_Queries.thy ===== *)
theory Audit_Queries
  imports Operational_Logs Audit_Trail
begin

text \<open>
  Searching the audit trail: \<^verbatim>\<open>repositories/audit.py\<close>, the labels of \<^verbatim>\<open>audit/actions.py\<close> and the route of \<^verbatim>\<open>api/v1/audit.py\<close>. A stored
  event is paired with its timestamp (a database default); the identifiers of events are left out. The lemmas show that a displayed action
  label finds exactly the events of its action, and that callers without the administrator permission see nothing under internal keys.
\<close>

section \<open>Actions and their labels\<close>

function runs_to_underscore :: "string \<Rightarrow> string" where
  "runs_to_underscore [] = []"
| "runs_to_underscore (c # cs) =
     (if is_alnum c then c # runs_to_underscore cs
      else CHR ''_'' # runs_to_underscore (dropWhile (\<lambda>d. \<not> is_alnum d) cs))"
  by pat_completeness auto
termination by (relation "measure length") (auto simp: le_imp_less_Suc length_dropWhile_le)

definition normalized_action_term :: "string \<Rightarrow> string" where
  "normalized_action_term v = upper (strip_chars (\<lambda>c. c = CHR ''_'') (runs_to_underscore (strip v)))"

definition AUDIT_ACTIONS :: "string list" where
  "AUDIT_ACTIONS = [''AUTH_LOGIN'', ''AUTH_LOGIN_FAILED'', ''AUTH_LOGOUT'', ''AUTH_REFRESH_REUSE_DETECTED'', ''PROVISIONING_REQUEST_CREATED'',
     ''PROVISIONING_REQUEST_REJECTED'', ''DRY_RUN_PERFORMED'', ''IP_CONFLICT_CHECK_PERFORMED'', ''JOB_STARTED'', ''JOB_STAGE_SUCCEEDED'',
     ''JOB_STAGE_FAILED'', ''JOB_COMPLETED'', ''JOB_PARTIALLY_COMPLETED'', ''JOB_FAILED'', ''JOB_CANCELLED'', ''JOB_INTERRUPTED'',
     ''JOB_STAGE_RETRIED'', ''VM_CREATED'', ''UNATTENDED_MEDIA_REMOVED'', ''NETWORK_MODIFIED'', ''CERTIFICATE_INSTALLED'',
     ''APPLICATION_INSTALLED'', ''VCENTER_CREATED'', ''VCENTER_UPDATED'', ''VCENTER_DELETED'', ''VCENTER_TESTED'',
     ''CERTIFICATE_PACKAGE_CREATED'', ''CERTIFICATE_PACKAGE_UPDATED'', ''CERTIFICATE_PACKAGE_DELETED'', ''CERTIFICATE_CREATED'',
     ''CERTIFICATE_UPDATED'', ''CERTIFICATE_DELETED'', ''APPLICATION_CREATED'', ''APPLICATION_UPDATED'', ''APPLICATION_DELETED'',
     ''CREDENTIAL_CREATED'', ''CREDENTIAL_UPDATED'', ''CREDENTIAL_DELETED'', ''SETTINGS_UPDATED'']"

definition ACRONYMS :: "(string, string) dict" where
  "ACRONYMS = [(''Ip'', ''IP''), (''Vm'', ''VM''), (''Vcenter'', ''vCenter'')]"

definition action_word :: "string \<Rightarrow> string" where
  "action_word w = dict_get ACRONYMS (title_case w) (title_case w)"

definition audit_action_label :: "string \<Rightarrow> string" where
  "audit_action_label action =
     join_on '' '' (map action_word (filter (\<lambda>w. w \<noteq> []) (split_on CHR ''_'' (underscores_for CHR ''.'' action))))"

section \<open>Search\<close>

record AuditQuery =
  aq_page :: nat
  aq_page_size :: nat
  aq_action :: "string option"
  aq_username :: "string option"
  aq_resource_type :: "string option"
  aq_result :: "string option"
  aq_datacenter :: "string option"
  aq_search :: "string option"
  aq_job_id :: "uuid option"
  aq_since :: "timestamp option"
  aq_until :: "timestamp option"

type_synonym audit_row = "timestamp \<times> AuditEvent"

text \<open>The outer join with the job, and \<^verbatim>\<open>coalesce\<close> of the datacenter names.\<close>

definition event_job :: "job_table \<Rightarrow> AuditEvent \<Rightarrow> ProvisioningJob option" where
  "event_job tbl e = (case ev_job_id e of None \<Rightarrow> None | Some i \<Rightarrow> find (\<lambda>j. job_id j = i) tbl)"

definition resolved_datacenter_name :: "job_table \<Rightarrow> AuditEvent \<Rightarrow> string option" where
  "resolved_datacenter_name tbl e =
     (case ev_datacenter_name e of
        Some n \<Rightarrow> Some n
      | None \<Rightarrow> (case event_job tbl e of None \<Rightarrow> None | Some j \<Rightarrow> job_datacenter_name j))"

definition audit_search_terms :: "string \<Rightarrow> AuditEvent \<Rightarrow> bool" where
  "audit_search_terms term e \<longleftrightarrow>
     list_ex (\<lambda>v. ilike v (around term)) [Some (ev_action e), ev_username e, ev_resource_type e, ev_resource_name e, ev_detail_text e]
     \<or> (normalized_action_term term \<noteq> [] \<and> ilike (Some (ev_action e)) (around (normalized_action_term term)))"

definition audit_filters :: "job_table \<Rightarrow> AuditQuery \<Rightarrow> audit_row \<Rightarrow> bool" where
  "audit_filters tbl q row \<longleftrightarrow>
     (let e = snd row in
      (truthy_text (aq_username q) \<longrightarrow> ilike (ev_username e) (around (the (aq_username q))))
      \<and> (truthy_text (aq_resource_type q) \<longrightarrow> ev_resource_type e = aq_resource_type q)
      \<and> (truthy_text (aq_result q) \<longrightarrow> ev_result e = aq_result q)
      \<and> (truthy_text (aq_datacenter q) \<longrightarrow>
           ilike (resolved_datacenter_name tbl e) (around (the (aq_datacenter q))) \<or> ev_datacenter_id e = aq_datacenter q
           \<or> (case event_job tbl e of None \<Rightarrow> False | Some j \<Rightarrow> job_datacenter_id j = aq_datacenter q))
      \<and> (truthy_text (aq_search q) \<longrightarrow> audit_search_terms (the (aq_search q)) e)
      \<and> (case aq_job_id q of None \<Rightarrow> True | Some i \<Rightarrow> ev_job_id e = Some i)
      \<and> (case aq_since q of None \<Rightarrow> True | Some t \<Rightarrow> t \<le> fst row)
      \<and> (case aq_until q of None \<Rightarrow> True | Some t \<Rightarrow> fst row \<le> t))"

definition audit_conditions :: "job_table \<Rightarrow> AuditQuery \<Rightarrow> audit_row \<Rightarrow> bool" where
  "audit_conditions tbl q row \<longleftrightarrow>
     (truthy_text (aq_action q) \<longrightarrow> ev_action (snd row) = normalized_action_term (the (aq_action q))) \<and> audit_filters tbl q row"

definition audit_search :: "job_table \<Rightarrow> AuditQuery \<Rightarrow> audit_row list \<Rightarrow> (audit_row \<times> string option) list \<times> nat" where
  "audit_search tbl q trail =
     (let rows = filter (audit_conditions tbl q) trail
      in (map (\<lambda>row. (row, resolved_datacenter_name tbl (snd row)))
            (page_of (aq_page q) (aq_page_size q) (sort_key (\<lambda>row. - fst row) rows)), length rows))"

section \<open>The response\<close>

definition INTERNAL_DETAIL_KEYS :: "string list" where
  "INTERNAL_DETAIL_KEYS = [''id'', ''artifacts'', ''technical_error'', ''technical_detail'']"

definition internal_key :: "string \<Rightarrow> bool" where
  "internal_key key \<longleftrightarrow> lower key \<in> set INTERNAL_DETAIL_KEYS \<or> endswith (lower key) ''_id'' \<or> endswith (lower key) ''_ids''"

fun public_details :: "json \<Rightarrow> json" where
  "public_details (JObj kvs) =
     JObj (map (\<lambda>kv. (fst kv, public_details (snd kv))) (filter (\<lambda>kv. \<not> internal_key (fst kv)) kvs))"
| "public_details (JList xs) = JList (map public_details xs)"
| "public_details v = v"

record AuditEventOut =
  ao_timestamp :: timestamp
  ao_user_id :: "uuid option"
  ao_username :: "string option"
  ao_action :: string
  ao_action_label :: string
  ao_resource_type :: "string option"
  ao_resource_name :: "string option"
  ao_job_id :: "uuid option"
  ao_datacenter_id :: "string option"
  ao_datacenter_name :: "string option"
  ao_result :: "string option"
  ao_source_ip :: "string option"
  ao_details :: json
  ao_detail_text :: "string option"

definition audit_out :: "bool \<Rightarrow> audit_row \<times> string option \<Rightarrow> AuditEventOut" where
  "audit_out include_technical r =
     (let e = snd (fst r) in
      \<lparr>ao_timestamp = fst (fst r), ao_user_id = ev_user_id e, ao_username = ev_username e, ao_action = ev_action e,
       ao_action_label = audit_action_label (ev_action e), ao_resource_type = ev_resource_type e,
       ao_resource_name = ev_resource_name e, ao_job_id = ev_job_id e, ao_datacenter_id = ev_datacenter_id e,
       ao_datacenter_name = snd r, ao_result = ev_result e, ao_source_ip = ev_source_ip e,
       ao_details = (if include_technical then JObj (ev_details e) else public_details (JObj (ev_details e))),
       ao_detail_text = ev_detail_text e\<rparr>)"

definition search_audit ::
  "string list \<Rightarrow> string option \<Rightarrow> job_table \<Rightarrow> AuditQuery \<Rightarrow> audit_row list \<Rightarrow> AuditEventOut list \<times> nat" where
  "search_audit role_names datacenter_id tbl q trail =
     (case audit_search tbl (q\<lparr>aq_datacenter := (if truthy_text (aq_datacenter q) then aq_datacenter q else datacenter_id)\<rparr>) trail of
        (rows, found) \<Rightarrow> (map (audit_out (roles_grant role_names ADMIN_SETTINGS)) rows, found))"

section \<open>Labels find their action\<close>

definition canonical_action :: "string \<Rightarrow> bool" where
  "canonical_action a \<longleftrightarrow> list_all (\<lambda>w. w \<noteq> [] \<and> list_all (\<lambda>c. is_alnum c \<and> upper_char c = c) w) (split_on CHR ''_'' a)"

lemma actions_canonical: "list_all canonical_action AUDIT_ACTIONS"
  by code_simp

lemma upper_char_simps [simp]: "upper_char (upper_char c) = upper_char c" "upper_char (lower_char c) = upper_char c"
  by (auto simp: upper_char_def lower_char_def Let_def)

lemma upper_title: "upper (title_from b s) = upper s"
  by (induction b s rule: title_from.induct) (auto simp: upper_def)

lemma alnum_title: "list_all is_alnum (title_from b s) = list_all is_alnum s"
proof (induction b s rule: title_from.induct)
  case (2 b c cs)
  have "is_alnum (lower_char c) = is_alnum c" "is_alnum (upper_char c) = is_alnum c"
    by (auto simp: is_alnum_def is_digit_def is_lower_char_def is_upper_char_def lower_char_def upper_char_def Let_def)
  with 2 show ?case by auto
qed simp

lemma length_title [simp]: "length (title_from b s) = length s"
  by (induction b s rule: title_from.induct) auto

lemma action_word:
  assumes "list_all is_alnum w" and "w \<noteq> []"
  shows "upper (action_word w) = upper w" and "list_all is_alnum (action_word w)" and "action_word w \<noteq> []"
proof -
  have t: "upper (title_case w) = upper w" "list_all is_alnum (title_case w)" "title_case w \<noteq> []"
    using assms upper_title alnum_title length_title [of False w] by (auto simp: title_case_def simp del: length_title)
  have acronyms: "list_all (\<lambda>(a, b). upper b = upper a \<and> list_all is_alnum b \<and> b \<noteq> []) ACRONYMS" by code_simp
  have "action_word w = title_case w \<or> (title_case w, action_word w) \<in> set ACRONYMS"
    by (auto simp: action_word_def dict_get_def dest: map_of_SomeD split: option.splits)
  then have "upper (action_word w) = upper (title_case w) \<and> list_all is_alnum (action_word w) \<and> action_word w \<noteq> []"
    using t(2,3) acronyms by (auto simp: list_all_iff [of _ ACRONYMS])
  then show "upper (action_word w) = upper w" "list_all is_alnum (action_word w)" "action_word w \<noteq> []"
    using t(1) by simp_all
qed

lemma runs_word: "list_all is_alnum w \<Longrightarrow> runs_to_underscore (w @ s) = w @ runs_to_underscore s"
  by (induction w) auto

lemma runs_join:
  "list_all (\<lambda>w. w \<noteq> [] \<and> list_all is_alnum w) ws \<Longrightarrow> runs_to_underscore (join_on '' '' ws) = join_on ''_'' ws"
proof (induction "'' ''" ws rule: join_on.induct)
  case (2 w)
  then show ?case using runs_word [of w "[]"] by simp
next
  case (3 w v ws)
  have "\<not> is_alnum CHR '' ''" by code_simp
  moreover obtain c cs where v: "join_on '' '' (v # ws) = c # cs" "is_alnum c"
    using 3 by (cases v; cases ws) auto
  ultimately show ?case using 3 by (simp add: runs_word)
qed simp

lemma strip_chars_ends: "s \<noteq> [] \<Longrightarrow> \<not> P (hd s) \<Longrightarrow> \<not> P (last s) \<Longrightarrow> strip_chars P s = s"
proof -
  assume s: "s \<noteq> []" "\<not> P (hd s)" "\<not> P (last s)"
  then have "dropWhile P s = s" by (cases s) auto
  moreover have "dropWhile P (rev s) = rev s" using s by (cases s rule: rev_cases) auto
  ultimately show ?thesis by (simp add: strip_chars_def lstrip_chars_def rstrip_chars_def)
qed

lemma join_on_ends:
  assumes "ws \<noteq> []" and "list_all (\<lambda>w. w \<noteq> [] \<and> list_all is_alnum w) ws"
  shows "join_on sep ws \<noteq> [] \<and> is_alnum (hd (join_on sep ws)) \<and> is_alnum (last (join_on sep ws))"
  using assms
proof (induction sep ws rule: join_on.induct)
  case (2 sep w)
  then show ?case by (auto simp: list_all_iff)
next
  case (3 sep w v ws)
  then have "is_alnum (hd w)" by (auto simp: list_all_iff)
  with 3 show ?case by auto
qed simp

lemma upper_join: "upper (join_on ''_'' ws) = join_on ''_'' (map upper ws)"
proof (induction "''_''" ws rule: join_on.induct)
  case (3 w v ws)
  moreover have "upper ''_'' = ''_''" by code_simp
  ultimately show ?case by (simp add: upper_def)
qed (simp_all add: upper_def)

lemma label_normalizes:
  assumes "canonical_action a"
  shows "normalized_action_term (audit_action_label a) = a"
proof -
  define ws where "ws = split_on CHR ''_'' a"
  define vs where "vs = map action_word ws"
  have ws: "w \<noteq> []" "list_all is_alnum w" "upper w = w" if "w \<in> set ws" for w
    using assms that by (auto simp: canonical_action_def ws_def list_all_iff upper_def intro: map_idI)
  have a: "a = join_on ''_'' ws" by (simp add: ws_def join_split)
  have "CHR ''.'' \<notin> set a"
  proof
    assume "CHR ''.'' \<in> set a"
    have "set (join_on ''_'' us) \<subseteq> insert CHR ''_'' (\<Union> (set ` set us))" for us
      by (induction "''_''" us rule: join_on.induct) auto
    with \<open>CHR ''.'' \<in> set a\<close> obtain w where "w \<in> set ws" "CHR ''.'' \<in> set w" unfolding a by fastforce
    then have "is_alnum CHR ''.''" using ws by (auto simp: list_all_iff)
    moreover have "\<not> is_alnum CHR ''.''" by code_simp
    ultimately show False by simp
  qed
  then have "underscores_for CHR ''.'' a = a" by (auto simp: underscores_for_def intro!: map_idI)
  moreover have "filter (\<lambda>w. w \<noteq> []) ws = ws" using ws by (auto simp: filter_id_conv)
  ultimately have label: "audit_action_label a = join_on '' '' vs" by (simp add: audit_action_label_def vs_def ws_def)
  have "upper (action_word w) = w \<and> action_word w \<noteq> [] \<and> list_all is_alnum (action_word w)" if "w \<in> set ws" for w
    using action_word [OF ws(2) [OF that] ws(1) [OF that]] ws(3) [OF that] by simp
  then have vs: "vs \<noteq> []" "list_all (\<lambda>w. w \<noteq> [] \<and> list_all is_alnum w) vs" "map upper vs = ws"
    by (auto simp: vs_def list_all_iff [of "\<lambda>w. w \<noteq> [] \<and> list_all is_alnum w"] ws_def intro: map_idI)
  have n: "\<not> is_space c" "c \<noteq> CHR ''_''" if "is_alnum c" for c
    using that by (auto simp: is_alnum_def is_digit_def is_lower_char_def is_upper_char_def is_space_def Let_def)
  have "strip (join_on '' '' vs) = join_on '' '' vs" using join_on_ends [OF vs(1,2)] n by (intro strip_chars_ends) auto
  moreover have "strip_chars (\<lambda>c. c = CHR ''_'') (join_on ''_'' vs) = join_on ''_'' vs"
    using join_on_ends [OF vs(1,2)] n by (intro strip_chars_ends) auto
  ultimately show ?thesis using vs(2,3) by (simp add: normalized_action_term_def label runs_join upper_join a [symmetric])
qed

text \<open>
  C26. The display label of a canonical action, used as the action filter of a search, finds exactly the events of that action among those
  that the other filters select: labels and filters go both ways. Every action of the program is canonical.
\<close>

theorem action_label_roundtrip:
  assumes "canonical_action a" and "a \<noteq> []"
  shows "normalized_action_term (audit_action_label a) = a
    \<and> (audit_conditions tbl (q\<lparr>aq_action := Some (audit_action_label a)\<rparr>) row
         \<longleftrightarrow> audit_conditions tbl (q\<lparr>aq_action := None\<rparr>) row \<and> ev_action (snd row) = a)"
proof -
  note label = label_normalizes [OF assms(1)]
  have "normalized_action_term [] = []" by code_simp
  with label assms(2) have "audit_action_label a \<noteq> []" by metis
  moreover have "audit_filters tbl (q\<lparr>aq_action := x\<rparr>) row = audit_filters tbl q row" for x
    by (simp add: audit_filters_def Let_def split: option.splits)
  ultimately show ?thesis by (auto simp: audit_conditions_def label truthy_text_def)
qed

theorem action_label_roundtrip_witness:
  "canonical_action ''IP_CONFLICT_CHECK_PERFORMED''
   \<and> normalized_action_term ''IP Conflict Check Performed'' = ''IP_CONFLICT_CHECK_PERFORMED''"
proof -
  have "canonical_action ''IP_CONFLICT_CHECK_PERFORMED''" using actions_canonical by (simp add: AUDIT_ACTIONS_def)
  moreover have "audit_action_label ''IP_CONFLICT_CHECK_PERFORMED'' = ''IP Conflict Check Performed''" by code_simp
  ultimately show ?thesis using action_label_roundtrip [of "''IP_CONFLICT_CHECK_PERFORMED''"] by fastforce
qed

section \<open>What callers without the administrator permission see\<close>

text \<open>Replace what stands under internal keys, at any depth.\<close>

fun swap_internal :: "(string \<Rightarrow> json \<Rightarrow> json) \<Rightarrow> json \<Rightarrow> json" where
  "swap_internal f (JObj kvs) =
     JObj (map (\<lambda>kv. (fst kv, if internal_key (fst kv) then f (fst kv) (snd kv) else swap_internal f (snd kv))) kvs)"
| "swap_internal f (JList xs) = JList (map (swap_internal f) xs)"
| "swap_internal f v = v"

definition other_internal :: "(string \<Rightarrow> json \<Rightarrow> json) \<Rightarrow> audit_row \<Rightarrow> audit_row" where
  "other_internal f row =
     (fst row, (snd row)\<lparr>ev_details := (case swap_internal f (JObj (ev_details (snd row))) of JObj d \<Rightarrow> d | _ \<Rightarrow> [])\<rparr>)"

lemma public_details_swap: "public_details (swap_internal f v) = public_details v"
proof (induction f v rule: swap_internal.induct)
  case (1 f kvs)
  then have "map (\<lambda>kv. (fst kv, public_details (swap_internal f (snd kv)))) (filter (\<lambda>kv. \<not> internal_key (fst kv)) kvs)
      = map (\<lambda>kv. (fst kv, public_details (snd kv))) (filter (\<lambda>kv. \<not> internal_key (fst kv)) kvs)" by auto
  moreover have "map (\<lambda>kv. (fst kv, public_details (snd kv))) (filter (\<lambda>kv. \<not> internal_key (fst kv))
        (map (\<lambda>kv. (fst kv, if internal_key (fst kv) then f (fst kv) (snd kv) else swap_internal f (snd kv))) kvs))
      = map (\<lambda>kv. (fst kv, public_details (swap_internal f (snd kv)))) (filter (\<lambda>kv. \<not> internal_key (fst kv)) kvs)"
    by (simp add: filter_map comp_def)
  ultimately show ?case by simp
qed auto

lemma other_internal_simps [simp]:
  "fst (other_internal f row) = fst row" "ev_action (snd (other_internal f row)) = ev_action (snd row)"
  "ev_username (snd (other_internal f row)) = ev_username (snd row)" "ev_resource_type (snd (other_internal f row)) = ev_resource_type (snd row)"
  "ev_resource_name (snd (other_internal f row)) = ev_resource_name (snd row)" "ev_result (snd (other_internal f row)) = ev_result (snd row)"
  "ev_detail_text (snd (other_internal f row)) = ev_detail_text (snd row)" "ev_job_id (snd (other_internal f row)) = ev_job_id (snd row)"
  "ev_datacenter_id (snd (other_internal f row)) = ev_datacenter_id (snd row)"
  "ev_datacenter_name (snd (other_internal f row)) = ev_datacenter_name (snd row)"
  "ev_user_id (snd (other_internal f row)) = ev_user_id (snd row)" "ev_source_ip (snd (other_internal f row)) = ev_source_ip (snd row)"
  "public_details (JObj (ev_details (snd (other_internal f row)))) = public_details (JObj (ev_details (snd row)))"
  using public_details_swap [of f "JObj (ev_details (snd row))"] by (simp_all add: other_internal_def)

lemma event_job_other [simp]: "event_job tbl (snd (other_internal f row)) = event_job tbl (snd row)"
  by (simp add: event_job_def)

lemma resolved_other [simp]: "resolved_datacenter_name tbl (snd (other_internal f row)) = resolved_datacenter_name tbl (snd row)"
  by (cases "ev_datacenter_name (snd row)") (simp_all add: resolved_datacenter_name_def)

lemma audit_conditions_other [simp]: "audit_conditions tbl q (other_internal f row) = audit_conditions tbl q row"
  by (simp add: audit_conditions_def audit_filters_def audit_search_terms_def Let_def cong: option.case_cong)

text \<open>
  The audit search of a caller without the administrator permission does not depend on what any event holds under internal keys of its
  details, at any depth.
\<close>

theorem internal_details_hidden:
  assumes "\<not> roles_grant role_names ADMIN_SETTINGS"
  shows "search_audit role_names datacenter_id tbl q (map (other_internal f) trail) = search_audit role_names datacenter_id tbl q trail"
proof -
  have "audit_out False (other_internal f row, n) = audit_out False (row, n)" for row n by (simp add: audit_out_def Let_def del: public_details.simps)
  then show ?thesis using assms
    by (simp add: search_audit_def audit_search_def Let_def filter_map comp_def sort_key_map page_of_def take_map drop_map)
qed

end
