(* ===== verification/Spec2Isabelle.thy ===== *)
theory Spec2Isabelle
  imports Metrics Settings_Store Ipv4 Installer_Paths Worker_Engine App_Installer Auth_Sessions Stream_Tickets Certificates Preflight Vcenter_Sim Secret_Store Catalog_Admin Audit_Queries
begin

text \<open>
  InfraOps (\<^verbatim>\<open>src/backend/app\<close>) provisions Windows virtual machines on vCenter. An HTTP API accepts provisioning requests, checks
  them and queues jobs in a database table; workers claim jobs, run each through a fixed sequence of stages against vCenter and
  the guest, and record progress, events, audit rows, notifications and metrics. This development is a shallow embedding of the
  program's own logic: each definition translates the function, class or code block that it is named after, and the theorems state
  what makes it correct.

  \<^bold>\<open>Conventions.\<close> A Python object is a record with the attributes as fields, a database table the list of its rows, a dictionary
  an association list in insertion order, JSON a datatype. Python's unbounded integers are \<open>int\<close> (\<open>nat\<close> where the schema excludes
  negative values), IPv4 addresses 32-bit words, floats the rational number they hold with every inexact operation rounded to the nearest
  double (\<^verbatim>\<open>Py_Float\<close>). An exception is the left summand of a sum, with the error class of the source where the program raises it and
  the name of Python's exception where the interpreter does. Text is a list of 8-bit characters; the check marks, arrows and dashes of
  some messages are written in ASCII. Time, random tokens and the outside world are inputs: \<open>clock\<close> and token streams are
  indexed by the number of values already drawn, and calls into the outside world thread a world of arbitrary type.

  \<^bold>\<open>Foundations.\<close>
  \<^item> \<^verbatim>\<open>Infra_Prelude\<close>, \<^verbatim>\<open>Py_Float\<close>, \<^verbatim>\<open>Py_Text\<close>, \<^verbatim>\<open>Regex\<close>, \<^verbatim>\<open>Json_Text\<close>, \<^verbatim>\<open>Json_Parse\<close>: the parts of Python and its standard library
    that the sources use: dictionaries, string methods, \<^verbatim>\<open>repr\<close>, \<^verbatim>\<open>re.fullmatch\<close> by derivatives (with an inductive meaning),
    float arithmetic, \<^verbatim>\<open>json.dumps\<close> and \<^verbatim>\<open>json.loads\<close> with their round trip.
  \<^item> \<^verbatim>\<open>Indexed_Table\<close>: the locale of a table with a primary key and unique indexes, interpreted for the job table
    (\<^verbatim>\<open>Job_Repository\<close>) and the refresh token table (\<^verbatim>\<open>Auth_Sessions\<close>). \<^verbatim>\<open>Vcenter_Contract\<close>: the locale \<open>vcenter\<close> of the calls that
    create a virtual machine, with the laws the stage relies on, interpreted for the simulated vCenter.

  \<^bold>\<open>Jobs and workers.\<close>
  \<^item> \<^verbatim>\<open>Job_Model\<close> (\<^verbatim>\<open>models/jobs.py\<close>, \<^verbatim>\<open>workers/state_machine.py\<close>) and \<^verbatim>\<open>Job_Repository\<close> (\<^verbatim>\<open>repositories/jobs.py\<close>): rows, status
    enumerations, the registry of stages, and every operation on the table; claiming is exact, and concurrent claims are
    disjoint.
  \<^item> \<^verbatim>\<open>Settings_Store\<close>, \<^verbatim>\<open>Metrics\<close>, \<^verbatim>\<open>Audit_Trail\<close>, \<^verbatim>\<open>Notifications\<close>, \<^verbatim>\<open>Run_Context\<close>: what a run reads and records. A stored audit row is
    independent of values under sensitive keys.
  \<^item> \<^verbatim>\<open>Operational_Logs\<close> (\<^verbatim>\<open>repositories/logs.py\<close>) and \<^verbatim>\<open>Audit_Queries\<close> (\<^verbatim>\<open>repositories/audit.py\<close>): the filtered and paginated views of
    steps and audit events; SQL is a filter of the rows. Pages list every match once, labels find their action, and technical contents
    stay hidden from callers without the administrator permission.
  \<^item> \<^verbatim>\<open>Pipeline\<close> (\<^verbatim>\<open>workers/pipeline.py\<close>): the stage loop with resume, failure, cancellation and completion, with the handlers as
    parameters. Every run ends in a terminal status, finished stages are never repeated, and a run that stops in front of a stage releases
    the answer media that its job holds then and that no marker declares removed.
  \<^item> \<^verbatim>\<open>Worker_Engine\<close> (\<^verbatim>\<open>workers/engine.py\<close>): slots, claiming, execution, shutdown and the reaper. \<open>sys_step\<close> is one committed transaction of
    the API or of a worker; a run is the chain of its commits (\<open>execute_chain\<close>), which may interleave with all others and rest on outdated
    rows (\<open>commit_row\<close> writes the changed columns only). Every reachable table is consistent, except that what queues a job again
    must see the row it changes: \<open>stale_retry_keeps_owner\<close> is the defect of the other case.

  \<^bold>\<open>Requests.\<close>
  \<^item> \<^verbatim>\<open>Ipv4\<close>, \<^verbatim>\<open>Request_Schema\<close>, \<^verbatim>\<open>Installer_Paths\<close>, \<^verbatim>\<open>Dependency_Resolver\<close>, \<^verbatim>\<open>Storage_Placement\<close>, \<^verbatim>\<open>Ip_Conflict\<close>, \<^verbatim>\<open>Windows_Media\<close>: validation
    of static IPv4 settings, of the request models and of installer paths, the installation order, placement and address conflicts; each
    decision procedure is proved exact against a declarative specification.
  \<^item> \<^verbatim>\<open>Preflight\<close> (\<^verbatim>\<open>services/provisioning/preflight.py\<close>) refines the specification \<open>provisionable\<close>; \<^verbatim>\<open>Provisioning_Service\<close>
    (\<^verbatim>\<open>services/provisioning/service.py\<close>): submission with idempotent replay, retry and cancellation.
  \<^item> \<^verbatim>\<open>Catalog_Admin\<close> (\<^verbatim>\<open>api/v1/admin_applications.py\<close>): the edits of the application catalog; every catalog reachable by them (one edit after the
    other) has a sound dependency graph.
  \<^item> \<^verbatim>\<open>Rbac\<close>, \<^verbatim>\<open>Rate_Limit\<close>, \<^verbatim>\<open>Auth_Sessions\<close>, \<^verbatim>\<open>Stream_Tickets\<close>: permissions, the login limiter, passwords, tokens and rotation of refresh
    tokens as a state machine (\<open>session_step\<close>, one request after the other: the waits for row locks of concurrent requests are not
    represented), and single-use stream tickets.
  \<^item> \<^verbatim>\<open>Secret_Store\<close> (\<^verbatim>\<open>secrets/\<close>): key roots, encryption, resolution and re-encryption of stored credentials, with \<^verbatim>\<open>MultiFernet\<close> as a parameter;
    rotation keeps every credential.

  \<^bold>\<open>Provisioning stages\<close> (\<^verbatim>\<open>workers/stages.py\<close> and the services it calls).
  \<^item> \<^verbatim>\<open>Guest_Scripts\<close>, \<^verbatim>\<open>Detection_Rules\<close>, \<^verbatim>\<open>App_Installer\<close>, \<^verbatim>\<open>Certificates\<close>, \<^verbatim>\<open>Stage_Scripts\<close>: what runs inside Windows. A value enters a
    script as a literal, which PowerShell reads back exactly when it has no typographic single quote; a deletion is requested for every
    uploaded file; and the readers of script output are exact.
  \<^item> \<^verbatim>\<open>Windows_Unattend\<close>, \<^verbatim>\<open>Answer_Iso\<close>: the answer file and its ISO image, which a reader of the Joliet tree reads back byte for byte.
  \<^item> \<^verbatim>\<open>Stage_Base\<close>: stages as computations on the run context that may raise and may not return (\<open>'w JobRunContext \<Rightarrow> (error + 'a) \<times>
    'w JobRunContext\<close>, optional), with the frame property \<open>keeps\<close> (step statuses and the columns \<open>controls\<close> of the job are left alone) closed under every
    combinator. \<^verbatim>\<open>Stages_Create\<close>, \<^verbatim>\<open>Stages_Setup\<close>, \<^verbatim>\<open>Stages_Guest\<close>, \<^verbatim>\<open>Stages_Apps\<close>, \<^verbatim>\<open>Stage_Handlers\<close>: every handler, in the order of
    the file, and \<open>STAGE_HANDLERS\<close>. Below, the pipeline is composed with these handlers.
  \<^item> \<^verbatim>\<open>Vcenter_Sim\<close> (\<^verbatim>\<open>services/vmware/mock.py\<close>): the simulated vCenter, call by call, with its clock that moves exactly while it sleeps and
    without the attributes of results that no caller reads. The stages run against it: a crash after the creation of a machine is survived, and
    an installation completes.

  \<^bold>\<open>Termination, bounds and fuel.\<close> The polling loops of the stages are one \<open>partial_function (option)\<close>, \<open>loop\<close>, whose value is
  \<open>None\<close> when the loop runs forever; \<open>loop_ends\<close> shows that it returns when every round moves the clock by a fixed amount
  towards a deadline, and the termination properties rest on it. The dependency search has one unit of fuel per catalog entry, the topological
  sort one per required application; \<open>resolve_install_order_correct\<close> shows that this suffices. (The interpreter's own
  recursion limit, which chains of many hundred applications would reach, is not modelled.) The JSON reader has as much fuel as its text is long, and every value consumes a character. All other recursions are
  structural or have a measure.

  \<^bold>\<open>Parameters.\<close> The calls of the vSphere adapter and of the guest adapter, \<^verbatim>\<open>MultiFernet\<close>, scrypt and the JWT library, Redis, ping
  and the name resolver, the PostgreSQL session, the clocks and the random number generator. Hypotheses on them state documented
  behaviour (time advances while sleeping, an interrupted handler leaves step statuses alone) and have witnesses.

  \<^bold>\<open>Not modelled.\<close> The pyVmomi calls of \<^verbatim>\<open>services/vmware/vsphere.py\<close> and the HTTP file transfer of \<^verbatim>\<open>services/guest/vmware_tools.py\<close>
  (their meaning is that of third-party libraries), the guest simulator, database
  sessions and roles, FastAPI routing and most response models, process start-up, and log output.
\<close>

section \<open>Submission and preflight\<close>

lemma created_was_ready:
  assumes "preflight env = Some v" and "submit_provisioning env u r key ip s = (Inr (j, True), s')"
  shows "report_ready (v r)"
  using assms(2)
proof (cases rule: submit_cases)
  case insert
  with assms(1) show ?thesis by blast
qed simp_all

text \<open>
  C29. A submission that runs the preflight creates a job only when every condition of the preflight holds for the request: the
  vCenter, the inventory objects, storage, media, name, address, packages, applications and secrets.
\<close>

theorem queued_request_was_provisionable:
  assumes "validate penv r True = Some rep" and "preflight env = Some v" and "v r = rep"
    and "submit_provisioning env u r key ip s = (Inr (j, True), s')"
  shows "provisionable penv r True"
  using created_was_ready [OF assms(2,4)] validate_cases [of penv r True] assms(1,3) by simp

theorem queued_request_was_provisionable_witness:
  "let sub = submit_provisioning (sample_submit (Some (\<lambda>r. the (validate sample_env r True)))) None sample_request None None empty_api
   in (\<exists>j. fst sub = Inr (j, True)) \<and> provisionable sample_env sample_request True"
proof -
  let ?v = "\<lambda>r. the (validate sample_env r True)"
  let ?sub = "submit_provisioning (sample_submit (Some ?v)) None sample_request None None empty_api"
  obtain rep where rep: "validate sample_env sample_request True = Some rep" "report_ready rep" using sample_env_ready by blast
  have v2: "identity_policy_version sample_request = V2" "reserved_ipv4_for sample_request = None"
    by (simp_all add: sample_request_def reserved_ipv4_for_def)
  have "\<exists>j. fst ?sub = Inr (j, True)"
    by (simp add: submit_provisioning_def insert_request_def create_job_def insert_row_def sample_submit_def empty_api_def
        Let_def v2 find_by_idempotency_key_def has_active_job_for_vm_def has_ipv4_reservation_def rep)
  moreover obtain j s' where "?sub = (Inr (j, True), s')" using calculation by (metis prod.collapse)
  ultimately show ?thesis
    using queued_request_was_provisionable [OF rep(1), of "sample_submit (Some ?v)" ?v None None None empty_api j s'] rep(1)
    by (simp add: sample_submit_def)
qed

section \<open>A completed job\<close>

lemma handlers_registered: "stg \<in> set ORDERED_STAGES \<Longrightarrow> map_of (STAGE_HANDLERS env) (sd_key stg) \<noteq> None"
  by (auto simp add: ORDERED_STAGES_def stage_def STAGE_HANDLERS_def)

lemma timed_handler_returned: "timed_handler overrun key m t c1 = (Returned out, c2) \<Longrightarrow> m c1 = Some (Inr out, c2)"
  by (auto simp: timed_handler_def split: option.splits prod.splits sum.splits guest_error.splits)

text \<open>
  C8. Every stage of the registry has a handler. When the pipeline, run with the handlers of the repository, completes a job that
  nobody cancelled in the middle of a stage, every stage is settled, and every stage that still had to run was entered by
  this run, and its handler, started in the context of that moment, returned the outcome whose status the step now has;
  the final validation in particular accepted the machine. The hypotheses say that a handler interrupted by its
  time limit leaves the statuses of the steps alone, as every handler does that runs to its end.
\<close>

theorem completed_provisioning_settled:
  assumes "\<And>key c c'. overrun key c = Some c' \<Longrightarrow> statuses (job c') = statuses (job c)"
    and "\<forall>key c. cancelled_first env key c = None"
    and "job_status (job (execute (stage_pipeline env overrun) c)) = J_COMPLETED"
    and "stg \<in> set ORDERED_STAGES"
  shows "settled (sd_key stg) (job (execute (stage_pipeline env overrun) c))
     \<and> (\<exists>handler. map_of (STAGE_HANDLERS env) (sd_key stg) = Some handler
          \<and> (\<not> settled (sd_key stg) (job c) \<longrightarrow>
               (\<exists>c1 out c2. entered (stage_pipeline env overrun) ORDERED_STAGES (sd_key stg) c = Some c1
                  \<and> handler (started_context (stage_pipeline env overrun) stg c1) = Some (Inr out, c2)
                  \<and> status_of (sd_key stg) (job (execute (stage_pipeline env overrun) c))
                      = Some (step_status_of_outcome (outcome_status out)))))"
proof -
  let ?env = "stage_pipeline env overrun"
  have k: "keeps_statuses ?env" by (rule stage_pipeline_keeps_statuses) (use assms(1,2) in auto)
  have nc: "\<forall>key c. cancelled_first ?env key c = None" using assms(2) by (simp add: stage_pipeline_def)
  obtain handler where handler: "map_of (STAGE_HANDLERS env) (sd_key stg) = Some handler"
    using handlers_registered [OF assms(4), of env] by auto
  have "\<exists>c1 out c2. entered ?env ORDERED_STAGES (sd_key stg) c = Some c1 \<and> handler (started_context ?env stg c1) = Some (Inr out, c2)
      \<and> status_of (sd_key stg) (job (execute ?env c)) = Some (step_status_of_outcome (outcome_status out))"
    if "\<not> settled (sd_key stg) (job c)"
  proof -
    from that obtain s where "status_of (sd_key stg) (job c) = Some s" "\<not> stage_done s"
      by (auto simp: settled_iff split: option.splits)
    from completed_stage_ran [OF k nc distinct_stage_keys _ assms(4) this] assms(3) obtain c1 out
      where "entered ?env ORDERED_STAGES (sd_key stg) c = Some c1" "stage_returned ?env stg c1 out"
        "status_of (sd_key stg) (job (execute ?env c)) = Some (step_status_of_outcome (outcome_status out))"
      unfolding execute_def by blast
    moreover from this(2) handler obtain c2 where "handler (started_context ?env stg c1) = Some (Inr out, c2)"
      by (auto simp: stage_returned_def stage_pipeline_def dest: timed_handler_returned)
    ultimately show ?thesis by blast
  qed
  with handler completed_means_all_stages_settled [OF k nc assms(3,4)] show ?thesis by blast
qed

lemma sample_final_run:
  defines "env \<equiv> sample_stage_env core_request identity_output None (Some ready_info)"
  assumes "step_of ''initialize_data_disks'' (job c) = None" "step_of ''configure_guest_network'' (job c) = None"
    "step_of ''validate_certificates'' (job c) = None" "step_of ''validate_applications'' (job c) = None"
  shows "\<exists>out c'. stage_final_validation env c = Some (Inr out, c')"
proof -
  have "stage_final_validation env c \<noteq> None" and "is_ok (fst (the (stage_final_validation env c)))"
    unfolding env_def
    by (simp_all add: assms stage_final_validation_def final_checklist_def windows_items_def network_items_def identity_items_def artifact_items_def
      step_artifacts_def probe_windows_identity_def run_simps sample_credentials sample_script_runs succeeded_def identity_output_reads
      json_iter_def vm_items_def ck_def ready_info_def core_matches utcnow_def is_ok_def if_distribR)
  then show ?thesis by (auto simp: is_ok_def split: sum.splits)
qed

theorem completed_provisioning_settled_witness:
  "let env = sample_stage_env core_request identity_output None (Some ready_info);
       c = sample_context (sample_job [(''final_validation'', S_PENDING)]) 0
   in settled ''final_validation'' (job (execute (stage_pipeline env (\<lambda>_ _. None)) c))
     \<and> (\<exists>c1 out c2. entered (stage_pipeline env (\<lambda>_ _. None)) ORDERED_STAGES ''final_validation'' c = Some c1
          \<and> stage_final_validation env (started_context (stage_pipeline env (\<lambda>_ _. None))
              (stage ''final_validation'' ''Final validation'') c1) = Some (Inr out, c2))"
proof -
  let ?env = "sample_stage_env core_request identity_output None (Some ready_info)"
  let ?c = "sample_context (sample_job [(''final_validation'', S_PENDING)]) (0 :: rat)"
  let ?p = "stage_pipeline ?env (\<lambda>_ _. None)"
  let ?stg = "stage ''final_validation'' ''Final validation''"
  let ?c2 = "run_stage ?p ?stg (map_job (\<lambda>j. j\<lparr>cancel_requested := False\<rparr>) ?c)"
  have k: "sd_key ?stg = ''final_validation''" by (simp add: stage_def)
  have "status_of (sd_key ?stg) (job ?c2) \<noteq> Some S_FAILED"
  proof -
    let ?s = "started_context ?p ?stg (map_job (\<lambda>j. j\<lparr>cancel_requested := False\<rparr>) ?c)"
    have "step_of key (job ?s) = None" if "key \<noteq> ''final_validation''" for key
      using that by (simp add: started_context_def publish_def publish_stage_def utcnow_def start_stage_def Let_def step_of_def sample_context_def sample_job_def new_job_row_def new_step_row_def update_step_def k)
    then obtain out c' where run: "stage_final_validation ?env ?s = Some (Inr out, c')" using sample_final_run by fastforce
    then have "run_handler ?p (sd_key ?stg) t ?s = (Inr (Returned out), c')" for t
      by (simp add: run_handler_def stage_pipeline_def STAGE_HANDLERS_def k timed_handler_def)
    moreover have "statuses (job c') = statuses (job ?s)" using keepsD [OF keeps_final run] by simp
    ultimately show ?thesis
      using outcome_done [of "outcome_status out"]
      by (auto simp: run_stage_unfold Let_def failure_of_def finish_stage_status_of status_of_update_const stage_done_def split: option.splits)
  qed
  then have "execute ?p ?c = finalize_success ?p ?c2"
    using execute_last [OF settled_sample_absent, of ?p S_PENDING 0]
    by (simp add: k status_of_sample_job stage_done_def stage_pipeline_def sample_stage_env_def)
  then have fin: "job_status (job (execute ?p ?c)) = J_COMPLETED" by (simp add: finalize_success_job)
  have "?stg \<in> set ORDERED_STAGES" by (simp add: ORDERED_STAGES_def)
  from completed_provisioning_settled [OF _ _ fin this] show ?thesis
    by (auto simp add: Let_def k STAGE_HANDLERS_def settled_iff status_of_sample_job stage_done_def)
qed

end
